(* ===== verification/Gpgme_Prelude.thy ===== *)
theory Gpgme_Prelude
  imports
    Main
    "HOL-Library.Word"
    "HOL-Library.Char_ord"
    "HOL-Library.List_Lexorder"
    "HOL-Library.Sublist"
begin

text \<open>
  Shared vocabulary of the GPGME development: error values of the library, the C view of
  characters, strings and machine integers, the parts of the C standard library the sources
  call (\<open>strtol\<close>, \<open>strtoul\<close>, \<open>atoi\<close>, \<open>strchr\<close>), and the list lemmas the components share.
\<close>

section \<open>Collections of facts\<close>

named_theorems scan_simps \<open>rewriting of the string scanning helpers\<close>
named_theorems gpgme_inv \<open>invariant preservation, one fact per operation\<close>

section \<open>Error values\<close>

text \<open>
  The error codes of libgpg-error the library itself produces or compares with. The numbers
  behind the names belong to libgpg-error, so a code is a constructor. \<open>GPG_ERR_SYS n\<close> is the
  code of the system error \<open>n\<close>, \<open>GPG_ERR_OTHER n\<close> any code the library does not name.
\<close>

datatype errno = EINVAL | ENOSYS | EINTR | EAGAIN | EPIPE | ENOMEM | ERANGE | EBADF | EIO | ENXIO

datatype (plugins only: code size) gpg_err_code =
    GPG_ERR_NO_ERROR | GPG_ERR_GENERAL | GPG_ERR_INV_VALUE | GPG_ERR_INV_ENGINE
  | GPG_ERR_NOT_IMPLEMENTED | GPG_ERR_INV_ARG | GPG_ERR_NO_DATA | GPG_ERR_NOT_SUPPORTED
  | GPG_ERR_NO_PUBKEY | GPG_ERR_EOF | GPG_ERR_KEY_EXPIRED | GPG_ERR_INV_FLAG
  | GPG_ERR_CANCELED | GPG_ERR_BAD_SIGNATURE | GPG_ERR_SIG_EXPIRED | GPG_ERR_INV_PACKET
  | GPG_ERR_INTERNAL | GPG_ERR_UNSUPPORTED_PROTOCOL | GPG_ERR_UNKNOWN_NAME
  | GPG_ERR_NOT_FOUND | GPG_ERR_CERT_REVOKED | GPG_ERR_BAD_DATA | GPG_ERR_AMBIGUOUS_NAME
  | GPG_ERR_WRONG_KEY_USAGE | GPG_ERR_TRUNCATED | GPG_ERR_NO_SECKEY | GPG_ERR_INV_USER_ID
  | GPG_ERR_FALSE | GPG_ERR_SUBKEYS_EXP_OR_REV | GPG_ERR_NO_ENGINE
  | GPG_ERR_MISSING_ISSUER_CERT | GPG_ERR_FULLY_CANCELED | GPG_ERR_DUP_VALUE
  | GPG_ERR_DECRYPT_FAILED | GPG_ERR_CRL_TOO_OLD | GPG_ERR_CONFLICT | GPG_ERR_BAD_PASSPHRASE
  | GPG_ERR_UNUSABLE_SECKEY | GPG_ERR_UNUSABLE_PUBKEY | GPG_ERR_UNSUPPORTED_ALGORITHM
  | GPG_ERR_UNEXPECTED | GPG_ERR_TOO_LARGE | GPG_ERR_PUBKEY_NOT_TRUSTED
  | GPG_ERR_NO_POLICY_MATCH | GPG_ERR_NO_CRL_KNOWN | GPG_ERR_NOT_OPERATIONAL
  | GPG_ERR_MISSING_KEY | GPG_ERR_MISSING_CERT | GPG_ERR_KEY_DISABLED | GPG_ERR_INV_CERT_OBJ
  | GPG_ERR_ENGINE_TOO_OLD | GPG_ERR_CERT_EXPIRED | GPG_ERR_BAD_CERT_CHAIN | GPG_ERR_BAD_CERT
  | GPG_ERR_UNKNOWN_OPTION
  | GPG_ERR_SYS errno | GPG_ERR_OTHER nat

text \<open>
  A \<open>gpgme_error_t\<close> pairs the component that reports the error with the code. The C value 0
  (no source, no error) is success; every other value is an error.
\<close>

datatype err_source = SOURCE_UNKNOWN | SOURCE_GPGME | SOURCE_NUM nat

datatype gpgme_error_t = GpgError (err_source: err_source) (gpg_err_code: gpg_err_code)

definition no_error :: gpgme_error_t where
  "no_error = GpgError SOURCE_UNKNOWN GPG_ERR_NO_ERROR"

definition gpg_error :: "gpg_err_code \<Rightarrow> gpgme_error_t" where
  "gpg_error c = GpgError SOURCE_GPGME c"

abbreviation syserror :: "errno \<Rightarrow> gpgme_error_t" where
  "syserror n \<equiv> gpg_error (GPG_ERR_SYS n)"

abbreviation is_err :: "gpgme_error_t \<Rightarrow> bool" where
  "is_err e \<equiv> e \<noteq> no_error"

lemma gpg_err_code_gpg_error [simp]: "gpg_err_code (gpg_error c) = c"
  by (simp add: gpg_error_def)

lemma gpg_err_code_no_error [simp]: "gpg_err_code no_error = GPG_ERR_NO_ERROR"
  by (simp add: no_error_def)

lemma gpg_error_is_err [simp]: "gpg_error c \<noteq> no_error" "no_error \<noteq> gpg_error c"
  by (simp_all add: gpg_error_def no_error_def)

lemma gpg_error_eq_iff [simp]: "gpg_error c = gpg_error d \<longleftrightarrow> c = d"
  by (simp add: gpg_error_def)

text \<open>
  Error numbers that an engine writes on a status line are decoded by a parameter \<open>dec\<close>: the
  assignment of numbers to codes is libgpg-error's. The sources rely on 0, and 0 alone,
  standing for success.
\<close>

definition err_decoder :: "(int \<Rightarrow> gpgme_error_t) \<Rightarrow> bool" where
  "err_decoder dec \<longleftrightarrow> (\<forall>n. dec n = no_error \<longleftrightarrow> n = 0)"

lemma err_decoder_zero: "err_decoder dec \<Longrightarrow> dec n = no_error \<longleftrightarrow> n = 0"
  by (simp add: err_decoder_def)

text \<open>
  The outcome of a C function that can fail: an error code, a result, or \<open>UB\<close> when the code
  reads outside an object or an indeterminate value.
\<close>

datatype 'a cres = UB | Err gpgme_error_t | Ok 'a

section \<open>Machine integers\<close>

abbreviation ULONG_MAX :: int where "ULONG_MAX \<equiv> 18446744073709551615"
abbreviation LONG_MAX :: int where "LONG_MAX \<equiv> 9223372036854775807"
abbreviation LONG_MIN :: int where "LONG_MIN \<equiv> - 9223372036854775808"

text \<open>Conversion of a mathematical integer to \<open>int\<close>, \<open>unsigned int\<close> and \<open>unsigned long\<close>.\<close>

definition to_int32 :: "int \<Rightarrow> int" where
  "to_int32 x = (x + 2147483648) mod 4294967296 - 2147483648"

definition to_uint32 :: "int \<Rightarrow> int" where
  "to_uint32 x = x mod 4294967296"

definition to_ulong :: "int \<Rightarrow> int" where
  "to_ulong x = x mod 18446744073709551616"

definition to_long :: "int \<Rightarrow> int" where
  "to_long x = (x + 9223372036854775808) mod 18446744073709551616 - 9223372036854775808"

lemma to_int32_id: "- 2147483648 \<le> x \<Longrightarrow> x < 2147483648 \<Longrightarrow> to_int32 x = x"
  by (simp add: to_int32_def)

lemma to_int32_bounds: "- 2147483648 \<le> to_int32 x" "to_int32 x < 2147483648"
  by (simp_all add: to_int32_def)

lemma to_uint32_id: "0 \<le> x \<Longrightarrow> x < 4294967296 \<Longrightarrow> to_uint32 x = x"
  by (simp add: to_uint32_def)

lemma to_uint32_bounds: "0 \<le> to_uint32 x" "to_uint32 x < 4294967296"
  by (simp_all add: to_uint32_def)

lemma to_ulong_id: "0 \<le> x \<Longrightarrow> x \<le> ULONG_MAX \<Longrightarrow> to_ulong x = x"
  by (simp add: to_ulong_def)

lemma to_ulong_bounds: "0 \<le> to_ulong x" "to_ulong x \<le> ULONG_MAX"
  by (simp_all add: to_ulong_def)

section \<open>Characters and strings\<close>

text \<open>
  A C string is the list of its characters before the terminating NUL; a pointer into the
  string is the suffix it points to. \<open>peek\<close> is \<open>*p\<close>: the terminator at the end.
\<close>

type_synonym cstring = string

abbreviation NUL :: char where "NUL \<equiv> CHR 0x00"

definition cstring_ok :: "string \<Rightarrow> bool" where
  "cstring_ok s \<longleftrightarrow> NUL \<notin> set s"

definition peek :: "string \<Rightarrow> char" where
  "peek s = (case s of [] \<Rightarrow> NUL | c # _ \<Rightarrow> c)"

text \<open>\<open>cchr s i\<close> is \<open>s[i]\<close> for an index up to the terminator.\<close>

definition cchr :: "string \<Rightarrow> nat \<Rightarrow> char" where
  "cchr s i = (if i < length s then s ! i else NUL)"

text \<open>A character as \<open>unsigned char\<close> and as the signed \<open>char\<close> of the supported platforms.\<close>

definition uchar :: "char \<Rightarrow> nat" where
  "uchar c = of_char c"

definition schar :: "char \<Rightarrow> int" where
  "schar c = (if uchar c < 128 then int (uchar c) else int (uchar c) - 256)"

definition isspace :: "char \<Rightarrow> bool" where
  "isspace c \<longleftrightarrow> uchar c = 32 \<or> (9 \<le> uchar c \<and> uchar c \<le> 13)"

definition isdigit :: "char \<Rightarrow> bool" where
  "isdigit c \<longleftrightarrow> 48 \<le> uchar c \<and> uchar c \<le> 57"

definition skip_spaces :: "string \<Rightarrow> string" where
  "skip_spaces s = dropWhile (\<lambda>c. c = CHR '' '') s"

text \<open>
  \<open>strchr_split c s\<close> is the effect of \<open>p = strchr (s, c)\<close>: the text before the first \<open>c\<close>
  and, when there is one, the text after it.
\<close>

definition strchr_split :: "char \<Rightarrow> string \<Rightarrow> string \<times> string option" where
  "strchr_split c s =
     (takeWhile (\<lambda>x. x \<noteq> c) s,
      case dropWhile (\<lambda>x. x \<noteq> c) s of [] \<Rightarrow> None | _ # t \<Rightarrow> Some t)"

definition strncmp_eq :: "string \<Rightarrow> string \<Rightarrow> bool" where
  "strncmp_eq s lit \<longleftrightarrow> prefix lit s"

lemma peek_simps [simp]: "peek [] = NUL" "peek (c # s) = c"
  by (simp_all add: peek_def)

lemma uchar_less [simp]: "uchar c < 256"
  by (simp add: uchar_def)

lemma uchar_eq_iff [simp]: "uchar c = uchar d \<longleftrightarrow> c = d"
  by (simp add: uchar_def)

lemma uchar_eq_0 [simp]: "uchar c = 0 \<longleftrightarrow> c = NUL"
proof -
  have "uchar NUL = 0" by (simp add: uchar_def)
  then show ?thesis using uchar_eq_iff [of c NUL] by simp
qed

lemma cstring_ok_simps [simp]:
  "cstring_ok []" "cstring_ok (c # s) \<longleftrightarrow> c \<noteq> NUL \<and> cstring_ok s"
  "cstring_ok (s @ t) \<longleftrightarrow> cstring_ok s \<and> cstring_ok t"
  by (auto simp: cstring_ok_def)

lemma length_skip_spaces: "length (skip_spaces s) \<le> length s"
  by (simp add: skip_spaces_def length_dropWhile_le)

lemma skip_spaces_simps [simp]:
  "skip_spaces [] = []"
  "skip_spaces (c # s) = (if c = CHR '' '' then skip_spaces s else c # s)"
  by (simp_all add: skip_spaces_def)

lemma skip_spaces_idem [simp]: "skip_spaces (skip_spaces s) = skip_spaces s"
  by (induction s) auto

lemma peek_skip_spaces: "peek (skip_spaces s) \<noteq> CHR '' ''"
  by (induction s) auto

lemma strchr_split_None: "strchr_split c s = (a, None) \<longleftrightarrow> a = s \<and> c \<notin> set s"
proof (cases "c \<in> set s")
  case True
  then have "dropWhile (\<lambda>x. x \<noteq> c) s \<noteq> []" by (auto simp: dropWhile_eq_Nil_conv)
  then show ?thesis using True by (auto simp: strchr_split_def split: list.splits)
next
  case False
  then have "dropWhile (\<lambda>x. x \<noteq> c) s = []" "takeWhile (\<lambda>x. x \<noteq> c) s = s"
    by (auto simp: dropWhile_eq_Nil_conv takeWhile_eq_all_conv)
  then have "strchr_split c s = (s, None)" by (simp only: strchr_split_def list.case)
  then show ?thesis using False by auto
qed

lemma strchr_split_Some:
  "strchr_split c s = (a, Some b) \<longleftrightarrow> s = a @ c # b \<and> c \<notin> set a"
proof
  assume h: "strchr_split c s = (a, Some b)"
  then obtain d where a: "a = takeWhile (\<lambda>x. x \<noteq> c) s" and d: "dropWhile (\<lambda>x. x \<noteq> c) s = d # b"
    by (auto simp: strchr_split_def split: list.splits)
  have "d = c" using d hd_dropWhile [of "\<lambda>x. x \<noteq> c" s] by auto
  then have "s = a @ c # b" using a d takeWhile_dropWhile_id [of "\<lambda>x. x \<noteq> c" s] by metis
  moreover have "c \<notin> set a" using a by (auto dest: set_takeWhileD)
  ultimately show "s = a @ c # b \<and> c \<notin> set a" by simp
next
  assume h: "s = a @ c # b \<and> c \<notin> set a"
  then have "\<And>x. x \<in> set a \<Longrightarrow> x \<noteq> c" by auto
  then have "dropWhile (\<lambda>x. x \<noteq> c) s = c # b" "takeWhile (\<lambda>x. x \<noteq> c) s = a"
    using h by (simp_all add: dropWhile_append2 takeWhile_append2)
  then show "strchr_split c s = (a, Some b)" by (simp add: strchr_split_def)
qed

lemma strchr_split_shorter: "strchr_split c s = (a, Some b) \<Longrightarrow> length b < length s"
  by (simp add: strchr_split_Some)

section \<open>Numbers in text: strtoul, strtol and atoi\<close>

definition digit_val :: "char \<Rightarrow> int option" where
  "digit_val c =
     (let n = int (uchar c) in
      if 48 \<le> n \<and> n \<le> 57 then Some (n - 48)
      else if 97 \<le> n \<and> n \<le> 122 then Some (n - 87)
      else if 65 \<le> n \<and> n \<le> 90 then Some (n - 55)
      else None)"

definition digit_ok :: "int \<Rightarrow> char \<Rightarrow> bool" where
  "digit_ok base c = (case digit_val c of None \<Rightarrow> False | Some d \<Rightarrow> d < base)"

definition digits_value :: "int \<Rightarrow> string \<Rightarrow> int" where
  "digits_value base ds = fold (\<lambda>c v. v * base + the (digit_val c)) ds 0"

text \<open>The optional \<open>0x\<close> and \<open>0\<close> prefixes select the base when the caller passes base 0.\<close>

definition strto_base :: "int \<Rightarrow> string \<Rightarrow> int \<times> string" where
  "strto_base base s =
     (if (base = 0 \<or> base = 16) \<and> cchr s 0 = CHR ''0''
         \<and> (cchr s 1 = CHR ''x'' \<or> cchr s 1 = CHR ''X'') \<and> digit_ok 16 (cchr s 2)
      then (16, drop 2 s)
      else if base = 0 then (if cchr s 0 = CHR ''0'' then 8 else 10, s)
      else (base, s))"

text \<open>Sign, magnitude and remaining text of a number; \<open>None\<close> when there is no digit.\<close>

definition strto_scan :: "int \<Rightarrow> string \<Rightarrow> (bool \<times> int \<times> string) option" where
  "strto_scan base s =
     (let s1 = dropWhile isspace s;
          neg = (peek s1 = CHR ''-'');
          s2 = (if peek s1 = CHR ''-'' \<or> peek s1 = CHR ''+'' then tl s1 else s1);
          (b, s3) = strto_base base s2;
          ds = takeWhile (digit_ok b) s3
      in if ds = [] then None else Some (neg, digits_value b ds, dropWhile (digit_ok b) s3))"

text \<open>The results are the value, the text at \<open>endp\<close>, and whether \<open>errno\<close> was set.\<close>

definition strtoul :: "int \<Rightarrow> string \<Rightarrow> int \<times> string \<times> bool" where
  "strtoul base s = (case strto_scan base s of
       None \<Rightarrow> (0, s, False)
     | Some (neg, v, rest) \<Rightarrow>
         if v > ULONG_MAX then (ULONG_MAX, rest, True)
         else (if neg then to_ulong (- v) else v, rest, False))"

definition strtol :: "int \<Rightarrow> string \<Rightarrow> int \<times> string \<times> bool" where
  "strtol base s = (case strto_scan base s of
       None \<Rightarrow> (0, s, False)
     | Some (neg, v, rest) \<Rightarrow>
         if neg then (if - v < LONG_MIN then (LONG_MIN, rest, True) else (- v, rest, False))
         else (if v > LONG_MAX then (LONG_MAX, rest, True) else (v, rest, False)))"

definition atoi :: "string \<Rightarrow> int" where
  "atoi s = to_int32 (fst (strtol 10 s))"

lemma length_dropWhile_less: "takeWhile P s \<noteq> [] \<Longrightarrow> length (dropWhile P s) < length s"
  by (cases s) (auto simp: le_imp_less_Suc length_dropWhile_le split: if_splits)

lemma strto_scan_consumes:
  assumes "strto_scan base s = Some (neg, v, rest)"
  shows "length rest < length s"
proof -
  define s1 where "s1 = dropWhile isspace s"
  define s2 where "s2 = (if peek s1 = CHR ''-'' \<or> peek s1 = CHR ''+'' then tl s1 else s1)"
  obtain b s3 where b: "strto_base base s2 = (b, s3)" by fastforce
  from assms have ds: "takeWhile (digit_ok b) s3 \<noteq> []" and r: "rest = dropWhile (digit_ok b) s3"
    by (auto simp: strto_scan_def Let_def s1_def [symmetric] s2_def [symmetric] b split: if_splits)
  have "length rest < length s3" using ds r by (simp add: length_dropWhile_less)
  also have "length s3 \<le> length s2" using b by (auto simp: strto_base_def split: if_splits)
  also have "length s2 \<le> length s1" by (simp add: s2_def)
  also have "length s1 \<le> length s" by (simp add: s1_def length_dropWhile_le)
  finally show ?thesis .
qed

lemma strtoul_length: "strtoul base s = (v, rest, e) \<Longrightarrow> length rest \<le> length s"
  by (auto simp: strtoul_def less_imp_le strto_scan_consumes split: option.splits if_splits)

lemma strtoul_progress:
  "strtoul base s = (v, rest, e) \<Longrightarrow> rest \<noteq> s \<Longrightarrow> length rest < length s"
  by (auto simp: strtoul_def strto_scan_consumes split: option.splits if_splits)

lemma strtol_progress:
  "strtol base s = (v, rest, e) \<Longrightarrow> rest \<noteq> s \<Longrightarrow> length rest < length s"
  by (auto simp: strtol_def strto_scan_consumes split: option.splits if_splits)

lemma digit_val_nonneg: "digit_val c = Some d \<Longrightarrow> 0 \<le> d"
  by (auto simp: digit_val_def Let_def split: if_splits)

lemma digits_value_nonneg:
  assumes "0 \<le> base" and "\<forall>c\<in>set ds. digit_ok base c"
  shows "0 \<le> digits_value base ds"
proof -
  have "0 \<le> v \<Longrightarrow> 0 \<le> fold (\<lambda>c v. v * base + the (digit_val c)) ds v" for v
    using assms(2)
  proof (induction ds arbitrary: v)
    case (Cons c ds)
    then obtain d where "digit_val c = Some d" "0 \<le> d"
      by (auto simp: digit_ok_def digit_val_nonneg split: option.splits)
    with Cons assms(1) show ?case by simp
  qed simp
  then show ?thesis by (simp add: digits_value_def)
qed

lemma strto_scan_nonneg:
  assumes "strto_scan base s = Some (neg, v, rest)" "0 \<le> base"
  shows "0 \<le> v"
proof -
  have "0 \<le> digits_value b (takeWhile (digit_ok b) t)" if "0 \<le> b" for b t
    using that by (rule digits_value_nonneg) (auto dest: set_takeWhileD)
  with assms show ?thesis
    by (auto simp: strto_scan_def strto_base_def Let_def split: if_splits)
qed

lemma strtoul_bounds:
  assumes "strtoul base s = (v, rest, e)" "0 \<le> base"
  shows "0 \<le> v \<and> v \<le> ULONG_MAX"
  using assms
  by (auto simp: strtoul_def to_ulong_bounds split: option.splits if_splits
      dest: strto_scan_nonneg)

lemma atoi_bounds: "- 2147483648 \<le> atoi s \<and> atoi s < 2147483648"
  by (simp add: atoi_def to_int32_bounds)

section \<open>Decimal notation\<close>

text \<open>The decimal notation an engine writes, used to state what the number parsers accept.\<close>

fun show_nat :: "nat \<Rightarrow> string" where
  "show_nat n = (if n < 10 then [char_of (48 + n)]
                 else show_nat (n div 10) @ [char_of (48 + n mod 10)])"

declare show_nat.simps [simp del]

lemma uchar_char_of_digit [simp]: "n < 10 \<Longrightarrow> uchar (char_of (48 + n)) = 48 + n"
  by (simp add: uchar_def)

lemma digit_val_digit: "n < 10 \<Longrightarrow> digit_val (char_of (48 + n)) = Some (int n)"
  by (simp add: digit_val_def)

lemma digit_ok_digit: "(n :: nat) < 10 \<Longrightarrow> digit_ok 10 (char_of (48 + n))"
  by (simp add: digit_ok_def digit_val_digit)

lemma show_nat_digits: "\<forall>c\<in>set (show_nat n). digit_ok 10 c"
proof (induction n rule: show_nat.induct)
  case (1 n)
  show ?case
  proof (cases "n < 10")
    case True
    then show ?thesis by (simp add: show_nat.simps [of n] digit_ok_digit)
  next
    case False
    with 1 show ?thesis by (auto simp: show_nat.simps [of n] digit_ok_digit)
  qed
qed

lemma digits_value_append1:
  "digits_value base (ds @ [c]) = digits_value base ds * base + the (digit_val c)"
  by (simp add: digits_value_def)

lemma digits_value_show_nat: "digits_value 10 (show_nat n) = int n"
proof (induction n rule: show_nat.induct)
  case (1 n)
  show ?case
  proof (cases "n < 10")
    case True
    then show ?thesis by (simp add: show_nat.simps [of n] digits_value_def digit_val_digit)
  next
    case False
    have "int (n div 10) * 10 + int (n mod 10) = int n"
      by (metis div_mult_mod_eq of_nat_add of_nat_mult of_nat_numeral)
    with 1 False show ?thesis
      by (simp add: show_nat.simps [of n] digits_value_append1 digit_val_digit)
  qed
qed

lemma show_nat_neq_Nil [simp]: "show_nat n \<noteq> []"
  by (subst show_nat.simps) simp

lemma digit_ok_10: "digit_ok 10 c \<longleftrightarrow> isdigit c"
  by (auto simp: digit_ok_def digit_val_def isdigit_def Let_def split: option.splits if_splits)

lemma isdigit_not_space: "isdigit c \<Longrightarrow> \<not> isspace c"
  by (auto simp: isdigit_def isspace_def)

lemma isdigit_not_sign: "isdigit c \<Longrightarrow> c \<noteq> CHR ''-'' \<and> c \<noteq> CHR ''+''"
  by (auto simp: isdigit_def uchar_def)

lemma strto_scan_show_nat:
  assumes "rest = [] \<or> \<not> isdigit (peek rest)"
  shows "strto_scan 10 (show_nat n @ rest) = Some (False, int n, rest)"
proof -
  obtain c ds where s: "show_nat n = c # ds" by (cases "show_nat n") auto
  have dig: "\<forall>c\<in>set (show_nat n). digit_ok 10 c" by (rule show_nat_digits)
  with s have c: "isdigit c" by (simp add: digit_ok_10)
  have tw: "takeWhile (digit_ok 10) rest = []" and dw: "dropWhile (digit_ok 10) rest = rest"
    using assms by (cases rest; simp add: digit_ok_10)+
  have "takeWhile (digit_ok 10) (show_nat n @ rest) = show_nat n"
       "dropWhile (digit_ok 10) (show_nat n @ rest) = rest"
    using dig tw dw by (simp_all add: takeWhile_append2 dropWhile_append2)
  moreover have "dropWhile isspace (show_nat n @ rest) = show_nat n @ rest"
    using s c isdigit_not_space by simp
  moreover have "peek (show_nat n @ rest) = c" by (simp add: s)
  ultimately show ?thesis
    using isdigit_not_sign [OF c]
    by (simp add: strto_scan_def strto_base_def digits_value_show_nat)
qed

lemma strtoul_show_nat:
  "int n \<le> ULONG_MAX \<Longrightarrow> rest = [] \<or> \<not> isdigit (peek rest) \<Longrightarrow>
   strtoul 10 (show_nat n @ rest) = (int n, rest, False)"
  by (simp add: strtoul_def strto_scan_show_nat)

lemma atoi_show_nat: "n < 2147483648 \<Longrightarrow> atoi (show_nat n) = int n"
  using strto_scan_show_nat [of "[]" n] by (simp add: atoi_def strtol_def to_int32_id)

section \<open>Machines fed in chunks\<close>

text \<open>
  The interface of a machine that consumes its input item by item, may stop, and emits output:
  what a decoder or a line reader promises to callers that hand it buffers of any size.
\<close>

locale chunked =
  fixes step :: "'s \<Rightarrow> 'c \<Rightarrow> 's \<times> 'o list"
    and halted :: "'s \<Rightarrow> bool"
    and run :: "'s \<Rightarrow> 'c list \<Rightarrow> 's \<times> 'o list"
  assumes run_Nil: "run s [] = (s, [])"
    and run_halted: "halted s \<Longrightarrow> run s cs = (s, [])"
    and run_Cons: "\<not> halted s \<Longrightarrow> run s (c # cs) =
          (let (s1, o1) = step s c; (s2, o2) = run s1 cs in (s2, o1 @ o2))"
begin

lemma run_append:
  "run s (xs @ ys) = (let (s1, o1) = run s xs; (s2, o2) = run s1 ys in (s2, o1 @ o2))"
proof (induction xs arbitrary: s)
  case (Cons x xs)
  show ?case
    using Cons.IH
    by (cases "halted s") (simp_all add: run_halted run_Cons Let_def split_beta)
qed (simp add: run_Nil Let_def split_beta)

lemma run_seq:
  "run s xs = (s1, o1) \<Longrightarrow> run s1 ys = (s2, o2) \<Longrightarrow> run s (xs @ ys) = (s2, o1 @ o2)"
  by (simp add: run_append)

lemma run_length:
  assumes "\<And>s c. length (snd (step s c)) \<le> k"
  shows "length (snd (run s xs)) \<le> k * length xs"
proof (induction xs arbitrary: s)
  case (Cons x xs)
  have "length (snd (step s x)) + length (snd (run (fst (step s x)) xs)) \<le> k + k * length xs"
    using assms [of s x] Cons.IH [of "fst (step s x)"] by (rule add_mono)
  then show ?case
    by (cases "halted s") (simp_all add: run_halted run_Cons Let_def split_beta)
qed (simp add: run_Nil)

text \<open>Input that leaves the state alone and emits nothing is skipped.\<close>

lemma run_stutter:
  assumes "\<And>c. c \<in> set xs \<Longrightarrow> step s c = (s, [])"
  shows "run s xs = (s, [])"
  using assms
proof (induction xs)
  case (Cons x xs)
  then show ?case by (cases "halted s") (simp_all add: run_halted run_Cons)
qed (simp add: run_Nil)

lemma run_invariant:
  assumes "\<And>s c. I s \<Longrightarrow> I (fst (step s c))"
  shows "I s \<Longrightarrow> I (fst (run s xs))"
proof (induction xs arbitrary: s)
  case (Cons x xs)
  show ?case
    using Cons.IH [OF assms [OF Cons.prems]] Cons.prems
    by (cases "halted s") (simp_all add: run_halted run_Cons Let_def split_beta)
qed (simp add: run_Nil)

end

end
