(* ===== verification/Gpgme_Conversion.thy ===== *)
theory Gpgme_Conversion
  imports Gpgme_Prelude
begin

text \<open>
  Model of \<open>src/conversion.c\<close>: string concatenation, hexadecimal, C and percent escapes, field
  splitting, number fields and time stamps. Every \<open>malloc\<close> the code checks is a Boolean
  argument (\<open>mem_ok\<close>), true when the allocation succeeds.
\<close>

section \<open>Concatenation\<close>

text \<open>\<open>argv\<close> has 16 slots and the last one must hold the terminating NULL.\<close>

fun strconcat_collect :: "nat \<Rightarrow> string list \<Rightarrow> string list option" where
  "strconcat_collect argc [] = Some []"
| "strconcat_collect argc (a # as) =
     (if argc \<ge> 16 - 1 then None
      else map_option (Cons a) (strconcat_collect (Suc argc) as))"

definition do_strconcat :: "bool \<Rightarrow> string \<Rightarrow> string list \<Rightarrow> string option" where
  "do_strconcat mem_ok s1 args =
     (case strconcat_collect 1 args of
        None \<Rightarrow> None
      | Some as \<Rightarrow> if mem_ok then Some (concat (s1 # as)) else None)"

definition gpgme_strconcat :: "bool \<Rightarrow> string option \<Rightarrow> string list \<Rightarrow> string option" where
  "gpgme_strconcat mem_ok s1 args =
     (case s1 of None \<Rightarrow> if mem_ok then Some [] else None
      | Some s \<Rightarrow> do_strconcat mem_ok s args)"

section \<open>Hexadecimal digits\<close>

definition hexdigit_val :: "char \<Rightarrow> int option" where
  "hexdigit_val c =
     (let n = int (uchar c) in
      if 48 \<le> n \<and> n \<le> 57 then Some (n - 48)
      else if 65 \<le> n \<and> n \<le> 70 then Some (10 + n - 65)
      else if 97 \<le> n \<and> n \<le> 102 then Some (10 + n - 97)
      else None)"

definition gpgme_hextobyte :: "string \<Rightarrow> int" where
  "gpgme_hextobyte str =
     (case hexdigit_val (peek str) of
        None \<Rightarrow> - 1
      | Some a \<Rightarrow> (case hexdigit_val (cchr str 1) of
                     None \<Rightarrow> - 1
                   | Some b \<Rightarrow> (0 + a) * 16 + b))"

section \<open>C escapes\<close>

definition decode_one :: "char \<Rightarrow> char option" where
  "decode_one c =
     (if c = CHR 0x27 then Some (CHR 0x27)
      else if c = CHR 0x22 then Some (CHR 0x22)
      else if c = CHR ''?'' then Some (CHR ''?'')
      else if c = CHR 0x5C then Some (CHR 0x5C)
      else if c = CHR ''a'' then Some (CHR 0x07)
      else if c = CHR ''b'' then Some (CHR 0x08)
      else if c = CHR ''f'' then Some (CHR 0x0C)
      else if c = CHR ''n'' then Some (CHR 0x0A)
      else if c = CHR ''r'' then Some (CHR 0x0D)
      else if c = CHR ''t'' then Some (CHR 0x09)
      else if c = CHR ''v'' then Some (CHR 0x0B)
      else None)"

text \<open>
  The conversion loop. \<open>None\<close>: the default branch copies two characters without looking for
  the terminator, so a lone backslash at the end copies the NUL and the loop goes on behind
  the string.
\<close>

function decode_c_loop :: "string \<Rightarrow> string option" where
  "decode_c_loop [] = Some []"
| "decode_c_loop (c # s) =
     (if c \<noteq> CHR 0x5C then map_option (Cons c) (decode_c_loop s)
      else case s of
        [] \<Rightarrow> None
      | d # t \<Rightarrow>
          (case decode_one d of
             Some r \<Rightarrow> map_option (Cons r) (decode_c_loop t)
           | None \<Rightarrow>
               if d = CHR ''x'' then
                 (let val = gpgme_hextobyte t in
                  if val = - 1 then
                    map_option (\<lambda>r. c # d # take 2 t @ r) (decode_c_loop (drop 2 t))
                  else
                    map_option (\<lambda>r. (if val = 0 then [CHR 0x5C, CHR ''0'']
                                     else [char_of (nat val)]) @ r) (decode_c_loop (drop 2 t)))
               else map_option (\<lambda>r. c # d # r) (decode_c_loop t)))"
  by pat_completeness auto
termination
  by (relation "measure length") auto

definition gpgme_decode_c_string :: "bool \<Rightarrow> string \<Rightarrow> nat \<Rightarrow> string cres" where
  "gpgme_decode_c_string mem_ok src len =
     (if len \<noteq> 0 \<and> len < length src + 1 then Err (gpg_error GPG_ERR_INTERNAL)
      else if len = 0 \<and> \<not> mem_ok then Err (syserror ENOMEM)
      else case decode_c_loop src of None \<Rightarrow> UB | Some d \<Rightarrow> Ok d)"

section \<open>Percent escapes\<close>

function decode_percent_loop :: "bool \<Rightarrow> string \<Rightarrow> string" where
  "decode_percent_loop binary [] = []"
| "decode_percent_loop binary (c # s) =
     (if c \<noteq> CHR ''%'' then c # decode_percent_loop binary s
      else
        (let val = gpgme_hextobyte s in
         if val = - 1 then c # take 2 s @ decode_percent_loop binary (drop 2 s)
         else (if val = 0 \<and> \<not> binary then [CHR 0x5C, CHR ''0''] else [char_of (nat val)])
              @ decode_percent_loop binary (drop 2 s)))"
  by pat_completeness auto
termination
  by (relation "measure (\<lambda>(b, s). length s)") auto

definition gpgme_decode_percent_string ::
    "bool \<Rightarrow> string \<Rightarrow> nat \<Rightarrow> bool \<Rightarrow> string cres" where
  "gpgme_decode_percent_string mem_ok src len binary =
     (if len \<noteq> 0 \<and> len < length src + 1 then Err (gpg_error GPG_ERR_INTERNAL)
      else if len = 0 \<and> \<not> mem_ok then Err (syserror ENOMEM)
      else Ok (decode_percent_loop binary src))"

definition needs_percent :: "char \<Rightarrow> bool" where
  "needs_percent c \<longleftrightarrow> c = CHR ''+'' \<or> c = CHR 0x22 \<or> c = CHR ''%'' \<or> uchar c \<le> 0x20"

definition hex_upper :: "nat \<Rightarrow> char" where
  "hex_upper n = char_of (if n < 10 then 48 + n else 55 + n)"

definition percent_escape :: "char \<Rightarrow> string" where
  "percent_escape c = [CHR ''%'', hex_upper (uchar c div 16), hex_upper (uchar c mod 16)]"

fun encode_percent_len :: "string \<Rightarrow> nat" where
  "encode_percent_len [] = 0"
| "encode_percent_len (c # s) = (if needs_percent c then 3 else 1) + encode_percent_len s"

fun encode_percent_loop :: "string \<Rightarrow> string" where
  "encode_percent_loop [] = []"
| "encode_percent_loop (c # s) =
     (if needs_percent c then percent_escape c else [c]) @ encode_percent_loop s"

definition gpgme_encode_percent_string :: "bool \<Rightarrow> string \<Rightarrow> nat \<Rightarrow> string cres" where
  "gpgme_encode_percent_string mem_ok src len =
     (let destlen = encode_percent_len src + 1 in
      if len \<noteq> 0 \<and> len < destlen then Err (gpg_error GPG_ERR_INTERNAL)
      else if len = 0 \<and> \<not> mem_ok then Err (syserror ENOMEM)
      else Ok (encode_percent_loop src))"

section \<open>Fields\<close>

text \<open>\<open>k\<close> counts the free slots of the array, \<open>arraysize - n\<close> in the code.\<close>

fun split_fields_loop :: "nat \<Rightarrow> string \<Rightarrow> string list" where
  "split_fields_loop 0 p = []"
| "split_fields_loop (Suc k) p =
     (case strchr_split (CHR '' '') p of
        (f, None) \<Rightarrow> [f]
      | (f, Some pend) \<Rightarrow>
          (let p' = skip_spaces pend
           in if p' = [] then [f] else f # split_fields_loop k p'))"

definition gpgme_split_fields :: "string \<Rightarrow> nat \<Rightarrow> string list" where
  "gpgme_split_fields string arraysize = split_fields_loop arraysize (skip_spaces string)"

definition gpgme_strtoul_field :: "string \<Rightarrow> gpgme_error_t + int" where
  "gpgme_strtoul_field string =
     (let (result, endp, e) = strtoul 0 string in
      if e then Inl (syserror ERANGE)
      else if endp = string \<or> endp \<noteq> [] then Inl (gpg_error GPG_ERR_INV_VALUE)
      else Inr result)"

text \<open>The accumulator is a signed 64-bit offset; \<open>None\<close> is its overflow.\<close>

fun string_to_off_loop :: "int \<Rightarrow> string \<Rightarrow> int option" where
  "string_to_off_loop value [] = Some value"
| "string_to_off_loop value (c # s) =
     (if isdigit c then
        (let v = value * 10 + (schar c - 48) in
         if v > LONG_MAX then None else string_to_off_loop v s)
      else Some value)"

definition gpgme_string_to_off :: "string \<Rightarrow> int option" where
  "gpgme_string_to_off string =
     string_to_off_loop 0 (dropWhile (\<lambda>c. c = CHR '' '' \<or> c = CHR 0x09) string)"

section \<open>Time stamps\<close>

definition atoi_1 :: "string \<Rightarrow> nat \<Rightarrow> int" where
  "atoi_1 p i = schar (cchr p i) - 48"

definition atoi_2 :: "string \<Rightarrow> nat \<Rightarrow> int" where
  "atoi_2 p i = atoi_1 p i * 10 + atoi_1 p (i + 1)"

definition atoi_4 :: "string \<Rightarrow> nat \<Rightarrow> int" where
  "atoi_4 p i = atoi_2 p i * 100 + atoi_2 p (i + 2)"

text \<open>\<open>timegm\<close> of the C library: the fields need not be normalised.\<close>

definition leap_year :: "int \<Rightarrow> bool" where
  "leap_year y \<longleftrightarrow> 4 dvd y \<and> (\<not> 100 dvd y \<or> 400 dvd y)"

definition leaps_upto :: "int \<Rightarrow> int" where
  "leaps_upto y = y div 4 - y div 100 + y div 400"

definition days_before_year :: "int \<Rightarrow> int" where
  "days_before_year y = 365 * (y - 1970) + leaps_upto (y - 1) - leaps_upto 1969"

definition days_before_month :: "int \<Rightarrow> int \<Rightarrow> int" where
  "days_before_month y m =
     [0, 31, 59, 90, 120, 151, 181, 212, 243, 273, 304, 334] ! nat m
     + (if 2 \<le> m \<and> leap_year y then 1 else 0)"

definition timegm :: "int \<Rightarrow> int \<Rightarrow> int \<Rightarrow> int \<Rightarrow> int \<Rightarrow> int \<Rightarrow> int" where
  "timegm tm_year tm_mon tm_mday tm_hour tm_min tm_sec =
     (let y = tm_year + 1900 + tm_mon div 12;
          m = tm_mon mod 12;
          days = days_before_year y + days_before_month y m + (tm_mday - 1)
      in days * 86400 + tm_hour * 3600 + tm_min * 60 + tm_sec)"

text \<open>
  The results are the time and what the call stores at \<open>endp\<close>; \<open>None\<close> when it returns without
  storing. \<open>time_t\<close> has 64 bits.
\<close>

definition gpgme_parse_timestamp :: "string \<Rightarrow> int \<times> string option" where
  "gpgme_parse_timestamp timestamp =
     (let ts = skip_spaces timestamp in
      if ts = [] then (0, None)
      else if length ts \<ge> 15 \<and> cchr ts 8 = CHR ''T'' then
        (let year = atoi_4 ts 0 in
         if year < 1900 then (- 1, None)
         else (timegm (year - 1900) (atoi_2 ts 4 - 1) (atoi_2 ts 6)
                      (atoi_2 ts 9) (atoi_2 ts 11) (atoi_2 ts 13), Some (drop 15 ts)))
      else (let (v, endp, e) = strtoul 10 ts in (to_long v, Some endp)))"

text \<open>
  \<open>UB\<close>: a stamp of blanks only leaves \<open>tail\<close> unset, and the code then compares and
  dereferences it.
\<close>

definition gpgme_parse_timestamp_ul :: "string \<Rightarrow> int cres" where
  "gpgme_parse_timestamp_ul timestamp =
     (if timestamp = [] then Ok 0
      else case gpgme_parse_timestamp timestamp of
        (tim, tail) \<Rightarrow>
          if tim = - 1 then Ok 0
          else (case tail of
                  None \<Rightarrow> UB
                | Some t \<Rightarrow>
                    if timestamp = t \<or> (t \<noteq> [] \<and> peek t \<noteq> CHR '' '') then Ok 0
                    else Ok (to_ulong tim)))"

section \<open>Algorithm numbers\<close>

datatype gpgme_protocol_t =
    GPGME_PROTOCOL_OpenPGP | GPGME_PROTOCOL_CMS | GPGME_PROTOCOL_GPGCONF
  | GPGME_PROTOCOL_ASSUAN | GPGME_PROTOCOL_G13 | GPGME_PROTOCOL_UISERVER
  | GPGME_PROTOCOL_SPAWN | GPGME_PROTOCOL_DEFAULT | GPGME_PROTOCOL_UNKNOWN

abbreviation GPGME_PK_ECDSA :: int where "GPGME_PK_ECDSA \<equiv> 301"
abbreviation GPGME_PK_ECDH :: int where "GPGME_PK_ECDH \<equiv> 302"
abbreviation GPGME_PK_EDDSA :: int where "GPGME_PK_EDDSA \<equiv> 303"

definition gpgme_map_pk_algo :: "int \<Rightarrow> gpgme_protocol_t \<Rightarrow> int" where
  "gpgme_map_pk_algo algo protocol =
     (if protocol = GPGME_PROTOCOL_OpenPGP then
        (if algo \<in> {1, 2, 3, 16, 17} then algo
         else if algo = 18 then GPGME_PK_ECDH
         else if algo = 19 then GPGME_PK_ECDSA
         else if algo = 20 then algo
         else if algo = 22 then GPGME_PK_EDDSA
         else 0)
      else algo)"

definition gpgme_cipher_algo_name :: "int \<Rightarrow> gpgme_protocol_t \<Rightarrow> string" where
  "gpgme_cipher_algo_name algo protocol =
     (if protocol = GPGME_PROTOCOL_OpenPGP then
        (if algo = 1 then ''IDEA''
         else if algo = 2 then ''3DES''
         else if algo = 3 then ''CAST5''
         else if algo = 4 then ''BLOWFISH''
         else if algo = 7 then ''AES''
         else if algo = 8 then ''AES192''
         else if algo = 9 then ''AES256''
         else if algo = 10 then ''TWOFISH''
         else if algo = 11 then ''CAMELLIA128''
         else if algo = 12 then ''CAMELLIA192''
         else if algo = 13 then ''CAMELLIA256''
         else ''Unknown'')
      else ''Unknown'')"

definition gpgme_cipher_mode_name :: "int \<Rightarrow> gpgme_protocol_t \<Rightarrow> string" where
  "gpgme_cipher_mode_name algo protocol =
     (if protocol = GPGME_PROTOCOL_OpenPGP then
        (if algo = 0 then ''CFB''
         else if algo = 1 then ''EAX''
         else if algo = 2 then ''OCB''
         else ''Unknown'')
      else ''Unknown'')"

section \<open>Facts about hexadecimal digits\<close>

lemma hexdigit_val_range: "hexdigit_val c = Some d \<Longrightarrow> 0 \<le> d \<and> d \<le> 15"
  by (auto simp: hexdigit_val_def Let_def split: if_splits)

lemma hexdigit_val_NUL [simp]: "hexdigit_val NUL = None"
  by (simp add: hexdigit_val_def uchar_def)

lemma hextobyte_range: "- 1 \<le> gpgme_hextobyte s \<and> gpgme_hextobyte s \<le> 255"
  by (auto simp: gpgme_hextobyte_def split: option.splits dest!: hexdigit_val_range)

text \<open>The second digit is read only behind a first one, so a hit means two characters exist.\<close>

lemma hextobyte_length: "gpgme_hextobyte s \<noteq> - 1 \<Longrightarrow> 2 \<le> length s"
  by (cases s; cases "tl s")
    (auto simp: gpgme_hextobyte_def cchr_def split: option.splits)

lemma hexdigit_val_hex_upper: "n < 16 \<Longrightarrow> hexdigit_val (hex_upper n) = Some (int n)"
  by (auto simp: hexdigit_val_def hex_upper_def uchar_def)

lemma hextobyte_percent_escape:
  "gpgme_hextobyte (tl (percent_escape c) @ s) = int (uchar c)"
proof -
  have "uchar c div 16 < 16" using uchar_less [of c] by (simp add: less_mult_imp_div_less)
  moreover have "uchar c mod 16 < 16" by simp
  moreover have "int (uchar c div 16) * 16 + int (uchar c mod 16) = int (uchar c)"
    by (metis div_mult_mod_eq of_nat_add of_nat_mult of_nat_numeral)
  ultimately show ?thesis
    by (simp add: gpgme_hextobyte_def percent_escape_def cchr_def hexdigit_val_hex_upper)
qed

section \<open>Percent escapes: sizes and round trip\<close>

lemma length_encode_percent_loop: "length (encode_percent_loop s) = encode_percent_len s"
  by (induction s) (auto simp: percent_escape_def)

lemma length_decode_percent_loop: "length (decode_percent_loop b s) \<le> length s"
proof (induction b s rule: decode_percent_loop.induct)
  case (2 binary c s)
  show ?case
  proof (cases "c = CHR ''%''")
    case False
    then show ?thesis using 2(1) by simp
  next
    case True
    have ih: "length (decode_percent_loop binary (drop 2 s)) \<le> length s - 2"
    proof (cases "gpgme_hextobyte s = - 1")
      case True
      then show ?thesis using 2(2) \<open>c = _\<close> by simp
    next
      case False
      then show ?thesis using 2(3) \<open>c = _\<close> by (simp add: Let_def)
    qed
    show ?thesis
      using ih True hextobyte_length [of s] by (auto simp: Let_def)
  qed
qed simp

lemma decode_percent_escape:
  assumes "binary \<or> c \<noteq> NUL"
  shows "decode_percent_loop binary (percent_escape c @ s) = c # decode_percent_loop binary s"
proof -
  have split: "percent_escape c @ s = CHR ''%'' # tl (percent_escape c) @ s"
    and two: "drop 2 (tl (percent_escape c) @ s) = s"
    by (simp_all add: percent_escape_def)
  have "char_of (uchar c) = c" by (simp add: uchar_def)
  then show ?thesis
    using assms unfolding split
    by (auto simp: Let_def hextobyte_percent_escape two simp del: drop_append)
qed

lemma decode_encode_percent_loop:
  "binary \<or> cstring_ok s \<Longrightarrow> decode_percent_loop binary (encode_percent_loop s) = s"
proof (induction s)
  case (Cons c s)
  then have ih: "decode_percent_loop binary (encode_percent_loop s) = s" by auto
  show ?case
  proof (cases "needs_percent c")
    case True
    then show ?thesis using Cons.prems ih decode_percent_escape [of binary c] by auto
  next
    case False
    then have "c \<noteq> CHR ''%''" by (auto simp: needs_percent_def)
    with False ih show ?thesis by simp
  qed
qed simp

lemma hex_upper_range:
  "n < 16 \<Longrightarrow> 48 \<le> uchar (hex_upper n) \<and> uchar (hex_upper n) \<le> 70"
  by (auto simp: hex_upper_def uchar_def)

lemma encode_percent_loop_chars:
  "c \<in> set (encode_percent_loop s) \<Longrightarrow>
   c \<noteq> CHR ''+'' \<and> c \<noteq> CHR 0x22 \<and> 0x20 < uchar c"
proof (induction s)
  case (Cons d s)
  have hex: "x \<noteq> CHR ''+'' \<and> x \<noteq> CHR 0x22 \<and> 0x20 < uchar x"
    if "x = hex_upper n" "n < 16" for x n
    using that hex_upper_range [of n] by (auto simp: uchar_def)
  have "uchar d div 16 < 16" using uchar_less [of d] by (simp add: less_mult_imp_div_less)
  moreover have "x \<noteq> CHR ''+'' \<and> x \<noteq> CHR 0x22 \<and> 0x20 < uchar x" if "x = CHR ''%''" for x
    using that by (simp add: uchar_def)
  ultimately show ?case
    using Cons hex by (auto simp: percent_escape_def needs_percent_def split: if_splits)
qed simp

section \<open>C escapes: sizes and safety\<close>

lemma decode_one_NUL: "decode_one d = Some r \<Longrightarrow> r \<noteq> NUL"
  by (auto simp: decode_one_def split: if_splits)

text \<open>One turn of the loop: what is written, what is left, and that both fit.\<close>

lemma decode_c_step:
  assumes "decode_c_loop (c # s) = Some d"
  shows "\<exists>out rest d'. d = out @ d' \<and> decode_c_loop rest = Some d' \<and> suffix rest s
           \<and> length out + length rest \<le> Suc (length s)
           \<and> (cstring_ok (c # s) \<longrightarrow> cstring_ok out)"
proof (cases "c = CHR 0x5C")
  case False
  with assms obtain z where "decode_c_loop s = Some z" "d = [c] @ z" by auto
  then show ?thesis by (intro exI [of _ "[c]"] exI [of _ s] exI [of _ z]) auto
next
  case c: True
  with assms obtain e t where s: "s = e # t" by (cases s) auto
  have suf: "suffix (drop 2 t) s" using s by (metis suffix_drop suffix_ConsI)
  show ?thesis
  proof (cases "decode_one e")
    case (Some r)
    with assms c s obtain z where "decode_c_loop t = Some z" "d = [r] @ z" by auto
    then show ?thesis using s decode_one_NUL [OF Some]
      by (intro exI [of _ "[r]"] exI [of _ t] exI [of _ z]) (auto intro: suffix_ConsI)
  next
    case None
    note none = None
    show ?thesis
    proof (cases "e = CHR ''x''")
      case False
      with assms c s none obtain z where "decode_c_loop t = Some z" "d = [c, e] @ z" by auto
      then show ?thesis using s
        by (intro exI [of _ "[c, e]"] exI [of _ t] exI [of _ z]) (auto intro: suffix_ConsI)
    next
      case x: True
      show ?thesis
      proof (cases "gpgme_hextobyte t = - 1")
        case True
        then obtain d' where "decode_c_loop (drop 2 t) = Some d'" "d = (c # e # take 2 t) @ d'"
          using assms c s none x by auto
        moreover have "cstring_ok t \<Longrightarrow> cstring_ok (take 2 t)"
          by (auto simp: cstring_ok_def dest: in_set_takeD)
        ultimately show ?thesis using suf s
          by (intro exI [of _ "c # e # take 2 t"] exI [of _ "drop 2 t"] exI [of _ d']) auto
      next
        case False
        define v where "v = gpgme_hextobyte t"
        define out where "out = (if v = 0 then [CHR 0x5C, CHR ''0''] else [char_of (nat v)])"
        have v: "0 \<le> v" "v \<le> 255" using False hextobyte_range [of t] by (auto simp: v_def)
        have "char_of (nat v) \<noteq> NUL" if "v \<noteq> 0"
          using that v uchar_eq_0 [of "char_of (nat v)"] by (simp add: uchar_def)
        then have "cstring_ok out" by (simp add: out_def)
        moreover obtain d' where "decode_c_loop (drop 2 t) = Some d'" "d = out @ d'"
          using assms c s none x False by (auto simp: Let_def v_def out_def)
        moreover have "length out \<le> 2" by (simp add: out_def)
        ultimately show ?thesis using suf s hextobyte_length [OF False]
          by (intro exI [of _ out] exI [of _ "drop 2 t"] exI [of _ d']) auto
      qed
    qed
  qed
qed

lemma decode_c_loop_fits: "decode_c_loop s = Some d \<Longrightarrow> length d \<le> length s"
proof (induction s arbitrary: d rule: length_induct)
  case (1 s)
  show ?case
  proof (cases s)
    case (Cons c t)
    from decode_c_step [OF 1(2) [unfolded Cons]] obtain out rest d' where
      h: "d = out @ d'" "decode_c_loop rest = Some d'" "suffix rest t"
        "length out + length rest \<le> Suc (length t)" by blast
    have "length rest < length s" using h(3) Cons suffix_length_le by fastforce
    then have "length d' \<le> length rest" using 1(1) h(2) by blast
    then show ?thesis using h Cons by simp
  qed (use 1 in simp)
qed

lemma decode_c_loop_cstring: "decode_c_loop s = Some d \<Longrightarrow> cstring_ok s \<Longrightarrow> cstring_ok d"
proof (induction s arbitrary: d rule: length_induct)
  case (1 s)
  show ?case
  proof (cases s)
    case (Cons c t)
    from decode_c_step [OF 1(2) [unfolded Cons]] obtain out rest d' where
      h: "d = out @ d'" "decode_c_loop rest = Some d'" "suffix rest t"
        "cstring_ok (c # t) \<longrightarrow> cstring_ok out" by blast
    have "length rest < length s" using h(3) Cons suffix_length_le by fastforce
    moreover have "cstring_ok rest"
      using h(3) 1(3) Cons by (auto simp: suffix_def)
    ultimately have "cstring_ok d'" using 1(1) h(2) by blast
    then show ?thesis using h Cons 1(3) by simp
  qed (use 1 in simp)
qed

text \<open>A string that does not end in a backslash is decoded without leaving it.\<close>

lemma decode_c_loop_safe:
  "s = [] \<or> last s \<noteq> CHR 0x5C \<Longrightarrow> decode_c_loop s \<noteq> None"
proof (induction s rule: decode_c_loop.induct)
  case (2 c s)
  have tails: "drop n t = [] \<or> last (drop n t) \<noteq> CHR 0x5C" if "t = [] \<or> last t \<noteq> CHR 0x5C"
    for n and t :: string using that by auto
  show ?case
  proof (cases "c = CHR 0x5C")
    case False
    with 2 show ?thesis by (auto split: if_splits)
  next
    case c: True
    with "2.prems" obtain e t where s: "s = e # t" by (cases s) auto
    with "2.prems" have t: "t = [] \<or> last t \<noteq> CHR 0x5C" by (auto split: if_splits)
    show ?thesis
    proof (cases "decode_one e")
      case (Some r)
      with 2(5) [OF _ s Some] c s t show ?thesis by simp
    next
      case None
      show ?thesis
      proof (cases "e = CHR ''x''")
        case False
        with 2(4) c s t None show ?thesis by simp
      next
        case True
        have "decode_c_loop (drop 2 t) \<noteq> None"
          using 2(2,3) [OF _ s None True refl] c tails [OF t] by blast
        then show ?thesis using c s None True by (auto simp: Let_def)
      qed
    qed
  qed
qed simp

section \<open>Field splitting against a reference\<close>

text \<open>The words of a string: its maximal runs of characters other than the space.\<close>

function words :: "string \<Rightarrow> string list" where
  "words s = (let t = skip_spaces s in
      if t = [] then []
      else takeWhile (\<lambda>c. c \<noteq> CHR '' '') t # words (dropWhile (\<lambda>c. c \<noteq> CHR '' '') t))"
  by pat_completeness auto
termination
proof (relation "measure length", goal_cases)
  case (2 s t)
  then have t': "t = skip_spaces s" "t \<noteq> []" by auto
  then obtain c u where t: "t = c # u" by (meson neq_Nil_conv)
  have c: "c \<noteq> CHR '' ''" using peek_skip_spaces [of s] by (simp add: t'(1) [symmetric] t)
  have "length (dropWhile (\<lambda>c. c \<noteq> CHR '' '') t) < length t"
    using t c by (simp add: le_imp_less_Suc length_dropWhile_le)
  also have "length t \<le> length s" using 2 length_skip_spaces by simp
  finally show ?case by simp
qed simp

declare words.simps [simp del]

lemma words_skip_spaces [simp]: "words (skip_spaces s) = words s"
  by (simp add: words.simps [of s] words.simps [of "skip_spaces s"])

lemma words_blank [simp]: "words [] = []" "words (CHR '' '' # s) = words s"
  by (simp_all add: words.simps [of "[]"] words.simps [of s] words.simps [of "CHR '' '' # s"])

lemma words_single: "f \<noteq> [] \<Longrightarrow> CHR '' '' \<notin> set f \<Longrightarrow> words f = [f]"
proof -
  assume f: "f \<noteq> []" "CHR '' '' \<notin> set f"
  then have "skip_spaces f = f" by (cases f) auto
  with f words.simps [of f] have
    w: "words f = takeWhile (\<lambda>c. c \<noteq> CHR '' '') f # words (dropWhile (\<lambda>c. c \<noteq> CHR '' '') f)"
    by simp
  have tw: "takeWhile (\<lambda>c. c \<noteq> CHR '' '') f = f" using f(2) by (auto simp: takeWhile_eq_all_conv)
  have dw: "dropWhile (\<lambda>c. c \<noteq> CHR '' '') f = []" using f(2) by (auto simp: dropWhile_eq_Nil_conv)
  show "words f = [f]" unfolding w tw dw words_blank ..
qed

lemma words_append:
  assumes "f \<noteq> []" "CHR '' '' \<notin> set f"
  shows "words (f @ CHR '' '' # t) = f # words t"
proof -
  have "skip_spaces (f @ CHR '' '' # t) = f @ CHR '' '' # t" using assms by (cases f) auto
  moreover have "takeWhile (\<lambda>c. c \<noteq> CHR '' '') (f @ CHR '' '' # t) = f"
      "dropWhile (\<lambda>c. c \<noteq> CHR '' '') (f @ CHR '' '' # t) = CHR '' '' # t"
    using assms(2) by (auto simp: takeWhile_append dropWhile_append)
  ultimately show ?thesis using words.simps [of "f @ CHR '' '' # t"] assms(1) by simp
qed

lemma split_fields_loop_words:
  "p \<noteq> [] \<Longrightarrow> peek p \<noteq> CHR '' '' \<Longrightarrow> split_fields_loop k p = take k (words p)"
proof (induction k arbitrary: p)
  case (Suc k)
  obtain f r where fr: "strchr_split (CHR '' '') p = (f, r)" by fastforce
  show ?case
  proof (cases r)
    case None
    with fr have "p = f" "CHR '' '' \<notin> set f" by (auto simp: strchr_split_None)
    then show ?thesis using Suc.prems fr None by (simp add: words_single)
  next
    case (Some t)
    with fr have p: "p = f @ CHR '' '' # t" and f: "CHR '' '' \<notin> set f"
      by (auto simp: strchr_split_Some)
    have f0: "f \<noteq> []" using p Suc.prems by auto
    have w: "words p = f # words (skip_spaces t)" by (simp add: p words_append [OF f0 f])
    show ?thesis
    proof (cases "skip_spaces t = []")
      case True
      then show ?thesis using fr Some w words_blank(1) by simp
    next
      case False
      then have "split_fields_loop k (skip_spaces t) = take k (words (skip_spaces t))"
        using Suc.IH peek_skip_spaces by blast
      then show ?thesis using fr Some False w by (simp add: Let_def)
    qed
  qed
qed simp

lemma split_fields_words:
  "gpgme_split_fields s k = take k (if words s = [] then [[]] else words s)"
proof (cases "skip_spaces s = []")
  case True
  then have "words s = []" by (metis words_blank(1) words_skip_spaces)
  moreover have "split_fields_loop k [] = take k [[]]"
    by (cases k) (simp_all add: strchr_split_def)
  ultimately show ?thesis using True by (simp add: gpgme_split_fields_def)
next
  case False
  then have "words s \<noteq> []" by (simp add: words.simps [of s] Let_def)
  then show ?thesis
    using split_fields_loop_words [OF False peek_skip_spaces]
    by (simp add: gpgme_split_fields_def)
qed

lemma words_members: "f \<in> set (words s) \<Longrightarrow> f \<noteq> [] \<and> CHR '' '' \<notin> set f"
proof (induction s rule: words.induct)
  case (1 s)
  define t where "t = skip_spaces s"
  have pk: "peek t \<noteq> CHR '' ''" by (simp add: t_def peek_skip_spaces)
  have "t \<noteq> []" using 1(2) words.simps [of s] by (auto simp: t_def)
  then have "takeWhile (\<lambda>c. c \<noteq> CHR '' '') t \<noteq> []" using pk by (cases t) auto
  moreover have "CHR '' '' \<notin> set (takeWhile (\<lambda>c. c \<noteq> CHR '' '') t)" by (auto dest: set_takeWhileD)
  moreover have "f = takeWhile (\<lambda>c. c \<noteq> CHR '' '') t
      \<or> f \<in> set (words (dropWhile (\<lambda>c. c \<noteq> CHR '' '') t))"
    using 1(2) words.simps [of s] \<open>t \<noteq> []\<close> by (simp add: t_def Let_def)
  ultimately show ?case using 1(1) [OF refl] \<open>t \<noteq> []\<close> by (auto simp: t_def)
qed

lemma split_fields_nonempty: "0 < k \<Longrightarrow> gpgme_split_fields s k \<noteq> []"
  by (simp add: split_fields_words)

lemma split_fields_length: "length (gpgme_split_fields s k) \<le> k"
  by (simp add: split_fields_words)

section \<open>Time stamps\<close>

lemma skip_spaces_show_nat [simp]: "skip_spaces (show_nat n @ r) = show_nat n @ r"
proof -
  obtain c ds where s: "show_nat n = c # ds" by (cases "show_nat n") auto
  then have "isdigit c" using show_nat_digits [of n] by (simp add: digit_ok_10)
  then show ?thesis using s by (auto simp: isdigit_def uchar_def)
qed

lemma parse_timestamp_epoch:
  assumes "int n \<le> LONG_MAX"
  shows "gpgme_parse_timestamp (show_nat n) = (int n, Some [])"
proof -
  have "cchr (show_nat n) 8 \<noteq> CHR ''T''" if "15 \<le> length (show_nat n)"
  proof -
    have "show_nat n ! 8 \<in> set (show_nat n)" using that by simp
    then have "isdigit (show_nat n ! 8)" using show_nat_digits [of n] by (simp add: digit_ok_10)
    then show ?thesis using that by (auto simp: cchr_def isdigit_def uchar_def)
  qed
  then show ?thesis
    using assms strtoul_show_nat [of n "[]"] skip_spaces_show_nat [of n "[]"]
    by (auto simp: gpgme_parse_timestamp_def Let_def to_long_def)
qed

text \<open>The ISO 8601 form \<open>YYYYMMDDThhmmss\<close> of given field values.\<close>

definition two_digits :: "nat \<Rightarrow> string" where
  "two_digits n = [char_of (48 + n div 10), char_of (48 + n mod 10)]"

definition iso_timestamp :: "nat \<Rightarrow> nat \<Rightarrow> nat \<Rightarrow> nat \<Rightarrow> nat \<Rightarrow> nat \<Rightarrow> string" where
  "iso_timestamp y mo d h mi s =
     two_digits (y div 100) @ two_digits (y mod 100) @ two_digits mo @ two_digits d
     @ ''T'' @ two_digits h @ two_digits mi @ two_digits s"

lemma schar_digit: "n < 10 \<Longrightarrow> schar (char_of (48 + n)) - 48 = int n"
  by (simp add: schar_def uchar_def)

lemma two_digits_value:
  assumes "n < 100" "take 2 (drop i ts) = two_digits n"
  shows "atoi_2 ts i = int n"
proof -
  have "length (take 2 (drop i ts)) = 2" using assms(2) by (simp add: two_digits_def)
  then have len: "Suc i < length ts" by (simp add: min_def split: if_splits)
  have "take 2 (drop i ts) ! 0 = char_of (48 + n div 10)"
       "take 2 (drop i ts) ! 1 = char_of (48 + n mod 10)"
    using assms(2) by (simp_all add: two_digits_def)
  then have c0: "ts ! i = char_of (48 + n div 10)" and c1: "ts ! Suc i = char_of (48 + n mod 10)"
    using len by simp_all
  have "int (n div 10) * 10 + int (n mod 10) = int n"
    by (metis div_mult_mod_eq of_nat_add of_nat_mult of_nat_numeral)
  moreover have "n div 10 < 10" using assms(1) by simp
  ultimately show ?thesis
    using len c0 c1 by (simp add: atoi_2_def atoi_1_def cchr_def schar_digit)
qed

lemma skip_spaces_digit: "n < 100 \<Longrightarrow> skip_spaces (two_digits n @ r) = two_digits n @ r"
proof -
  assume "n < 100"
  then have "uchar (char_of (48 + n div 10)) = 48 + n div 10" by (intro uchar_char_of_digit) simp
  moreover have "uchar (CHR '' '') = 32" by (simp add: uchar_def)
  ultimately have "uchar (char_of (48 + n div 10)) \<noteq> uchar (CHR '' '')" by linarith
  then have "char_of (48 + n div 10) \<noteq> CHR '' ''" by metis
  then show ?thesis by (simp add: two_digits_def)
qed

lemma parse_timestamp_iso:
  assumes "1900 \<le> y" "y < 10000" "mo < 100" "d < 100" "h < 100" "mi < 100" "s < 100"
  shows "gpgme_parse_timestamp (iso_timestamp y mo d h mi s @ rest) =
     (timegm (int y - 1900) (int mo - 1) (int d) (int h) (int mi) (int s), Some rest)"
proof -
  define ts where "ts = iso_timestamp y mo d h mi s @ rest"
  have y: "y div 100 < 100" "y mod 100 < 100" using assms by auto
  have skip: "skip_spaces ts = ts"
    using skip_spaces_digit [OF y(1)] by (simp add: ts_def iso_timestamp_def)
  have "length ts = 15 + length rest" "cchr ts 8 = CHR ''T''" "drop 15 ts = rest"
    by (simp_all add: ts_def iso_timestamp_def two_digits_def cchr_def)
  moreover have fields: "atoi_2 ts 0 = int (y div 100)" "atoi_2 ts 2 = int (y mod 100)"
    "atoi_2 ts 4 = int mo" "atoi_2 ts 6 = int d" "atoi_2 ts 9 = int h"
    "atoi_2 ts 11 = int mi" "atoi_2 ts 13 = int s"
    by (rule two_digits_value,
        simp_all add: assms y ts_def iso_timestamp_def two_digits_def del: mod_less_divisor)+
  moreover have year: "int (y div 100) * 100 + int (y mod 100) = int y"
    by (metis div_mult_mod_eq of_nat_add of_nat_mult of_nat_numeral)
  moreover have "atoi_4 ts 0 = int y" by (simp only: atoi_4_def add_0 fields year)
  moreover have "ts \<noteq> []" using \<open>length ts = 15 + length rest\<close> by auto
  ultimately show ?thesis
    using assms(1) skip unfolding ts_def [symmetric]
    by (simp add: gpgme_parse_timestamp_def Let_def)
qed

lemma days_before_year_step:
  "days_before_year (y + 1) = days_before_year y + (if leap_year y then 366 else 365)"
proof -
  have d: "y div n = (y - 1) div n + (if n dvd y then 1 else 0)" if n: "0 < n" for n :: int
  proof (cases "n dvd y")
    case True
    then have "y - 1 = n * (y div n - 1) + (n - 1)" by (simp add: right_diff_distrib)
    moreover have "0 \<le> n - 1" "n - 1 < n" using n by simp_all
    ultimately have "(y - 1) div n = y div n - 1" by (rule int_div_pos_eq)
    then show ?thesis using True by simp
  next
    case False
    then have "y mod n \<noteq> 0" by (simp add: dvd_eq_mod_eq_0)
    then have "0 \<le> y mod n - 1" using pos_mod_sign [OF n, of y] by simp
    moreover have "y - 1 = n * (y div n) + (y mod n - 1)" by (simp add: mult_div_mod_eq)
    moreover have "y mod n - 1 < n" using pos_mod_bound [OF n, of y] by simp
    ultimately have "(y - 1) div n = y div n" by (intro int_div_pos_eq [where r = "y mod n - 1"])
    then show ?thesis using False by simp
  qed
  have le: "(100::int) dvd y \<longrightarrow> 4 dvd y" "(400::int) dvd y \<longrightarrow> 100 dvd y"
    using dvd_trans [of 4 100 y] dvd_trans [of 100 400 y] by simp_all
  have d4: "y div 4 = (y - 1) div 4 + (if 4 dvd y then 1 else 0)" by (rule d) simp
  have d100: "y div 100 = (y - 1) div 100 + (if 100 dvd y then 1 else 0)" by (rule d) simp
  have d400: "y div 400 = (y - 1) div 400 + (if 400 dvd y then 1 else 0)" by (rule d) simp
  have sum: "a - b + c = (a' - b' + c') + (x - z + w)"
    if "a = a' + x" "b = b' + z" "c = c' + w" for a b c a' b' c' x z w :: int
    using that by simp
  have bool: "(if p then 1 else 0) - (if q then 1 else 0) + (if r then 1 else 0)
      = (if p \<and> (\<not> q \<or> r) then 1 else (0 :: int))" if "q \<longrightarrow> p" "r \<longrightarrow> q" for p q r
    using that by (cases p; cases q; cases r) simp_all
  have "leaps_upto y = leaps_upto (y - 1) + (if leap_year y then 1 else 0)"
    unfolding leaps_upto_def leap_year_def
    by (rule trans [OF sum [OF d4 d100 d400]]) (simp only: bool [OF le])
  then show ?thesis by (simp add: days_before_year_def)
qed

section \<open>Properties\<close>

text \<open>
  Percent escaping is undone by percent unescaping: for every C string, encoding into a
  fresh buffer succeeds, and decoding the result, as text or as binary, gives the string back.
\<close>

theorem percent_string_roundtrip:
  assumes "cstring_ok src"
  shows "\<exists>enc. gpgme_encode_percent_string True src 0 = Ok enc
           \<and> gpgme_decode_percent_string True enc 0 binary = Ok src"
  using decode_encode_percent_loop [of binary src] assms
  by (simp add: gpgme_encode_percent_string_def gpgme_decode_percent_string_def)

theorem percent_string_roundtrip_witness:
  "\<exists>enc. gpgme_encode_percent_string True ''a+b c%'' 0 = Ok enc
           \<and> gpgme_decode_percent_string True enc 0 False = Ok ''a+b c%''"
  by (rule percent_string_roundtrip) simp



text \<open>
  C unescaping of a string that does not end in a backslash stays inside the string,
  succeeds, and yields a string without embedded NUL.
\<close>

theorem decode_c_string_safe:
  assumes "cstring_ok src" and "src = [] \<or> last src \<noteq> CHR 0x5C"
  shows "\<exists>d. gpgme_decode_c_string True src 0 = Ok d \<and> cstring_ok d"
proof -
  obtain d where d: "decode_c_loop src = Some d" using decode_c_loop_safe [OF assms(2)] by auto
  with decode_c_loop_cstring [OF d assms(1)] show ?thesis
    by (simp add: gpgme_decode_c_string_def)
qed

theorem decode_c_string_safe_witness:
  "\<exists>d. gpgme_decode_c_string True (''a'' @ CHR 0x5C # ''x3ab'') 0 = Ok d \<and> cstring_ok d"
  by (rule decode_c_string_safe) simp_all



text \<open>
  \<open>_gpgme_split_fields\<close> returns the first \<open>arraysize\<close> maximal space-free words of the
  string, and a single empty field when the string has no word.
\<close>

theorem split_fields_reference:
  "gpgme_split_fields s arraysize = take arraysize (if words s = [] then [[]] else words s)"
  by (rule split_fields_words)

text \<open>
  Time stamps are read in both notations: a decimal number of seconds up to the largest
  \<open>time_t\<close> is its own value, and \<open>YYYYMMDDThhmmss\<close> with a year from 1900 on is the calendar
  time of its fields, with parsing stopped right behind the stamp.
\<close>

theorem parse_timestamp_formats:
  assumes "int n \<le> LONG_MAX"
    and "1900 \<le> y" "y < 10000" "mo < 100" "d < 100" "h < 100" "mi < 100" "s < 100"
  shows "gpgme_parse_timestamp_ul (show_nat n) = Ok (int n)
    \<and> gpgme_parse_timestamp (iso_timestamp y mo d h mi s @ rest) =
        (timegm (int y - 1900) (int mo - 1) (int d) (int h) (int mi) (int s), Some rest)"
proof
  have "gpgme_parse_timestamp (show_nat n) = (int n, Some [])"
    by (rule parse_timestamp_epoch [OF assms(1)])
  then show "gpgme_parse_timestamp_ul (show_nat n) = Ok (int n)"
    using assms(1) by (simp add: gpgme_parse_timestamp_ul_def to_ulong_def)
  show "gpgme_parse_timestamp (iso_timestamp y mo d h mi s @ rest) =
        (timegm (int y - 1900) (int mo - 1) (int d) (int h) (int mi) (int s), Some rest)"
    using assms(2-8) by (rule parse_timestamp_iso)
qed

theorem parse_timestamp_formats_witness:
  "gpgme_parse_timestamp_ul (show_nat 1546300800) = Ok 1546300800
    \<and> gpgme_parse_timestamp (iso_timestamp 2019 1 1 0 0 0 @ '' x'') = (1546300800, Some '' x'')"
proof -
  have "timegm 119 0 1 0 0 0 = 1546300800" by code_simp
  then show ?thesis
    using parse_timestamp_formats [of 1546300800 2019 1 1 0 0 0 "'' x''"] by simp
qed

text \<open>
  A time stamp made of blanks only makes \<open>_gpgme_parse_timestamp_ul\<close> use its
  uninitialised \<open>tail\<close>: \<open>_gpgme_parse_timestamp\<close> returns 0 for it without storing an end
  pointer, and 0 is not the error value that would skip the pointer tests.
\<close>

theorem parse_timestamp_ul_blank:
  assumes "0 < n"
  shows "gpgme_parse_timestamp_ul (replicate n (CHR '' '')) = UB"
proof -
  have "skip_spaces (replicate n (CHR '' '')) = []" by (induction n) auto
  with assms show ?thesis
    by (simp add: gpgme_parse_timestamp_ul_def gpgme_parse_timestamp_def)
qed

theorem parse_timestamp_ul_blank_witness: "gpgme_parse_timestamp_ul '' '' = UB"
  using parse_timestamp_ul_blank [of 1] by simp

end
