(* ===== verification/Gpgme_B64Dec.thy ===== *)
theory Gpgme_B64Dec
  imports Gpgme_Prelude
begin

text \<open>
  Model of \<open>src/b64dec.c\<close>: the incremental Base-64 decoder. The decoder is a state machine fed
  one character at a time; it skips lead-in text and armor headers when a b64_title was given, and
  decodes in place.
\<close>

unbundle bit_operations_syntax

section \<open>State\<close>

type_synonym byte = "8 word"

definition byte_of :: "char \<Rightarrow> byte" where
  "byte_of c = of_nat (uchar c)"

text \<open>The reverse Base-64 table, row by row as in the source.\<close>

definition asctobin :: "nat list" where
  "asctobin =
    [0xff, 0xff, 0xff, 0xff, 0xff, 0xff, 0xff, 0xff,
     0xff, 0xff, 0xff, 0xff, 0xff, 0xff, 0xff, 0xff,
     0xff, 0xff, 0xff, 0xff, 0xff, 0xff, 0xff, 0xff,
     0xff, 0xff, 0xff, 0xff, 0xff, 0xff, 0xff, 0xff,
     0xff, 0xff, 0xff, 0xff, 0xff, 0xff, 0xff, 0xff,
     0xff, 0xff, 0xff, 0x3e, 0xff, 0xff, 0xff, 0x3f,
     0x34, 0x35, 0x36, 0x37, 0x38, 0x39, 0x3a, 0x3b,
     0x3c, 0x3d, 0xff, 0xff, 0xff, 0xff, 0xff, 0xff,
     0xff, 0x00, 0x01, 0x02, 0x03, 0x04, 0x05, 0x06,
     0x07, 0x08, 0x09, 0x0a, 0x0b, 0x0c, 0x0d, 0x0e,
     0x0f, 0x10, 0x11, 0x12, 0x13, 0x14, 0x15, 0x16,
     0x17, 0x18, 0x19, 0xff, 0xff, 0xff, 0xff, 0xff,
     0xff, 0x1a, 0x1b, 0x1c, 0x1d, 0x1e, 0x1f, 0x20,
     0x21, 0x22, 0x23, 0x24, 0x25, 0x26, 0x27, 0x28,
     0x29, 0x2a, 0x2b, 0x2c, 0x2d, 0x2e, 0x2f, 0x30,
     0x31, 0x32, 0x33, 0xff, 0xff, 0xff, 0xff, 0xff]"

datatype decoder_states =
    s_init | s_idle | s_lfseen | s_beginseen | s_waitheader | s_waitblank | s_begin
  | s_b64_0 | s_b64_1 | s_b64_2 | s_b64_3
  | s_waitendtitle | s_waitend

record b64state =
  b64_idx :: decoder_states
  quad_count :: nat
  radbuf :: byte
  b64_title :: "string option"
  b64_lasterr :: gpgme_error_t
  stop_seen :: bool
  invalid_encoding :: bool

text \<open>\<open>_gpgme_b64dec_start\<close>; \<open>mem_ok\<close> is the success of copying the b64_title.\<close>

definition gpgme_b64dec_start :: "bool \<Rightarrow> string option \<Rightarrow> b64state" where
  "gpgme_b64dec_start mem_ok ttl =
     (let st = \<lparr>b64_idx = s_init, quad_count = 0, radbuf = 0, b64_title = None, b64_lasterr = no_error,
                stop_seen = False, invalid_encoding = False\<rparr> in
      case ttl of
        None \<Rightarrow> st\<lparr>b64_idx := s_b64_0\<rparr>
      | Some t \<Rightarrow> if mem_ok then st\<lparr>b64_title := Some t, b64_idx := s_init\<rparr>
                  else st\<lparr>b64_lasterr := syserror ENOMEM\<rparr>)"

section \<open>One character\<close>

definition BEGIN_MARK :: string where "BEGIN_MARK = ''-----BEGIN ''"
definition PGP_MARK :: string where "PGP_MARK = ''PGP ''"

text \<open>
  The variables of the decoding loop: state, partial byte, position in a marker, and the two
  flags of the context the loop sets.
\<close>

record b64regs =
  rg_ds :: decoder_states
  rg_val :: byte
  rg_pos :: nat
  rg_stop :: bool
  rg_invalid :: bool

definition b64_idle :: "b64regs \<Rightarrow> char \<Rightarrow> b64regs" where
  "b64_idle r c = (if c = CHR 0x0A then r\<lparr>rg_ds := s_lfseen, rg_pos := 0\<rparr> else r\<lparr>rg_ds := s_idle\<rparr>)"

text \<open>The mismatch branch re-dispatches the same character in state \<open>s_idle\<close>.\<close>

definition b64_lfseen :: "b64regs \<Rightarrow> char \<Rightarrow> b64regs" where
  "b64_lfseen r c =
     (if c \<noteq> cchr BEGIN_MARK (rg_pos r) then b64_idle r c
      else if rg_pos r = 10 then r\<lparr>rg_pos := 0, rg_ds := s_beginseen\<rparr>
      else r\<lparr>rg_ds := s_lfseen, rg_pos := rg_pos r + 1\<rparr>)"

definition b64_quad :: "bool \<Rightarrow> b64regs \<Rightarrow> char \<Rightarrow> b64regs \<times> byte list" where
  "b64_quad has_title r s =
     (if s = CHR ''-'' \<and> has_title then (r\<lparr>rg_ds := s_waitend\<rparr>, [])
      else if s = CHR ''='' then
        (r\<lparr>rg_ds := if has_title then s_waitendtitle else s_waitend\<rparr>,
         if rg_ds r = s_b64_1 then [rg_val r] else [])
      else if s = CHR 0x0A \<or> s = CHR '' '' \<or> s = CHR 0x0D \<or> s = CHR 0x09 then (r, [])
      else if uchar s \<ge> 0x80 \<or> asctobin ! uchar s = 255 then (r\<lparr>rg_invalid := True\<rparr>, [])
      else (let c = of_nat (asctobin ! uchar s) :: byte in
        case rg_ds r of
          s_b64_0 \<Rightarrow> (r\<lparr>rg_val := push_bit 2 c, rg_ds := s_b64_1\<rparr>, [])
        | s_b64_1 \<Rightarrow> (r\<lparr>rg_val := push_bit 4 c AND 0xf0, rg_ds := s_b64_2\<rparr>,
                       [rg_val r OR (drop_bit 4 c AND 3)])
        | s_b64_2 \<Rightarrow> (r\<lparr>rg_val := push_bit 6 c AND 0xc0, rg_ds := s_b64_3\<rparr>,
                       [rg_val r OR (drop_bit 2 c AND 15)])
        | _ \<Rightarrow> (r\<lparr>rg_val := rg_val r OR (c AND 0x3f), rg_ds := s_b64_0\<rparr>,
                  [rg_val r OR (c AND 0x3f)])))"

definition b64_step :: "bool \<Rightarrow> b64regs \<Rightarrow> char \<Rightarrow> b64regs \<times> byte list" where
  "b64_step has_title r s =
     (case rg_ds r of
        s_idle \<Rightarrow> (b64_idle r s, [])
      | s_init \<Rightarrow> (b64_lfseen (r\<lparr>rg_ds := s_lfseen\<rparr>) s, [])
      | s_lfseen \<Rightarrow> (b64_lfseen r s, [])
      | s_beginseen \<Rightarrow>
          (if s \<noteq> cchr PGP_MARK (rg_pos r) then r\<lparr>rg_ds := s_begin\<rparr>
           else if rg_pos r = 3 then r\<lparr>rg_ds := s_waitheader\<rparr>
           else r\<lparr>rg_pos := rg_pos r + 1\<rparr>, [])
      | s_waitheader \<Rightarrow> (if s = CHR 0x0A then r\<lparr>rg_ds := s_waitblank\<rparr> else r, [])
      | s_waitblank \<Rightarrow>
          (if s = CHR 0x0A then r\<lparr>rg_ds := s_b64_0\<rparr>
           else if s = CHR '' '' \<or> s = CHR 0x0D \<or> s = CHR 0x09 then r
           else r\<lparr>rg_ds := s_waitheader\<rparr>, [])
      | s_begin \<Rightarrow> (if s = CHR 0x0A then r\<lparr>rg_ds := s_b64_0\<rparr> else r, [])
      | s_waitendtitle \<Rightarrow> (if s = CHR ''-'' then r\<lparr>rg_ds := s_waitend\<rparr> else r, [])
      | s_waitend \<Rightarrow> (if s = CHR 0x0A then r\<lparr>rg_stop := True\<rparr> else r, [])
      | _ \<Rightarrow> b64_quad has_title r s)"

section \<open>A buffer\<close>

fun b64_loop :: "bool \<Rightarrow> b64regs \<Rightarrow> string \<Rightarrow> b64regs \<times> byte list" where
  "b64_loop has_title r [] = (r, [])"
| "b64_loop has_title r (s # buf) =
     (if rg_stop r then (r, [])
      else (let (r', o1) = b64_step has_title r s;
                (r'', o2) = b64_loop has_title r' buf
            in (r'', o1 @ o2)))"

definition regs_of :: "b64state \<Rightarrow> b64regs" where
  "regs_of st = \<lparr>rg_ds = b64_idx st, rg_val = radbuf st, rg_pos = quad_count st,
                 rg_stop = stop_seen st, rg_invalid = invalid_encoding st\<rparr>"

definition store_regs :: "b64regs \<Rightarrow> b64state \<Rightarrow> b64state" where
  "store_regs r st = st\<lparr>b64_idx := rg_ds r, radbuf := rg_val r, quad_count := rg_pos r,
                        stop_seen := rg_stop r, invalid_encoding := rg_invalid r\<rparr>"

text \<open>
  \<open>_gpgme_b64dec_proc\<close>: the new context, the return value and the decoded bytes (the first
  \<open>*r_nbytes\<close> bytes of the buffer).
\<close>

definition gpgme_b64dec_proc ::
    "b64state \<Rightarrow> string \<Rightarrow> b64state \<times> gpgme_error_t \<times> byte list" where
  "gpgme_b64dec_proc st buffer =
     (if is_err (b64_lasterr st) then (st, b64_lasterr st, [])
      else if stop_seen st then
        (st\<lparr>b64_lasterr := gpg_error GPG_ERR_EOF, b64_title := None\<rparr>, gpg_error GPG_ERR_EOF, [])
      else (case b64_loop (b64_title st \<noteq> None) (regs_of st) buffer of
              (r, out) \<Rightarrow> (store_regs r st, no_error, out)))"

definition gpgme_b64dec_finish :: "b64state \<Rightarrow> b64state \<times> gpgme_error_t" where
  "gpgme_b64dec_finish st =
     (if is_err (b64_lasterr st) then (st, b64_lasterr st)
      else (st\<lparr>b64_title := None\<rparr>,
            if invalid_encoding st then gpg_error GPG_ERR_BAD_DATA else no_error))"

section \<open>Incremental decoding\<close>

text \<open>
  The decoding loop is a transducer run: it obeys the laws of the interface
  \<open>chunked\<close>, which gives append, size and invariant facts.
\<close>

interpretation b64: chunked "b64_step has_title" rg_stop "b64_loop has_title" for has_title
proof (unfold_locales, goal_cases)
  case (2 s cs)
  then show ?case by (cases cs) simp_all
qed (simp_all add: Let_def)

lemma b64_quad_emits: "length (snd (b64_quad t r s)) \<le> 1"
  by (auto simp: b64_quad_def Let_def split: decoder_states.splits)

lemma b64_step_emits: "length (snd (b64_step t r s)) \<le> 1"
  using b64_quad_emits by (simp add: b64_step_def split: decoder_states.splits)

section \<open>Marker positions stay inside the markers\<close>

definition regs_ok :: "b64regs \<Rightarrow> bool" where
  "regs_ok r \<longleftrightarrow> (rg_ds r \<in> {s_init, s_lfseen} \<longrightarrow> rg_pos r < length BEGIN_MARK)
             \<and> (rg_ds r = s_beginseen \<longrightarrow> rg_pos r < length PGP_MARK)"

lemma b64_lfseen_ok: "rg_pos r < length BEGIN_MARK \<Longrightarrow> regs_ok (b64_lfseen r s)"
  by (auto simp: regs_ok_def b64_lfseen_def b64_idle_def BEGIN_MARK_def PGP_MARK_def)

lemma b64_quad_ok: "rg_ds r \<in> {s_b64_0, s_b64_1, s_b64_2, s_b64_3} \<Longrightarrow> regs_ok (fst (b64_quad t r s))"
  by (auto simp: regs_ok_def b64_quad_def Let_def split: decoder_states.splits)

lemma regs_ok_lf: "regs_ok r \<Longrightarrow> rg_ds r \<in> {s_init, s_lfseen} \<Longrightarrow> rg_pos r < length BEGIN_MARK"
  by (auto simp: regs_ok_def)

lemma b64_step_ok [gpgme_inv]: "regs_ok r \<Longrightarrow> regs_ok (fst (b64_step t r s))"
proof (cases "rg_ds r")
  case s_init
  moreover assume "regs_ok r"
  ultimately show ?thesis using b64_lfseen_ok [of "r\<lparr>rg_ds := s_lfseen\<rparr>" s] regs_ok_lf [of r]
    by (simp add: b64_step_def)
next
  case s_lfseen
  moreover assume "regs_ok r"
  ultimately show ?thesis using b64_lfseen_ok [of r s] regs_ok_lf [of r] by (simp add: b64_step_def)
next
  case s_idle
  then show ?thesis by (auto simp: b64_step_def b64_idle_def regs_ok_def BEGIN_MARK_def)
next
  case s_beginseen
  moreover assume "regs_ok r"
  ultimately show ?thesis by (auto simp: b64_step_def regs_ok_def PGP_MARK_def)
next
  case s_b64_0
  then show ?thesis using b64_quad_ok [of r t s] by (simp add: b64_step_def)
next
  case s_b64_1
  then show ?thesis using b64_quad_ok [of r t s] by (simp add: b64_step_def)
next
  case s_b64_2
  then show ?thesis using b64_quad_ok [of r t s] by (simp add: b64_step_def)
next
  case s_b64_3
  then show ?thesis using b64_quad_ok [of r t s] by (simp add: b64_step_def)
qed (auto simp: b64_step_def regs_ok_def)

section \<open>Encoding of RFC 4648 as reference\<close>

definition b64_alphabet :: string where
  "b64_alphabet = ''ABCDEFGHIJKLMNOPQRSTUVWXYZabcdefghijklmnopqrstuvwxyz0123456789+/''"

definition b64_char :: "byte \<Rightarrow> char" where
  "b64_char v = b64_alphabet ! unat v"

text \<open>The four sextets of a group of three bytes.\<close>

definition sextet0 :: "byte \<Rightarrow> byte" where "sextet0 x = drop_bit 2 x"
definition sextet1 :: "byte \<Rightarrow> byte \<Rightarrow> byte" where
  "sextet1 x y = push_bit 4 (x AND 3) OR drop_bit 4 y"
definition sextet2 :: "byte \<Rightarrow> byte \<Rightarrow> byte" where
  "sextet2 y z = push_bit 2 (y AND 15) OR drop_bit 6 z"
definition sextet3 :: "byte \<Rightarrow> byte" where "sextet3 z = z AND 63"

fun b64_encode :: "byte list \<Rightarrow> string" where
  "b64_encode [] = []"
| "b64_encode [x] = [b64_char (sextet0 x), b64_char (sextet1 x 0), CHR ''='', CHR ''='']"
| "b64_encode [x, y] =
     [b64_char (sextet0 x), b64_char (sextet1 x y), b64_char (sextet2 y 0), CHR ''='']"
| "b64_encode (x # y # z # bs) =
     [b64_char (sextet0 x), b64_char (sextet1 x y), b64_char (sextet2 y z), b64_char (sextet3 z)]
     @ b64_encode bs"

definition plain_char :: "nat \<Rightarrow> char \<Rightarrow> bool" where
  "plain_char n c \<longleftrightarrow> c \<notin> {CHR ''-'', CHR ''='', CHR 0x0A, CHR '' '', CHR 0x0D, CHR 0x09}
     \<and> uchar c < 128 \<and> asctobin ! uchar c = n"

lemma alphabet_table: "\<forall>n\<in>set [0..<64]. plain_char n (b64_alphabet ! n)"
  by code_simp

lemma b64_char_plain: "unat v < 64 \<Longrightarrow> plain_char (unat v) (b64_char v)"
  using alphabet_table by (simp add: b64_char_def)

lemma sextet_bound: "v AND 63 = v \<Longrightarrow> unat v < 64" for v :: byte
proof -
  assume "v AND 63 = v"
  then have "v \<le> 63" by (metis word_and_le1)
  then show ?thesis by (simp add: word_le_nat_alt)
qed

text \<open>Equality of bytes, bit by bit.\<close>

lemma byte_eqI:
  fixes v w :: byte
  assumes "bit v 0 = bit w 0" "bit v 1 = bit w 1" "bit v 2 = bit w 2" "bit v 3 = bit w 3"
    "bit v 4 = bit w 4" "bit v 5 = bit w 5" "bit v 6 = bit w 6" "bit v 7 = bit w 7"
  shows "v = w"
proof (rule bit_word_eqI)
  fix n assume "n < LENGTH(8)"
  then have "n = 0 \<or> n = 1 \<or> n = 2 \<or> n = 3 \<or> n = 4 \<or> n = 5 \<or> n = 6 \<or> n = 7" by auto
  then show "bit v n = bit w n" using assms by auto
qed

lemma byte_bit_beyond [simp]: "8 \<le> n \<Longrightarrow> \<not> bit (v :: byte) n"
  using bit_imp_le_length [of v n] by auto

lemmas byte_bits = bit_and_iff bit_or_iff bit_push_bit_iff bit_drop_bit_eq

lemma sextets_bounded:
  "sextet0 x AND 63 = sextet0 x" "sextet1 x y AND 63 = sextet1 x y"
  "sextet2 y z AND 63 = sextet2 y z" "sextet3 z AND 63 = sextet3 z"
  unfolding sextet0_def sextet1_def sextet2_def sextet3_def
  by (rule byte_eqI; simp add: byte_bits)+

text \<open>Reassembling the bytes from the sextets, as the decoder does.\<close>

lemma reassemble:
  "push_bit 2 (sextet0 x) OR (drop_bit 4 (sextet1 x y) AND 3) = x"
  "(push_bit 4 (sextet1 x y) AND 0xf0) OR (drop_bit 2 (sextet2 y z) AND 15) = y"
  "(push_bit 6 (sextet2 y z) AND 0xc0) OR (sextet3 z AND 0x3f) = z"
  unfolding sextet0_def sextet1_def sextet2_def sextet3_def
  by (rule byte_eqI; simp add: byte_bits)+

section \<open>Round trip\<close>

lemma b64_quad_sextet:
  assumes "v AND 63 = v"
  shows "b64_quad t r (b64_char v) =
     (case rg_ds r of
        s_b64_0 \<Rightarrow> (r\<lparr>rg_val := push_bit 2 v, rg_ds := s_b64_1\<rparr>, [])
      | s_b64_1 \<Rightarrow> (r\<lparr>rg_val := push_bit 4 v AND 0xf0, rg_ds := s_b64_2\<rparr>,
                     [rg_val r OR (drop_bit 4 v AND 3)])
      | s_b64_2 \<Rightarrow> (r\<lparr>rg_val := push_bit 6 v AND 0xc0, rg_ds := s_b64_3\<rparr>,
                     [rg_val r OR (drop_bit 2 v AND 15)])
      | _ \<Rightarrow> (r\<lparr>rg_val := rg_val r OR (v AND 0x3f), rg_ds := s_b64_0\<rparr>,
                [rg_val r OR (v AND 0x3f)]))"
proof -
  have lt: "unat v < 64" by (rule sextet_bound [OF assms])
  then have "plain_char (unat v) (b64_char v)" by (rule b64_char_plain)
  then show ?thesis using lt
    by (auto simp: b64_quad_def plain_char_def Let_def split: decoder_states.splits)
qed

lemma b64_group:
  assumes "rg_ds r = s_b64_0" "\<not> rg_stop r"
  shows "b64_loop t r [b64_char (sextet0 x), b64_char (sextet1 x y)]
           = (r\<lparr>rg_val := push_bit 4 (sextet1 x y) AND 0xf0, rg_ds := s_b64_2\<rparr>, [x])"
    and "b64_loop t r [b64_char (sextet0 x), b64_char (sextet1 x y), b64_char (sextet2 y z)]
           = (r\<lparr>rg_val := push_bit 6 (sextet2 y z) AND 0xc0, rg_ds := s_b64_3\<rparr>, [x, y])"
    and "b64_loop t r [b64_char (sextet0 x), b64_char (sextet1 x y), b64_char (sextet2 y z),
                       b64_char (sextet3 z)]
           = (r\<lparr>rg_val := z, rg_ds := s_b64_0\<rparr>, [x, y, z])"
  using assms reassemble(3) [of y z, unfolded sextets_bounded(4)]
  by (simp_all add: b64_step_def b64_quad_sextet sextets_bounded reassemble(1,2))

lemma b64_padding:
  assumes "\<not> rg_stop r"
  shows "rg_ds r = s_b64_2 \<Longrightarrow>
           b64_loop t r ''=='' = (r\<lparr>rg_ds := if t then s_waitendtitle else s_waitend\<rparr>, [])"
    and "rg_ds r = s_b64_3 \<Longrightarrow>
           b64_loop t r ''='' = (r\<lparr>rg_ds := if t then s_waitendtitle else s_waitend\<rparr>, [])"
  using assms by (simp_all add: b64_step_def b64_quad_def)

text \<open>Where the decoder may be after a complete encoding, before the end of the armor.\<close>

definition after_data :: "bool \<Rightarrow> b64regs \<Rightarrow> b64regs \<Rightarrow> bool" where
  "after_data t r r' \<longleftrightarrow> rg_ds r' \<in> {s_b64_0, if t then s_waitendtitle else s_waitend}
     \<and> \<not> rg_stop r' \<and> rg_invalid r' = rg_invalid r"

lemma b64_loop_encode:
  assumes "rg_ds r = s_b64_0" "\<not> rg_stop r"
  shows "\<exists>r'. b64_loop t r (b64_encode bs) = (r', bs) \<and> after_data t r r'"
  using assms
proof (induction bs arbitrary: r rule: b64_encode.induct)
  case (2 x)
  have "b64_encode [x] = [b64_char (sextet0 x), b64_char (sextet1 x 0)] @ ''==''" by simp
  moreover have "b64_loop t r ([b64_char (sextet0 x), b64_char (sextet1 x 0)] @ ''=='')
      = (r\<lparr>rg_val := push_bit 4 (sextet1 x 0) AND 0xf0,
           rg_ds := if t then s_waitendtitle else s_waitend\<rparr>, [x] @ [])"
    by (rule b64.run_seq [OF b64_group(1) [OF 2]], subst b64_padding) (simp_all add: 2)
  ultimately show ?case using 2(2) by (simp add: after_data_def del: b64_encode.simps)
next
  case (3 x y)
  have "b64_encode [x, y]
      = [b64_char (sextet0 x), b64_char (sextet1 x y), b64_char (sextet2 y 0)] @ ''=''" by simp
  moreover have "b64_loop t r ([b64_char (sextet0 x), b64_char (sextet1 x y), b64_char (sextet2 y 0)] @ ''='')
      = (r\<lparr>rg_val := push_bit 6 (sextet2 y 0) AND 0xc0,
           rg_ds := if t then s_waitendtitle else s_waitend\<rparr>, [x, y] @ [])"
    by (rule b64.run_seq [OF b64_group(2) [OF 3]], subst b64_padding) (simp_all add: 3)
  ultimately show ?case using 3(2) by (simp add: after_data_def del: b64_encode.simps)
next
  case (4 x y z bs)
  let ?r = "r\<lparr>rg_val := z, rg_ds := s_b64_0\<rparr>"
  obtain r' where "b64_loop t ?r (b64_encode bs) = (r', bs)" "after_data t ?r r'"
    using 4(1) [of ?r] 4(3) by auto
  then have "b64_loop t r (b64_encode (x # y # z # bs)) = (r', x # y # z # bs)"
    using b64.run_seq [OF b64_group(3) [OF 4(2,3), of t x y z]] by simp
  then show ?case using \<open>after_data t ?r r'\<close> by (auto simp: after_data_def)
qed (simp add: after_data_def)

lemma skip_waitheader:
  "rg_ds r = s_waitheader \<Longrightarrow> CHR 0x0A \<notin> set xs \<Longrightarrow> b64_loop t r xs = (r, [])"
  by (rule b64.run_stutter) (auto simp: b64_step_def)

lemma skip_waitendtitle:
  "rg_ds r = s_waitendtitle \<Longrightarrow> CHR ''-'' \<notin> set xs \<Longrightarrow> b64_loop t r xs = (r, [])"
  by (rule b64.run_stutter) (auto simp: b64_step_def)

lemma skip_waitend:
  "rg_ds r = s_waitend \<Longrightarrow> CHR 0x0A \<notin> set xs \<Longrightarrow> b64_loop t r xs = (r, [])"
  by (rule b64.run_stutter) (auto simp: b64_step_def)

text \<open>The lines around the data of an OpenPGP armor, checksum line included.\<close>

definition pgp_armor :: "string \<Rightarrow> byte list \<Rightarrow> string \<Rightarrow> string" where
  "pgp_armor label bs crc =
     ''-----BEGIN PGP '' @ label @ [CHR 0x0A, CHR 0x0A] @ b64_encode bs
     @ (CHR 0x0A # CHR ''='' # crc) @ (CHR 0x0A # ''-----END PGP '') @ label @ [CHR 0x0A]"

lemma armor_head:
  assumes "rg_ds r = s_init" "rg_pos r = 0" "\<not> rg_stop r" "CHR 0x0A \<notin> set label"
  shows "\<exists>r'. b64_loop t r (''-----BEGIN PGP '' @ label @ [CHR 0x0A, CHR 0x0A]) = (r', [])
           \<and> rg_ds r' = s_b64_0 \<and> \<not> rg_stop r' \<and> rg_invalid r' = rg_invalid r"
proof -
  have 1: "b64_loop t r ''-----BEGIN PGP '' = (r\<lparr>rg_ds := s_waitheader, rg_pos := 3\<rparr>, [])"
    using assms(1-3)
    by (simp add: b64_step_def b64_lfseen_def BEGIN_MARK_def PGP_MARK_def cchr_def)
  let ?r = "r\<lparr>rg_ds := s_waitheader, rg_pos := 3\<rparr>"
  have 2: "b64_loop t ?r label = (?r, [])" using assms(4) by (intro skip_waitheader) simp_all
  have 3: "b64_loop t ?r [CHR 0x0A, CHR 0x0A] = (?r\<lparr>rg_ds := s_b64_0\<rparr>, [])"
    using assms(3) by (simp add: b64_step_def)
  show ?thesis using assms(3) b64.run_seq [OF 1 b64.run_seq [OF 2 3]] by simp
qed

lemma armor_tail:
  assumes "after_data True r0 r" "CHR ''-'' \<notin> set crc" "CHR 0x0A \<notin> set label"
  shows "\<exists>r'. b64_loop True r ((CHR 0x0A # CHR ''='' # crc) @ (CHR 0x0A # ''-----END PGP '')
           @ label @ [CHR 0x0A]) = (r', []) \<and> rg_stop r' \<and> rg_invalid r' = rg_invalid r0"
proof -
  let ?w = "r\<lparr>rg_ds := s_waitendtitle\<rparr>" and ?e = "r\<lparr>rg_ds := s_waitend\<rparr>"
  have st: "\<not> rg_stop r" and ds: "rg_ds r = s_b64_0 \<or> rg_ds r = s_waitendtitle"
    using assms(1) by (auto simp: after_data_def)
  have crc: "b64_loop True ?w crc = (?w, [])" using assms(2) by (intro skip_waitendtitle) simp_all
  have "b64_loop True r [CHR 0x0A, CHR ''=''] = (?w, [])"
    using st ds by (auto simp: b64_step_def b64_quad_def)
  then have 1: "b64_loop True r (CHR 0x0A # CHR ''='' # crc) = (?w, [])"
    using b64.run_append [of True r "[CHR 0x0A, CHR ''='']" crc] crc by simp
  have 2: "b64_loop True ?w (CHR 0x0A # ''-----END PGP '') = (?e, [])"
    using st by (simp add: b64_step_def)
  have 3: "b64_loop True ?e label = (?e, [])" using assms(3) by (intro skip_waitend) simp_all
  have 4: "b64_loop True ?e [CHR 0x0A] = (?e\<lparr>rg_stop := True\<rparr>, [])"
    using st by (simp add: b64_step_def)
  show ?thesis using assms(1)
      b64.run_seq [OF 1 b64.run_seq [OF 2 b64.run_seq [OF 3 4]]]
    by (simp add: after_data_def)
qed

lemma b64_loop_armor:
  assumes "rg_ds r = s_init" "rg_pos r = 0" "\<not> rg_stop r"
    "CHR 0x0A \<notin> set label" "CHR ''-'' \<notin> set crc"
  shows "\<exists>r'. b64_loop True r (pgp_armor label bs crc) = (r', bs)
           \<and> rg_stop r' \<and> rg_invalid r' = rg_invalid r"
proof -
  obtain r1 where 1: "b64_loop True r (''-----BEGIN PGP '' @ label @ [CHR 0x0A, CHR 0x0A]) = (r1, [])"
    "rg_ds r1 = s_b64_0" "\<not> rg_stop r1" "rg_invalid r1 = rg_invalid r"
    using armor_head [OF assms(1-4)] by blast
  obtain r2 where 2: "b64_loop True r1 (b64_encode bs) = (r2, bs)" "after_data True r1 r2"
    using b64_loop_encode [OF 1(2,3)] by blast
  obtain r3 where 3: "b64_loop True r2 ((CHR 0x0A # CHR ''='' # crc) @ (CHR 0x0A # ''-----END PGP '')
           @ label @ [CHR 0x0A]) = (r3, [])" "rg_stop r3" "rg_invalid r3 = rg_invalid r1"
    using armor_tail [OF 2(2) assms(5,4)] by blast
  have "pgp_armor label bs crc = (''-----BEGIN PGP '' @ label @ [CHR 0x0A, CHR 0x0A])
      @ b64_encode bs @ ((CHR 0x0A # CHR ''='' # crc) @ (CHR 0x0A # ''-----END PGP '')
           @ label @ [CHR 0x0A])"
    by (simp add: pgp_armor_def)
  with b64.run_seq [OF 1(1) b64.run_seq [OF 2(1) 3(1)]]
  have "b64_loop True r (pgp_armor label bs crc) = (r3, bs)" by simp
  then show ?thesis using 1(4) 3 by auto
qed

section \<open>Properties\<close>

text \<open>
  C25: plain Base-64 decoding inverts the RFC 4648 encoding: a decoder started without a title
  and fed the encoding of any bytes returns exactly these bytes, and finishing reports no
  encoding error.
\<close>

theorem b64dec_roundtrip:
  "\<exists>st. gpgme_b64dec_proc (gpgme_b64dec_start mem_ok None) (b64_encode bs) = (st, no_error, bs)
     \<and> snd (gpgme_b64dec_finish st) = no_error"
proof -
  let ?st = "gpgme_b64dec_start mem_ok None"
  have "rg_ds (regs_of ?st) = s_b64_0" "\<not> rg_stop (regs_of ?st)"
    by (simp_all add: gpgme_b64dec_start_def regs_of_def)
  from b64_loop_encode [OF this, of False bs] obtain r where
    "b64_loop False (regs_of ?st) (b64_encode bs) = (r, bs)" "\<not> rg_invalid r"
    by (auto simp: after_data_def gpgme_b64dec_start_def regs_of_def)
  then show ?thesis
    by (auto simp: gpgme_b64dec_proc_def gpgme_b64dec_finish_def gpgme_b64dec_start_def store_regs_def)
qed



text \<open>
  C27: decoding does not depend on how the input is cut into buffers: unless the first buffer
  already contains the end of the data, decoding two buffers one after the other gives the
  context and the concatenated bytes of decoding them as one.
\<close>

theorem b64dec_chunks:
  assumes "gpgme_b64dec_proc st xs = (st1, no_error, out1)" "\<not> stop_seen st1"
    and "gpgme_b64dec_proc st1 ys = (st2, e, out2)"
  shows "gpgme_b64dec_proc st (xs @ ys) = (st2, e, out1 @ out2)"
proof -
  let ?t = "b64_title st \<noteq> None"
  have ok: "b64_lasterr st = no_error" "\<not> stop_seen st"
    using assms(1) by (auto simp: gpgme_b64dec_proc_def split: if_splits)
  obtain r1 where r1: "b64_loop ?t (regs_of st) xs = (r1, out1)" "st1 = store_regs r1 st"
    using assms(1) ok by (auto simp: gpgme_b64dec_proc_def split: prod.splits)
  have "regs_of st1 = r1" "b64_title st1 = b64_title st" "b64_lasterr st1 = no_error"
    using r1(2) ok by (simp_all add: regs_of_def store_regs_def)
  then obtain r2 where r2: "b64_loop ?t r1 ys = (r2, out2)" "st2 = store_regs r2 st1" "e = no_error"
    using assms(2,3) by (auto simp: gpgme_b64dec_proc_def split: prod.splits)
  have "store_regs r2 st1 = store_regs r2 st" using r1(2) by (simp add: store_regs_def)
  then show ?thesis
    using ok r1(1) r2 by (simp add: gpgme_b64dec_proc_def b64.run_append)
qed

theorem b64dec_chunks_witness:
  "gpgme_b64dec_proc (gpgme_b64dec_start True None) (''QU'' @ ''JD'')
     = (store_regs \<lparr>rg_ds = s_b64_0, rg_val = 67, rg_pos = 0, rg_stop = False, rg_invalid = False\<rparr>
          (gpgme_b64dec_start True None), no_error, [65] @ [66, 67])"
proof (rule b64dec_chunks)
  show "gpgme_b64dec_proc (gpgme_b64dec_start True None) ''QU'' =
    (store_regs \<lparr>rg_ds = s_b64_2, rg_val = 64, rg_pos = 0, rg_stop = False, rg_invalid = False\<rparr>
          (gpgme_b64dec_start True None), no_error, [65])" by code_simp
  show "\<not> stop_seen (store_regs \<lparr>rg_ds = s_b64_2, rg_val = 64, rg_pos = 0, rg_stop = False, rg_invalid = False\<rparr>
          (gpgme_b64dec_start True None))" by (simp add: store_regs_def)
  show "gpgme_b64dec_proc (store_regs \<lparr>rg_ds = s_b64_2, rg_val = 64, rg_pos = 0, rg_stop = False, rg_invalid = False\<rparr>
          (gpgme_b64dec_start True None)) ''JD'' =
    (store_regs \<lparr>rg_ds = s_b64_0, rg_val = 67, rg_pos = 0, rg_stop = False, rg_invalid = False\<rparr>
          (gpgme_b64dec_start True None), no_error, [66, 67])" by code_simp
qed

text \<open>
  In-place decoding is safe: a call never produces more bytes than it was given, and from
  a started decoder on the marker position stays inside the marker it indexes, whatever the
  input.
\<close>

theorem b64dec_in_place:
  assumes "gpgme_b64dec_proc st buf = (st', e, out)" and "regs_ok (regs_of st)"
  shows "length out \<le> length buf \<and> regs_ok (regs_of st')
    \<and> regs_ok (regs_of (gpgme_b64dec_start mem_ok ttl))"
proof -
  let ?t = "b64_title st \<noteq> None"
  obtain r o' where r: "b64_loop ?t (regs_of st) buf = (r, o')" by fastforce
  have len: "length o' \<le> length buf"
    using b64.run_length [of ?t 1 "regs_of st" buf] b64_step_emits r by fastforce
  have inv: "regs_ok r"
    using b64.run_invariant [of regs_ok ?t "regs_of st" buf] b64_step_ok assms(2) r by fastforce
  have "regs_ok (regs_of (gpgme_b64dec_start mem_ok ttl))"
    by (cases ttl)
      (auto simp: gpgme_b64dec_start_def regs_of_def regs_ok_def BEGIN_MARK_def Let_def)
  moreover have "regs_of (store_regs r st) = r" by (simp add: regs_of_def store_regs_def)
  ultimately show ?thesis
    using assms len inv r
    by (auto simp: gpgme_b64dec_proc_def regs_of_def split: if_splits)
qed

theorem b64dec_in_place_witness:
  "length [65 :: byte] \<le> length ''QQ==''"
proof -
  let ?st = "gpgme_b64dec_start True None"
  have "snd (snd (gpgme_b64dec_proc ?st ''QQ=='')) = [65]" by code_simp
  then have "gpgme_b64dec_proc ?st ''QQ==''
      = (fst (gpgme_b64dec_proc ?st ''QQ==''), fst (snd (gpgme_b64dec_proc ?st ''QQ=='')), [65])"
    by (metis prod.collapse)
  moreover have "regs_ok (regs_of ?st)"
    by (simp add: gpgme_b64dec_start_def regs_of_def regs_ok_def)
  ultimately show ?thesis using b64dec_in_place by blast
qed

end
