(* ===== verification/Gpgme_ParseTlv.thy ===== *)
theory Gpgme_ParseTlv
  imports Gpgme_B64Dec
begin

text \<open>
  Model of \<open>src/parsetlv.c\<close>: the header parser for ASN.1 BER objects. \<open>unsigned long\<close> and
  \<open>size_t\<close> are 64-bit words.
\<close>

unbundle bit_operations_syntax

record tlvinfo_t =
  tlv_cls :: nat
  tlv_tag :: int
  tlv_is_cons :: bool
  tlv_is_ndef :: bool
  tlv_length :: "64 word"
  tlv_nhdr :: nat

text \<open>The continuation octets of a high tag number; the result is the tag, the octets read and the rest.\<close>

fun tlv_tag_loop :: "64 word \<Rightarrow> nat \<Rightarrow> byte list \<Rightarrow> (64 word \<times> nat \<times> byte list) option" where
  "tlv_tag_loop tag n [] = None"
| "tlv_tag_loop tag n (c # buf) =
     (let tag' = push_bit 7 tag OR ucast (c AND 0x7f) in
      if c AND 0x80 \<noteq> 0 then tlv_tag_loop tag' (Suc n) buf else Some (tag', Suc n, buf))"

fun tlv_len_loop :: "nat \<Rightarrow> 64 word \<Rightarrow> nat \<Rightarrow> byte list \<Rightarrow> (64 word \<times> nat \<times> byte list) option" where
  "tlv_len_loop 0 len n buf = Some (len, n, buf)"
| "tlv_len_loop (Suc count) len n [] = None"
| "tlv_len_loop (Suc count) len n (c # buf) =
     tlv_len_loop count (push_bit 8 len OR ucast (c AND 0xff)) (Suc n) buf"

text \<open>Tag octets, then length octets; \<open>None\<close> is the return value \<open>-1\<close>.\<close>

definition tlv_tag_part :: "byte \<Rightarrow> byte list \<Rightarrow> (64 word \<times> nat \<times> byte list) option" where
  "tlv_tag_part c buf =
     (let tag = c AND 0x1f in
      if tag = 0x1f then tlv_tag_loop 0 1 buf else Some (ucast tag, 1, buf))"

definition tlv_len_part ::
    "nat \<Rightarrow> byte list \<Rightarrow> (bool \<times> 64 word \<times> nat \<times> byte list) option" where
  "tlv_len_part n buf =
     (case buf of
        [] \<Rightarrow> None
      | c # rest \<Rightarrow>
          if c AND 0x80 = 0 then Some (False, ucast c, Suc n, rest)
          else if c = 0x80 then Some (True, 0, Suc n, rest)
          else if c = 0xff then None
          else (let count = unat (c AND 0x7f) in
                if count > 8 then None
                else map_option (\<lambda>(len, n', r). (False, len, n', r))
                       (tlv_len_loop count 0 (Suc n) rest)))"

definition gpgme_parse_tlv :: "byte list \<Rightarrow> (tlvinfo_t \<times> byte list) option" where
  "gpgme_parse_tlv buffer =
     (case buffer of
        [] \<Rightarrow> None
      | c # buf \<Rightarrow>
          (case tlv_tag_part c buf of
             None \<Rightarrow> None
           | Some (tag, n, buf1) \<Rightarrow>
               (case tlv_len_part n buf1 of
                  None \<Rightarrow> None
                | Some (ndef, len, n', rest) \<Rightarrow>
                    Some (\<lparr>tlv_cls = unat (drop_bit 6 (c AND 0xc0)), tlv_tag = to_int32 (uint tag),
                           tlv_is_cons = (c AND 0x20 \<noteq> 0), tlv_is_ndef = ndef,
                           tlv_length = len, tlv_nhdr = n'\<rparr>, rest))))"

section \<open>What is consumed\<close>

lemma tlv_tag_loop_split:
  "tlv_tag_loop tag n buf = Some (t, n', rest) \<Longrightarrow>
   \<exists>hdr. buf = hdr @ rest \<and> n' = n + length hdr \<and> hdr \<noteq> []"
proof (induction tag n buf rule: tlv_tag_loop.induct)
  case (2 tag n c buf)
  show ?case
  proof (cases "c AND 0x80 \<noteq> 0")
    case True
    with 2 obtain hdr where "buf = hdr @ rest" "n' = Suc n + length hdr" by (auto simp: Let_def)
    then show ?thesis by (intro exI [of _ "c # hdr"]) simp
  next
    case False
    with 2 show ?thesis by (auto simp: Let_def)
  qed
qed simp

lemma tlv_len_loop_split:
  "tlv_len_loop count len n buf = Some (l, n', rest) \<Longrightarrow>
   \<exists>hdr. buf = hdr @ rest \<and> n' = n + length hdr \<and> length hdr = count"
proof (induction count len n buf rule: tlv_len_loop.induct)
  case (3 count len n c buf)
  then obtain hdr where "buf = hdr @ rest" "n' = Suc n + length hdr" "length hdr = count" by auto
  then show ?case by (intro exI [of _ "c # hdr"]) simp
qed simp_all

lemma tlv_len_part_split:
  "tlv_len_part n buf = Some (ndef, len, n', rest) \<Longrightarrow>
   \<exists>hdr. buf = hdr @ rest \<and> n' = n + length hdr \<and> hdr \<noteq> []"
  by (auto simp: tlv_len_part_def Let_def split: list.splits if_splits
      dest!: tlv_len_loop_split)

lemma tlv_tag_part_split:
  "tlv_tag_part c buf = Some (t, n', rest) \<Longrightarrow> \<exists>hdr. buf = hdr @ rest \<and> n' = 1 + length hdr"
  by (auto simp: tlv_tag_part_def Let_def split: if_splits dest: tlv_tag_loop_split)

lemma parse_tlv_split:
  assumes "gpgme_parse_tlv buffer = Some (ti, rest)"
  shows "\<exists>hdr. buffer = hdr @ rest \<and> length hdr = tlv_nhdr ti \<and> 2 \<le> tlv_nhdr ti"
proof -
  obtain c buf where b: "buffer = c # buf"
    using assms by (cases buffer) (auto simp: gpgme_parse_tlv_def)
  obtain tag n buf1 ndef len n' where
    t: "tlv_tag_part c buf = Some (tag, n, buf1)"
    and l: "tlv_len_part n buf1 = Some (ndef, len, n', rest)" and ti: "tlv_nhdr ti = n'"
    using assms b by (auto simp: gpgme_parse_tlv_def split: option.splits)
  obtain h1 where "buf = h1 @ buf1" "n = 1 + length h1" using tlv_tag_part_split [OF t] by blast
  moreover obtain h2 where "buf1 = h2 @ rest" "n' = n + length h2" "h2 \<noteq> []"
    using tlv_len_part_split [OF l] by blast
  ultimately show ?thesis using b ti
    by (intro exI [of _ "c # h1 @ h2"]) (cases h2; simp)
qed

section \<open>Reference encoding\<close>

text \<open>Big-endian octets of a number, and the BER header with a low tag and a definite length.\<close>

fun be_octets :: "nat \<Rightarrow> nat \<Rightarrow> byte list" where
  "be_octets 0 v = []"
| "be_octets (Suc k) v = be_octets k (v div 256) @ [of_nat (v mod 256)]"

definition ber_length :: "nat \<Rightarrow> nat \<Rightarrow> byte list" where
  "ber_length k len = (if k = 0 then [of_nat len] else of_nat (128 + k) # be_octets k len)"

definition ber_header :: "nat \<Rightarrow> nat \<Rightarrow> bool \<Rightarrow> nat \<Rightarrow> nat \<Rightarrow> byte list" where
  "ber_header cls tag cons k len =
     of_nat (64 * cls + (if cons then 32 else 0) + tag) # ber_length k len"

lemma length_be_octets [simp]: "length (be_octets k v) = k"
  by (induction k arbitrary: v) simp_all

lemma push8_or: "push_bit 8 a OR ucast (c :: byte) = a * 256 + ucast c" for a :: "64 word"
proof -
  have "push_bit 8 a + ucast c = push_bit 8 a OR ucast c"
    by (rule disjunctive_add) (auto simp: bit_simps dest: bit_imp_le_length)
  then show ?thesis by (simp add: push_bit_eq_mult)
qed

lemma byte_and_ff [simp]: "c AND 0xff = c" for c :: byte
  by (rule byte_eqI; simp add: byte_bits)

lemma tlv_len_loop_append:
  "tlv_len_loop (length xs + k) len n (xs @ buf) =
   tlv_len_loop k (fold (\<lambda>c l. l * 256 + ucast c) xs len) (n + length xs) buf"
  by (induction xs arbitrary: len n) (simp_all add: push8_or)

lemma fold_be_octets:
  "v < 256 ^ k \<Longrightarrow> fold (\<lambda>c l. l * 256 + ucast c) (be_octets k v) (0 :: 64 word) = of_nat v"
proof (induction k arbitrary: v)
  case (Suc k)
  have m: "v mod 256 < 256" by simp
  have "ucast (of_nat (v mod 256) :: byte) = (of_nat (v mod 256) :: 64 word)"
    by (simp add: unsigned_of_nat take_bit_eq_mod)
  moreover have "of_nat (v div 256) * 256 + of_nat (v mod 256) = (of_nat v :: 64 word)"
    by (metis div_mult_mod_eq of_nat_add of_nat_mult of_nat_numeral)
  moreover have "v div 256 < 256 ^ k" using Suc.prems by (simp add: less_mult_imp_div_less mult.commute)
  ultimately show ?case using Suc.IH by simp
qed simp

definition first_octet_ok :: "nat \<Rightarrow> bool \<Rightarrow> nat \<Rightarrow> bool" where
  "first_octet_ok cls cons tag =
     (let c = of_nat (64 * cls + (if cons then 32 else 0) + tag) :: byte in
      unat (drop_bit 6 (c AND 0xc0)) = cls \<and> (c AND 0x20 \<noteq> 0) = cons
      \<and> c AND 0x1f = of_nat tag \<and> c AND 0x1f \<noteq> 0x1f)"

lemma first_octet_table:
  "list_all (\<lambda>cls. list_all (\<lambda>tag. first_octet_ok cls False tag \<and> first_octet_ok cls True tag)
     [0..<31]) [0..<4]"
  by code_simp

lemma first_octet: "cls < 4 \<Longrightarrow> tag < 31 \<Longrightarrow> first_octet_ok cls cons tag"
  using first_octet_table by (cases cons) (auto simp: list_all_iff)

lemma short_length_table: "list_all (\<lambda>n. (of_nat n :: byte) AND 0x80 = 0) [0..<128]"
  by code_simp

lemma long_length_table:
  "list_all (\<lambda>k. let c = of_nat (128 + k) :: byte in
     c AND 0x80 \<noteq> 0 \<and> c \<noteq> 0x80 \<and> c \<noteq> 0xff \<and> unat (c AND 0x7f) = k) [1..<9]"
  by code_simp

lemma tlv_len_part_encoded:
  assumes "k = 0 \<and> len < 128 \<or> 0 < k \<and> k \<le> 8 \<and> len < 256 ^ k"
  shows "tlv_len_part n (ber_length k len @ rest) = Some (False, of_nat len, n + 1 + k, rest)"
proof (cases "k = 0")
  case True
  then have len: "len < 128" using assms by simp
  then have "(of_nat len :: byte) AND 0x80 = 0"
    using short_length_table by (auto simp: list_all_iff)
  moreover have "ucast (of_nat len :: byte) = (of_nat len :: 64 word)"
    using len by (simp add: unsigned_of_nat take_bit_eq_mod)
  ultimately show ?thesis using True by (simp add: tlv_len_part_def ber_length_def)
next
  case False
  then have k: "k \<in> set [1..<9]" and len: "len < 256 ^ k" using assms by auto
  define c where "c = (of_nat (128 + k) :: byte)"
  have c: "c AND 0x80 \<noteq> 0" "c \<noteq> 0x80" "c \<noteq> 0xff" "unat (c AND 0x7f) = k"
    using long_length_table k unfolding list_all_iff Let_def c_def by blast+
  have "tlv_len_loop k 0 (Suc n) (be_octets k len @ rest) = Some (of_nat len, Suc n + k, rest)"
    using tlv_len_loop_append [of "be_octets k len" 0 0 "Suc n" rest] fold_be_octets [OF len]
    by simp
  moreover have "ber_length k len = c # be_octets k len"
    using False unfolding ber_length_def c_def by (rule if_not_P)
  ultimately show ?thesis using c k by (simp add: tlv_len_part_def)
qed

section \<open>Properties\<close>



text \<open>
  The BER header parser never reads outside its buffer: on success the buffer splits into
  a header of the reported size, at least two octets, and the remaining value that the caller
  is left with.
\<close>

theorem parse_tlv_consumes:
  assumes "gpgme_parse_tlv buffer = Some (ti, rest)"
  shows "rest = drop (tlv_nhdr ti) buffer \<and> 2 \<le> tlv_nhdr ti
     \<and> tlv_nhdr ti + length rest = length buffer"
  using parse_tlv_split [OF assms] by auto

theorem parse_tlv_consumes_witness:
  "[] = drop 2 [0x30, 0x80 :: byte] \<and> 2 \<le> (2 :: nat) \<and> 2 + length ([] :: byte list) = length [0x30, 0x80 :: byte]"
  using parse_tlv_consumes [of "[0x30, 0x80]"
      "\<lparr>tlv_cls = 0, tlv_tag = 16, tlv_is_cons = True, tlv_is_ndef = True, tlv_length = 0, tlv_nhdr = 2\<rparr>" "[]"]
  by (simp add: gpgme_parse_tlv_def tlv_tag_part_def tlv_len_part_def to_int32_def)

end
