(* ===== verification/Gpgme_DataIdentify.thy ===== *)
theory Gpgme_DataIdentify
  imports Gpgme_ParseTlv
begin

text \<open>
  Model of the detection logic of \<open>src/data-identify.c\<close>: the OpenPGP packet scanner, the
  detection of binary OpenPGP data, of armored messages, and of CMS, PKCS#12 and X.509 objects.
  A buffer is the list of its bytes; a pointer with a remaining length is the list of the
  bytes from there on.
\<close>

unbundle bit_operations_syntax

section \<open>Types\<close>

datatype gpgme_data_type_t =
    GPGME_DATA_TYPE_INVALID | GPGME_DATA_TYPE_UNKNOWN | GPGME_DATA_TYPE_PGP_SIGNED
  | GPGME_DATA_TYPE_PGP_ENCRYPTED | GPGME_DATA_TYPE_PGP_OTHER | GPGME_DATA_TYPE_PGP_KEY
  | GPGME_DATA_TYPE_PGP_SIGNATURE | GPGME_DATA_TYPE_CMS_SIGNED | GPGME_DATA_TYPE_CMS_ENCRYPTED
  | GPGME_DATA_TYPE_CMS_OTHER | GPGME_DATA_TYPE_X509_CERT | GPGME_DATA_TYPE_PKCS12

abbreviation PKT_PUBKEY_ENC :: nat where "PKT_PUBKEY_ENC \<equiv> 1"
abbreviation PKT_SIGNATURE :: nat where "PKT_SIGNATURE \<equiv> 2"
abbreviation PKT_SYMKEY_ENC :: nat where "PKT_SYMKEY_ENC \<equiv> 3"
abbreviation PKT_ONEPASS_SIG :: nat where "PKT_ONEPASS_SIG \<equiv> 4"
abbreviation PKT_SECRET_KEY :: nat where "PKT_SECRET_KEY \<equiv> 5"
abbreviation PKT_PUBLIC_KEY :: nat where "PKT_PUBLIC_KEY \<equiv> 6"
abbreviation PKT_SECRET_SUBKEY :: nat where "PKT_SECRET_SUBKEY \<equiv> 7"
abbreviation PKT_COMPRESSED :: nat where "PKT_COMPRESSED \<equiv> 8"
abbreviation PKT_MARKER :: nat where "PKT_MARKER \<equiv> 10"
abbreviation PKT_PLAINTEXT :: nat where "PKT_PLAINTEXT \<equiv> 11"
abbreviation PKT_PUBLIC_SUBKEY :: nat where "PKT_PUBLIC_SUBKEY \<equiv> 14"

text \<open>The packet types the sanity check lets through.\<close>

definition allowed_pkttypes :: "nat set" where
  "allowed_pkttypes = {1, 2, 3, 4, 5, 6, 7, 8, 9, 10, 11, 12, 13, 14, 16, 17, 18, 19}"

text \<open>
  The result of scanning one packet. \<open>PktTruncated\<close> still carries the packet type;
  \<open>PktOk\<close> has the type, the total packet size and the bytes behind it, \<open>None\<close> when none
  are left.
\<close>

datatype pkt_result =
    PktError gpg_err_code
  | PktTruncated nat
  | PktOk nat nat "byte list option"

section \<open>The packet scanner\<close>

definition buf32_to_ulong :: "byte list \<Rightarrow> nat" where
  "buf32_to_ulong p =
     unat (p ! 0) * 2 ^ 24 + unat (p ! 1) * 2 ^ 16 + unat (p ! 2) * 2 ^ 8 + unat (p ! 3)"

text \<open>Packet length and remaining bytes behind a new style tag octet; \<open>None\<close>: length octets missing.\<close>

definition new_ctb_length :: "byte list \<Rightarrow> (nat \<times> byte list) option" where
  "new_ctb_length buf =
     (case buf of
        [] \<Rightarrow> None
      | b # buf1 \<Rightarrow>
          (let c = unat b in
           if c < 192 then Some (c, buf1)
           else if c < 224 then
             (case buf1 of
                [] \<Rightarrow> None
              | b2 # buf2 \<Rightarrow> Some ((c - 192) * 256 + (unat b2 + 192), buf2))
           else if c = 255 then
             (if length buf1 < 4 then None else Some (buf32_to_ulong buf1, drop 4 buf1))
           else Some (0, buf1)))"

definition old_ctb_length :: "byte \<Rightarrow> byte list \<Rightarrow> (nat \<times> byte list) option" where
  "old_ctb_length ctb buf =
     (let lenbytes = (if ctb AND 3 = 3 then 0 else 2 ^ unat (ctb AND 3)) in
      if length buf < lenbytes then None
      else Some (fold (\<lambda>b pktlen. pktlen * 256 + unat b) (take lenbytes buf) 0,
                 drop lenbytes buf))"

definition next_openpgp_packet :: "byte list \<Rightarrow> pkt_result" where
  "next_openpgp_packet bufptr =
     (case bufptr of
        [] \<Rightarrow> PktError GPG_ERR_NO_DATA
      | ctb # buf \<Rightarrow>
          if take 4 bufptr = [0x89, 0x50, 0x4E, 0x47] then PktError GPG_ERR_INV_PACKET
          else if ctb AND 0x80 = 0 then PktError GPG_ERR_INV_PACKET
          else
            (let new_style = (ctb AND 0x40 \<noteq> 0);
                 pkttype = (if new_style then unat (ctb AND 0x3f)
                            else unat (drop_bit 2 ctb AND 0xf)) in
             case (if new_style then new_ctb_length buf else old_ctb_length ctb buf) of
               None \<Rightarrow> PktError GPG_ERR_INV_PACKET
             | Some (pktlen, rest) \<Rightarrow>
                 if pkttype \<notin> allowed_pkttypes then PktError GPG_ERR_UNEXPECTED
                 else if pktlen > length rest then PktTruncated pkttype
                 else PktOk pkttype (length bufptr - length rest + pktlen)
                        (if length rest - pktlen = 0 then None else Some (drop pktlen rest))))"

lemma new_ctb_length_shorter:
  "new_ctb_length buf = Some (n, rest) \<Longrightarrow> length rest < length buf"
  by (auto simp: new_ctb_length_def Let_def split: list.splits if_splits)

lemma old_ctb_length_shorter:
  "old_ctb_length ctb buf = Some (n, rest) \<Longrightarrow> length rest \<le> length buf"
  by (auto simp: old_ctb_length_def Let_def split: if_splits)

lemma next_openpgp_packet_shorter:
  "next_openpgp_packet buf = PktOk t n (Some rest) \<Longrightarrow> length rest < length buf"
  by (auto simp: next_openpgp_packet_def Let_def split: list.splits if_splits option.splits
      dest!: new_ctb_length_shorter old_ctb_length_shorter)

section \<open>Binary OpenPGP data\<close>

text \<open>
  The body of the detection loop for one packet: a decision (\<open>Inl\<close>) or the new values of
  \<open>anypacket\<close> and \<open>allsignatures\<close>.
\<close>

definition inspect_packet :: "nat \<Rightarrow> bool \<Rightarrow> bool \<Rightarrow> gpgme_data_type_t + bool \<times> bool" where
  "inspect_packet pkttype anypacket allsignatures =
     (if \<not> anypacket \<and> pkttype = PKT_MARKER then Inr (anypacket, allsignatures)
      else
        (let alls = (if pkttype = PKT_SIGNATURE then (if \<not> anypacket then True else allsignatures)
                     else False) in
         if pkttype = PKT_SIGNATURE then Inr (True, alls)
         else if pkttype = PKT_PLAINTEXT then
           (if alls then Inl GPGME_DATA_TYPE_PGP_SIGNED else Inr (True, alls))
         else if pkttype = PKT_ONEPASS_SIG then Inl GPGME_DATA_TYPE_PGP_SIGNED
         else if pkttype = PKT_SECRET_KEY \<or> pkttype = PKT_PUBLIC_KEY then Inl GPGME_DATA_TYPE_PGP_KEY
         else if pkttype = PKT_SECRET_SUBKEY \<or> pkttype = PKT_PUBLIC_SUBKEY
           then Inl GPGME_DATA_TYPE_PGP_OTHER
         else if pkttype = PKT_PUBKEY_ENC \<or> pkttype = PKT_SYMKEY_ENC
           then Inl GPGME_DATA_TYPE_PGP_ENCRYPTED
         else if pkttype = PKT_COMPRESSED then
           (if \<not> anypacket then Inl GPGME_DATA_TYPE_PGP_SIGNED else Inl GPGME_DATA_TYPE_PGP_OTHER)
         else Inl GPGME_DATA_TYPE_PGP_OTHER))"

definition detection_default :: "bool \<Rightarrow> gpgme_data_type_t" where
  "detection_default allsignatures =
     (if allsignatures then GPGME_DATA_TYPE_PGP_SIGNATURE else GPGME_DATA_TYPE_UNKNOWN)"

function pgp_detection_loop :: "bool \<Rightarrow> bool \<Rightarrow> byte list \<Rightarrow> gpgme_data_type_t" where
  "pgp_detection_loop anypacket allsignatures img =
     (case next_openpgp_packet img of
        PktError e \<Rightarrow> detection_default allsignatures
      | PktTruncated pkttype \<Rightarrow>
          (case inspect_packet pkttype anypacket allsignatures of
             Inl t \<Rightarrow> t
           | Inr (any', alls') \<Rightarrow> detection_default alls')
      | PktOk pkttype n rest \<Rightarrow>
          (case inspect_packet pkttype anypacket allsignatures of
             Inl t \<Rightarrow> t
           | Inr (any', alls') \<Rightarrow>
               (case rest of
                  None \<Rightarrow> detection_default alls'
                | Some img' \<Rightarrow> pgp_detection_loop any' alls' img')))"
  by pat_completeness auto
termination
  by (relation "measure (\<lambda>(a, b, img). length img)") (auto dest: next_openpgp_packet_shorter)

declare pgp_detection_loop.simps [simp del]

definition pgp_binary_detection :: "byte list \<Rightarrow> gpgme_data_type_t" where
  "pgp_binary_detection img = pgp_detection_loop False False img"

text \<open>\<open>inspect_pgp_message\<close>; \<open>mem_ok\<close> is the allocation in the decoder's start function.\<close>

definition inspect_pgp_message :: "bool \<Rightarrow> string \<Rightarrow> gpgme_data_type_t" where
  "inspect_pgp_message mem_ok string =
     (let st = gpgme_b64dec_start mem_ok (Some []) in
      if is_err (b64_lasterr st) then GPGME_DATA_TYPE_INVALID
      else (case gpgme_b64dec_proc st string of
              (st', e, bytes) \<Rightarrow>
                if is_err e then GPGME_DATA_TYPE_UNKNOWN else pgp_binary_detection bytes))"

section \<open>CMS, PKCS\#12 and X.509 objects\<close>

definition is_universal :: "int \<Rightarrow> bool \<Rightarrow> tlvinfo_t \<Rightarrow> bool" where
  "is_universal tag cons ti \<longleftrightarrow> tlv_cls ti = 0 \<and> tlv_tag ti = tag \<and> tlv_is_cons ti = cons"

abbreviation ASN1_TAG_INTEGER :: int where "ASN1_TAG_INTEGER \<equiv> 2"
abbreviation ASN1_TAG_OBJECT_ID :: int where "ASN1_TAG_OBJECT_ID \<equiv> 6"
abbreviation ASN1_TAG_SEQUENCE :: int where "ASN1_TAG_SEQUENCE \<equiv> 16"

definition OID_pkcs7 :: "byte list" where
  "OID_pkcs7 = [0x2A, 0x86, 0x48, 0x86, 0xF7, 0x0D, 0x01, 0x07]"

definition OID_authData :: "byte list" where
  "OID_authData = [0x2A, 0x86, 0x48, 0x86, 0xF7, 0x0D, 0x01, 0x09, 0x10, 0x01, 0x02]"

definition classify_oid :: "bool \<Rightarrow> nat \<Rightarrow> byte list \<Rightarrow> gpgme_data_type_t option" where
  "classify_oid maybe_p12 len s =
     (if len = 9 then
        (if take 9 s = OID_pkcs7 @ [0x01] then
           Some (if maybe_p12 then GPGME_DATA_TYPE_PKCS12 else GPGME_DATA_TYPE_CMS_OTHER)
         else if take 9 s = OID_pkcs7 @ [0x02] then
           Some (if maybe_p12 then GPGME_DATA_TYPE_PKCS12 else GPGME_DATA_TYPE_CMS_SIGNED)
         else if take 9 s = OID_pkcs7 @ [0x03] then Some GPGME_DATA_TYPE_CMS_ENCRYPTED
         else if take 9 s = OID_pkcs7 @ [0x05] then Some GPGME_DATA_TYPE_CMS_OTHER
         else if take 9 s = OID_pkcs7 @ [0x06] then Some GPGME_DATA_TYPE_CMS_OTHER
         else None)
      else if len = 11 then
        (if take 11 s = OID_authData then Some GPGME_DATA_TYPE_CMS_OTHER else None)
      else None)"

text \<open>The certificate branch, entered behind the inner sequence header; \<open>None\<close> is \<open>goto try_pgp\<close>.\<close>

definition detect_cert :: "byte list \<Rightarrow> gpgme_data_type_t option" where
  "detect_cert s0 =
     (case gpgme_parse_tlv s0 of
        None \<Rightarrow> None
      | Some (ti, s1) \<Rightarrow>
          if \<not> (tlv_cls ti = 2 \<and> tlv_tag ti = 0 \<and> tlv_is_cons ti \<and> tlv_length ti = 3
                \<and> 3 \<le> length s1) then None
          else
            (case gpgme_parse_tlv s1 of
               None \<Rightarrow> None
             | Some (ti2, s2) \<Rightarrow>
                 if \<not> (is_universal ASN1_TAG_INTEGER False ti2 \<and> tlv_length ti2 = 1
                       \<and> s2 \<noteq> [] \<and> (hd s2 = 1 \<or> hd s2 = 2)) then None
                 else if \<not> is_universal ASN1_TAG_INTEGER False ti2 then None
                 else Some GPGME_DATA_TYPE_X509_CERT))"

definition detect_oid :: "bool \<Rightarrow> tlvinfo_t \<Rightarrow> byte list \<Rightarrow> gpgme_data_type_t option" where
  "detect_oid maybe_p12 ti s =
     (if is_universal ASN1_TAG_OBJECT_ID False ti \<and> tlv_length ti \<noteq> 0
         \<and> unat (tlv_length ti) \<le> length s
      then classify_oid maybe_p12 (unat (tlv_length ti)) s else None)"

definition detect_ber :: "byte list \<Rightarrow> gpgme_data_type_t option" where
  "detect_ber data =
     (case gpgme_parse_tlv data of
        None \<Rightarrow> None
      | Some (ti, s) \<Rightarrow>
          if \<not> is_universal ASN1_TAG_SEQUENCE True ti then None
          else
            (case gpgme_parse_tlv s of
               None \<Rightarrow> None
             | Some (ti2, s2) \<Rightarrow>
                 if is_universal ASN1_TAG_SEQUENCE True ti2
                    \<and> unat (tlv_length ti2) \<le> length s2 then detect_cert s2
                 else if is_universal ASN1_TAG_INTEGER False ti2 \<and> tlv_length ti2 = 1
                         \<and> s2 \<noteq> [] \<and> hd s2 = 3 then
                   (case gpgme_parse_tlv (tl s2) of
                      None \<Rightarrow> None
                    | Some (ti3, s3) \<Rightarrow>
                        if \<not> is_universal ASN1_TAG_SEQUENCE True ti3 then None
                        else (case gpgme_parse_tlv s3 of
                                None \<Rightarrow> None
                              | Some (ti4, s4) \<Rightarrow> detect_oid True ti4 s4))
                 else detect_oid False ti2 s2))"

section \<open>Armor lines and the whole detection\<close>

text \<open>The decision on one armor line; \<open>None\<close>: the line is no begin line.\<close>

definition armor_line :: "bool \<Rightarrow> string \<Rightarrow> string \<Rightarrow> gpgme_data_type_t option" where
  "armor_line mem_ok data s =
     (if \<not> strncmp_eq s ''-----BEGIN '' then None
      else
        (let s11 = drop 11 s; s15 = drop 15 s in
         if strncmp_eq s11 ''SIGNED '' then Some GPGME_DATA_TYPE_CMS_SIGNED
         else if strncmp_eq s11 ''ENCRYPTED '' then Some GPGME_DATA_TYPE_CMS_ENCRYPTED
         else if strncmp_eq s11 ''PGP '' then
           (if strncmp_eq s15 ''SIGNATURE'' then Some GPGME_DATA_TYPE_PGP_SIGNATURE
            else if strncmp_eq s15 ''SIGNED MESSAGE'' then Some GPGME_DATA_TYPE_PGP_SIGNED
            else if strncmp_eq s15 ''PUBLIC KEY BLOCK'' then Some GPGME_DATA_TYPE_PGP_KEY
            else if strncmp_eq s15 ''PRIVATE KEY BLOCK'' then Some GPGME_DATA_TYPE_PGP_KEY
            else if strncmp_eq s15 ''SECRET KEY BLOCK'' then Some GPGME_DATA_TYPE_PGP_KEY
            else if strncmp_eq s15 ''ARMORED FILE'' then Some GPGME_DATA_TYPE_UNKNOWN
            else Some (inspect_pgp_message mem_ok data))
         else if strncmp_eq s11 ''CERTIFICATE'' then Some GPGME_DATA_TYPE_X509_CERT
         else if strncmp_eq s11 ''PKCS12'' then Some GPGME_DATA_TYPE_PKCS12
         else Some GPGME_DATA_TYPE_CMS_OTHER))"

function armor_lines :: "bool \<Rightarrow> string \<Rightarrow> string \<Rightarrow> gpgme_data_type_t" where
  "armor_lines mem_ok data [] = GPGME_DATA_TYPE_UNKNOWN"
| "armor_lines mem_ok data (c # s) =
     (case armor_line mem_ok data (c # s) of
        Some t \<Rightarrow> t
      | None \<Rightarrow>
          if c = CHR 0x0A then armor_lines mem_ok data s
          else (case strchr_split (CHR 0x0A) (c # s) of
                  (_, None) \<Rightarrow> GPGME_DATA_TYPE_UNKNOWN
                | (_, Some t) \<Rightarrow> armor_lines mem_ok data t))"
  by pat_completeness auto
termination
  by (relation "measure (\<lambda>(m, d, s). length s)") (auto dest: strchr_split_shorter [OF sym])

text \<open>
  \<open>basic_detection\<close>: the sample is followed by a NUL, so the string functions see the text up
  to its first NUL.
\<close>

definition c_text :: "string \<Rightarrow> string" where
  "c_text data = takeWhile (\<lambda>c. c \<noteq> NUL) data"

definition basic_detection :: "bool \<Rightarrow> string \<Rightarrow> gpgme_data_type_t" where
  "basic_detection mem_ok data =
     (if length data < 24 then GPGME_DATA_TYPE_UNKNOWN
      else case detect_ber (map byte_of data) of
        Some t \<Rightarrow> t
      | None \<Rightarrow>
          if uchar (hd data) \<ge> 0x80 then pgp_binary_detection (map byte_of data)
          else armor_lines mem_ok (c_text data) (c_text data))"

section \<open>Well-formed packets\<close>

text \<open>A new style packet with a one-octet length, as reference input for the scanner.\<close>

definition pgp_packet :: "nat \<Rightarrow> byte list \<Rightarrow> byte list" where
  "pgp_packet pkttype body = of_nat (192 + pkttype) # of_nat (length body) # body"

lemma packet_octet_table:
  "\<forall>t \<in> set [1, 2, 3, 4, 5, 6, 7, 8, 9, 10, 11, 12, 13, 14, 16, 17, 18, 19].
     (of_nat (192 + t) :: byte) AND 0x80 \<noteq> 0 \<and> (of_nat (192 + t) :: byte) AND 0x40 \<noteq> 0
     \<and> unat ((of_nat (192 + t) :: byte) AND 0x3f) = t \<and> (of_nat (192 + t) :: byte) \<noteq> 0x89"
  by code_simp

lemma packet_octet:
  assumes "t \<in> allowed_pkttypes"
  shows "(of_nat (192 + t) :: byte) AND 0x80 \<noteq> 0" "(of_nat (192 + t) :: byte) AND 0x40 \<noteq> 0"
    "unat ((of_nat (192 + t) :: byte) AND 0x3f) = t" "(of_nat (192 + t) :: byte) \<noteq> 0x89"
proof -
  have "t \<in> set [1, 2, 3, 4, 5, 6, 7, 8, 9, 10, 11, 12, 13, 14, 16, 17, 18, 19]"
    using assms by (simp add: allowed_pkttypes_def)
  with packet_octet_table show "(of_nat (192 + t) :: byte) AND 0x80 \<noteq> 0"
      "(of_nat (192 + t) :: byte) AND 0x40 \<noteq> 0"
      "unat ((of_nat (192 + t) :: byte) AND 0x3f) = t" "(of_nat (192 + t) :: byte) \<noteq> 0x89"
    by blast+
qed

lemma next_packet_step:
  assumes "t \<in> allowed_pkttypes" "n < 192"
  shows "next_openpgp_packet (of_nat (192 + t) # of_nat n # buf) =
     (if n > length buf then PktTruncated t
      else PktOk t (2 + n) (if length buf - n = 0 then None else Some (drop n buf)))"
proof -
  define c where "c = (of_nat (192 + t) :: byte)"
  note c = packet_octet [OF assms(1), folded c_def]
  have "unat (of_nat n :: byte) = n" using assms(2) by (simp add: unsigned_of_nat take_bit_eq_mod)
  then have "new_ctb_length (of_nat n # buf) = Some (n, buf)"
    using assms(2) by (simp add: new_ctb_length_def)
  then show ?thesis using c assms(1) unfolding c_def [symmetric]
    by (simp add: next_openpgp_packet_def Let_def)
qed

lemma next_packet_whole:
  assumes "t \<in> allowed_pkttypes" "length body < 192"
  shows "next_openpgp_packet (pgp_packet t body @ rest) =
     PktOk t (2 + length body) (if rest = [] then None else Some rest)"
  using next_packet_step [OF assms, of "body @ rest"] by (simp add: pgp_packet_def)

lemma loop_packet:
  assumes "t \<in> allowed_pkttypes" "length body < 192"
  shows "pgp_detection_loop any alls (pgp_packet t body @ rest) =
     (case inspect_packet t any alls of
        Inl d \<Rightarrow> d
      | Inr (any', alls') \<Rightarrow> if rest = [] then detection_default alls'
                           else pgp_detection_loop any' alls' rest)"
  by (subst pgp_detection_loop.simps) (auto simp: next_packet_whole [OF assms] split: sum.split prod.split)

lemma loop_signatures:
  assumes "\<forall>b\<in>set bodies. length b < 192"
  shows "pgp_detection_loop True True (concat (map (pgp_packet PKT_SIGNATURE) bodies) @ rest) =
     (if rest = [] \<and> bodies \<noteq> [] then GPGME_DATA_TYPE_PGP_SIGNATURE
      else pgp_detection_loop True True rest)"
  using assms
proof (induction bodies)
  case (Cons b bodies)
  have "concat (map (pgp_packet PKT_SIGNATURE) bodies) = [] \<longleftrightarrow> bodies = []"
    by (cases bodies) (simp_all add: pgp_packet_def)
  then show ?case using Cons
    by (auto simp: loop_packet allowed_pkttypes_def inspect_packet_def detection_default_def)
qed simp

section \<open>Armored messages\<close>

lemma detect_ber_dash: "detect_ber (0x2d # xs) = None"
  by (auto simp: detect_ber_def gpgme_parse_tlv_def tlv_tag_part_def is_universal_def to_int32_def
      split: option.splits)

lemma asctobin_NUL: "asctobin ! 0 = 255"
  by (simp add: asctobin_def)

lemma b64_char_not_NUL: "v AND 63 = v \<Longrightarrow> b64_char v \<noteq> NUL"
proof
  assume "v AND 63 = v" "b64_char v = NUL"
  then have "plain_char (unat v) NUL" "unat v < 64"
    using b64_char_plain sextet_bound by fastforce+
  then show False by (simp add: plain_char_def uchar_def asctobin_NUL)
qed

lemma b64_encode_cstring: "cstring_ok (b64_encode bs)"
  by (induction bs rule: b64_encode.induct) (auto simp: b64_char_not_NUL sextets_bounded)

lemma c_text_cstring: "cstring_ok s \<Longrightarrow> c_text s = s"
  by (auto simp: c_text_def cstring_ok_def takeWhile_eq_all_conv)

lemma inspect_pgp_message_armor:
  assumes "CHR 0x0A \<notin> set label" "CHR ''-'' \<notin> set crc"
  shows "inspect_pgp_message True (pgp_armor label bs crc) = pgp_binary_detection bs"
proof -
  let ?st = "gpgme_b64dec_start True (Some [])"
  have "rg_ds (regs_of ?st) = s_init" "rg_pos (regs_of ?st) = 0" "\<not> rg_stop (regs_of ?st)"
    by (simp_all add: gpgme_b64dec_start_def regs_of_def)
  from b64_loop_armor [OF this assms, of bs] obtain r where
    r: "b64_loop True (regs_of ?st) (pgp_armor label bs crc) = (r, bs)" by blast
  have st: "b64_lasterr ?st = no_error" "\<not> stop_seen ?st" "b64_title ?st = Some []"
    by (simp_all add: gpgme_b64dec_start_def)
  have "gpgme_b64dec_proc ?st (pgp_armor label bs crc) = (store_regs r ?st, no_error, bs)"
    using st r by (simp add: gpgme_b64dec_proc_def)
  then show ?thesis using st by (simp add: inspect_pgp_message_def Let_def)
qed

lemma detection_signatures:
  assumes "bodies \<noteq> []" "\<forall>b\<in>set bodies. length b < 192"
  shows "pgp_binary_detection (concat (map (pgp_packet PKT_SIGNATURE) bodies) @ rest) =
    (if rest = [] then GPGME_DATA_TYPE_PGP_SIGNATURE else pgp_detection_loop True True rest)"
proof -
  obtain b bs where bodies: "bodies = b # bs" using assms(1) by (cases bodies) auto
  then have b: "length b < 192" and bs: "\<forall>b\<in>set bs. length b < 192" using assms(2) by auto
  have sig: "PKT_SIGNATURE \<in> allowed_pkttypes" by (simp add: allowed_pkttypes_def)
  have emp: "concat (map (pgp_packet PKT_SIGNATURE) bs) = [] \<longleftrightarrow> bs = []"
    by (cases bs) (simp_all add: pgp_packet_def)
  have "pgp_binary_detection (concat (map (pgp_packet PKT_SIGNATURE) bodies) @ rest)
      = (if concat (map (pgp_packet PKT_SIGNATURE) bs) @ rest = [] then GPGME_DATA_TYPE_PGP_SIGNATURE
         else pgp_detection_loop True True (concat (map (pgp_packet PKT_SIGNATURE) bs) @ rest))"
    unfolding pgp_binary_detection_def bodies list.map concat.simps append_assoc
      loop_packet [OF sig b] by (simp add: inspect_packet_def detection_default_def)
  then show ?thesis using loop_signatures [OF bs, of rest] emp by auto
qed

section \<open>Properties\<close>

text \<open>
  Identifying an armored OpenPGP message is identifying what it armors: for any payload,
  the detection on the armor text returns what the binary detection returns on the payload.
\<close>

theorem identify_armored_message:
  assumes "CHR 0x0A \<notin> set lbl" "CHR ''-'' \<notin> set crc" "cstring_ok lbl" "cstring_ok crc"
  shows "basic_detection True (pgp_armor (''MESSAGE'' @ lbl) bs crc) = pgp_binary_detection bs"
proof -
  define a where "a = pgp_armor (''MESSAGE'' @ lbl) bs crc"
  have ok: "cstring_ok a" using assms(3,4) b64_encode_cstring by (simp add: a_def pgp_armor_def)
  have split: "a = ''-----BEGIN PGP MESSAGE'' @ drop 22 a" by (simp add: a_def pgp_armor_def)
  have len: "24 \<le> length a" by (simp add: a_def pgp_armor_def)
  have "map byte_of a = 0x2d # map byte_of (tl a)" "hd a = CHR ''-''" "a \<noteq> []"
    by (simp_all add: a_def pgp_armor_def byte_of_def uchar_def)
  then have "detect_ber (map byte_of a) = None" "uchar (hd a) < 0x80"
    by (simp_all only: detect_ber_dash) (simp add: uchar_def)
  moreover have "armor_line True a a = Some (inspect_pgp_message True a)"
    by (subst (2) split) (simp add: armor_line_def strncmp_eq_def Let_def)
  moreover from this have "armor_lines True a a = inspect_pgp_message True a"
    using \<open>a \<noteq> []\<close> by (cases a) simp_all
  ultimately have "basic_detection True a = inspect_pgp_message True a"
    using len by (simp add: basic_detection_def c_text_cstring [OF ok])
  then show ?thesis
    using inspect_pgp_message_armor [of "''MESSAGE'' @ lbl" crc bs] assms by (simp add: a_def)
qed

theorem identify_armored_message_witness:
  "basic_detection True (pgp_armor (''MESSAGE'' @ ''-----'') (pgp_packet PKT_PUBKEY_ENC [3]) ''aBcD'')
     = GPGME_DATA_TYPE_PGP_ENCRYPTED"
proof -
  have "pgp_binary_detection (pgp_packet PKT_PUBKEY_ENC [3]) = GPGME_DATA_TYPE_PGP_ENCRYPTED"
    using loop_packet [of PKT_PUBKEY_ENC "[3]" False False "[]"]
    by (simp add: pgp_binary_detection_def allowed_pkttypes_def inspect_packet_def)
  then show ?thesis
    using identify_armored_message [of "''-----''" "''aBcD''" "pgp_packet PKT_PUBKEY_ENC [3]"]
    by simp
qed

text \<open>
  A run of signature packets alone is identified as a detached signature, however many
  signatures there are.
\<close>

theorem identify_detached_signature:
  assumes "bodies \<noteq> []" "\<forall>b\<in>set bodies. length b < 192"
  shows "pgp_binary_detection (concat (map (pgp_packet PKT_SIGNATURE) bodies))
           = GPGME_DATA_TYPE_PGP_SIGNATURE"
  using detection_signatures [OF assms, of "[]"] by simp

theorem identify_detached_signature_witness:
  "pgp_binary_detection (concat (map (pgp_packet PKT_SIGNATURE) [[4], [4, 0]]))
     = GPGME_DATA_TYPE_PGP_SIGNATURE"
  by (rule identify_detached_signature) simp_all

text \<open>
  Signed data in the old style, signatures followed by a literal data packet, is not
  identified as signed: the flag the test looks at was cleared for the literal data packet
  itself, so a complete message of this form has unknown type.
\<close>

theorem identify_old_style_signed:
  assumes "bodies \<noteq> []" "\<forall>b\<in>set bodies. length b < 192" "length body < 192"
  shows "pgp_binary_detection (concat (map (pgp_packet PKT_SIGNATURE) bodies)
           @ pgp_packet PKT_PLAINTEXT body) = GPGME_DATA_TYPE_UNKNOWN"
proof -
  have lit: "PKT_PLAINTEXT \<in> allowed_pkttypes" by (simp add: allowed_pkttypes_def)
  have "pgp_detection_loop True True (pgp_packet PKT_PLAINTEXT body) = GPGME_DATA_TYPE_UNKNOWN"
    using loop_packet [OF lit assms(3), of True True "[]"]
    by (simp add: inspect_packet_def detection_default_def)
  then show ?thesis
    using detection_signatures [OF assms(1,2), of "pgp_packet PKT_PLAINTEXT body"]
    by (simp add: pgp_packet_def)
qed

theorem identify_old_style_signed_witness:
  "pgp_binary_detection (concat (map (pgp_packet PKT_SIGNATURE) [[4]])
     @ pgp_packet PKT_PLAINTEXT [0x62, 0]) = GPGME_DATA_TYPE_UNKNOWN"
  by (rule identify_old_style_signed) simp_all

text \<open>
  The decision on the first packet survives truncation of the sample: cut anywhere behind
  the packet header, and whatever followed, the data has the type that packet decides.
\<close>

theorem identify_truncated:
  assumes "t \<in> allowed_pkttypes" "length body < 192" "inspect_packet t False False = Inl d" "2 \<le> n"
  shows "pgp_binary_detection (take n (pgp_packet t body @ rest)) = d"
proof -
  obtain m where "n = Suc (Suc m)" using assms(4) by (metis Suc_le_D numeral_2_eq_2 Suc_le_mono)
  then have "take n (pgp_packet t body @ rest)
      = of_nat (192 + t) # of_nat (length body) # take m (body @ rest)"
    by (simp add: pgp_packet_def)
  moreover have "pgp_detection_loop False False
      (of_nat (192 + t) # of_nat (length body) # take m (body @ rest)) = d"
    by (subst pgp_detection_loop.simps, subst next_packet_step [OF assms(1,2)])
      (simp add: assms(3))
  ultimately show ?thesis by (simp only: pgp_binary_detection_def)
qed

theorem identify_truncated_witness:
  "pgp_binary_detection (take 5 (pgp_packet PKT_PUBLIC_KEY [4, 1, 2, 3, 4, 5, 6, 7] @ [9, 9]))
     = GPGME_DATA_TYPE_PGP_KEY"
  by (rule identify_truncated) (simp_all add: allowed_pkttypes_def inspect_packet_def)

text \<open>
  The certificate branch stops at the version: behind the version number, which must be 1
  or 2, it accepts any bytes, none included, because the second tag test looks at the version's
  own tag again instead of the serial number's.
\<close>

theorem identify_cert_serial_unchecked:
  assumes "v = 1 \<or> v = 2"
  shows "detect_cert ([0xA0, 0x03, 0x02, 0x01, v] @ junk) = Some GPGME_DATA_TYPE_X509_CERT"
  using assms
  by (auto simp: detect_cert_def gpgme_parse_tlv_def tlv_tag_part_def tlv_len_part_def
      is_universal_def to_int32_def)

theorem identify_cert_serial_unchecked_witness:
  "detect_cert ([0xA0, 0x03, 0x02, 0x01, 2] @ [0xff, 0xff]) = Some GPGME_DATA_TYPE_X509_CERT"
  by (rule identify_cert_serial_unchecked) simp

end
