(* ===== verification/Gpgme_StatusTable.thy ===== *)
theory Gpgme_StatusTable
  imports Gpgme_Prelude
begin

text \<open>
  The status codes of \<open>gpgme.h.in\<close> and a model of \<open>src/status-table.c\<close>: the table of status
  keywords, which is sorted once at start up and then searched by bisection.
\<close>

section \<open>Status codes\<close>

type_synonym gpgme_status_code_t = int

abbreviation GPGME_STATUS_EOF :: int where "GPGME_STATUS_EOF \<equiv> 0"
abbreviation GPGME_STATUS_ENTER :: int where "GPGME_STATUS_ENTER \<equiv> 1"
abbreviation GPGME_STATUS_LEAVE :: int where "GPGME_STATUS_LEAVE \<equiv> 2"
abbreviation GPGME_STATUS_ABORT :: int where "GPGME_STATUS_ABORT \<equiv> 3"
abbreviation GPGME_STATUS_GOODSIG :: int where "GPGME_STATUS_GOODSIG \<equiv> 4"
abbreviation GPGME_STATUS_BADSIG :: int where "GPGME_STATUS_BADSIG \<equiv> 5"
abbreviation GPGME_STATUS_ERRSIG :: int where "GPGME_STATUS_ERRSIG \<equiv> 6"
abbreviation GPGME_STATUS_BADARMOR :: int where "GPGME_STATUS_BADARMOR \<equiv> 7"
abbreviation GPGME_STATUS_RSA_OR_IDEA :: int where "GPGME_STATUS_RSA_OR_IDEA \<equiv> 8"
abbreviation GPGME_STATUS_KEYEXPIRED :: int where "GPGME_STATUS_KEYEXPIRED \<equiv> 9"
abbreviation GPGME_STATUS_KEYREVOKED :: int where "GPGME_STATUS_KEYREVOKED \<equiv> 10"
abbreviation GPGME_STATUS_TRUST_UNDEFINED :: int where "GPGME_STATUS_TRUST_UNDEFINED \<equiv> 11"
abbreviation GPGME_STATUS_TRUST_NEVER :: int where "GPGME_STATUS_TRUST_NEVER \<equiv> 12"
abbreviation GPGME_STATUS_TRUST_MARGINAL :: int where "GPGME_STATUS_TRUST_MARGINAL \<equiv> 13"
abbreviation GPGME_STATUS_TRUST_FULLY :: int where "GPGME_STATUS_TRUST_FULLY \<equiv> 14"
abbreviation GPGME_STATUS_TRUST_ULTIMATE :: int where "GPGME_STATUS_TRUST_ULTIMATE \<equiv> 15"
abbreviation GPGME_STATUS_SHM_INFO :: int where "GPGME_STATUS_SHM_INFO \<equiv> 16"
abbreviation GPGME_STATUS_SHM_GET :: int where "GPGME_STATUS_SHM_GET \<equiv> 17"
abbreviation GPGME_STATUS_SHM_GET_BOOL :: int where "GPGME_STATUS_SHM_GET_BOOL \<equiv> 18"
abbreviation GPGME_STATUS_SHM_GET_HIDDEN :: int where "GPGME_STATUS_SHM_GET_HIDDEN \<equiv> 19"
abbreviation GPGME_STATUS_NEED_PASSPHRASE :: int where "GPGME_STATUS_NEED_PASSPHRASE \<equiv> 20"
abbreviation GPGME_STATUS_VALIDSIG :: int where "GPGME_STATUS_VALIDSIG \<equiv> 21"
abbreviation GPGME_STATUS_SIG_ID :: int where "GPGME_STATUS_SIG_ID \<equiv> 22"
abbreviation GPGME_STATUS_ENC_TO :: int where "GPGME_STATUS_ENC_TO \<equiv> 23"
abbreviation GPGME_STATUS_NODATA :: int where "GPGME_STATUS_NODATA \<equiv> 24"
abbreviation GPGME_STATUS_BAD_PASSPHRASE :: int where "GPGME_STATUS_BAD_PASSPHRASE \<equiv> 25"
abbreviation GPGME_STATUS_NO_PUBKEY :: int where "GPGME_STATUS_NO_PUBKEY \<equiv> 26"
abbreviation GPGME_STATUS_NO_SECKEY :: int where "GPGME_STATUS_NO_SECKEY \<equiv> 27"
abbreviation GPGME_STATUS_NEED_PASSPHRASE_SYM :: int where "GPGME_STATUS_NEED_PASSPHRASE_SYM \<equiv> 28"
abbreviation GPGME_STATUS_DECRYPTION_FAILED :: int where "GPGME_STATUS_DECRYPTION_FAILED \<equiv> 29"
abbreviation GPGME_STATUS_DECRYPTION_OKAY :: int where "GPGME_STATUS_DECRYPTION_OKAY \<equiv> 30"
abbreviation GPGME_STATUS_MISSING_PASSPHRASE :: int where "GPGME_STATUS_MISSING_PASSPHRASE \<equiv> 31"
abbreviation GPGME_STATUS_GOOD_PASSPHRASE :: int where "GPGME_STATUS_GOOD_PASSPHRASE \<equiv> 32"
abbreviation GPGME_STATUS_GOODMDC :: int where "GPGME_STATUS_GOODMDC \<equiv> 33"
abbreviation GPGME_STATUS_BADMDC :: int where "GPGME_STATUS_BADMDC \<equiv> 34"
abbreviation GPGME_STATUS_ERRMDC :: int where "GPGME_STATUS_ERRMDC \<equiv> 35"
abbreviation GPGME_STATUS_IMPORTED :: int where "GPGME_STATUS_IMPORTED \<equiv> 36"
abbreviation GPGME_STATUS_IMPORT_OK :: int where "GPGME_STATUS_IMPORT_OK \<equiv> 37"
abbreviation GPGME_STATUS_IMPORT_PROBLEM :: int where "GPGME_STATUS_IMPORT_PROBLEM \<equiv> 38"
abbreviation GPGME_STATUS_IMPORT_RES :: int where "GPGME_STATUS_IMPORT_RES \<equiv> 39"
abbreviation GPGME_STATUS_FILE_START :: int where "GPGME_STATUS_FILE_START \<equiv> 40"
abbreviation GPGME_STATUS_FILE_DONE :: int where "GPGME_STATUS_FILE_DONE \<equiv> 41"
abbreviation GPGME_STATUS_FILE_ERROR :: int where "GPGME_STATUS_FILE_ERROR \<equiv> 42"
abbreviation GPGME_STATUS_BEGIN_DECRYPTION :: int where "GPGME_STATUS_BEGIN_DECRYPTION \<equiv> 43"
abbreviation GPGME_STATUS_END_DECRYPTION :: int where "GPGME_STATUS_END_DECRYPTION \<equiv> 44"
abbreviation GPGME_STATUS_BEGIN_ENCRYPTION :: int where "GPGME_STATUS_BEGIN_ENCRYPTION \<equiv> 45"
abbreviation GPGME_STATUS_END_ENCRYPTION :: int where "GPGME_STATUS_END_ENCRYPTION \<equiv> 46"
abbreviation GPGME_STATUS_DELETE_PROBLEM :: int where "GPGME_STATUS_DELETE_PROBLEM \<equiv> 47"
abbreviation GPGME_STATUS_GET_BOOL :: int where "GPGME_STATUS_GET_BOOL \<equiv> 48"
abbreviation GPGME_STATUS_GET_LINE :: int where "GPGME_STATUS_GET_LINE \<equiv> 49"
abbreviation GPGME_STATUS_GET_HIDDEN :: int where "GPGME_STATUS_GET_HIDDEN \<equiv> 50"
abbreviation GPGME_STATUS_GOT_IT :: int where "GPGME_STATUS_GOT_IT \<equiv> 51"
abbreviation GPGME_STATUS_PROGRESS :: int where "GPGME_STATUS_PROGRESS \<equiv> 52"
abbreviation GPGME_STATUS_SIG_CREATED :: int where "GPGME_STATUS_SIG_CREATED \<equiv> 53"
abbreviation GPGME_STATUS_SESSION_KEY :: int where "GPGME_STATUS_SESSION_KEY \<equiv> 54"
abbreviation GPGME_STATUS_NOTATION_NAME :: int where "GPGME_STATUS_NOTATION_NAME \<equiv> 55"
abbreviation GPGME_STATUS_NOTATION_DATA :: int where "GPGME_STATUS_NOTATION_DATA \<equiv> 56"
abbreviation GPGME_STATUS_POLICY_URL :: int where "GPGME_STATUS_POLICY_URL \<equiv> 57"
abbreviation GPGME_STATUS_BEGIN_STREAM :: int where "GPGME_STATUS_BEGIN_STREAM \<equiv> 58"
abbreviation GPGME_STATUS_END_STREAM :: int where "GPGME_STATUS_END_STREAM \<equiv> 59"
abbreviation GPGME_STATUS_KEY_CREATED :: int where "GPGME_STATUS_KEY_CREATED \<equiv> 60"
abbreviation GPGME_STATUS_USERID_HINT :: int where "GPGME_STATUS_USERID_HINT \<equiv> 61"
abbreviation GPGME_STATUS_UNEXPECTED :: int where "GPGME_STATUS_UNEXPECTED \<equiv> 62"
abbreviation GPGME_STATUS_INV_RECP :: int where "GPGME_STATUS_INV_RECP \<equiv> 63"
abbreviation GPGME_STATUS_NO_RECP :: int where "GPGME_STATUS_NO_RECP \<equiv> 64"
abbreviation GPGME_STATUS_ALREADY_SIGNED :: int where "GPGME_STATUS_ALREADY_SIGNED \<equiv> 65"
abbreviation GPGME_STATUS_SIGEXPIRED :: int where "GPGME_STATUS_SIGEXPIRED \<equiv> 66"
abbreviation GPGME_STATUS_EXPSIG :: int where "GPGME_STATUS_EXPSIG \<equiv> 67"
abbreviation GPGME_STATUS_EXPKEYSIG :: int where "GPGME_STATUS_EXPKEYSIG \<equiv> 68"
abbreviation GPGME_STATUS_TRUNCATED :: int where "GPGME_STATUS_TRUNCATED \<equiv> 69"
abbreviation GPGME_STATUS_ERROR :: int where "GPGME_STATUS_ERROR \<equiv> 70"
abbreviation GPGME_STATUS_NEWSIG :: int where "GPGME_STATUS_NEWSIG \<equiv> 71"
abbreviation GPGME_STATUS_REVKEYSIG :: int where "GPGME_STATUS_REVKEYSIG \<equiv> 72"
abbreviation GPGME_STATUS_SIG_SUBPACKET :: int where "GPGME_STATUS_SIG_SUBPACKET \<equiv> 73"
abbreviation GPGME_STATUS_NEED_PASSPHRASE_PIN :: int where "GPGME_STATUS_NEED_PASSPHRASE_PIN \<equiv> 74"
abbreviation GPGME_STATUS_SC_OP_FAILURE :: int where "GPGME_STATUS_SC_OP_FAILURE \<equiv> 75"
abbreviation GPGME_STATUS_SC_OP_SUCCESS :: int where "GPGME_STATUS_SC_OP_SUCCESS \<equiv> 76"
abbreviation GPGME_STATUS_CARDCTRL :: int where "GPGME_STATUS_CARDCTRL \<equiv> 77"
abbreviation GPGME_STATUS_BACKUP_KEY_CREATED :: int where "GPGME_STATUS_BACKUP_KEY_CREATED \<equiv> 78"
abbreviation GPGME_STATUS_PKA_TRUST_BAD :: int where "GPGME_STATUS_PKA_TRUST_BAD \<equiv> 79"
abbreviation GPGME_STATUS_PKA_TRUST_GOOD :: int where "GPGME_STATUS_PKA_TRUST_GOOD \<equiv> 80"
abbreviation GPGME_STATUS_PLAINTEXT :: int where "GPGME_STATUS_PLAINTEXT \<equiv> 81"
abbreviation GPGME_STATUS_INV_SGNR :: int where "GPGME_STATUS_INV_SGNR \<equiv> 82"
abbreviation GPGME_STATUS_NO_SGNR :: int where "GPGME_STATUS_NO_SGNR \<equiv> 83"
abbreviation GPGME_STATUS_SUCCESS :: int where "GPGME_STATUS_SUCCESS \<equiv> 84"
abbreviation GPGME_STATUS_DECRYPTION_INFO :: int where "GPGME_STATUS_DECRYPTION_INFO \<equiv> 85"
abbreviation GPGME_STATUS_PLAINTEXT_LENGTH :: int where "GPGME_STATUS_PLAINTEXT_LENGTH \<equiv> 86"
abbreviation GPGME_STATUS_MOUNTPOINT :: int where "GPGME_STATUS_MOUNTPOINT \<equiv> 87"
abbreviation GPGME_STATUS_PINENTRY_LAUNCHED :: int where "GPGME_STATUS_PINENTRY_LAUNCHED \<equiv> 88"
abbreviation GPGME_STATUS_ATTRIBUTE :: int where "GPGME_STATUS_ATTRIBUTE \<equiv> 89"
abbreviation GPGME_STATUS_BEGIN_SIGNING :: int where "GPGME_STATUS_BEGIN_SIGNING \<equiv> 90"
abbreviation GPGME_STATUS_KEY_NOT_CREATED :: int where "GPGME_STATUS_KEY_NOT_CREATED \<equiv> 91"
abbreviation GPGME_STATUS_INQUIRE_MAXLEN :: int where "GPGME_STATUS_INQUIRE_MAXLEN \<equiv> 92"
abbreviation GPGME_STATUS_FAILURE :: int where "GPGME_STATUS_FAILURE \<equiv> 93"
abbreviation GPGME_STATUS_KEY_CONSIDERED :: int where "GPGME_STATUS_KEY_CONSIDERED \<equiv> 94"
abbreviation GPGME_STATUS_TOFU_USER :: int where "GPGME_STATUS_TOFU_USER \<equiv> 95"
abbreviation GPGME_STATUS_TOFU_STATS :: int where "GPGME_STATUS_TOFU_STATS \<equiv> 96"
abbreviation GPGME_STATUS_TOFU_STATS_LONG :: int where "GPGME_STATUS_TOFU_STATS_LONG \<equiv> 97"
abbreviation GPGME_STATUS_NOTATION_FLAGS :: int where "GPGME_STATUS_NOTATION_FLAGS \<equiv> 98"
abbreviation GPGME_STATUS_DECRYPTION_COMPLIANCE_MODE :: int where "GPGME_STATUS_DECRYPTION_COMPLIANCE_MODE \<equiv> 99"
abbreviation GPGME_STATUS_VERIFICATION_COMPLIANCE_MODE :: int where "GPGME_STATUS_VERIFICATION_COMPLIANCE_MODE \<equiv> 100"

section \<open>The table\<close>

type_synonym status_entry = "string \<times> gpgme_status_code_t"

definition status_table :: "status_entry list" where
  "status_table =
    [(''ABORT'', GPGME_STATUS_ABORT),
     (''ALREADY_SIGNED'', GPGME_STATUS_ALREADY_SIGNED),
     (''ATTRIBUTE'', GPGME_STATUS_ATTRIBUTE),
     (''BACKUP_KEY_CREATED'', GPGME_STATUS_BACKUP_KEY_CREATED),
     (''BADARMOR'', GPGME_STATUS_BADARMOR),
     (''BADMDC'', GPGME_STATUS_BADMDC),
     (''BADSIG'', GPGME_STATUS_BADSIG),
     (''BAD_PASSPHRASE'', GPGME_STATUS_BAD_PASSPHRASE),
     (''BEGIN_DECRYPTION'', GPGME_STATUS_BEGIN_DECRYPTION),
     (''BEGIN_ENCRYPTION'', GPGME_STATUS_BEGIN_ENCRYPTION),
     (''BEGIN_SIGNING'', GPGME_STATUS_BEGIN_SIGNING),
     (''BEGIN_STREAM'', GPGME_STATUS_BEGIN_STREAM),
     (''CARDCTRL'', GPGME_STATUS_CARDCTRL),
     (''DECRYPTION_FAILED'', GPGME_STATUS_DECRYPTION_FAILED),
     (''DECRYPTION_INFO'', GPGME_STATUS_DECRYPTION_INFO),
     (''DECRYPTION_OKAY'', GPGME_STATUS_DECRYPTION_OKAY),
     (''DELETE_PROBLEM'', GPGME_STATUS_DELETE_PROBLEM),
     (''DECRYPTION_COMPLIANCE_MODE'', GPGME_STATUS_DECRYPTION_COMPLIANCE_MODE),
     (''ENC_TO'', GPGME_STATUS_ENC_TO),
     (''END_DECRYPTION'', GPGME_STATUS_END_DECRYPTION),
     (''END_ENCRYPTION'', GPGME_STATUS_END_ENCRYPTION),
     (''END_STREAM'', GPGME_STATUS_END_STREAM),
     (''ENTER'', GPGME_STATUS_ENTER),
     (''ERRMDC'', GPGME_STATUS_ERRMDC),
     (''ERROR'', GPGME_STATUS_ERROR),
     (''ERRSIG'', GPGME_STATUS_ERRSIG),
     (''EXPKEYSIG'', GPGME_STATUS_EXPKEYSIG),
     (''EXPSIG'', GPGME_STATUS_EXPSIG),
     (''FAILURE'', GPGME_STATUS_FAILURE),
     (''FILE_DONE'', GPGME_STATUS_FILE_DONE),
     (''FILE_ERROR'', GPGME_STATUS_FILE_ERROR),
     (''FILE_START'', GPGME_STATUS_FILE_START),
     (''GET_BOOL'', GPGME_STATUS_GET_BOOL),
     (''GET_HIDDEN'', GPGME_STATUS_GET_HIDDEN),
     (''GET_LINE'', GPGME_STATUS_GET_LINE),
     (''GOODMDC'', GPGME_STATUS_GOODMDC),
     (''GOODSIG'', GPGME_STATUS_GOODSIG),
     (''GOOD_PASSPHRASE'', GPGME_STATUS_GOOD_PASSPHRASE),
     (''GOT_IT'', GPGME_STATUS_GOT_IT),
     (''IMPORTED'', GPGME_STATUS_IMPORTED),
     (''IMPORT_OK'', GPGME_STATUS_IMPORT_OK),
     (''IMPORT_PROBLEM'', GPGME_STATUS_IMPORT_PROBLEM),
     (''IMPORT_RES'', GPGME_STATUS_IMPORT_RES),
     (''INQUIRE_MAXLEN'', GPGME_STATUS_INQUIRE_MAXLEN),
     (''INV_RECP'', GPGME_STATUS_INV_RECP),
     (''INV_SGNR'', GPGME_STATUS_INV_SGNR),
     (''KEYEXPIRED'', GPGME_STATUS_KEYEXPIRED),
     (''KEYREVOKED'', GPGME_STATUS_KEYREVOKED),
     (''KEY_CONSIDERED'', GPGME_STATUS_KEY_CONSIDERED),
     (''KEY_CREATED'', GPGME_STATUS_KEY_CREATED),
     (''KEY_NOT_CREATED'', GPGME_STATUS_KEY_NOT_CREATED),
     (''LEAVE'', GPGME_STATUS_LEAVE),
     (''MISSING_PASSPHRASE'', GPGME_STATUS_MISSING_PASSPHRASE),
     (''MOUNTPOINT'', GPGME_STATUS_MOUNTPOINT),
     (''NEED_PASSPHRASE'', GPGME_STATUS_NEED_PASSPHRASE),
     (''NEED_PASSPHRASE_PIN'', GPGME_STATUS_NEED_PASSPHRASE_PIN),
     (''NEED_PASSPHRASE_SYM'', GPGME_STATUS_NEED_PASSPHRASE_SYM),
     (''NEWSIG'', GPGME_STATUS_NEWSIG),
     (''NODATA'', GPGME_STATUS_NODATA),
     (''NOTATION_DATA'', GPGME_STATUS_NOTATION_DATA),
     (''NOTATION_FLAGS'', GPGME_STATUS_NOTATION_FLAGS),
     (''NOTATION_NAME'', GPGME_STATUS_NOTATION_NAME),
     (''NO_PUBKEY'', GPGME_STATUS_NO_PUBKEY),
     (''NO_RECP'', GPGME_STATUS_NO_RECP),
     (''NO_SECKEY'', GPGME_STATUS_NO_SECKEY),
     (''NO_SGNR'', GPGME_STATUS_NO_SGNR),
     (''PINENTRY_LAUNCHED'', GPGME_STATUS_PINENTRY_LAUNCHED),
     (''PKA_TRUST_BAD'', GPGME_STATUS_PKA_TRUST_BAD),
     (''PKA_TRUST_GOOD'', GPGME_STATUS_PKA_TRUST_GOOD),
     (''PLAINTEXT'', GPGME_STATUS_PLAINTEXT),
     (''PLAINTEXT_LENGTH'', GPGME_STATUS_PLAINTEXT_LENGTH),
     (''POLICY_URL'', GPGME_STATUS_POLICY_URL),
     (''PROGRESS'', GPGME_STATUS_PROGRESS),
     (''REVKEYSIG'', GPGME_STATUS_REVKEYSIG),
     (''RSA_OR_IDEA'', GPGME_STATUS_RSA_OR_IDEA),
     (''SC_OP_FAILURE'', GPGME_STATUS_SC_OP_FAILURE),
     (''SC_OP_SUCCESS'', GPGME_STATUS_SC_OP_SUCCESS),
     (''SESSION_KEY'', GPGME_STATUS_SESSION_KEY),
     (''SHM_GET'', GPGME_STATUS_SHM_GET),
     (''SHM_GET_BOOL'', GPGME_STATUS_SHM_GET_BOOL),
     (''SHM_GET_HIDDEN'', GPGME_STATUS_SHM_GET_HIDDEN),
     (''SHM_INFO'', GPGME_STATUS_SHM_INFO),
     (''SIGEXPIRED'', GPGME_STATUS_SIGEXPIRED),
     (''SIG_CREATED'', GPGME_STATUS_SIG_CREATED),
     (''SIG_ID'', GPGME_STATUS_SIG_ID),
     (''SIG_SUBPACKET'', GPGME_STATUS_SIG_SUBPACKET),
     (''SUCCESS'', GPGME_STATUS_SUCCESS),
     (''TOFU_STATS'', GPGME_STATUS_TOFU_STATS),
     (''TOFU_STATS_LONG'', GPGME_STATUS_TOFU_STATS_LONG),
     (''TOFU_USER'', GPGME_STATUS_TOFU_USER),
     (''TRUNCATED'', GPGME_STATUS_TRUNCATED),
     (''TRUST_FULLY'', GPGME_STATUS_TRUST_FULLY),
     (''TRUST_MARGINAL'', GPGME_STATUS_TRUST_MARGINAL),
     (''TRUST_NEVER'', GPGME_STATUS_TRUST_NEVER),
     (''TRUST_ULTIMATE'', GPGME_STATUS_TRUST_ULTIMATE),
     (''TRUST_UNDEFINED'', GPGME_STATUS_TRUST_UNDEFINED),
     (''UNEXPECTED'', GPGME_STATUS_UNEXPECTED),
     (''USERID_HINT'', GPGME_STATUS_USERID_HINT),
     (''VALIDSIG'', GPGME_STATUS_VALIDSIG),
     (''VERIFICATION_COMPLIANCE_MODE'', GPGME_STATUS_VERIFICATION_COMPLIANCE_MODE)]"

text \<open>\<open>_gpgme_status_init\<close>: \<open>qsort\<close> by \<open>strcmp\<close> of the names, the terminator left out.\<close>

definition gpgme_status_init :: "status_entry list \<Rightarrow> status_entry list" where
  "gpgme_status_init tbl = sort_key fst tbl"

text \<open>\<open>bsearch\<close> of the C library on the entries \<open>lo\<close> to \<open>hi\<close> (exclusive).\<close>

function bsearch_status :: "status_entry list \<Rightarrow> string \<Rightarrow> nat \<Rightarrow> nat \<Rightarrow> status_entry option" where
  "bsearch_status tbl name lo hi =
     (if lo < hi then
        (let mid = (lo + hi) div 2; e = tbl ! mid in
         if name < fst e then bsearch_status tbl name lo mid
         else if name = fst e then Some e
         else bsearch_status tbl name (Suc mid) hi)
      else None)"
  by pat_completeness auto
termination
  by (relation "measure (\<lambda>(t, n, lo, hi). hi - lo)") auto

declare bsearch_status.simps [simp del]

definition gpgme_parse_status :: "status_entry list \<Rightarrow> string \<Rightarrow> gpgme_status_code_t" where
  "gpgme_parse_status tbl name =
     (case bsearch_status tbl name 0 (length tbl) of None \<Rightarrow> - 1 | Some r \<Rightarrow> snd r)"

text \<open>The linear scan sees the terminating entry (NULL, 0) behind the named ones.\<close>

definition gpgme_status_to_string :: "status_entry list \<Rightarrow> gpgme_status_code_t \<Rightarrow> string" where
  "gpgme_status_to_string tbl code =
     (case find (\<lambda>e. snd e = code) tbl of
        Some e \<Rightarrow> fst e
      | None \<Rightarrow> if code = 0 then [] else ''status_code_lost'')"

section \<open>Bisection against lookup\<close>

lemma bsearch_status_sound:
  "bsearch_status tbl name lo hi = Some e \<Longrightarrow> hi \<le> length tbl \<Longrightarrow> e \<in> set tbl \<and> fst e = name"
proof (induction tbl name lo hi rule: bsearch_status.induct)
  case (1 tbl name lo hi)
  define mid where "mid = (lo + hi) div 2"
  have lt: "lo < hi" using 1(3) bsearch_status.simps [of tbl name lo hi] by (auto split: if_splits)
  then have "mid < length tbl" using 1(4) by (simp add: mid_def)
  then show ?case
    using 1 lt bsearch_status.simps [of tbl name lo hi]
    by (auto simp: Let_def mid_def [symmetric] split: if_splits)
qed

lemma bsearch_status_complete:
  assumes srt: "sorted_wrt (\<lambda>a b. fst a < fst b) tbl"
  shows "lo \<le> i \<Longrightarrow> i < hi \<Longrightarrow> hi \<le> length tbl \<Longrightarrow>
    bsearch_status tbl (fst (tbl ! i)) lo hi = Some (tbl ! i)"
proof (induction "hi - lo" arbitrary: lo hi rule: less_induct)
  case less
  define mid where "mid = (lo + hi) div 2"
  have mid: "lo \<le> mid" "mid < hi" using less.prems by (simp_all add: mid_def)
  have order: "fst (tbl ! j) < fst (tbl ! k)" if "j < k" "k < length tbl" for j k
    using srt that by (rule sorted_wrt_nth_less)
  note unfold = bsearch_status.simps [of tbl "fst (tbl ! i)" lo hi, folded mid_def]
  consider "i < mid" | "i = mid" | "mid < i" by linarith
  then show ?case
  proof cases
    case 1
    then have "fst (tbl ! i) < fst (tbl ! mid)" using order mid less.prems by simp
    moreover have "bsearch_status tbl (fst (tbl ! i)) lo mid = Some (tbl ! i)"
      using less.hyps [of mid lo] less.prems mid 1 by simp
    ultimately show ?thesis using less.prems unfold by (simp add: Let_def)
  next
    case 2
    then show ?thesis using less.prems unfold by (simp add: Let_def)
  next
    case 3
    then have "fst (tbl ! mid) < fst (tbl ! i)" using order less.prems by simp
    moreover have "bsearch_status tbl (fst (tbl ! i)) (Suc mid) hi = Some (tbl ! i)"
      using less.hyps [of hi "Suc mid"] less.prems mid 3 by simp
    ultimately show ?thesis using less.prems unfold by (auto simp: Let_def)
  qed
qed

lemma keys_distinct:
  assumes "sorted_wrt (\<lambda>a b. fst a < fst b) tbl"
  shows "distinct (map fst (tbl :: (string \<times> int) list))"
proof -
  have "sorted_wrt (<) (map fst tbl)" using assms by (simp only: sorted_wrt_map)
  then show ?thesis by (simp only: strict_sorted_iff)
qed

lemma bsearch_status_map_of:
  assumes "sorted_wrt (\<lambda>a b. fst a < fst b) tbl"
  shows "map_option snd (bsearch_status tbl name 0 (length tbl)) = map_of tbl name"
proof (cases "bsearch_status tbl name 0 (length tbl)")
  case None
  have "map_of tbl name = None"
  proof (rule ccontr)
    assume "map_of tbl name \<noteq> None"
    then obtain c where "(name, c) \<in> set tbl" by (auto dest: map_of_SomeD)
    then obtain i where "i < length tbl" "fst (tbl ! i) = name" by (metis in_set_conv_nth fst_conv)
    with bsearch_status_complete [OF assms, of 0 i "length tbl"] None show False by simp
  qed
  then show ?thesis using None by simp
next
  case (Some e)
  then have "e \<in> set tbl" "fst e = name" using bsearch_status_sound by fastforce+
  moreover have "distinct (map fst tbl)" using assms by (rule keys_distinct)
  ultimately have "map_of tbl name = Some (snd e)" by (metis map_of_is_SomeI prod.collapse)
  then show ?thesis using Some by simp
qed

section \<open>The initialised table\<close>

lemma status_names_distinct: "distinct (map fst status_table)"
  by code_simp

lemma status_codes_distinct: "distinct (map snd status_table)"
  by code_simp

lemma status_codes_range: "snd ` set status_table = {1..100}"
proof -
  have "set (map snd status_table) = set [1..100]" by code_simp
  then show ?thesis by simp
qed

lemma status_init_sorted: "sorted_wrt (\<lambda>a b. fst a < fst b) (gpgme_status_init status_table)"
proof -
  have "sorted (map fst (gpgme_status_init status_table))" by (simp add: gpgme_status_init_def)
  moreover have "distinct (map fst (gpgme_status_init status_table))"
    using status_names_distinct
    by (simp add: gpgme_status_init_def distinct_map inj_on_def)
  ultimately have "sorted_wrt (<) (map fst (gpgme_status_init status_table))"
    by (simp add: strict_sorted_iff)
  then show ?thesis by (simp add: sorted_wrt_map)
qed

lemma status_init_map_of: "map_of (gpgme_status_init status_table) = map_of status_table"
proof (rule map_of_eqI)
  show "set (map fst (gpgme_status_init status_table)) = set (map fst status_table)"
    by (simp add: gpgme_status_init_def)
  show "\<forall>k\<in>set (map fst (gpgme_status_init status_table)).
      map_of (gpgme_status_init status_table) k = map_of status_table k"
  proof
    fix k assume "k \<in> set (map fst (gpgme_status_init status_table))"
    then obtain v where v: "(k, v) \<in> set status_table" by (auto simp: gpgme_status_init_def)
    have "distinct (map fst (gpgme_status_init status_table))"
      using status_init_sorted by (rule keys_distinct)
    then have "map_of (gpgme_status_init status_table) k = Some v"
      using v by (intro map_of_is_SomeI) (simp_all add: gpgme_status_init_def)
    moreover have "map_of status_table k = Some v"
      using v status_names_distinct by (intro map_of_is_SomeI)
    ultimately show "map_of (gpgme_status_init status_table) k = map_of status_table k" by simp
  qed
qed

lemma parse_status_lookup:
  "gpgme_parse_status (gpgme_status_init status_table) name =
     (case map_of status_table name of None \<Rightarrow> - 1 | Some c \<Rightarrow> c)"
  using bsearch_status_map_of [OF status_init_sorted, of name] status_init_map_of
  by (auto simp: gpgme_parse_status_def split: option.splits)

lemma status_to_string_entry:
  assumes "(name, code) \<in> set status_table"
  shows "gpgme_status_to_string (gpgme_status_init status_table) code = name"
proof -
  let ?t = "gpgme_status_init status_table"
  have mem: "(name, code) \<in> set ?t" using assms by (simp add: gpgme_status_init_def)
  then have "find (\<lambda>e. snd e = code) ?t \<noteq> None" by (auto simp: find_None_iff)
  then obtain e where e: "find (\<lambda>e. snd e = code) ?t = Some e" by blast
  then have "e \<in> set ?t" and code: "snd e = code" by (auto simp: find_Some_iff)
  then have "e \<in> set status_table" by (simp only: gpgme_status_init_def set_sort)
  moreover have "inj_on snd (set status_table)"
    using status_codes_distinct by (simp only: distinct_map)
  ultimately have "e = (name, code)"
    using assms code by (intro inj_onD [of snd]) simp_all
  then show ?thesis using e by (simp add: gpgme_status_to_string_def)
qed

section \<open>Properties\<close>

text \<open>
  After start up, the bisection over the sorted table finds exactly what the table as
  written in the source lists: the code of a listed keyword and -1 for any other string,
  although the source table itself is not in order.
\<close>

theorem parse_status_reference:
  "gpgme_parse_status (gpgme_status_init status_table) name =
     (case map_of status_table name of None \<Rightarrow> - 1 | Some c \<Rightarrow> c)"
  by (rule parse_status_lookup)

text \<open>
  Keywords and codes translate back and forth: every code from 1 to 100 has a keyword that
  parses to it, the end-of-file code 0 has the empty one, and every other code is reported lost.
\<close>

theorem status_string_roundtrip:
  "(code \<in> {1..100} \<longrightarrow> gpgme_parse_status (gpgme_status_init status_table)
        (gpgme_status_to_string (gpgme_status_init status_table) code) = code)
   \<and> (code \<notin> {0..100} \<longrightarrow>
        gpgme_status_to_string (gpgme_status_init status_table) code = ''status_code_lost'')
   \<and> gpgme_status_to_string (gpgme_status_init status_table) GPGME_STATUS_EOF = []"
proof -
  let ?t = "gpgme_status_init status_table"
  have none: "find (\<lambda>e. snd e = c) ?t = None" if "c \<notin> {1..100}" for c
  proof -
    have "c \<notin> snd ` set ?t"
      using that by (simp only: gpgme_status_init_def set_sort status_codes_range not_False_eq_True)
    then show ?thesis by (force simp: find_None_iff)
  qed
  have "gpgme_parse_status ?t (gpgme_status_to_string ?t code) = code" if "code \<in> {1..100}"
  proof -
    have "code \<in> snd ` set status_table" using that by (simp only: status_codes_range)
    then obtain name where n: "(name, code) \<in> set status_table" by (auto simp del: set_simps)
    then have "map_of status_table name = Some code"
      using status_names_distinct by (intro map_of_is_SomeI)
    then show ?thesis by (simp add: status_to_string_entry [OF n] parse_status_lookup)
  qed
  then show ?thesis using none by (auto simp: gpgme_status_to_string_def)
qed

theorem status_string_roundtrip_witness:
  "gpgme_parse_status (gpgme_status_init status_table)
        (gpgme_status_to_string (gpgme_status_init status_table) 99) = 99"
  using status_string_roundtrip [of 99] by simp

end
