(* ===== verification/Gpgme_MboxUtil.thy ===== *)
theory Gpgme_MboxUtil
  imports Gpgme_Prelude "HOL-Library.Sublist"
begin

text \<open>
  Mail addresses in user ids: \<open>src/src/mbox-util.c\<close>.  A C string is the list of the characters
  before its terminator and a buffer with a length is a list that may contain NUL.  The memory
  scan of \<open>my_memstr\<close> walks over the terminator of its pattern when it meets a NUL in the
  buffer; the model returns \<open>UB\<close> there.  The results of \<open>malloc\<close> and \<open>strdup\<close> are the Boolean
  argument \<open>core\<close>; a NULL result comes with the value of \<open>errno\<close>.
\<close>

section \<open>Definitions\<close>

definition ascii_lwr_chr :: "char \<Rightarrow> char" where
  "ascii_lwr_chr c =
     (if \<not> bit (uchar c) 7 \<and> 65 \<le> uchar c \<and> uchar c \<le> 90 then char_of (or (uchar c) 32) else c)"

definition ascii_strlwr :: "cstring \<Rightarrow> cstring" where
  "ascii_strlwr s = map ascii_lwr_chr s"

fun string_count_chr :: "cstring \<Rightarrow> char \<Rightarrow> nat" where
  "string_count_chr [] c = 0"
| "string_count_chr (x # s) c = (if x = c then Suc (string_count_chr s c) else string_count_chr s c)"

fun mem_count_chr :: "string \<Rightarrow> char \<Rightarrow> nat" where
  "mem_count_chr [] c = 0"
| "mem_count_chr (x # s) c = (if x = c then Suc (mem_count_chr s c) else mem_count_chr s c)"

text \<open>
  The inner loop of \<open>my_memstr\<close>: compare the buffer with the rest of the pattern and return
  what is left of the pattern, or \<open>None\<close> when the comparison goes on behind the pattern's end.
\<close>

fun memstr_rest :: "string \<Rightarrow> cstring \<Rightarrow> cstring option" where
  "memstr_rest [] s = Some s"
| "memstr_rest (x # t) [] = (if x = NUL then None else Some [])"
| "memstr_rest (x # t) (y # s) = (if x = y then memstr_rest t s else Some (y # s))"

fun memstr_scan :: "nat \<Rightarrow> string \<Rightarrow> cstring \<Rightarrow> nat option cres" where
  "memstr_scan off [] sub = Ok None"
| "memstr_scan off (x # t) sub =
     (if x = peek sub
      then (if sub = [] then UB
            else case memstr_rest t (tl sub) of
                None \<Rightarrow> UB
              | Some s \<Rightarrow> if s = [] then Ok (Some off) else memstr_scan (Suc off) t sub)
      else memstr_scan (Suc off) t sub)"

definition my_memstr :: "string \<Rightarrow> cstring \<Rightarrow> nat option cres" where
  "my_memstr buf sub = memstr_scan 0 buf sub"

fun string_has_ctrl_or_space :: "cstring \<Rightarrow> bool" where
  "string_has_ctrl_or_space [] = False"
| "string_has_ctrl_or_space (x # s) =
     (if \<not> bit (uchar x) 7 \<and> schar x \<le> 32 then True else string_has_ctrl_or_space s)"

definition has_dotdot_after_at :: "cstring \<Rightarrow> bool" where
  "has_dotdot_after_at s =
     (case strchr_split CHR ''@'' s of
        (_, None) \<Rightarrow> False
      | (_, Some t) \<Rightarrow> sublist ''..'' t)"

definition valid_chars :: cstring where
  "valid_chars = ''01234567890_-.abcdefghijklmnopqrstuvwxyzABCDEFGHIJKLMNOPQRSTUVWXYZ''"

definition atext_specials :: cstring where
  "atext_specials = ''!#$%&'' @ [CHR 0x27] @ ''*+/=?^'' @ [CHR 0x60] @ ''{|}~''"

fun invalid_email_loop :: "bool \<Rightarrow> string \<Rightarrow> bool" where
  "invalid_email_loop at_seen [] = False"
| "invalid_email_loop at_seen (x # s) =
     (if x = NUL then False
      else if bit (uchar x) 7 then invalid_email_loop at_seen s
      else if x = CHR ''@'' then invalid_email_loop True s
      else if \<not> at_seen \<and> \<not> (x \<in> set valid_chars \<or> x \<in> set atext_specials) then True
      else if at_seen \<and> x \<notin> set valid_chars then True
      else invalid_email_loop at_seen s)"

definition has_invalid_email_chars :: "string \<Rightarrow> bool" where
  "has_invalid_email_chars buf = invalid_email_loop False buf"

definition is_valid_mailbox_mem :: "string \<Rightarrow> bool cres" where
  "is_valid_mailbox_mem name =
     (if name = [] \<or> has_invalid_email_chars name \<or> mem_count_chr name CHR ''@'' \<noteq> 1
         \<or> hd name = CHR ''@'' \<or> last name = CHR ''@'' \<or> last name = CHR ''.''
      then Ok False
      else case my_memstr name ''..'' of
          UB \<Rightarrow> UB
        | Err e \<Rightarrow> Err e
        | Ok p \<Rightarrow> Ok (p = None))"

definition gpgme_is_valid_mailbox :: "cstring option \<Rightarrow> bool cres" where
  "gpgme_is_valid_mailbox name =
     (case name of None \<Rightarrow> Ok False | Some s \<Rightarrow> is_valid_mailbox_mem s)"

text \<open>The basic checks on the part between the angle brackets, which is not empty.\<close>

definition basic_address_checks :: "cstring \<Rightarrow> bool" where
  "basic_address_checks r \<longleftrightarrow>
     \<not> (string_count_chr r CHR ''@'' \<noteq> 1 \<or> hd r = CHR ''@'' \<or> last r = CHR ''@''
        \<or> last r = CHR ''.'' \<or> string_has_ctrl_or_space r \<or> has_dotdot_after_at r)"

definition gpgme_mailbox_from_userid :: "bool \<Rightarrow> cstring \<Rightarrow> cstring cres" where
  "gpgme_mailbox_from_userid core userid =
     (case strchr_split CHR ''<'' userid of
        (_, Some s) \<Rightarrow>
          (case strchr_split CHR ''>'' s of
             (addr, Some _) \<Rightarrow>
               (if addr = [] then Err (syserror EINVAL)
                else if \<not> core then Err (syserror ENOMEM)
                else if \<not> basic_address_checks addr then Err (syserror EINVAL)
                else Ok (ascii_strlwr addr))
           | (_, None) \<Rightarrow> Err (syserror EINVAL))
      | (_, None) \<Rightarrow>
          (case gpgme_is_valid_mailbox (Some userid) of
             UB \<Rightarrow> UB
           | Err e \<Rightarrow> Err e
           | Ok valid \<Rightarrow>
               if valid then (if core then Ok (ascii_strlwr userid) else Err (syserror ENOMEM))
               else Err (syserror EINVAL)))"

definition gpgme_addrspec_from_uid :: "bool \<Rightarrow> cstring \<Rightarrow> cstring cres" where
  "gpgme_addrspec_from_uid core uid = gpgme_mailbox_from_userid core uid"

section \<open>The memory search\<close>

lemma memstr_rest_ok:
  "NUL \<notin> set t \<Longrightarrow>
   \<exists>s'. memstr_rest t s = Some s' \<and> (s' = [] \<longleftrightarrow> prefix s t)"
  by (induction t s rule: memstr_rest.induct) auto

text \<open>The offset of the first occurrence of a pattern, as a reference.\<close>

fun first_occ :: "nat \<Rightarrow> 'a list \<Rightarrow> 'a list \<Rightarrow> nat option" where
  "first_occ off sub [] = None"
| "first_occ off sub (x # t) = (if prefix sub (x # t) then Some off else first_occ (Suc off) sub t)"

lemma memstr_scan_first_occ:
  assumes "sub \<noteq> []"
  shows "NUL \<notin> set buf \<Longrightarrow> memstr_scan off buf sub = Ok (first_occ off sub buf)"
proof (induction buf arbitrary: off)
  case (Cons x t)
  obtain y s where sub: "sub = y # s" using assms by (cases sub) auto
  obtain s' where "memstr_rest t s = Some s'" "s' = [] \<longleftrightarrow> prefix s t"
    using memstr_rest_ok [of t s] Cons.prems by auto
  then show ?case using Cons by (auto simp: sub)
qed simp

lemma first_occ_None: "sub \<noteq> [] \<Longrightarrow> first_occ off sub buf = None \<longleftrightarrow> \<not> sublist sub buf"
  by (induction buf arbitrary: off) (auto simp: sublist_Cons_right)

lemma first_occ_Some:
  "sub \<noteq> [] \<Longrightarrow> first_occ off sub buf = Some i \<Longrightarrow>
   off \<le> i \<and> prefix sub (drop (i - off) buf) \<and> (\<forall>j < i - off. \<not> prefix sub (drop j buf))"
proof (induction buf arbitrary: off)
  case (Cons x t)
  show ?case
  proof (cases "prefix sub (x # t)")
    case False
    then have IH: "Suc off \<le> i \<and> prefix sub (drop (i - Suc off) t)
        \<and> (\<forall>j < i - Suc off. \<not> prefix sub (drop j t))"
      using Cons by simp
    then have i: "i - off = Suc (i - Suc off)" by linarith
    show ?thesis using IH False by (simp add: i All_less_Suc2)
  qed (use Cons.prems in simp)
qed simp

section \<open>Character classes\<close>

lemma mem_count_chr_count: "mem_count_chr s c = count_list s c"
  by (induction s) auto

lemma string_count_chr_count: "string_count_chr s c = count_list s c"
  by (induction s) auto

lemma uchar_bit7: "bit (uchar c) 7 \<longleftrightarrow> 128 \<le> uchar c"
proof -
  have "bit (uchar c) 7 \<longleftrightarrow> uchar c div 128 mod 2 = 1"
    by (simp add: bit_iff_odd odd_iff_mod_2_eq_one)
  moreover have "uchar c div 128 < 2" using uchar_less [of c] by (simp add: div_less_iff_less_mult)
  ultimately have "bit (uchar c) 7 \<longleftrightarrow> uchar c div 128 = 1" by (cases "uchar c div 128") auto
  then show ?thesis using \<open>uchar c div 128 < 2\<close> by linarith
qed

lemma or_32_letter: "65 \<le> n \<Longrightarrow> n \<le> 90 \<Longrightarrow> or n 32 = n + (32 :: nat)"
proof -
  assume "65 \<le> n" "n \<le> 90"
  then have "n \<in> set [65..<91]" by (simp only: set_upt atLeastLessThan_iff) simp
  moreover have "\<forall>n \<in> set [65..<91]. or n 32 = n + (32 :: nat)" by code_simp
  ultimately show ?thesis by blast
qed

definition is_upper :: "char \<Rightarrow> bool" where
  "is_upper c \<longleftrightarrow> 65 \<le> uchar c \<and> uchar c \<le> 90"

lemma ascii_lwr_chr_upper:
  "is_upper c \<Longrightarrow> uchar (ascii_lwr_chr c) = uchar c + 32"
  by (simp add: ascii_lwr_chr_def is_upper_def uchar_bit7 or_32_letter)
     (simp add: uchar_def or_32_letter)

lemma ascii_lwr_chr_other: "\<not> is_upper c \<Longrightarrow> ascii_lwr_chr c = c"
  by (auto simp: ascii_lwr_chr_def is_upper_def)

lemma ascii_lwr_chr_not_upper: "\<not> is_upper (ascii_lwr_chr c)"
  using ascii_lwr_chr_upper [of c] ascii_lwr_chr_other [of c]
  by (cases "is_upper c") (auto simp: is_upper_def)

lemma ascii_lwr_chr_eq:
  assumes "\<not> (97 \<le> uchar d \<and> uchar d \<le> 122)" "\<not> is_upper d"
  shows "ascii_lwr_chr c = d \<longleftrightarrow> c = d"
proof (cases "is_upper c")
  case True
  then have "uchar (ascii_lwr_chr c) \<noteq> uchar d" "uchar c \<noteq> uchar d"
    using assms ascii_lwr_chr_upper [of c] by (auto simp: is_upper_def)
  then show ?thesis by auto
qed (simp add: ascii_lwr_chr_other)

lemma ascii_lwr_marks [simp]:
  "ascii_lwr_chr c = CHR ''@'' \<longleftrightarrow> c = CHR ''@''"
  "ascii_lwr_chr c = CHR ''.'' \<longleftrightarrow> c = CHR ''.''"
  "ascii_lwr_chr c = NUL \<longleftrightarrow> c = NUL"
  "CHR ''@'' = ascii_lwr_chr c \<longleftrightarrow> c = CHR ''@''"
  "CHR ''.'' = ascii_lwr_chr c \<longleftrightarrow> c = CHR ''.''"
  using ascii_lwr_chr_eq [of "CHR ''@''" c] ascii_lwr_chr_eq [of "CHR ''.''" c]
    ascii_lwr_chr_eq [of NUL c]
  by (auto simp: is_upper_def uchar_def)

lemma ascii_strlwr_idem [simp]: "ascii_strlwr (ascii_strlwr s) = ascii_strlwr s"
  by (simp add: ascii_strlwr_def ascii_lwr_chr_other ascii_lwr_chr_not_upper)

lemma at_in_strlwr: "CHR ''@'' \<in> set (ascii_strlwr s) \<longleftrightarrow> CHR ''@'' \<in> set s"
  by (induction s) (auto simp: ascii_strlwr_def)

definition is_ctrl_or_space :: "char \<Rightarrow> bool" where
  "is_ctrl_or_space c \<longleftrightarrow> uchar c \<le> 32"

lemma string_has_ctrl_or_space_iff:
  "string_has_ctrl_or_space s \<longleftrightarrow> (\<exists>c\<in>set s. is_ctrl_or_space c)"
  by (induction s) (auto simp: is_ctrl_or_space_def uchar_bit7 schar_def)

lemma ascii_lwr_ctrl: "is_ctrl_or_space (ascii_lwr_chr c) \<longleftrightarrow> is_ctrl_or_space c"
proof (cases "is_upper c")
  case True
  then show ?thesis using ascii_lwr_chr_upper [OF True]
    unfolding is_ctrl_or_space_def is_upper_def by linarith
qed (simp add: ascii_lwr_chr_other)

lemma valid_chars_graphic:
  "\<forall>c\<in>set (valid_chars @ atext_specials). \<not> is_ctrl_or_space c"
  by code_simp

lemma invalid_email_loop_graphic:
  "NUL \<notin> set s \<Longrightarrow> \<not> invalid_email_loop b s \<Longrightarrow> c \<in> set s \<Longrightarrow> \<not> is_ctrl_or_space c"
proof (induction b s rule: invalid_email_loop.induct)
  case (2 at_seen x s)
  have "\<not> is_ctrl_or_space x"
  proof (cases "bit (uchar x) 7 \<or> x = CHR ''@''")
    case True
    moreover have "\<not> is_ctrl_or_space CHR ''@''" by (simp add: is_ctrl_or_space_def uchar_def)
    ultimately show ?thesis by (auto simp: is_ctrl_or_space_def uchar_bit7)
  next
    case False
    then have "x \<in> set (valid_chars @ atext_specials)"
      using "2.prems" by (auto split: if_splits)
    then show ?thesis using valid_chars_graphic by blast
  qed
  then show ?case using 2 by (auto split: if_splits)
qed simp

section \<open>What an accepted address looks like\<close>

text \<open>The shape of an address, stated without reference to the scanning code.\<close>

definition plain_address :: "cstring \<Rightarrow> bool" where
  "plain_address m \<longleftrightarrow>
     (\<exists>l d. m = l @ [CHR ''@''] @ d \<and> CHR ''@'' \<notin> set l \<and> CHR ''@'' \<notin> set d
        \<and> l \<noteq> [] \<and> d \<noteq> [] \<and> last d \<noteq> CHR ''.'' \<and> \<not> sublist ''..'' d)
     \<and> (\<forall>c\<in>set m. \<not> is_ctrl_or_space c)"

lemma plain_address_parts:
  assumes "CHR ''@'' \<notin> set l" "CHR ''@'' \<notin> set d" "l \<noteq> []" "d \<noteq> []" "last d \<noteq> CHR ''.''"
    "\<not> sublist ''..'' d" "\<forall>c\<in>set (l @ CHR ''@'' # d). \<not> is_ctrl_or_space c"
  shows "plain_address (l @ CHR ''@'' # d)"
proof -
  have "l @ CHR ''@'' # d = l @ [CHR ''@''] @ d" by simp
  then show ?thesis unfolding plain_address_def using assms by blast
qed

lemma one_at_split:
  assumes "count_list m CHR ''@'' = 1"
  obtains l d where "m = l @ CHR ''@'' # d" "CHR ''@'' \<notin> set l" "CHR ''@'' \<notin> set d"
proof -
  have "CHR ''@'' \<in> set m" using assms by (metis count_notin zero_neq_one)
  then obtain l d where ld: "m = l @ CHR ''@'' # d" "CHR ''@'' \<notin> set l"
    using split_list_first by metis
  then have "CHR ''@'' \<notin> set d" using assms by (simp add: count_list_0_iff)
  with ld that show ?thesis by blast
qed

lemma plain_addressI:
  assumes "count_list m CHR ''@'' = 1" "hd m \<noteq> CHR ''@''" "last m \<noteq> CHR ''@''"
    "last m \<noteq> CHR ''.''" "\<forall>c\<in>set m. \<not> is_ctrl_or_space c" "\<not> has_dotdot_after_at m"
  shows "plain_address m"
proof -
  obtain l d where m: "m = l @ CHR ''@'' # d" "CHR ''@'' \<notin> set l" "CHR ''@'' \<notin> set d"
    using assms(1) by (rule one_at_split)
  then have "strchr_split CHR ''@'' m = (l, Some d)" by (simp add: strchr_split_Some)
  then have "\<not> sublist ''..'' d" using assms(6) by (simp add: has_dotdot_after_at_def)
  moreover have "l \<noteq> []" "d \<noteq> []" using assms m by (auto split: if_splits)
  ultimately show ?thesis using assms m
    unfolding m(1) by (intro plain_address_parts) (auto split: if_splits)
qed

lemma basic_checks_plain: "basic_address_checks r \<Longrightarrow> plain_address r"
  by (rule plain_addressI)
     (auto simp: basic_address_checks_def string_count_chr_count string_has_ctrl_or_space_iff)

lemma dotdot_tail: "\<not> sublist ''..'' m \<Longrightarrow> \<not> has_dotdot_after_at m"
proof (cases "strchr_split CHR ''@'' m")
  case (Pair a b)
  assume no: "\<not> sublist ''..'' m"
  show ?thesis
  proof (cases b)
    case (Some t)
    then have "m = (a @ [CHR ''@'']) @ t" using Pair by (simp add: strchr_split_Some)
    then have "sublist t m" by (metis append_Nil2 append_assoc sublist_appendI)
    then show ?thesis using no Some Pair
      by (auto simp: has_dotdot_after_at_def intro: sublist_order.order.trans)
  qed (simp add: has_dotdot_after_at_def Pair)
qed

lemma valid_mailbox_total:
  assumes "cstring_ok m"
  shows "\<exists>b. is_valid_mailbox_mem m = Ok b"
proof -
  have "memstr_scan 0 m ''..'' = Ok (first_occ 0 ''..'' m)"
    using memstr_scan_first_occ [of "''..''" m 0] assms by (simp add: cstring_ok_def)
  then show ?thesis
    unfolding is_valid_mailbox_mem_def my_memstr_def by (simp only: cres.case split: if_splits) blast
qed

lemma valid_mailbox_plain:
  assumes "cstring_ok m" "is_valid_mailbox_mem m = Ok True"
  shows "plain_address m"
proof (rule plain_addressI)
  have search: "my_memstr m ''..'' = Ok (first_occ 0 ''..'' m)"
    using memstr_scan_first_occ [of "''..''" m 0] assms by (simp add: my_memstr_def cstring_ok_def)
  have checks: "\<not> has_invalid_email_chars m" "mem_count_chr m CHR ''@'' = 1"
    "hd m \<noteq> CHR ''@''" "last m \<noteq> CHR ''@''" "last m \<noteq> CHR ''.''" "first_occ 0 ''..'' m = None"
    using assms(2) by (auto simp: is_valid_mailbox_mem_def search split: if_splits)
  show "hd m \<noteq> CHR ''@''" "last m \<noteq> CHR ''@''" "last m \<noteq> CHR ''.''" by fact+
  show "count_list m CHR ''@'' = 1" using checks by (simp add: mem_count_chr_count)
  show "\<forall>c\<in>set m. \<not> is_ctrl_or_space c"
    using checks(1) assms(1) invalid_email_loop_graphic
    by (auto simp: has_invalid_email_chars_def cstring_ok_def)
  show "\<not> has_dotdot_after_at m" using checks(6) by (intro dotdot_tail) (simp add: first_occ_None)
qed

lemma sublist_dotdot_strlwr: "sublist ''..'' (ascii_strlwr d) \<longleftrightarrow> sublist ''..'' d"
proof (induction d)
  case (Cons x d)
  have "prefix ''..'' (ascii_strlwr (x # d)) \<longleftrightarrow> prefix ''..'' (x # d)"
    by (cases d) (auto simp: ascii_strlwr_def)
  then show ?case using Cons by (auto simp: sublist_Cons_right ascii_strlwr_def)
qed (simp add: ascii_strlwr_def)

lemma plain_address_strlwr: "plain_address m \<Longrightarrow> plain_address (ascii_strlwr m)"
proof -
  assume "plain_address m"
  then obtain l d where "m = l @ [CHR ''@''] @ d" "CHR ''@'' \<notin> set l" "CHR ''@'' \<notin> set d"
    "l \<noteq> []" "d \<noteq> []" "last d \<noteq> CHR ''.''" "\<not> sublist ''..'' d" "\<forall>c\<in>set m. \<not> is_ctrl_or_space c"
    unfolding plain_address_def by blast
  moreover from this have "ascii_strlwr m = ascii_strlwr l @ CHR ''@'' # ascii_strlwr d"
    by (simp add: ascii_strlwr_def)
  ultimately show ?thesis using sublist_dotdot_strlwr [of d]
    by (simp only:) (rule plain_address_parts;
        simp add: at_in_strlwr; force simp: ascii_strlwr_def ascii_lwr_ctrl last_map)
qed

section \<open>Properties\<close>

lemma mailbox_result_cases:
  assumes "cstring_ok uid"
  shows "gpgme_mailbox_from_userid core uid \<in> {Err (syserror EINVAL), Err (syserror ENOMEM)}
    \<or> (\<exists>m. sublist m uid \<and> plain_address m \<and> core
          \<and> gpgme_mailbox_from_userid core uid = Ok (ascii_strlwr m))"
proof (cases "strchr_split CHR ''<'' uid")
  case (Pair n r)
  show ?thesis
  proof (cases r)
    case None
    obtain b where "is_valid_mailbox_mem uid = Ok b" using valid_mailbox_total assms by blast
    moreover have "plain_address uid" if "is_valid_mailbox_mem uid = Ok True"
      using valid_mailbox_plain assms that by blast
    ultimately show ?thesis
      by (auto simp: gpgme_mailbox_from_userid_def gpgme_is_valid_mailbox_def Pair None)
  next
    case (Some s)
    obtain a r' where p: "strchr_split CHR ''>'' s = (a, r')" by (cases "strchr_split CHR ''>'' s")
    show ?thesis
    proof (cases r')
      case (Some t)
      then have "uid = (n @ [CHR ''<'']) @ a @ (CHR ''>'' # t)"
        using Pair p \<open>r = Some s\<close> by (simp add: strchr_split_Some)
      then have "sublist a uid" by (metis sublist_appendI)
      then show ?thesis using basic_checks_plain [of a]
        by (auto simp: gpgme_mailbox_from_userid_def Pair p Some \<open>r = Some s\<close>)
    qed (simp add: gpgme_mailbox_from_userid_def Pair p Some)
  qed
qed

text \<open>
  An address taken from a user id is well formed: it is the lower-cased text of a contiguous
  part of the user id, has a non-empty local part and a non-empty domain around exactly one at
  sign, no blanks or control characters, and a domain without two dots in a row or a dot at the
  end.  Without an address the call fails cleanly with EINVAL, or ENOMEM when out of core; the
  memory search inside never leaves its buffer.
\<close>

theorem mailbox_from_userid_wellformed:
  assumes "cstring_ok uid"
  shows "(case gpgme_mailbox_from_userid core uid of
      UB \<Rightarrow> False
    | Err e \<Rightarrow> e = syserror EINVAL \<or> e = syserror ENOMEM
    | Ok r \<Rightarrow> plain_address r \<and> (\<forall>c\<in>set r. \<not> is_upper c)
              \<and> (\<exists>m. sublist m uid \<and> r = ascii_strlwr m))"
  using mailbox_result_cases [OF assms, of core]
  by (auto simp: plain_address_strlwr) (auto simp: ascii_strlwr_def ascii_lwr_chr_not_upper)

theorem mailbox_from_userid_wellformed_witness:
  "cstring_ok ''Joe <Joe@X.org>'' \<and> plain_address ''joe@x.org''"
proof -
  have "gpgme_mailbox_from_userid True ''Joe <Joe@X.org>'' = Ok ''joe@x.org''" by code_simp
  then show ?thesis
    using mailbox_from_userid_wellformed [of "''Joe <Joe@X.org>''" True]
    by (simp add: cstring_ok_def)
qed

lemma plain_checks:
  assumes "plain_address a"
  shows "basic_address_checks a"
proof -
  obtain l d where a: "a = l @ [CHR ''@''] @ d" "CHR ''@'' \<notin> set l" "CHR ''@'' \<notin> set d"
    "l \<noteq> []" "d \<noteq> []" "last d \<noteq> CHR ''.''" "\<not> sublist ''..'' d" "\<forall>c\<in>set a. \<not> is_ctrl_or_space c"
    using assms unfolding plain_address_def by blast
  then have "strchr_split CHR ''@'' a = (l, Some d)" by (simp add: strchr_split_Some)
  then have "\<not> has_dotdot_after_at a" using a by (simp add: has_dotdot_after_at_def)
  moreover have "last d \<noteq> CHR ''@''" "hd l \<noteq> CHR ''@''" using a by (metis last_in_set hd_in_set)+
  ultimately show ?thesis using a
    by (simp add: basic_address_checks_def string_count_chr_count string_has_ctrl_or_space_iff
        count_list_0_iff)
qed

text \<open>
  Of a user id in the form \<open>Name <address> comment\<close> the address in the brackets is what is
  returned, in lower case, whenever it has the shape of an address; extracting the address from
  the result in brackets gives the result again.
\<close>

theorem mailbox_from_bracketed_userid:
  assumes "CHR ''<'' \<notin> set name" "CHR ''>'' \<notin> set addr" "plain_address addr"
  shows "gpgme_addrspec_from_uid True (name @ ''<'' @ addr @ ''>'' @ comment) = Ok (ascii_strlwr addr)
    \<and> gpgme_addrspec_from_uid True (''<'' @ ascii_strlwr addr @ ''>'') = Ok (ascii_strlwr addr)"
proof -
  have step: "gpgme_addrspec_from_uid True (n @ ''<'' @ a @ ''>'' @ t) = Ok (ascii_strlwr a)"
    if "CHR ''<'' \<notin> set n" "CHR ''>'' \<notin> set a" "plain_address a" for n a t
  proof -
    have "strchr_split CHR ''<'' (n @ ''<'' @ a @ ''>'' @ t) = (n, Some (a @ ''>'' @ t))"
      "strchr_split CHR ''>'' (a @ ''>'' @ t) = (a, Some t)"
      using that by (simp_all add: strchr_split_Some)
    moreover have "a \<noteq> []" using that by (auto simp: plain_address_def)
    ultimately show ?thesis using plain_checks [OF that(3)]
      by (simp add: gpgme_addrspec_from_uid_def gpgme_mailbox_from_userid_def)
  qed
  have "ascii_lwr_chr c = CHR ''>'' \<longleftrightarrow> c = CHR ''>''" for c
    by (rule ascii_lwr_chr_eq) (simp_all add: is_upper_def uchar_def)
  then have "CHR ''>'' \<notin> set (ascii_strlwr addr)"
    using assms(2) by (metis ascii_strlwr_def image_iff list.set_map)
  then show ?thesis
    using step [OF assms, of comment] step [of "[]" "ascii_strlwr addr" "[]"]
      plain_address_strlwr [OF assms(3)] by simp
qed

theorem mailbox_from_bracketed_userid_witness:
  "gpgme_addrspec_from_uid True (''Joe '' @ ''<'' @ ''Joe@X.org'' @ ''>'' @ '' (work)'') = Ok ''joe@x.org''"
proof -
  have "basic_address_checks ''Joe@X.org''" and lwr: "ascii_strlwr ''Joe@X.org'' = ''joe@x.org''"
    by code_simp+
  then have "plain_address ''Joe@X.org''" by (intro basic_checks_plain)
  moreover have "CHR ''<'' \<notin> set ''Joe ''" "CHR ''>'' \<notin> set ''Joe@X.org''" by simp_all
  ultimately show ?thesis
    using mailbox_from_bracketed_userid [of "''Joe ''" "''Joe@X.org''" "'' (work)''"]
    unfolding lwr by blast
qed

end
