(* ===== verification/Gpgme_DataMem.thy ===== *)
theory Gpgme_DataMem
  imports Gpgme_Prelude
begin

text \<open>
  The memory backed data object: the callbacks of \<open>src/src/data-mem.c\<close>.  A buffer obtained from
  \<open>malloc\<close> is a list of optional characters, \<open>None\<close> standing for a byte never written; copying
  such a byte out, or copying outside a buffer, is \<open>UB\<close>.  Whether an allocation of \<open>n\<close> bytes
  succeeds is the argument \<open>mal\<close>.  A callback returns the changed object and either the
  value of \<open>errno\<close> (the C function returns -1) or its result.

  The specification is a seekable file, a content and a position; the laws a callback table has to
  obey are the locale \<open>data_stream\<close>, and the last section shows that the memory callbacks obey
  them.
\<close>

section \<open>Sizes\<close>

definition SIZE_MOD :: nat where "SIZE_MOD = 18446744073709551616"

definition size_t :: "nat \<Rightarrow> nat" where
  "size_t n = n mod SIZE_MOD"

definition size_sub :: "nat \<Rightarrow> nat \<Rightarrow> nat" where
  "size_sub a b = (a + SIZE_MOD - b) mod SIZE_MOD"

lemma size_t_id [simp]: "n < SIZE_MOD \<Longrightarrow> size_t n = n"
  by (simp add: size_t_def)

lemma size_sub_id [simp]: "b \<le> a \<Longrightarrow> a < SIZE_MOD \<Longrightarrow> size_sub a b = a - b"
proof -
  assume "b \<le> a" "a < SIZE_MOD"
  then have "a + SIZE_MOD - b = (a - b) + SIZE_MOD" "a - b < SIZE_MOD" by linarith+
  then show ?thesis unfolding size_sub_def by (simp only: mod_add_self2 mod_less)
qed

abbreviation SEEK_SET :: int where "SEEK_SET \<equiv> 0"
abbreviation SEEK_CUR :: int where "SEEK_CUR \<equiv> 1"
abbreviation SEEK_END :: int where "SEEK_END \<equiv> 2"

section \<open>The object and its callbacks\<close>

type_synonym cbuffer = "char option list"

record mem_data =
  mem_buffer :: "cbuffer option"
  mem_orig :: "string option"
  mem_size :: nat
  mem_length :: nat
  mem_offset :: nat

definition mem_init :: mem_data where
  "mem_init = \<lparr> mem_buffer = None, mem_orig = None, mem_size = 0, mem_length = 0, mem_offset = 0 \<rparr>"

definition mem_src :: "mem_data \<Rightarrow> cbuffer option" where
  "mem_src m = (case mem_buffer m of Some b \<Rightarrow> Some b | None \<Rightarrow> map_option (map Some) (mem_orig m))"

text \<open>Copy \<open>n\<close> initialised bytes at \<open>off\<close> out of a buffer.\<close>

definition copy_out :: "cbuffer \<Rightarrow> nat \<Rightarrow> nat \<Rightarrow> string option" where
  "copy_out b off n =
     (let s = take n (drop off b) in
      if off + n \<le> length b \<and> None \<notin> set s then Some (map the s) else None)"

definition copy_in :: "cbuffer \<Rightarrow> nat \<Rightarrow> string \<Rightarrow> cbuffer option" where
  "copy_in b off s =
     (if off + length s \<le> length b
      then Some (take off b @ map Some s @ drop (off + length s) b) else None)"

definition mem_read :: "mem_data \<Rightarrow> nat \<Rightarrow> (mem_data \<times> (errno + string)) cres" where
  "mem_read m sz =
     (let avail = size_sub (mem_length m) (mem_offset m) in
      if avail = 0 then Ok (m, Inr [])
      else let amt = (if sz < avail then sz else avail) in
        case mem_src m of
          None \<Rightarrow> UB
        | Some src \<Rightarrow>
            (case copy_out src (mem_offset m) amt of
               None \<Rightarrow> UB
             | Some s \<Rightarrow> Ok (m\<lparr> mem_offset := mem_offset m + amt \<rparr>, Inr s)))"

text \<open>
  Writing to an object that still uses the caller's memory first makes a private copy of it;
  then the buffer is enlarged, with a second and smaller try when the first one fails.  The first
  component of the result is the value of \<open>errno\<close> for a failed allocation.
\<close>

definition mem_detach :: "(nat \<Rightarrow> bool) \<Rightarrow> mem_data \<Rightarrow> nat \<Rightarrow> (mem_data \<times> errno option) cres" where
  "mem_detach mal m sz =
     (case (mem_buffer m, mem_orig m) of
        (None, Some orig) \<Rightarrow>
          (let new_size = (if mem_size m < size_t (mem_offset m + sz)
                           then size_t (mem_offset m + sz) else mem_size m) in
           if \<not> mal new_size then Ok (m, Some ENOMEM)
           else if mem_length m \<le> length orig \<and> mem_length m \<le> new_size
           then Ok (m\<lparr> mem_buffer := Some (map Some (take (mem_length m) orig)
                           @ replicate (new_size - mem_length m) None),
                       mem_size := new_size \<rparr>, None)
           else UB)
      | _ \<Rightarrow> Ok (m, None))"

definition realloc :: "cbuffer option \<Rightarrow> nat \<Rightarrow> cbuffer" where
  "realloc b n = (let old = (case b of None \<Rightarrow> [] | Some b \<Rightarrow> b)
                  in take n old @ replicate (n - length old) None)"

abbreviation INITIAL_ALLOC :: nat where "INITIAL_ALLOC \<equiv> 512"

definition mem_enlarge :: "(nat \<Rightarrow> bool) \<Rightarrow> mem_data \<Rightarrow> nat \<Rightarrow> mem_data \<times> errno option" where
  "mem_enlarge mal m sz =
     (let unused = size_sub (mem_size m) (mem_offset m);
          needed = size_t (mem_offset m + sz) in
      if unused < sz
      then let new_size0 = (if mem_size m \<noteq> 0 then size_t (2 * mem_size m) else INITIAL_ALLOC);
               new_size = (if new_size0 < needed then needed else new_size0);
               got = (if mal new_size then Some new_size
                      else if new_size > needed \<and> mal needed then Some needed else None) in
        case got of
          None \<Rightarrow> (m, Some ENOMEM)
        | Some n \<Rightarrow> (m\<lparr> mem_buffer := Some (realloc (mem_buffer m) n), mem_size := n \<rparr>, None)
      else (m, None))"

text \<open>The final copy; a copy of no bytes to a missing buffer does nothing.\<close>

definition mem_store :: "mem_data \<Rightarrow> string \<Rightarrow> mem_data cres" where
  "mem_store m s =
     (let m1 = (case mem_buffer m of
                  None \<Rightarrow> if s = [] then Some m else None
                | Some b \<Rightarrow>
                    map_option (\<lambda>b'. m\<lparr> mem_buffer := Some b' \<rparr>) (copy_in b (mem_offset m) s)) in
      case m1 of
        None \<Rightarrow> UB
      | Some m1 \<Rightarrow>
          let off = mem_offset m + length s in
          Ok (m1\<lparr> mem_offset := off,
                   mem_length := (if mem_length m < off then off else mem_length m) \<rparr>))"

definition mem_write ::
  "(nat \<Rightarrow> bool) \<Rightarrow> mem_data \<Rightarrow> string \<Rightarrow> (mem_data \<times> (errno + nat)) cres" where
  "mem_write mal m s =
     (case mem_detach mal m (length s) of
        UB \<Rightarrow> UB | Err e \<Rightarrow> Err e
      | Ok (m1, Some e) \<Rightarrow> Ok (m1, Inl e)
      | Ok (m1, None) \<Rightarrow>
          (case mem_enlarge mal m1 (length s) of
             (m2, Some e) \<Rightarrow> Ok (m2, Inl e)
           | (m2, None) \<Rightarrow>
               (case mem_store m2 s of
                  UB \<Rightarrow> UB | Err e \<Rightarrow> Err e
                | Ok m3 \<Rightarrow> Ok (m3, Inr (length s)))))"

text \<open>Negating the smallest offset overflows.\<close>

definition mem_seek :: "mem_data \<Rightarrow> int \<Rightarrow> int \<Rightarrow> (mem_data \<times> (errno + int)) cres" where
  "mem_seek m offset whence =
     (let len = int (mem_length m); cur = int (mem_offset m);
          ok = (\<lambda>n. Ok (m\<lparr> mem_offset := nat n \<rparr>, Inr n)) in
      if whence = SEEK_SET then
        (if offset < 0 \<or> offset > len then Ok (m, Inl EINVAL) else ok offset)
      else if whence = SEEK_CUR then
        (if offset = LONG_MIN then UB
         else if offset > 0 \<and> to_ulong (len - cur) < offset \<or> offset < 0 \<and> cur < - offset
         then Ok (m, Inl EINVAL) else ok (cur + offset))
      else if whence = SEEK_END then
        (if offset = LONG_MIN then UB
         else if offset > 0 \<or> - offset > len then Ok (m, Inl EINVAL) else ok (len + offset))
      else Ok (m, Inl EINVAL))"

text \<open>
  The object made by \<open>gpgme_data_new_from_mem\<close> from the bytes \<open>buffer\<close>, or \<open>None\<close> when the
  copy can not be allocated.
\<close>

definition mem_from :: "(nat \<Rightarrow> bool) \<Rightarrow> string \<Rightarrow> bool \<Rightarrow> mem_data option" where
  "mem_from mal buffer copy =
     (let m = mem_init\<lparr> mem_size := length buffer, mem_length := length buffer \<rparr> in
      if copy then (if mal (length buffer)
                    then Some (m\<lparr> mem_buffer := Some (map Some buffer) \<rparr>) else None)
      else Some (m\<lparr> mem_orig := Some buffer \<rparr>))"

section \<open>The specification: a seekable file\<close>

type_synonym vfile = "string \<times> nat"

definition file_read :: "vfile \<Rightarrow> nat \<Rightarrow> string" where
  "file_read f n = take n (drop (snd f) (fst f))"

definition file_advance :: "vfile \<Rightarrow> nat \<Rightarrow> vfile" where
  "file_advance f n = (fst f, snd f + n)"

definition file_write :: "vfile \<Rightarrow> string \<Rightarrow> vfile" where
  "file_write f s = (take (snd f) (fst f) @ s @ drop (snd f + length s) (fst f), snd f + length s)"

definition file_target :: "vfile \<Rightarrow> int \<Rightarrow> int \<Rightarrow> int" where
  "file_target f offset whence =
     (if whence = SEEK_SET then offset
      else if whence = SEEK_CUR then int (snd f) + offset
      else if whence = SEEK_END then int (length (fst f)) + offset else - 1)"

text \<open>The laws of a callback table, the memory being plentiful or not.\<close>

locale data_stream =
  fixes rd :: "'d \<Rightarrow> nat \<Rightarrow> ('d \<times> (errno + string)) cres"
    and wr :: "(nat \<Rightarrow> bool) \<Rightarrow> 'd \<Rightarrow> string \<Rightarrow> ('d \<times> (errno + nat)) cres"
    and sk :: "'d \<Rightarrow> int \<Rightarrow> int \<Rightarrow> ('d \<times> (errno + int)) cres"
    and ok :: "'d \<Rightarrow> bool"
    and fview :: "'d \<Rightarrow> vfile"
  assumes ok_file: "ok d \<Longrightarrow> snd (fview d) \<le> length (fst (fview d)) \<and> length (fst (fview d)) < SIZE_MOD"
    and rd_law: "ok d \<Longrightarrow> \<exists>d'. rd d n = Ok (d', Inr (file_read (fview d) n)) \<and> ok d'
        \<and> fview d' = file_advance (fview d) (length (file_read (fview d) n))"
    and wr_law: "ok d \<Longrightarrow> snd (fview d) + length s < SIZE_MOD \<Longrightarrow>
        (\<exists>d'. wr mal d s = Ok (d', Inr (length s)) \<and> ok d' \<and> fview d' = file_write (fview d) s)
        \<or> (\<exists>d'. wr mal d s = Ok (d', Inl ENOMEM) \<and> ok d' \<and> fview d' = fview d \<and> \<not> (\<forall>n. mal n))"
    and sk_law: "ok d \<Longrightarrow> offset \<noteq> LONG_MIN \<Longrightarrow>
        (let t = file_target (fview d) offset whence in
         if 0 \<le> t \<and> t \<le> int (length (fst (fview d)))
         then \<exists>d'. sk d offset whence = Ok (d', Inr t) \<and> ok d' \<and> fview d' = (fst (fview d), nat t)
         else sk d offset whence = Ok (d, Inl EINVAL))"
begin

text \<open>Reading in pieces of at most \<open>n\<close> bytes until nothing comes any more.\<close>

fun drain :: "nat \<Rightarrow> 'd \<Rightarrow> nat \<Rightarrow> string option" where
  "drain 0 d n = None"
| "drain (Suc fuel) d n =
     (case rd d n of
        Ok (d', Inr s) \<Rightarrow> if s = [] then Some [] else map_option ((@) s) (drain fuel d' n)
      | _ \<Rightarrow> None)"

lemma drain_rest:
  assumes "0 < n"
  shows "ok d \<Longrightarrow> length (drop (snd (fview d)) (fst (fview d))) < fuel \<Longrightarrow>
    drain fuel d n = Some (drop (snd (fview d)) (fst (fview d)))"
proof (induction fuel arbitrary: d)
  case (Suc fuel)
  obtain c o' where f: "fview d = (c, o')" by (cases "fview d")
  define s where "s = take n (drop o' c)"
  obtain d' where d': "rd d n = Ok (d', Inr s)" "ok d'" "fview d' = (c, o' + length s)"
    using rd_law [OF Suc.prems(1), of n] by (auto simp: f s_def file_read_def file_advance_def)
  show ?case
  proof (cases "s = []")
    case True
    then show ?thesis using assms by (auto simp: d' f s_def)
  next
    case False
    have "drop (o' + length s) c = drop n (drop o' c)"
      by (cases "length c - o' \<le> n") (simp_all add: s_def min_def add.commute)
    moreover from this have "drain fuel d' n = Some (drop n (drop o' c))"
    proof -
      have "length c - (n + o') < fuel" using Suc.prems(2) False assms by (auto simp: f s_def)
      then show ?thesis using Suc.IH [OF d'(2)] \<open>drop (o' + length s) c = _\<close>
        by (metis d'(3) drop_drop fst_conv length_drop snd_conv)
    qed
    ultimately show ?thesis using False by (simp add: d' f s_def) (metis append_take_drop_id drop_drop)
  qed
qed simp

lemma write_back_and_read:
  assumes "ok d" "fview d = ([], 0)" "length s < SIZE_MOD" "\<forall>n. mal n"
  shows "\<exists>d1 d2. wr mal d s = Ok (d1, Inr (length s)) \<and> sk d1 0 SEEK_SET = Ok (d2, Inr 0)
    \<and> ok d2 \<and> fview d2 = (s, 0)"
proof -
  obtain d1 where d1: "wr mal d s = Ok (d1, Inr (length s))" "ok d1" "fview d1 = (s, length s)"
    using wr_law [OF assms(1), of s mal] assms by (auto simp: file_write_def)
  then show ?thesis
    using sk_law [OF d1(2), of 0 SEEK_SET] by (auto simp: file_target_def)
qed

end

section \<open>The memory callbacks implement the file\<close>

definition mem_content :: "mem_data \<Rightarrow> string" where
  "mem_content m = (case mem_src m of None \<Rightarrow> [] | Some b \<Rightarrow> map the (take (mem_length m) b))"

definition mem_file :: "mem_data \<Rightarrow> vfile" where
  "mem_file m = (mem_content m, mem_offset m)"

definition mem_ok :: "mem_data \<Rightarrow> bool" where
  "mem_ok m \<longleftrightarrow> mem_offset m \<le> mem_length m \<and> mem_length m \<le> mem_size m \<and> mem_size m < SIZE_MOD
     \<and> (case mem_buffer m of
          Some b \<Rightarrow> length b = mem_size m \<and> None \<notin> set (take (mem_length m) b)
        | None \<Rightarrow> (case mem_orig m of Some s \<Rightarrow> mem_length m \<le> length s | None \<Rightarrow> mem_size m = 0))"

lemma mem_ok_init [gpgme_inv]: "mem_ok mem_init" "mem_file mem_init = ([], 0)"
  by (simp_all add: mem_ok_def mem_init_def mem_file_def mem_content_def mem_src_def SIZE_MOD_def)

lemma mem_from_ok [gpgme_inv]:
  "length buffer < SIZE_MOD \<Longrightarrow> mem_from mal buffer copy = Some m \<Longrightarrow>
   mem_ok m \<and> mem_file m = (buffer, 0)"
  by (auto simp: mem_from_def mem_ok_def mem_init_def mem_file_def mem_content_def mem_src_def
      Let_def o_def split: if_splits)

lemma mem_content_offset [simp]: "mem_content (m\<lparr> mem_offset := k \<rparr>) = mem_content m"
  by (auto simp: mem_content_def mem_src_def split: option.splits)

lemma mem_ok_offset:
  "mem_ok m \<Longrightarrow> k \<le> mem_length m \<Longrightarrow> mem_ok (m\<lparr> mem_offset := k \<rparr>)"
  by (simp add: mem_ok_def split: option.splits)

lemma mem_ok_src:
  assumes "mem_ok m" "mem_length m \<noteq> 0"
  obtains b where "mem_src m = Some b" "mem_length m \<le> length b" "None \<notin> set (take (mem_length m) b)"
  using assms by (auto simp: mem_ok_def mem_src_def take_map split: option.splits)

lemma mem_content_length: "mem_ok m \<Longrightarrow> length (mem_content m) = mem_length m"
  by (auto simp: mem_ok_def mem_content_def mem_src_def split: option.splits)

lemma copy_out_take:
  assumes "off + n \<le> len" "len \<le> length b" "None \<notin> set (take len b)"
  shows "copy_out b off n = Some (take n (drop off (map the (take len b))))"
proof -
  have "take n (drop off b) = take n (drop off (take len b))"
    using assms(1) by (simp add: drop_take min_def)
  moreover have "None \<notin> set (take n (drop off (take len b)))"
    using assms(3) by (meson in_set_dropD in_set_takeD)
  ultimately show ?thesis using assms
    by (simp add: copy_out_def Let_def take_map drop_map)
qed

lemma mem_read_law:
  assumes "mem_ok m"
  shows "\<exists>m'. mem_read m n = Ok (m', Inr (file_read (mem_file m) n)) \<and> mem_ok m'
    \<and> mem_file m' = file_advance (mem_file m) (length (file_read (mem_file m) n))"
proof (cases "mem_offset m < mem_length m")
  case False
  then show ?thesis using assms mem_content_length [OF assms]
    by (auto simp: mem_read_def mem_file_def file_read_def file_advance_def mem_ok_def)
next
  case True
  obtain b where b: "mem_src m = Some b" "mem_length m \<le> length b" "None \<notin> set (take (mem_length m) b)"
    using assms True by (auto elim: mem_ok_src)
  define amt where "amt = (if n < mem_length m - mem_offset m then n else mem_length m - mem_offset m)"
  have avail: "size_sub (mem_length m) (mem_offset m) = mem_length m - mem_offset m"
    using assms by (intro size_sub_id) (auto simp: mem_ok_def)
  have content: "mem_content m = map the (take (mem_length m) b)" using b by (simp add: mem_content_def)
  have s: "copy_out b (mem_offset m) amt = Some (take n (drop (mem_offset m) (mem_content m)))"
  proof -
    have "copy_out b (mem_offset m) amt = Some (take amt (drop (mem_offset m) (mem_content m)))"
      unfolding content using True b by (intro copy_out_take) (auto simp: amt_def)
    moreover have "take amt (drop (mem_offset m) (mem_content m)) = take n (drop (mem_offset m) (mem_content m))"
      using mem_content_length [OF assms] by (simp add: amt_def)
    ultimately show ?thesis by simp
  qed
  have len: "length (take n (drop (mem_offset m) (mem_content m))) = amt"
    using mem_content_length [OF assms] by (simp add: amt_def)
  define m' where "m' = m\<lparr> mem_offset := mem_offset m + amt \<rparr>"
  have "mem_read m n = Ok (m', Inr (take n (drop (mem_offset m) (mem_content m))))"
    using True b(1) s unfolding mem_read_def avail Let_def amt_def [symmetric] m'_def by simp
  moreover have "mem_ok m'" unfolding m'_def using assms True
    by (intro mem_ok_offset) (auto simp: amt_def)
  moreover have "mem_content m' = mem_content m" by (simp add: m'_def)
  ultimately show ?thesis using len by (auto simp: mem_file_def file_read_def file_advance_def m'_def)
qed

lemma mem_seek_law:
  assumes "mem_ok m" "offset \<noteq> LONG_MIN"
  shows "let t = file_target (mem_file m) offset whence in
    if 0 \<le> t \<and> t \<le> int (length (fst (mem_file m)))
    then \<exists>m'. mem_seek m offset whence = Ok (m', Inr t) \<and> mem_ok m'
           \<and> mem_file m' = (fst (mem_file m), nat t)
    else mem_seek m offset whence = Ok (m, Inl EINVAL)"
proof -
  have len: "int (length (mem_content m)) = int (mem_length m)" using mem_content_length assms by simp
  have inv: "mem_ok (m\<lparr> mem_offset := nat t \<rparr>)" if "t \<le> int (mem_length m)" for t
    using assms(1) that by (intro mem_ok_offset) auto
  have ul: "to_ulong (int (mem_length m) - int (mem_offset m)) = int (mem_length m) - int (mem_offset m)"
    using assms(1) by (intro to_ulong_id) (auto simp: mem_ok_def SIZE_MOD_def)
  have le: "mem_offset m \<le> mem_length m" using assms(1) by (simp add: mem_ok_def)
  show ?thesis using assms(2) le
    by (auto simp: Let_def file_target_def mem_file_def mem_seek_def len ul inv
        intro: mem_ok_offset [OF assms(1)])
qed

lemma mem_detach_law:
  assumes "mem_ok m" "mem_offset m + n < SIZE_MOD"
  shows "(\<exists>m'. mem_detach mal m n = Ok (m', None) \<and> mem_ok m' \<and> mem_file m' = mem_file m
            \<and> (mem_buffer m' = None \<longrightarrow> mem_orig m' = None))
     \<or> (mem_detach mal m n = Ok (m, Some ENOMEM) \<and> \<not> (\<forall>n. mal n))"
proof (cases "mem_buffer m = None \<and> mem_orig m \<noteq> None")
  case True
  then obtain s where s: "mem_orig m = Some s" by blast
  define k where "k = (if mem_size m < mem_offset m + n then mem_offset m + n else mem_size m)"
  have k: "mem_length m \<le> k" "k < SIZE_MOD" "mem_length m \<le> length s"
    using assms True s by (auto simp: k_def mem_ok_def)
  define m' where "m' = m\<lparr> mem_buffer := Some (map Some (take (mem_length m) s)
      @ replicate (k - mem_length m) None), mem_size := k \<rparr>"
  have "mem_detach mal m n = (if \<not> mal k then Ok (m, Some ENOMEM) else Ok (m', None))"
    using True s k
    unfolding mem_detach_def Let_def size_t_id [OF assms(2)] k_def [symmetric] m'_def by simp
  moreover have "mem_ok m'" using assms(1) k True s by (auto simp: mem_ok_def m'_def)
  moreover have "mem_file m' = mem_file m"
    using True s k by (simp add: mem_file_def mem_content_def mem_src_def m'_def take_map o_def)
  ultimately show ?thesis by (auto simp: m'_def)
next
  case False
  then show ?thesis using assms by (auto simp: mem_detach_def split: option.splits)
qed

lemma mem_enlarge_law:
  assumes "mem_ok m" "mem_offset m + n < SIZE_MOD" "mem_buffer m = None \<longrightarrow> mem_orig m = None"
  shows "(\<exists>m'. mem_enlarge mal m n = (m', None) \<and> mem_ok m' \<and> mem_file m' = mem_file m
            \<and> mem_offset m' + n \<le> mem_size m' \<and> (mem_buffer m' = None \<longrightarrow> n = 0 \<and> mem_orig m' = None))
     \<or> (mem_enlarge mal m n = (m, Some ENOMEM) \<and> \<not> (\<forall>n. mal n))"
proof (cases "mem_size m - mem_offset m < n")
  case False
  have "size_sub (mem_size m) (mem_offset m) = mem_size m - mem_offset m"
    using assms by (intro size_sub_id) (auto simp: mem_ok_def)
  then have "mem_enlarge mal m n = (m, None)" using False by (simp add: mem_enlarge_def Let_def)
  moreover have "mem_offset m + n \<le> mem_size m" "mem_buffer m = None \<longrightarrow> n = 0 \<and> mem_orig m = None"
    using False assms by (auto simp: mem_ok_def)
  ultimately show ?thesis using assms(1) by (intro disjI1 exI [of _ m]) simp
next
  case True
  have sub: "size_sub (mem_size m) (mem_offset m) = mem_size m - mem_offset m"
    using assms by (intro size_sub_id) (auto simp: mem_ok_def)
  define grow where "grow k = m\<lparr> mem_buffer := Some (realloc (mem_buffer m) k), mem_size := k \<rparr>" for k
  have good: "mem_ok (grow k) \<and> mem_file (grow k) = mem_file m \<and> mem_offset (grow k) + n \<le> mem_size (grow k)"
    if k: "mem_offset m + n \<le> k" "k < SIZE_MOD" for k
  proof -
    have size: "mem_size m < k" using True k by linarith
    then have l: "mem_length m \<le> k" "mem_offset m \<le> mem_length m" "mem_length m \<le> mem_size m"
      using assms(1) by (auto simp: mem_ok_def)
    show ?thesis
    proof (cases "mem_buffer m")
      case None
      then have "mem_length m = 0" "mem_offset m = 0" "mem_orig m = None"
        using assms by (auto simp: mem_ok_def)
      then show ?thesis using None k
        by (simp add: grow_def realloc_def mem_ok_def mem_file_def mem_content_def mem_src_def)
    next
      case (Some b)
      have b: "length b = mem_size m" "None \<notin> set (take (mem_length m) b)"
        using assms(1) Some by (auto simp: mem_ok_def)
      then have "realloc (mem_buffer m) k = b @ replicate (k - mem_size m) None"
        using size Some by (simp add: realloc_def)
      then have r: "realloc (Some b) k = b @ replicate (k - mem_size m) None" by (simp add: Some)
      show ?thesis using k l b size
        by (simp add: grow_def r Some mem_ok_def mem_file_def mem_content_def mem_src_def)
    qed
  qed
  define needed where "needed = mem_offset m + n"
  define k where "k = (let k0 = (if mem_size m \<noteq> 0 then size_t (2 * mem_size m) else INITIAL_ALLOC)
    in if k0 < needed then needed else k0)"
  have k: "needed \<le> k" "k < SIZE_MOD" "needed < SIZE_MOD"
    using assms(2) by (auto simp: k_def needed_def Let_def size_t_def SIZE_MOD_def)
  have "mem_enlarge mal m n =
      (if mal k then (grow k, None)
       else if k > needed \<and> mal needed then (grow needed, None) else (m, Some ENOMEM))"
    using True k by (simp add: mem_enlarge_def sub Let_def k_def grow_def needed_def)
  moreover have "mem_buffer (grow k) \<noteq> None" "mem_buffer (grow needed) \<noteq> None"
    by (simp_all add: grow_def)
  ultimately show ?thesis using good [of k] good [of needed] k
    by (cases "mal k"; cases "k > needed \<and> mal needed") (auto simp: needed_def)
qed

lemma mem_store_law:
  assumes "mem_ok m" "mem_offset m + length s \<le> mem_size m"
    "mem_buffer m = None \<longrightarrow> s = [] \<and> mem_orig m = None"
  shows "\<exists>m'. mem_store m s = Ok m' \<and> mem_ok m' \<and> mem_file m' = file_write (mem_file m) s"
proof (cases "mem_buffer m")
  case None
  then have "s = []" "mem_orig m = None" "mem_length m = 0" "mem_offset m = 0"
    using assms by (auto simp: mem_ok_def)
  then show ?thesis using None assms(1)
    by (auto simp: mem_store_def mem_file_def file_write_def mem_content_def mem_src_def mem_ok_def)
next
  case (Some b)
  let ?o = "mem_offset m" and ?l = "mem_length m" and ?n = "length s"
  have b: "length b = mem_size m" "None \<notin> set (take ?l b)" "?o \<le> ?l" "?l \<le> mem_size m"
    "mem_size m < SIZE_MOD"
    using assms(1) Some by (auto simp: mem_ok_def)
  define b' where "b' = take ?o b @ map Some s @ drop (?o + ?n) b"
  define l' where "l' = (if ?l < ?o + ?n then ?o + ?n else ?l)"
  define m' where "m' = m\<lparr> mem_buffer := Some b', mem_offset := ?o + ?n, mem_length := l' \<rparr>"
  have store: "mem_store m s = Ok m'"
    using Some b assms(2) by (simp add: mem_store_def copy_in_def Let_def m'_def b'_def l'_def)
  have tk: "take l' b' = take ?o (take ?l b) @ map Some s @ drop (?o + ?n) (take ?l b)"
    using b assms(2) by (auto simp: b'_def l'_def min_def drop_take)
  have "None \<notin> set (take l' b')"
    unfolding tk using b(2,3) set_take_subset_set_take [of ?o ?l b]
    by (auto simp: min_def dest: in_set_dropD)
  then have "mem_ok m'" using b assms(2) by (auto simp: mem_ok_def m'_def b'_def l'_def)
  moreover have "mem_file m' = file_write (mem_file m) s"
    using Some tk by (simp add: mem_file_def file_write_def mem_content_def mem_src_def m'_def
        take_map drop_map o_def)
  ultimately show ?thesis using store by blast
qed

lemma mem_write_law:
  assumes "mem_ok m" "snd (mem_file m) + length s < SIZE_MOD"
  shows "(\<exists>m'. mem_write mal m s = Ok (m', Inr (length s)) \<and> mem_ok m'
            \<and> mem_file m' = file_write (mem_file m) s)
     \<or> (\<exists>m'. mem_write mal m s = Ok (m', Inl ENOMEM) \<and> mem_ok m' \<and> mem_file m' = mem_file m
            \<and> \<not> (\<forall>n. mal n))"
proof -
  have off: "mem_offset m + length s < SIZE_MOD" using assms(2) by (simp add: mem_file_def)
  show ?thesis using mem_detach_law [OF assms(1) off, of mal]
  proof (elim disjE exE conjE)
    assume "mem_detach mal m (length s) = Ok (m, Some ENOMEM)" "\<not> (\<forall>n. mal n)"
    then show ?thesis using assms(1) by (intro disjI2 exI [of _ m]) (simp add: mem_write_def)
  next
    fix m1
    assume m1: "mem_detach mal m (length s) = Ok (m1, None)" "mem_ok m1"
      "mem_file m1 = mem_file m" "mem_buffer m1 = None \<longrightarrow> mem_orig m1 = None"
    have off1: "mem_offset m1 + length s < SIZE_MOD" using m1(3) off by (simp add: mem_file_def)
    show ?thesis using mem_enlarge_law [OF m1(2) off1 m1(4), of mal]
    proof (elim disjE exE conjE)
      assume "mem_enlarge mal m1 (length s) = (m1, Some ENOMEM)" "\<not> (\<forall>n. mal n)"
      then show ?thesis using m1 by (intro disjI2 exI [of _ m1]) (simp add: mem_write_def)
    next
      fix m2
      assume m2: "mem_enlarge mal m1 (length s) = (m2, None)" "mem_ok m2"
        "mem_file m2 = mem_file m1" "mem_offset m2 + length s \<le> mem_size m2"
        "mem_buffer m2 = None \<longrightarrow> length s = 0 \<and> mem_orig m2 = None"
      then obtain m3 where "mem_store m2 s = Ok m3" "mem_ok m3" "mem_file m3 = file_write (mem_file m2) s"
        using mem_store_law [of m2 s] by auto
      then show ?thesis using m1 m2 by (intro disjI1 exI [of _ m3]) (simp add: mem_write_def)
    qed
  qed
qed

interpretation mem: data_stream mem_read mem_write mem_seek mem_ok mem_file
proof unfold_locales
  fix m assume "mem_ok m"
  then show "snd (mem_file m) \<le> length (fst (mem_file m)) \<and> length (fst (mem_file m)) < SIZE_MOD"
    using mem_content_length [of m] by (simp add: mem_file_def) (simp add: mem_ok_def)
qed (rule mem_read_law mem_write_law mem_seek_law; assumption)+

section \<open>Properties\<close>

text \<open>
  C8: the memory callbacks implement a seekable file.  On an object in order no copy leaves its
  buffer and no byte is read that was not written; reading returns the bytes of the file at the
  current position, writing replaces or extends them, or, when memory is short, leaves content and
  position as they were, and seeking moves to every position from 0 to the end of the content and
  rejects all others.
\<close>

theorem mem_implements_file:
  assumes "mem_ok m"
  shows "(\<exists>m'. mem_read m n = Ok (m', Inr (file_read (mem_file m) n)) \<and> mem_ok m'
          \<and> mem_file m' = file_advance (mem_file m) (length (file_read (mem_file m) n)))
    \<and> (snd (mem_file m) + length s < SIZE_MOD \<longrightarrow>
        (\<exists>m'. mem_write mal m s = Ok (m', Inr (length s)) \<and> mem_ok m'
            \<and> mem_file m' = file_write (mem_file m) s)
        \<or> (\<exists>m'. mem_write mal m s = Ok (m', Inl ENOMEM) \<and> mem_ok m' \<and> mem_file m' = mem_file m
            \<and> \<not> (\<forall>n. mal n)))
    \<and> (offset \<noteq> LONG_MIN \<longrightarrow>
        (let t = file_target (mem_file m) offset whence in
         if 0 \<le> t \<and> t \<le> int (length (fst (mem_file m)))
         then \<exists>m'. mem_seek m offset whence = Ok (m', Inr t) \<and> mem_ok m'
                \<and> mem_file m' = (fst (mem_file m), nat t)
         else mem_seek m offset whence = Ok (m, Inl EINVAL)))"
proof (intro conjI impI)
  show "\<exists>m'. mem_read m n = Ok (m', Inr (file_read (mem_file m) n)) \<and> mem_ok m'
      \<and> mem_file m' = file_advance (mem_file m) (length (file_read (mem_file m) n))"
    using assms by (rule mem.rd_law)
qed (rule mem.wr_law [OF assms] mem.sk_law [OF assms]; assumption)+

theorem mem_implements_file_witness:
  "\<exists>m'. mem_write (\<lambda>_. True) mem_init ''abc'' = Ok (m', Inr 3) \<and> mem_file m' = (''abc'', 3)"
proof -
  have "snd (mem_file mem_init) + length ''abc'' < SIZE_MOD"
    by (simp add: mem_ok_init SIZE_MOD_def)
  then show ?thesis
    using mem_implements_file [OF mem_ok_init(1), of 0 "''abc''" "\<lambda>_. True" 0 0]
    by (auto simp: mem_ok_init file_write_def numeral_3_eq_3)
qed

end
