(* ===== verification/Gpgme_Data.thy ===== *)
theory Gpgme_Data
  imports Gpgme_DataMem Gpgme_Conversion Gpgme_DataIdentify
begin

text \<open>
  Data objects: \<open>src/src/data.c\<close>, the object creation and release of \<open>src/src/data-mem.c\<close> and
  \<open>gpgme_data_identify\<close> of \<open>src/src/data-identify.c\<close>.  The global property table and the heap of
  data objects are the record \<open>data_state\<close>; a handle is a heap address.  The table is a list, its
  length being \<open>property_table_size\<close>.  A failed assertion and the use of a dead handle are \<open>UB\<close>.

  Besides the memory callbacks an object can have foreign ones (a file descriptor, a stream, the
  callbacks of the application); these act on a state of type \<open>'u\<close> and are the fields of
  \<open>data_env\<close>.  They may be interrupted again and again, so that the calls which retry
  them return \<open>None\<close> when they never come back.
\<close>

section \<open>Types\<close>

datatype cbs_id = MemCbs | ExtCbs

datatype 'u data_impl = DMem mem_data | DExt 'u

type_synonym ('d, 'r) cb_res = "('d \<times> (errno + 'r)) cres"

record 'd data_cbs =
  cb_read :: "('d \<Rightarrow> nat \<Rightarrow> ('d, string) cb_res) option"
  cb_write :: "('d \<Rightarrow> string \<Rightarrow> ('d, nat) cb_res) option"
  cb_seek :: "('d \<Rightarrow> int \<Rightarrow> int \<Rightarrow> ('d, int) cb_res) option"
  cb_release :: "('d \<Rightarrow> 'd) option"
  cb_get_fd :: "('d \<Rightarrow> int) option"

record 'u data_env =
  env_mal :: "nat \<Rightarrow> bool"
  ext_read :: "('u \<Rightarrow> nat \<Rightarrow> 'u \<times> (errno + string)) option"
  ext_write :: "('u \<Rightarrow> string \<Rightarrow> 'u \<times> (errno + nat)) option"
  ext_seek :: "('u \<Rightarrow> int \<Rightarrow> int \<Rightarrow> 'u \<times> (errno + int)) option"
  ext_release :: "('u \<Rightarrow> 'u) option"
  ext_get_fd :: "('u \<Rightarrow> int) option"

record 'u gpgme_data =
  dh_cbs :: cbs_id
  dh_encoding :: int
  dh_propidx :: nat
  dh_pending :: string
  dh_file_name :: "string option"
  dh_size_hint :: int
  dh_data :: "'u data_impl"

record property_s =
  p_dh :: "nat option"
  p_dserial :: "64 word"
  p_blankout :: bool

record 'u data_state =
  property_table :: "property_s list option"
  last_dserial :: "64 word"
  objects :: "nat \<rightharpoonup> 'u gpgme_data"

datatype data_prop_t = DATA_PROP_NONE | DATA_PROP_BLANKOUT | DATA_PROP_OTHER int

definition lift_mem :: "(mem_data \<Rightarrow> (mem_data, 'r) cb_res) \<Rightarrow> 'u data_impl \<Rightarrow> ('u data_impl, 'r) cb_res" where
  "lift_mem f d =
     (case d of
        DMem m \<Rightarrow> (case f m of UB \<Rightarrow> UB | Err e \<Rightarrow> Err e | Ok (m', r) \<Rightarrow> Ok (DMem m', r))
      | DExt u \<Rightarrow> UB)"

definition lift_ext :: "('u \<Rightarrow> 'u \<times> (errno + 'r)) \<Rightarrow> 'u data_impl \<Rightarrow> ('u data_impl, 'r) cb_res" where
  "lift_ext f d = (case d of DExt u \<Rightarrow> (case f u of (u', r) \<Rightarrow> Ok (DExt u', r)) | DMem m \<Rightarrow> UB)"

text \<open>Releasing a memory object frees its buffer; the object itself is freed right after.\<close>

definition mem_release :: "mem_data \<Rightarrow> mem_data" where
  "mem_release m = m\<lparr> mem_buffer := None \<rparr>"

definition mem_cbs :: "'u data_env \<Rightarrow> 'u data_impl data_cbs" where
  "mem_cbs env =
     \<lparr> cb_read = Some (\<lambda>d n. lift_mem (\<lambda>m. mem_read m n) d),
       cb_write = Some (\<lambda>d s. lift_mem (\<lambda>m. mem_write (env_mal env) m s) d),
       cb_seek = Some (\<lambda>d off w. lift_mem (\<lambda>m. mem_seek m off w) d),
       cb_release = Some (\<lambda>d. case d of DMem m \<Rightarrow> DMem (mem_release m) | DExt u \<Rightarrow> d),
       cb_get_fd = None \<rparr>"

definition foreign_cbs :: "'u data_env \<Rightarrow> 'u data_impl data_cbs" where
  "foreign_cbs env =
     \<lparr> cb_read = map_option (\<lambda>f d n. lift_ext (\<lambda>u. f u n) d) (ext_read env),
       cb_write = map_option (\<lambda>f d s. lift_ext (\<lambda>u. f u s) d) (ext_write env),
       cb_seek = map_option (\<lambda>f d off w. lift_ext (\<lambda>u. f u off w) d) (ext_seek env),
       cb_release = map_option (\<lambda>f d. case d of DExt u \<Rightarrow> DExt (f u) | DMem m \<Rightarrow> d) (ext_release env),
       cb_get_fd = map_option (\<lambda>f d. case d of DExt u \<Rightarrow> f u | DMem m \<Rightarrow> - 1) (ext_get_fd env) \<rparr>"

definition cbs_of :: "'u data_env \<Rightarrow> 'u gpgme_data \<Rightarrow> 'u data_impl data_cbs" where
  "cbs_of env d = (case dh_cbs d of MemCbs \<Rightarrow> mem_cbs env | ExtCbs \<Rightarrow> foreign_cbs env)"

section \<open>The property table\<close>

abbreviation PROPERTY_TABLE_ALLOCATION_CHUNK :: nat where "PROPERTY_TABLE_ALLOCATION_CHUNK \<equiv> 32"

text \<open>The size of an entry: a pointer, a 64 bit number and a bit field.\<close>

abbreviation sizeof_property :: nat where "sizeof_property \<equiv> 24"

definition free_slot :: property_s where
  "free_slot = \<lparr> p_dh = None, p_dserial = 0, p_blankout = False \<rparr>"

text \<open>The index of the first entry with a given property, or the table size.\<close>

definition slot_search :: "(property_s \<Rightarrow> bool) \<Rightarrow> property_s list \<Rightarrow> nat" where
  "slot_search P t = length (takeWhile (\<lambda>p. \<not> P p) t)"

definition insert_into_property_table ::
  "(nat \<Rightarrow> bool) \<Rightarrow> 'u data_state \<Rightarrow> nat \<Rightarrow> 'u data_state \<times> (gpgme_error_t + nat)" where
  "insert_into_property_table mal st dh =
     (let fill = (\<lambda>t idx.
            (let serial = last_dserial st + 1 in
             (st\<lparr> property_table := Some (t[idx := \<lparr> p_dh = Some dh, p_dserial = serial, p_blankout = False \<rparr>]),
                  last_dserial := serial \<rparr>, Inr idx)));
          search = (\<lambda>t.
            (let idx = slot_search (\<lambda>p. p_dh p = None) t in
             if idx < length t then fill t idx
             else let newsize = (length t + PROPERTY_TABLE_ALLOCATION_CHUNK) mod 4294967296 in
               if newsize * sizeof_property < length t * sizeof_property
               then (st\<lparr> property_table := Some t \<rparr>, Inl (gpg_error (GPG_ERR_SYS ENOMEM)))
               else if \<not> mal (newsize * sizeof_property)
               then (st\<lparr> property_table := Some t \<rparr>, Inl (syserror ENOMEM))
               else fill (t @ replicate (newsize - length t) free_slot) (length t))) in
      case property_table st of
        Some t \<Rightarrow> search t
      | None \<Rightarrow>
          if mal (PROPERTY_TABLE_ALLOCATION_CHUNK * sizeof_property)
          then search (replicate PROPERTY_TABLE_ALLOCATION_CHUNK free_slot)
          else (st, Inl (syserror ENOMEM)))"

text \<open>The assertions on the table entry of a live object.\<close>

definition prop_index :: "'u data_state \<Rightarrow> nat \<Rightarrow> nat cres" where
  "prop_index st h =
     (case (objects st h, property_table st) of
        (Some d, Some t) \<Rightarrow>
          if dh_propidx d < length t \<and> p_dh (t ! dh_propidx d) = Some h then Ok (dh_propidx d) else UB
      | _ \<Rightarrow> UB)"

definition remove_from_property_table :: "'u data_state \<Rightarrow> nat \<Rightarrow> 'u data_state cres" where
  "remove_from_property_table st h =
     (case prop_index st h of
        UB \<Rightarrow> UB | Err e \<Rightarrow> Err e
      | Ok idx \<Rightarrow>
          Ok (st\<lparr> property_table :=
                   map_option (\<lambda>t. t[idx := (t ! idx)\<lparr> p_dh := None \<rparr>]) (property_table st) \<rparr>))"

definition gpgme_data_get_dserial :: "'u data_state \<Rightarrow> nat option \<Rightarrow> (64 word) cres" where
  "gpgme_data_get_dserial st dh =
     (case dh of
        None \<Rightarrow> Ok 0
      | Some h \<Rightarrow>
          (case prop_index st h of
             UB \<Rightarrow> UB | Err e \<Rightarrow> Err e
           | Ok idx \<Rightarrow> Ok (p_dserial (the (property_table st) ! idx))))"

text \<open>The lookup shared by setting and getting a property: by handle or by serial number.\<close>

definition prop_lookup :: "'u data_state \<Rightarrow> nat option \<Rightarrow> 64 word \<Rightarrow> nat cres" where
  "prop_lookup st dh dserial =
     (if (dh = None \<and> dserial = 0) \<or> (dh \<noteq> None \<and> dserial \<noteq> 0) then Err (gpg_error GPG_ERR_INV_VALUE)
      else case dh of
        Some h \<Rightarrow> prop_index st h
      | None \<Rightarrow>
          (case property_table st of
             None \<Rightarrow> Err (gpg_error GPG_ERR_NOT_FOUND)
           | Some t \<Rightarrow>
               let idx = slot_search (\<lambda>p. p_dh p \<noteq> None \<and> p_dserial p = dserial) t in
               if idx < length t then Ok idx else Err (gpg_error GPG_ERR_NOT_FOUND)))"

definition gpgme_data_set_prop ::
  "'u data_state \<Rightarrow> nat option \<Rightarrow> 64 word \<Rightarrow> data_prop_t \<Rightarrow> int \<Rightarrow> ('u data_state \<times> gpgme_error_t) cres" where
  "gpgme_data_set_prop st dh dserial name val =
     (case prop_lookup st dh dserial of
        UB \<Rightarrow> UB
      | Err e \<Rightarrow> Ok (st, e)
      | Ok idx \<Rightarrow>
          (case name of
             DATA_PROP_NONE \<Rightarrow> Ok (st, no_error)
           | DATA_PROP_BLANKOUT \<Rightarrow>
               Ok (st\<lparr> property_table :=
                        map_option (\<lambda>t. t[idx := (t ! idx)\<lparr> p_blankout := (val \<noteq> 0) \<rparr>]) (property_table st) \<rparr>,
                   no_error)
           | DATA_PROP_OTHER n \<Rightarrow> Ok (st, gpg_error GPG_ERR_UNKNOWN_NAME)))"

definition gpgme_data_get_prop ::
  "'u data_state \<Rightarrow> nat option \<Rightarrow> 64 word \<Rightarrow> data_prop_t \<Rightarrow> (int \<times> gpgme_error_t) cres" where
  "gpgme_data_get_prop st dh dserial name =
     (case prop_lookup st dh dserial of
        UB \<Rightarrow> UB
      | Err e \<Rightarrow> Ok (0, e)
      | Ok idx \<Rightarrow>
          (case name of
             DATA_PROP_NONE \<Rightarrow> Ok (0, no_error)
           | DATA_PROP_BLANKOUT \<Rightarrow>
               Ok (if p_blankout (the (property_table st) ! idx) then 1 else 0, no_error)
           | DATA_PROP_OTHER n \<Rightarrow> Ok (0, gpg_error GPG_ERR_UNKNOWN_NAME)))"

section \<open>Creation and release\<close>

definition new_data :: "cbs_id \<Rightarrow> 'u data_impl \<Rightarrow> nat \<Rightarrow> 'u gpgme_data" where
  "new_data cbs d idx =
     \<lparr> dh_cbs = cbs, dh_encoding = 0, dh_propidx = idx, dh_pending = [], dh_file_name = None,
       dh_size_hint = 0, dh_data = d \<rparr>"

text \<open>
  \<open>addr\<close> is the result of \<open>calloc\<close>, \<open>r_dh\<close> whether the caller passed a place for the handle, and
  \<open>selftest\<close> the result of the library's self test.  The implementation part of a new object is
  given here, while the C code fills it in right after the call.
\<close>

definition gpgme_data_new_cbs ::
  "(nat \<Rightarrow> bool) \<Rightarrow> gpgme_error_t \<Rightarrow> 'u data_state \<Rightarrow> bool \<Rightarrow> nat option \<Rightarrow> cbs_id \<Rightarrow> 'u data_impl
     \<Rightarrow> 'u data_state \<times> (gpgme_error_t + nat)" where
  "gpgme_data_new_cbs mal selftest st r_dh addr cbs d =
     (if \<not> r_dh then (st, Inl (gpg_error GPG_ERR_INV_VALUE))
      else if is_err selftest then (st, Inl selftest)
      else case addr of
        None \<Rightarrow> (st, Inl (syserror ENOMEM))
      | Some h \<Rightarrow>
          (case insert_into_property_table mal st h of
             (st1, Inl e) \<Rightarrow> (st1, Inl e)
           | (st1, Inr idx) \<Rightarrow>
               (st1\<lparr> objects := (objects st1)(h \<mapsto> new_data cbs d idx) \<rparr>, Inr h)))"

definition gpgme_data_release_int :: "'u data_state \<Rightarrow> nat option \<Rightarrow> 'u data_state cres" where
  "gpgme_data_release_int st dh =
     (case dh of
        None \<Rightarrow> Ok st
      | Some h \<Rightarrow>
          (case remove_from_property_table st h of
             UB \<Rightarrow> UB | Err e \<Rightarrow> Err e
           | Ok st1 \<Rightarrow> Ok (st1\<lparr> objects := (objects st1)(h := None) \<rparr>)))"

text \<open>The release callback works on the object that is freed next.\<close>

definition gpgme_data_release :: "'u data_env \<Rightarrow> 'u data_state \<Rightarrow> nat option \<Rightarrow> 'u data_state cres" where
  "gpgme_data_release env st dh =
     (case dh of
        None \<Rightarrow> Ok st
      | Some h \<Rightarrow>
          (case objects st h of
             None \<Rightarrow> UB
           | Some d \<Rightarrow>
               let d1 = (case cb_release (cbs_of env d) of
                           None \<Rightarrow> d | Some f \<Rightarrow> d\<lparr> dh_data := f (dh_data d) \<rparr>) in
               gpgme_data_release_int (st\<lparr> objects := (objects st)(h \<mapsto> d1) \<rparr>) dh))"

definition gpgme_data_new ::
  "(nat \<Rightarrow> bool) \<Rightarrow> gpgme_error_t \<Rightarrow> 'u data_state \<Rightarrow> bool \<Rightarrow> nat option
     \<Rightarrow> 'u data_state \<times> (gpgme_error_t + nat)" where
  "gpgme_data_new mal selftest st r_dh addr =
     gpgme_data_new_cbs mal selftest st r_dh addr MemCbs (DMem mem_init)"

definition gpgme_data_new_from_mem ::
  "(nat \<Rightarrow> bool) \<Rightarrow> gpgme_error_t \<Rightarrow> 'u data_state \<Rightarrow> bool \<Rightarrow> nat option \<Rightarrow> string \<Rightarrow> bool
     \<Rightarrow> ('u data_state \<times> (gpgme_error_t + nat)) cres" where
  "gpgme_data_new_from_mem mal selftest st r_dh addr buffer copy =
     (case gpgme_data_new_cbs mal selftest st r_dh addr MemCbs (DMem mem_init) of
        (st1, Inl e) \<Rightarrow> Ok (st1, Inl e)
      | (st1, Inr h) \<Rightarrow>
          (case mem_from mal buffer copy of
             None \<Rightarrow>
               (case gpgme_data_release_int st1 (Some h) of
                  UB \<Rightarrow> UB | Err e \<Rightarrow> Err e
                | Ok st2 \<Rightarrow> Ok (st2, Inl (syserror ENOMEM)))
           | Some m \<Rightarrow>
               (case objects st1 h of
                  None \<Rightarrow> UB
                | Some d \<Rightarrow>
                    Ok (st1\<lparr> objects := (objects st1)(h \<mapsto> d\<lparr> dh_data := DMem m \<rparr>) \<rparr>, Inr h))))"

section \<open>Reading, writing and seeking\<close>

definition store_data :: "'u data_state \<Rightarrow> nat \<Rightarrow> 'u gpgme_data \<Rightarrow> 'u data_state" where
  "store_data st h d = st\<lparr> objects := (objects st)(h \<mapsto> d) \<rparr>"

text \<open>Repeat a call while it is interrupted.\<close>

partial_function (option) eintr_retry ::
  "('d \<Rightarrow> ('d, 'r) cb_res) \<Rightarrow> 'd \<Rightarrow> ('d, 'r) cb_res option" where
  "eintr_retry f d =
     (case f d of
        UB \<Rightarrow> Some UB
      | Err e \<Rightarrow> Some (Err e)
      | Ok p \<Rightarrow> if snd p = Inl EINTR then eintr_retry f (fst p) else Some (Ok p))"

text \<open>
  The outcome of a call that returns a number: the number as the caller sees it, the bytes read if
  any, and \<open>errno\<close> for a negative number.  The tracing macro hands the result through a C \<open>int\<close>.
\<close>

record sysres =
  sr_ret :: int
  sr_bytes :: string
  sr_errno :: "errno option"

definition trace_sysres :: "int \<Rightarrow> int" where
  "trace_sysres res = to_int32 res"

definition sys_fail :: "errno \<Rightarrow> sysres" where
  "sys_fail e = \<lparr> sr_ret = trace_sysres (- 1), sr_bytes = [], sr_errno = Some e \<rparr>"

text \<open>Store the object a callback left behind and hand its result to the caller.\<close>

definition io_finish ::
  "'u data_state \<Rightarrow> nat \<Rightarrow> 'u gpgme_data \<Rightarrow> ('r \<Rightarrow> int \<times> string) \<Rightarrow> ('u data_impl, 'r) cb_res
     \<Rightarrow> ('u data_state \<times> sysres) cres" where
  "io_finish st h d f res =
     (case res of
        UB \<Rightarrow> UB
      | Err e \<Rightarrow> Err e
      | Ok (x, r) \<Rightarrow>
          Ok (store_data st h (d\<lparr> dh_data := x \<rparr>),
              case r of
                Inl e \<Rightarrow> sys_fail e
              | Inr v \<Rightarrow> \<lparr> sr_ret = trace_sysres (fst (f v)), sr_bytes = snd (f v), sr_errno = None \<rparr>))"

definition gpgme_data_read ::
  "'u data_env \<Rightarrow> 'u data_state \<Rightarrow> nat option \<Rightarrow> nat \<Rightarrow> ('u data_state \<times> sysres) cres option" where
  "gpgme_data_read env st dh sz =
     (case dh of
        None \<Rightarrow> Some (Ok (st, sys_fail EINVAL))
      | Some h \<Rightarrow>
          (case objects st h of
             None \<Rightarrow> Some UB
           | Some d \<Rightarrow>
               (case cb_read (cbs_of env d) of
                  None \<Rightarrow> Some (Ok (st, sys_fail ENOSYS))
                | Some rd \<Rightarrow>
                    (case gpgme_data_get_prop st dh 0 DATA_PROP_BLANKOUT of
                       UB \<Rightarrow> Some UB
                     | Err e \<Rightarrow> Some (Err e)
                     | Ok (blankout, err) \<Rightarrow>
                         if is_err err \<or> blankout \<noteq> 0
                         then Some (Ok (st, \<lparr> sr_ret = trace_sysres 0, sr_bytes = [], sr_errno = None \<rparr>))
                         else map_option (io_finish st h d (\<lambda>bs. (int (length bs), bs)))
                                (eintr_retry (\<lambda>x. rd x sz) (dh_data d))))))"

definition gpgme_data_write ::
  "'u data_env \<Rightarrow> 'u data_state \<Rightarrow> nat option \<Rightarrow> string \<Rightarrow> ('u data_state \<times> sysres) cres option" where
  "gpgme_data_write env st dh bs =
     (case dh of
        None \<Rightarrow> Some (Ok (st, sys_fail EINVAL))
      | Some h \<Rightarrow>
          (case objects st h of
             None \<Rightarrow> Some UB
           | Some d \<Rightarrow>
               (case cb_write (cbs_of env d) of
                  None \<Rightarrow> Some (Ok (st, sys_fail ENOSYS))
                | Some wr \<Rightarrow>
                    map_option (io_finish st h d (\<lambda>n. (int n, [])))
                      (eintr_retry (\<lambda>x. wr x bs) (dh_data d)))))"

definition gpgme_data_seek ::
  "'u data_env \<Rightarrow> 'u data_state \<Rightarrow> nat option \<Rightarrow> int \<Rightarrow> int \<Rightarrow> ('u data_state \<times> sysres) cres" where
  "gpgme_data_seek env st dh offset whence =
     (case dh of
        None \<Rightarrow> Ok (st, sys_fail EINVAL)
      | Some h \<Rightarrow>
          (case objects st h of
             None \<Rightarrow> UB
           | Some d \<Rightarrow>
               (case cb_seek (cbs_of env d) of
                  None \<Rightarrow> Ok (st, sys_fail ENOSYS)
                | Some sk \<Rightarrow>
                    let off = (if whence = SEEK_CUR then offset - int (length (dh_pending d)) else offset) in
                    if off < LONG_MIN then UB
                    else case sk (dh_data d) off whence of
                        UB \<Rightarrow> UB
                      | Err e \<Rightarrow> Err e
                      | Ok (x, Inl e) \<Rightarrow> Ok (store_data st h (d\<lparr> dh_data := x \<rparr>), sys_fail e)
                      | Ok (x, Inr pos) \<Rightarrow>
                          Ok (store_data st h (if pos \<ge> 0 then d\<lparr> dh_data := x, dh_pending := [] \<rparr>
                                               else d\<lparr> dh_data := x \<rparr>),
                              \<lparr> sr_ret = trace_sysres pos, sr_bytes = [], sr_errno = None \<rparr>))))"

text \<open>A result of -1 without \<open>errno\<close> being set by this call yields the code of a stale \<open>errno\<close>.\<close>

definition syserror_of :: "errno \<Rightarrow> sysres \<Rightarrow> gpgme_error_t" where
  "syserror_of stale r = (case sr_errno r of None \<Rightarrow> syserror stale | Some e \<Rightarrow> syserror e)"

definition gpgme_data_rewind ::
  "'u data_env \<Rightarrow> errno \<Rightarrow> 'u data_state \<Rightarrow> nat option \<Rightarrow> ('u data_state \<times> gpgme_error_t) cres" where
  "gpgme_data_rewind env stale st dh =
     (case gpgme_data_seek env st dh 0 SEEK_SET of
        UB \<Rightarrow> UB | Err e \<Rightarrow> Err e
      | Ok (st1, r) \<Rightarrow> Ok (st1, if sr_ret r = - 1 then syserror_of stale r else no_error))"

section \<open>Meta data\<close>

abbreviation GPGME_DATA_ENCODING_NONE :: int where "GPGME_DATA_ENCODING_NONE \<equiv> 0"
abbreviation GPGME_DATA_ENCODING_MIME :: int where "GPGME_DATA_ENCODING_MIME \<equiv> 7"

definition gpgme_data_get_encoding :: "'u data_state \<Rightarrow> nat option \<Rightarrow> int cres" where
  "gpgme_data_get_encoding st dh =
     (case dh of
        None \<Rightarrow> Ok GPGME_DATA_ENCODING_NONE
      | Some h \<Rightarrow> (case objects st h of None \<Rightarrow> UB | Some d \<Rightarrow> Ok (dh_encoding d)))"

definition gpgme_data_set_encoding :: "'u data_state \<Rightarrow> nat option \<Rightarrow> int \<Rightarrow> ('u data_state \<times> gpgme_error_t) cres" where
  "gpgme_data_set_encoding st dh enc =
     (case dh of
        None \<Rightarrow> Ok (st, gpg_error GPG_ERR_INV_VALUE)
      | Some h \<Rightarrow>
          if enc < 0 \<or> enc > GPGME_DATA_ENCODING_MIME then Ok (st, gpg_error GPG_ERR_INV_VALUE)
          else case objects st h of
              None \<Rightarrow> UB
            | Some d \<Rightarrow> Ok (store_data st h (d\<lparr> dh_encoding := enc \<rparr>), no_error))"

definition gpgme_data_set_file_name ::
  "(nat \<Rightarrow> bool) \<Rightarrow> 'u data_state \<Rightarrow> nat option \<Rightarrow> string option \<Rightarrow> ('u data_state \<times> gpgme_error_t) cres" where
  "gpgme_data_set_file_name mal st dh file_name =
     (case dh of
        None \<Rightarrow> Ok (st, gpg_error GPG_ERR_INV_VALUE)
      | Some h \<Rightarrow>
          (case objects st h of
             None \<Rightarrow> UB
           | Some d \<Rightarrow>
               (case file_name of
                  Some name \<Rightarrow>
                    if mal (Suc (length name))
                    then Ok (store_data st h (d\<lparr> dh_file_name := Some name \<rparr>), no_error)
                    else Ok (store_data st h (d\<lparr> dh_file_name := None \<rparr>), syserror ENOMEM)
                | None \<Rightarrow> Ok (store_data st h (d\<lparr> dh_file_name := None \<rparr>), no_error))))"

definition gpgme_data_get_file_name :: "'u data_state \<Rightarrow> nat option \<Rightarrow> string option cres" where
  "gpgme_data_get_file_name st dh =
     (case dh of
        None \<Rightarrow> Ok None
      | Some h \<Rightarrow> (case objects st h of None \<Rightarrow> UB | Some d \<Rightarrow> Ok (dh_file_name d)))"

definition gpgme_data_set_flag ::
  "'u data_state \<Rightarrow> nat option \<Rightarrow> string \<Rightarrow> string option \<Rightarrow> ('u data_state \<times> gpgme_error_t) cres" where
  "gpgme_data_set_flag st dh name val =
     (case dh of
        None \<Rightarrow> Ok (st, gpg_error GPG_ERR_INV_VALUE)
      | Some h \<Rightarrow>
          if name \<noteq> ''size-hint'' then Ok (st, gpg_error GPG_ERR_UNKNOWN_NAME)
          else case (objects st h, (case val of None \<Rightarrow> Some 0 | Some v \<Rightarrow> gpgme_string_to_off v)) of
              (Some d, Some hint) \<Rightarrow> Ok (store_data st h (d\<lparr> dh_size_hint := hint \<rparr>), no_error)
            | _ \<Rightarrow> UB)"

definition gpgme_data_get_fd :: "'u data_env \<Rightarrow> 'u data_state \<Rightarrow> nat option \<Rightarrow> int cres" where
  "gpgme_data_get_fd env st dh =
     (case dh of
        None \<Rightarrow> Ok (- 1)
      | Some h \<Rightarrow>
          (case objects st h of
             None \<Rightarrow> UB
           | Some d \<Rightarrow> Ok (case cb_get_fd (cbs_of env d) of None \<Rightarrow> - 1 | Some f \<Rightarrow> f (dh_data d))))"

definition gpgme_data_get_size_hint :: "'u data_state \<Rightarrow> nat option \<Rightarrow> int cres" where
  "gpgme_data_get_size_hint st dh =
     (case dh of
        None \<Rightarrow> Ok 0
      | Some h \<Rightarrow> (case objects st h of None \<Rightarrow> UB | Some d \<Rightarrow> Ok (dh_size_hint d)))"

section \<open>Handing the memory over\<close>

text \<open>
  The result is the object's memory, with \<open>None\<close> for NULL, and the length stored at \<open>r_len\<close>, with
  \<open>None\<close> when nothing is stored.
\<close>

definition gpgme_data_release_and_get_mem ::
  "'u data_env \<Rightarrow> 'u data_state \<Rightarrow> nat option \<Rightarrow> ('u data_state \<times> cbuffer option \<times> nat option) cres" where
  "gpgme_data_release_and_get_mem env st dh =
     (let finish = (\<lambda>st str len.
            (case gpgme_data_release env st dh of
               UB \<Rightarrow> UB | Err e \<Rightarrow> Err e | Ok st' \<Rightarrow> Ok (st', str, len))) in
      case dh of
        None \<Rightarrow> finish st None None
      | Some h \<Rightarrow>
          (case objects st h of
             None \<Rightarrow> UB
           | Some d \<Rightarrow>
               (case (dh_cbs d, dh_data d) of
                  (MemCbs, DMem m) \<Rightarrow>
                    (case gpgme_data_get_prop st dh 0 DATA_PROP_BLANKOUT of
                       UB \<Rightarrow> UB
                     | Err e \<Rightarrow> Err e
                     | Ok (blankout, err) \<Rightarrow>
                         if is_err err then finish st None None
                         else let len = (if blankout \<noteq> 0 \<and> mem_length m \<noteq> 0 then 1 else mem_length m) in
                           case (mem_buffer m, mem_orig m) of
                             (None, Some orig) \<Rightarrow>
                               if \<not> env_mal env len then finish st None None
                               else if blankout \<noteq> 0 then finish st (Some (replicate len (Some NUL))) (Some len)
                               else if len \<le> length orig
                               then finish st (Some (map Some (take len orig))) (Some len)
                               else UB
                           | (b, _) \<Rightarrow>
                               let str = (if blankout \<noteq> 0 \<and> len \<noteq> 0
                                          then (case b of None \<Rightarrow> None | Some b' \<Rightarrow> map_option Some (copy_in b' 0 [NUL]))
                                          else Some b) in
                               (case str of
                                  None \<Rightarrow> UB
                                | Some str \<Rightarrow>
                                    finish (store_data st h (d\<lparr> dh_data := DMem (m\<lparr> mem_buffer := None \<rparr>) \<rparr>))
                                      str (Some len)))
                | (ExtCbs, _) \<Rightarrow> finish st None None
                | _ \<Rightarrow> UB)))"

section \<open>The handlers of the wait interface\<close>

abbreviation BUFFER_SIZE :: nat where "BUFFER_SIZE \<equiv> 4096"

text \<open>
  The inbound handler gets what the descriptor delivered as \<open>rd\<close>; \<open>stale\<close> is the value of
  \<open>errno\<close> before the call.  The loop ends because every round writes at least one byte; the
  result says whether the descriptor was closed.
\<close>

function inbound_loop ::
  "'u data_env \<Rightarrow> errno \<Rightarrow> 'u data_state \<Rightarrow> nat option \<Rightarrow> string \<Rightarrow> ('u data_state \<times> gpgme_error_t) cres option" where
  "inbound_loop env stale st dh bs =
     (case gpgme_data_write env st dh bs of
        None \<Rightarrow> None
      | Some UB \<Rightarrow> Some UB
      | Some (Err e) \<Rightarrow> Some (Err e)
      | Some (Ok (st1, r)) \<Rightarrow>
          let amt = sr_ret r; errno = (case sr_errno r of None \<Rightarrow> stale | Some e \<Rightarrow> e) in
          if amt = 0 \<or> (amt < 0 \<and> errno \<noteq> EINTR) then Some (Ok (st1, syserror errno))
          else if amt < 0 then Some UB
          else if amt \<ge> int (length bs) then Some (Ok (st1, no_error))
          else inbound_loop env errno st1 dh (drop (nat amt) bs))"
  by pat_completeness auto
termination by (relation "measure (\<lambda>(env, stale, st, dh, bs). length bs)") auto

declare inbound_loop.simps [simp del]

definition gpgme_data_inbound_handler ::
  "'u data_env \<Rightarrow> errno \<Rightarrow> 'u data_state \<Rightarrow> nat option \<Rightarrow> errno + string
     \<Rightarrow> ('u data_state \<times> gpgme_error_t \<times> bool) cres option" where
  "gpgme_data_inbound_handler env stale st dh rd =
     (case rd of
        Inl e \<Rightarrow> Some (Ok (st, syserror e, False))
      | Inr bs \<Rightarrow>
          if bs = [] then Some (Ok (st, no_error, True))
          else case inbound_loop env stale st dh bs of
              None \<Rightarrow> None
            | Some UB \<Rightarrow> Some UB
            | Some (Err e) \<Rightarrow> Some (Err e)
            | Some (Ok (st1, err)) \<Rightarrow> Some (Ok (st1, err, False)))"

text \<open>
  The outbound handler: \<open>wr\<close> is the answer of the descriptor to an offered string.  The result has
  the bytes the descriptor took and whether it was closed.
\<close>

record outbound_res =
  ob_err :: gpgme_error_t
  ob_sent :: string
  ob_closed :: bool

definition outbound_flush ::
  "errno \<Rightarrow> 'u data_state \<Rightarrow> nat \<Rightarrow> 'u gpgme_data \<Rightarrow> (string \<Rightarrow> errno + nat) \<Rightarrow> ('u data_state \<times> outbound_res) cres" where
  "outbound_flush stale st h d wr =
     (let bad = (\<lambda>e. \<lparr> ob_err = syserror e, ob_sent = [], ob_closed = False \<rparr>) in
      case wr (dh_pending d) of
        Inl e \<Rightarrow>
          if e = EAGAIN then Ok (st, \<lparr> ob_err = no_error, ob_sent = [], ob_closed = False \<rparr>)
          else if e = EPIPE then Ok (st, \<lparr> ob_err = no_error, ob_sent = [], ob_closed = True \<rparr>)
          else Ok (st, bad e)
      | Inr n \<Rightarrow>
          if n = 0 then Ok (st, bad stale)
          else if n > length (dh_pending d) then UB
          else Ok (store_data st h (d\<lparr> dh_pending := drop n (dh_pending d) \<rparr>),
                   \<lparr> ob_err = no_error, ob_sent = take n (dh_pending d), ob_closed = False \<rparr>))"

definition gpgme_data_outbound_handler ::
  "'u data_env \<Rightarrow> errno \<Rightarrow> 'u data_state \<Rightarrow> nat \<Rightarrow> (string \<Rightarrow> errno + nat)
     \<Rightarrow> ('u data_state \<times> outbound_res) cres option" where
  "gpgme_data_outbound_handler env stale st h wr =
     (case objects st h of
        None \<Rightarrow> Some UB
      | Some d \<Rightarrow>
          if dh_pending d \<noteq> [] then Some (outbound_flush stale st h d wr)
          else case gpgme_data_read env st (Some h) BUFFER_SIZE of
              None \<Rightarrow> None
            | Some UB \<Rightarrow> Some UB
            | Some (Err e) \<Rightarrow> Some (Err e)
            | Some (Ok (st1, r)) \<Rightarrow>
                if sr_ret r < 0
                then Some (Ok (st1, \<lparr> ob_err = syserror_of stale r, ob_sent = [], ob_closed = False \<rparr>))
                else if sr_ret r = 0
                then Some (Ok (st1, \<lparr> ob_err = no_error, ob_sent = [], ob_closed = True \<rparr>))
                else case objects st1 h of
                    None \<Rightarrow> Some UB
                  | Some d1 \<Rightarrow>
                      if length (sr_bytes r) > BUFFER_SIZE then Some UB
                      else let d2 = d1\<lparr> dh_pending := sr_bytes r \<rparr> in
                        Some (outbound_flush stale (store_data st1 h d2) h d2 wr))"

section \<open>Identification\<close>

abbreviation SAMPLE_SIZE :: nat where "SAMPLE_SIZE \<equiv> 2048"

definition gpgme_data_identify ::
  "'u data_env \<Rightarrow> 'u data_state \<Rightarrow> nat option \<Rightarrow> ('u data_state \<times> gpgme_data_type_t) cres option" where
  "gpgme_data_identify env st dh =
     (case gpgme_data_seek env st dh 0 SEEK_CUR of
        UB \<Rightarrow> Some UB
      | Err e \<Rightarrow> Some (Err e)
      | Ok (st1, off) \<Rightarrow>
          if sr_ret off = - 1 \<or> \<not> env_mal env SAMPLE_SIZE
          then Some (Ok (st1, GPGME_DATA_TYPE_INVALID))
          else case gpgme_data_read env st1 dh (SAMPLE_SIZE - 1) of
              None \<Rightarrow> None
            | Some UB \<Rightarrow> Some UB
            | Some (Err e) \<Rightarrow> Some (Err e)
            | Some (Ok (st2, r)) \<Rightarrow>
                if sr_ret r < 0 then Some (Ok (st2, GPGME_DATA_TYPE_INVALID))
                else if length (sr_bytes r) \<ge> SAMPLE_SIZE then Some UB
                else case gpgme_data_seek env st2 dh (sr_ret off) SEEK_SET of
                    UB \<Rightarrow> Some UB
                  | Err e \<Rightarrow> Some (Err e)
                  | Ok (st3, _) \<Rightarrow> Some (Ok (st3, basic_detection (env_mal env 1) (sr_bytes r))))"

end
