(* ===== verification/Gpgme_DataInv.thy ===== *)
theory Gpgme_DataInv
  imports Gpgme_Data
begin

text \<open>
  The invariant that ties the property table to the data objects, its preservation by every
  operation of \<open>Gpgme_Data\<close>, and the step relation of sequences of calls.
\<close>

section \<open>The invariant of the table\<close>

definition tab :: "'u data_state \<Rightarrow> property_s list" where
  "tab st = (case property_table st of None \<Rightarrow> [] | Some t \<Rightarrow> t)"

definition impl_ok :: "'u gpgme_data \<Rightarrow> bool" where
  "impl_ok d \<longleftrightarrow> (case dh_data d of DMem m \<Rightarrow> dh_cbs d = MemCbs \<and> mem_ok m | DExt u \<Rightarrow> dh_cbs d = ExtCbs)"

definition slots_ok :: "property_s list \<Rightarrow> 64 word \<Rightarrow> bool" where
  "slots_ok t lst \<longleftrightarrow> length t < 4294967296
     \<and> (\<forall>i < length t. p_dh (t ! i) \<noteq> None \<longrightarrow> 0 < p_dserial (t ! i) \<and> p_dserial (t ! i) \<le> lst)
     \<and> (\<forall>i < length t. \<forall>j < length t. p_dh (t ! i) \<noteq> None \<longrightarrow> p_dh (t ! j) \<noteq> None \<longrightarrow>
          p_dserial (t ! i) = p_dserial (t ! j) \<longrightarrow> i = j)"

definition st_ok :: "'u data_state \<Rightarrow> bool" where
  "st_ok st \<longleftrightarrow> slots_ok (tab st) (last_dserial st)
     \<and> (\<forall>h d. objects st h = Some d \<longrightarrow>
          dh_propidx d < length (tab st) \<and> p_dh (tab st ! dh_propidx d) = Some h \<and> impl_ok d)
     \<and> (\<forall>i h. i < length (tab st) \<longrightarrow> p_dh (tab st ! i) = Some h \<longrightarrow>
          (\<exists>d. objects st h = Some d \<and> dh_propidx d = i))"

definition data_init :: "'u data_state" where
  "data_init = \<lparr> property_table = None, last_dserial = 0, objects = Map.empty \<rparr>"

lemma st_ok_init: "st_ok data_init"
  by (simp add: st_ok_def data_init_def tab_def slots_ok_def)

lemma prop_index_live:
  "st_ok st \<Longrightarrow> objects st h = Some d \<Longrightarrow> prop_index st h = Ok (dh_propidx d)"
  by (auto simp: st_ok_def prop_index_def tab_def split: option.splits)

lemma prop_index_OkD:
  "prop_index st h = Ok i \<Longrightarrow>
   \<exists>d. objects st h = Some d \<and> dh_propidx d = i \<and> i < length (tab st) \<and> p_dh (tab st ! i) = Some h"
  by (auto simp: prop_index_def tab_def split: option.splits if_splits)

lemma st_ok_store [gpgme_inv]:
  assumes "st_ok st" "objects st h = Some d" "dh_propidx d' = dh_propidx d" "impl_ok d'"
  shows "st_ok (store_data st h d')"
  using assms by (auto simp: st_ok_def store_data_def tab_def)

lemma slot_search_less: "slot_search P t < length t \<Longrightarrow> P (t ! slot_search P t)"
  by (metis nth_length_takeWhile slot_search_def)

lemma slot_search_le: "slot_search P t \<le> length t"
  by (simp add: slot_search_def length_takeWhile_le)

lemma slot_search_unique:
  assumes "i < length t" "P (t ! i)" "\<And>j. j < length t \<Longrightarrow> P (t ! j) \<Longrightarrow> j = i"
  shows "slot_search P t = i"
proof -
  have "takeWhile (\<lambda>p. \<not> P p) t \<noteq> t" using assms(1,2) by (metis nth_mem takeWhile_eq_all_conv)
  then have "slot_search P t \<noteq> length t"
    by (metis slot_search_def takeWhile_eq_take take_all order_refl)
  then have "slot_search P t < length t" using slot_search_le [of P t] by linarith
  then show ?thesis using assms(3) slot_search_less by blast
qed

text \<open>Filling a free slot, which may lie in the new part of an enlarged table.\<close>

definition fill_slot :: "'u data_state \<Rightarrow> property_s list \<Rightarrow> nat \<Rightarrow> nat \<Rightarrow> cbs_id \<Rightarrow> 'u data_impl \<Rightarrow> 'u data_state" where
  "fill_slot st t idx h cbs d =
     st\<lparr> property_table := Some (t[idx := \<lparr> p_dh = Some h, p_dserial = last_dserial st + 1, p_blankout = False \<rparr>]),
         last_dserial := last_dserial st + 1,
         objects := (objects st)(h \<mapsto> new_data cbs d idx) \<rparr>"

lemma fill_slot_ok:
  assumes ok: "st_ok st" and fresh: "objects st h = None" and wrap: "last_dserial st < last_dserial st + 1"
    and t: "t = tab st @ replicate k free_slot" and len: "length t < 4294967296"
    and idx: "idx < length t" "p_dh (t ! idx) = None" and d: "impl_ok (new_data cbs d idx)"
  shows "st_ok (fill_slot st t idx h cbs d)"
proof -
  let ?st = "fill_slot st t idx h cbs d" and ?s = "last_dserial st + 1"
  have old: "i < length (tab st) \<and> t ! i = tab st ! i" if "i < length t" "p_dh (t ! i) \<noteq> None" for i
    using that by (auto simp: t nth_append free_slot_def split: if_splits)
  have nth: "tab ?st ! i = (if i = idx then \<lparr> p_dh = Some h, p_dserial = ?s, p_blankout = False \<rparr> else t ! i)"
    if "i < length t" for i using that by (simp add: fill_slot_def tab_def nth_list_update)
  have len': "length (tab ?st) = length t" by (simp add: fill_slot_def tab_def)
  have serial: "0 < p_dserial (t ! i) \<and> p_dserial (t ! i) < ?s"
    if "i < length t" "p_dh (t ! i) \<noteq> None" for i
  proof -
    have "0 < p_dserial (t ! i) \<and> p_dserial (t ! i) \<le> last_dserial st"
      using old [OF that] that ok by (auto simp: st_ok_def slots_ok_def)
    then show ?thesis using wrap by (auto intro: le_less_trans)
  qed
  have inj: "i = j" if "i < length t" "j < length t" "p_dh (t ! i) \<noteq> None" "p_dh (t ! j) \<noteq> None"
    "p_dserial (t ! i) = p_dserial (t ! j)" for i j
    using old [of i] old [of j] that ok by (auto simp: st_ok_def slots_ok_def)
  have pos: "0 < ?s" using wrap by (rule le_less_trans [OF word_zero_le])
  have "slots_ok (tab ?st) ?s"
  proof (unfold slots_ok_def len', intro conjI allI impI len)
    fix i assume "i < length t" "p_dh (tab ?st ! i) \<noteq> None"
    then show "0 < p_dserial (tab ?st ! i)" "p_dserial (tab ?st ! i) \<le> ?s"
      using serial [of i] pos by (auto simp: nth intro: less_imp_le split: if_splits)
  next
    fix i j assume "i < length t" "j < length t" "p_dh (tab ?st ! i) \<noteq> None"
      "p_dh (tab ?st ! j) \<noteq> None" "p_dserial (tab ?st ! i) = p_dserial (tab ?st ! j)"
    then show "i = j"
      using serial [of i] serial [of j] inj [of i j] by (auto simp: nth split: if_splits)
  qed
  moreover have "dh_propidx e < length (tab ?st) \<and> p_dh (tab ?st ! dh_propidx e) = Some g \<and> impl_ok e"
    if "objects ?st g = Some e" for g e
  proof (cases "g = h")
    case True
    then have "e = new_data cbs d idx" using that by (simp add: fill_slot_def)
    then show ?thesis using True idx d nth [of idx] by (simp add: len' new_data_def)
  next
    case False
    then have "objects st g = Some e" using that by (simp add: fill_slot_def)
    then have e: "dh_propidx e < length (tab st)" "p_dh (tab st ! dh_propidx e) = Some g" "impl_ok e"
      using ok by (auto simp: st_ok_def)
    moreover from e have "t ! dh_propidx e = tab st ! dh_propidx e" by (simp add: t nth_append)
    moreover from e have "dh_propidx e < length t" by (simp add: t)
    ultimately show ?thesis using idx nth [of "dh_propidx e"] unfolding len' by auto
  qed
  moreover have "\<exists>e. objects ?st g = Some e \<and> dh_propidx e = i"
    if "i < length (tab ?st)" "p_dh (tab ?st ! i) = Some g" for i g
  proof (cases "i = idx")
    case True
    then show ?thesis using that nth [of idx] idx by (auto simp: fill_slot_def new_data_def)
  next
    case False
    then have "i < length (tab st)" "p_dh (tab st ! i) = Some g"
      using that nth [of i] old [of i] by (auto simp: len')
    then show ?thesis using ok fresh by (auto simp: st_ok_def fill_slot_def)
  qed
  ultimately show ?thesis unfolding st_ok_def by (simp add: fill_slot_def)
qed

definition slot_filled :: "'u data_state \<Rightarrow> property_s list \<Rightarrow> nat \<Rightarrow> nat \<Rightarrow> 'u data_state" where
  "slot_filled st t idx h =
     st\<lparr> property_table := Some (t[idx := \<lparr> p_dh = Some h, p_dserial = last_dserial st + 1, p_blankout = False \<rparr>]),
         last_dserial := last_dserial st + 1 \<rparr>"

lemma insert_cases:
  assumes "length (tab st) < 4294967296"
  obtains e where "insert_into_property_table mal st h = (st, Inl e)" "is_err e"
  | k t idx where "t = tab st @ replicate k free_slot" "length t < 4294967296" "idx < length t"
      "p_dh (t ! idx) = None" "insert_into_property_table mal st h = (slot_filled st t idx h, Inr idx)"
proof (cases "property_table st")
  case None
  let ?t = "replicate 32 free_slot"
  have "slot_search (\<lambda>p. p_dh p = None) ?t = 0"
    by (simp add: slot_search_def free_slot_def numeral_eq_Suc)
  then show ?thesis
    using None that(1) [of "syserror ENOMEM"] that(2) [of ?t 32 0]
    by (cases "mal (32 * 24)")
       (auto simp: insert_into_property_table_def Let_def tab_def free_slot_def slot_filled_def)
next
  case (Some t)
  let ?idx = "slot_search (\<lambda>p. p_dh p = None) t"
  let ?n = "(length t + 32) mod 4294967296"
  have st: "st\<lparr> property_table := Some t \<rparr> = st" using Some by simp
  have t: "tab st = t" "length t < 4294967296" using assms Some by (simp_all add: tab_def)
  show ?thesis
  proof (cases "?idx < length t")
    case True
    then have "p_dh (t ! ?idx) = None" by (rule slot_search_less)
    then show ?thesis using True t that(2) [of t 0 ?idx] Some
      by (simp add: insert_into_property_table_def Let_def slot_filled_def)
  next
    case False
    show ?thesis
    proof (cases "?n < length t \<or> \<not> mal (?n * 24)")
      case True
      then show ?thesis using False Some st that(1) [of "syserror ENOMEM"]
        by (auto simp: insert_into_property_table_def Let_def split: if_splits)
    next
      case grow: False
      have n: "?n = length t + 32"
      proof (cases "length t + 32 < 4294967296")
        case False
        then have "?n = length t + 32 - 4294967296" using t by (simp add: mod_if)
        then have "?n < length t" using t False by linarith
        then show ?thesis using grow by blast
      qed simp
      let ?t = "t @ replicate 32 free_slot"
      have "length ?t < 4294967296" using n by (metis length_append length_replicate mod_less_divisor
            zero_less_numeral)
      moreover have "p_dh (?t ! length t) = None" by (simp add: nth_append free_slot_def)
      moreover have "insert_into_property_table mal st h = (slot_filled st ?t (length t) h, Inr (length t))"
        using False Some grow n by (simp add: insert_into_property_table_def Let_def slot_filled_def)
      ultimately show ?thesis using t that(2) [of ?t 32 "length t"] by simp
    qed
  qed
qed

lemma new_cbs_ok [gpgme_inv]:
  assumes ok: "st_ok st" and fresh: "\<forall>h. addr = Some h \<longrightarrow> objects st h = None"
    and wrap: "last_dserial st < last_dserial st + 1"
    and d: "\<And>idx. impl_ok (new_data cbs d idx)"
    and res: "gpgme_data_new_cbs mal selftest st r_dh addr cbs d = (st', r)"
  shows "(\<exists>e. r = Inl e \<and> is_err e \<and> st' = st)
    \<or> (\<exists>h idx. r = Inr h \<and> addr = Some h \<and> st_ok st'
        \<and> objects st' = (objects st)(h \<mapsto> new_data cbs d idx)
        \<and> p_dserial (tab st' ! idx) = last_dserial st + 1 \<and> last_dserial st' = last_dserial st + 1
        \<and> \<not> p_blankout (tab st' ! idx))"
proof (cases "\<not> r_dh \<or> is_err selftest \<or> addr = None")
  case True
  then consider "\<not> r_dh" | "r_dh" "is_err selftest" | "r_dh" "selftest = no_error" "addr = None" by blast
  then have "st' = st \<and> (\<exists>e. r = Inl e \<and> is_err e)"
  proof cases
    case 1
    then have "(st', r) = (st, Inl (gpg_error GPG_ERR_INV_VALUE))" using res by (simp add: gpgme_data_new_cbs_def)
    then show ?thesis using gpg_error_is_err by blast
  next
    case 2
    then have "(st', r) = (st, Inl selftest)" using res by (simp add: gpgme_data_new_cbs_def)
    then show ?thesis using 2 by blast
  next
    case 3
    then have "(st', r) = (st, Inl (syserror ENOMEM))" using res by (simp add: gpgme_data_new_cbs_def)
    then show ?thesis using gpg_error_is_err by blast
  qed
  then show ?thesis by blast
next
  case False
  then obtain h where h: "r_dh" "selftest = no_error" "addr = Some h" by auto
  have "length (tab st) < 4294967296" using ok by (simp add: st_ok_def slots_ok_def)
  then show ?thesis
  proof (cases rule: insert_cases [where mal = mal and h = h])
    case (1 e)
    then show ?thesis using res h by (auto simp: gpgme_data_new_cbs_def)
  next
    case (2 k t idx)
    have st': "st' = fill_slot st t idx h cbs d" "r = Inr h"
      using res h 2(5) by (auto simp: gpgme_data_new_cbs_def slot_filled_def fill_slot_def)
    have fr: "objects st h = None" using fresh h(3) by simp
    have "st_ok st'" unfolding st' using fr 2 by (intro fill_slot_ok [OF ok _ wrap _ _ _ _ d])
    moreover have "objects st' = (objects st)(h \<mapsto> new_data cbs d idx)"
      "p_dserial (tab st' ! idx) = last_dserial st + 1" "last_dserial st' = last_dserial st + 1"
      "\<not> p_blankout (tab st' ! idx)"
      using 2(3) by (simp_all add: st' fill_slot_def tab_def)
    ultimately show ?thesis using st' h by blast
  qed
qed

lemma release_int_ok [gpgme_inv]:
  assumes "st_ok st" "objects st h = Some d"
  shows "\<exists>st'. gpgme_data_release_int st (Some h) = Ok st' \<and> st_ok st'
    \<and> objects st' = (objects st)(h := None) \<and> last_dserial st' = last_dserial st"
proof -
  let ?i = "dh_propidx d"
  let ?t = "(tab st)[?i := (tab st ! ?i)\<lparr> p_dh := None \<rparr>]"
  define st' where "st' = st\<lparr> property_table := Some ?t, objects := (objects st)(h := None) \<rparr>"
  have i: "?i < length (tab st)" "p_dh (tab st ! ?i) = Some h" using assms by (auto simp: st_ok_def)
  then obtain t where t: "property_table st = Some t" "tab st = t" by (auto simp: tab_def split: option.splits)
  have "gpgme_data_release_int st (Some h) = Ok st'"
    using t by (simp add: gpgme_data_release_int_def remove_from_property_table_def
        prop_index_live [OF assms] st'_def)
  moreover have "st_ok st'"
  proof -
    have tab': "tab st' = ?t" "last_dserial st' = last_dserial st" by (simp_all add: st'_def tab_def)
    have len: "length (tab st') = length (tab st)" by (simp add: tab')
    have dh: "p_dh (tab st' ! k) = (if k = ?i then None else p_dh (tab st ! k))"
      and ser: "p_dserial (tab st' ! k) = p_dserial (tab st ! k)" if "k < length (tab st)" for k
      using that by (cases "k = ?i"; simp add: tab')+
    have "slots_ok (tab st') (last_dserial st')"
      using assms(1) unfolding st_ok_def slots_ok_def len tab'(2) by (simp add: dh ser)
    moreover have "dh_propidx e < length (tab st') \<and> p_dh (tab st' ! dh_propidx e) = Some g \<and> impl_ok e"
      if "objects st' g = Some e" for g e
    proof -
      have g: "g \<noteq> h" "objects st g = Some e" using that by (auto simp: st'_def split: if_splits)
      then have e: "dh_propidx e < length (tab st)" "p_dh (tab st ! dh_propidx e) = Some g" "impl_ok e"
        using assms(1) by (auto simp: st_ok_def)
      moreover from e i g have "dh_propidx e \<noteq> ?i" by auto
      ultimately show ?thesis by (simp add: len dh)
    qed
    moreover have "\<exists>e. objects st' g = Some e \<and> dh_propidx e = k"
      if "k < length (tab st')" "p_dh (tab st' ! k) = Some g" for k g
    proof -
      have k: "k < length (tab st)" "k \<noteq> ?i" "p_dh (tab st ! k) = Some g"
        using that by (auto simp: len dh split: if_splits)
      then obtain e where "objects st g = Some e" "dh_propidx e = k"
        using assms(1) unfolding st_ok_def by blast
      moreover from this k assms(2) have "g \<noteq> h" by auto
      ultimately show ?thesis by (simp add: st'_def)
    qed
    ultimately show ?thesis unfolding st_ok_def by blast
  qed
  ultimately show ?thesis by (auto simp: st'_def)
qed

lemma tab_blankout_ok [gpgme_inv]:
  assumes "st_ok st" "i < length (tab st)"
  shows "st_ok (st\<lparr> property_table := map_option (\<lambda>t. t[i := (t ! i)\<lparr> p_blankout := b \<rparr>]) (property_table st) \<rparr>)"
    (is "st_ok ?st")
proof -
  have tab': "tab ?st = (tab st)[i := (tab st ! i)\<lparr> p_blankout := b \<rparr>]"
    by (simp add: tab_def split: option.splits)
  have dh: "p_dh (tab ?st ! k) = p_dh (tab st ! k)"
    and ser: "p_dserial (tab ?st ! k) = p_dserial (tab st ! k)" if "k < length (tab st)" for k
    using that by (cases "k = i"; simp add: tab')+
  have len: "length (tab ?st) = length (tab st)" by (simp add: tab')
  show ?thesis using assms(1) unfolding st_ok_def slots_ok_def len by (simp add: dh ser)
qed

section \<open>Calls on live objects\<close>

text \<open>What the handle of a call may be: NULL or a live object.\<close>

definition live :: "'u data_state \<Rightarrow> nat option \<Rightarrow> bool" where
  "live st dh \<longleftrightarrow> (case dh of None \<Rightarrow> True | Some h \<Rightarrow> objects st h \<noteq> None)"

lemma live_cases:
  assumes "live st dh"
  obtains "dh = None" | h d where "dh = Some h" "objects st h = Some d"
  using assms by (cases dh) (auto simp: live_def)

lemma prop_lookup_live:
  assumes "st_ok st" "live st dh"
  shows "(\<exists>e. prop_lookup st dh s = Err e \<and> is_err e)
    \<or> (\<exists>i. prop_lookup st dh s = Ok i \<and> i < length (tab st) \<and> property_table st \<noteq> None)"
proof (cases dh)
  case None
  then show ?thesis
    by (auto simp: prop_lookup_def Let_def tab_def split: option.splits)
next
  case (Some h)
  then obtain d where d: "objects st h = Some d" using assms(2) by (auto simp: live_def)
  have "dh_propidx d < length (tab st)" using assms(1) d by (auto simp: st_ok_def)
  moreover from this have "property_table st \<noteq> None" by (cases "property_table st") (auto simp: tab_def)
  ultimately show ?thesis using prop_index_live [OF assms(1) d] Some
    by (auto simp: prop_lookup_def)
qed

lemma set_prop_ok [gpgme_inv]:
  assumes "st_ok st" "live st dh"
  shows "\<exists>st' e. gpgme_data_set_prop st dh s name v = Ok (st', e) \<and> st_ok st' \<and> objects st' = objects st
    \<and> last_dserial st' = last_dserial st"
  using prop_lookup_live [OF assms, of s]
proof (elim disjE exE conjE)
  fix i assume "prop_lookup st dh s = Ok i" "i < length (tab st)"
  then show ?thesis using assms(1) tab_blankout_ok [of st i "v \<noteq> 0"]
    by (cases name) (simp_all add: gpgme_data_set_prop_def)
qed (use assms(1) in \<open>simp add: gpgme_data_set_prop_def\<close>)

lemma get_prop_ok:
  assumes "st_ok st" "live st dh"
  shows "\<exists>v e. gpgme_data_get_prop st dh s name = Ok (v, e)"
  using prop_lookup_live [OF assms, of s]
  by (cases name) (auto simp: gpgme_data_get_prop_def)

lemma release_int_store:
  assumes "objects st h = Some d" "dh_propidx d' = dh_propidx d"
  shows "gpgme_data_release_int (store_data st h d') (Some h) = gpgme_data_release_int st (Some h)"
  using assms by (simp add: gpgme_data_release_int_def remove_from_property_table_def prop_index_def
      store_data_def split: option.splits)

lemma release_int_eq:
  assumes "objects st h = Some d"
  shows "gpgme_data_release env st (Some h) = gpgme_data_release_int st (Some h)"
proof -
  define d1 where "d1 = (case cb_release (cbs_of env d) of
      None \<Rightarrow> d | Some f \<Rightarrow> d\<lparr> dh_data := f (dh_data d) \<rparr>)"
  have "dh_propidx d1 = dh_propidx d" by (simp add: d1_def split: option.splits)
  from release_int_store [OF assms this] show ?thesis
    using assms by (simp add: gpgme_data_release_def d1_def [symmetric] store_data_def)
qed

lemma release_ok [gpgme_inv]:
  assumes "st_ok st" "live st dh"
  shows "\<exists>st'. gpgme_data_release env st dh = Ok st' \<and> st_ok st' \<and> last_dserial st' = last_dserial st
    \<and> objects st' = (case dh of None \<Rightarrow> objects st | Some h \<Rightarrow> (objects st)(h := None))"
  using assms(2)
proof (cases rule: live_cases)
  case (2 h d)
  then show ?thesis using release_int_ok [OF assms(1) 2(2)] release_int_eq [OF 2(2)] by auto
qed (use assms in \<open>simp add: gpgme_data_release_def\<close>)

lemma store_live: "live st dh \<Longrightarrow> live (store_data st h d) dh"
  by (auto simp: live_def store_data_def split: option.splits)

lemma impl_ok_update [simp]:
  "impl_ok (d\<lparr> dh_pending := p \<rparr>) = impl_ok d"
  "impl_ok (d\<lparr> dh_encoding := e \<rparr>) = impl_ok d"
  "impl_ok (d\<lparr> dh_file_name := f \<rparr>) = impl_ok d"
  "impl_ok (d\<lparr> dh_size_hint := z \<rparr>) = impl_ok d"
  by (simp_all add: impl_ok_def split: data_impl.splits)

text \<open>The retry loop keeps what the callback keeps, and ends at once when it is not interrupted.\<close>

definition keeps :: "('d \<Rightarrow> bool) \<Rightarrow> ('d \<Rightarrow> ('d, 'r) cb_res) \<Rightarrow> bool" where
  "keeps P f \<longleftrightarrow> (\<forall>x. P x \<longrightarrow> (\<exists>p. f x = Ok p \<and> P (fst p)))"

lemma eintr_retry_invariant:
  assumes "eintr_retry f x = Some y"
  shows "keeps P f \<longrightarrow> P x \<longrightarrow> (\<exists>p. y = Ok p \<and> P (fst p))"
proof (rule eintr_retry.raw_induct
    [where P = "\<lambda>f x y. keeps P f \<longrightarrow> P x \<longrightarrow> (\<exists>p. y = Ok p \<and> P (fst p))", OF _ assms])
  fix retry f x y
  assume IH: "\<And>f x y. retry f x = Some y \<Longrightarrow> keeps P f \<longrightarrow> P x \<longrightarrow> (\<exists>p. y = Ok p \<and> P (fst p))"
    and step: "(case f x of
        UB \<Rightarrow> Some UB
      | Err e \<Rightarrow> Some (Err e)
      | Ok p \<Rightarrow> if snd p = Inl EINTR then retry f (fst p) else Some (Ok p)) = Some y"
  show "keeps P f \<longrightarrow> P x \<longrightarrow> (\<exists>p. y = Ok p \<and> P (fst p))"
  proof (intro impI)
    assume f: "keeps P f" and "P x"
    then obtain p where p: "f x = Ok p" "P (fst p)" by (auto simp: keeps_def)
    show "\<exists>p. y = Ok p \<and> P (fst p)"
    proof (cases "snd p = Inl EINTR")
      case True
      then show ?thesis using step p IH [of f "fst p" y] f by simp
    next
      case False
      then have "y = Ok p" using step p(1) by simp
      then show ?thesis using p(2) by blast
    qed
  qed
qed

lemma eintr_retry_once:
  "f x = Ok (x', r) \<Longrightarrow> r \<noteq> Inl EINTR \<Longrightarrow> eintr_retry f x = Some (Ok (x', r))"
  by (simp add: eintr_retry.simps)

definition impl_inv :: "cbs_id \<Rightarrow> 'u data_impl \<Rightarrow> bool" where
  "impl_inv k x \<longleftrightarrow> (case x of DMem m \<Rightarrow> k = MemCbs \<and> mem_ok m | DExt u \<Rightarrow> k = ExtCbs)"

lemma impl_ok_inv: "impl_ok d \<longleftrightarrow> impl_inv (dh_cbs d) (dh_data d)"
  by (simp add: impl_ok_def impl_inv_def)

lemma lift_ext_keeps: "keeps (impl_inv ExtCbs) (lift_ext f)"
  by (auto simp: keeps_def impl_inv_def lift_ext_def split: data_impl.splits prod.splits)

lemma mem_read_once:
  assumes "mem_ok m"
  obtains m' s where "eintr_retry (\<lambda>x. lift_mem (\<lambda>m. mem_read m n) x) (DMem m) = Some (Ok (DMem m', Inr s))"
    "s = file_read (mem_file m) n" "mem_ok m'" "mem_file m' = file_advance (mem_file m) (length s)"
proof -
  obtain m' where "mem_read m n = Ok (m', Inr (file_read (mem_file m) n))" "mem_ok m'"
    "mem_file m' = file_advance (mem_file m) (length (file_read (mem_file m) n))"
    using mem.rd_law [OF assms, of n] by blast
  then show ?thesis using that by (simp add: eintr_retry_once lift_mem_def)
qed

lemma mem_write_once:
  assumes "mem_ok m" "mem_offset m + length bs < SIZE_MOD"
  shows "\<exists>m' r. eintr_retry (\<lambda>x. lift_mem (\<lambda>m. mem_write mal m bs) x) (DMem m) = Some (Ok (DMem m', r))
    \<and> mem_ok m' \<and> (r = Inr (length bs) \<and> mem_file m' = file_write (mem_file m) bs
        \<or> r = Inl ENOMEM \<and> mem_file m' = mem_file m \<and> \<not> (\<forall>n. mal n))"
proof -
  have "snd (mem_file m) + length bs < SIZE_MOD" using assms(2) by (simp add: mem_file_def)
  from mem.wr_law [OF assms(1) this, of mal] show ?thesis
    by (elim disjE exE conjE) (simp_all add: eintr_retry_once lift_mem_def)
qed

lemma obj_update_ok:
  assumes "st_ok st" "objects st h = Some d" "impl_inv (dh_cbs d) x"
  shows "st_ok (store_data st h (d\<lparr> dh_data := x \<rparr>))" "st_ok (store_data st h (d\<lparr> dh_data := x, dh_pending := p \<rparr>))"
  using assms by (auto intro!: st_ok_store [OF assms(1,2)] simp: impl_ok_inv)

lemma live_impl: "st_ok st \<Longrightarrow> objects st h = Some d \<Longrightarrow> impl_inv (dh_cbs d) (dh_data d)"
  by (auto simp: st_ok_def impl_ok_inv)

lemma store_same [simp]:
  "objects (store_data st h d) = (objects st)(h \<mapsto> d)"
  "last_dserial (store_data st h d) = last_dserial st"
  "property_table (store_data st h d) = property_table st"
  "tab (store_data st h d) = tab st"
  by (simp_all add: store_data_def tab_def)

text \<open>What reading and writing leave alone.\<close>

definition same_table :: "'u data_state \<Rightarrow> 'u data_state \<Rightarrow> bool" where
  "same_table st st' \<longleftrightarrow> property_table st' = property_table st \<and> last_dserial st' = last_dserial st
     \<and> dom (objects st') = dom (objects st)"

lemma io_finish_ok:
  assumes "st_ok st" "objects st h = Some d" "\<exists>p. y = Ok p \<and> impl_inv (dh_cbs d) (fst p)"
  shows "\<exists>st' r. io_finish st h d f y = Ok (st', r) \<and> st_ok st' \<and> same_table st st'"
  using assms obj_update_ok(1) [OF assms(1,2)]
  by (auto simp: io_finish_def same_table_def dom_def)

lemma read_retry_inv:
  assumes "impl_inv (dh_cbs d) (dh_data d)" "cb_read (cbs_of env d) = Some rd"
    "eintr_retry (\<lambda>x. rd x sz) (dh_data d) = Some y"
  shows "\<exists>p. y = Ok p \<and> impl_inv (dh_cbs d) (fst p)"
proof (cases "dh_data d")
  case (DMem m)
  then have m: "mem_ok m" "dh_cbs d = MemCbs" using assms(1) by (auto simp: impl_inv_def)
  then have rd: "rd = (\<lambda>d n. lift_mem (\<lambda>m. mem_read m n) d)"
    using assms(2) by (auto simp: cbs_of_def mem_cbs_def)
  obtain m' s where "y = Ok (DMem m', Inr s)" "mem_ok m'"
    using mem_read_once [OF m(1), of sz] assms(3) unfolding rd DMem by (metis option.inject)
  then show ?thesis using m(2) by (simp add: impl_inv_def)
next
  case (DExt u)
  then have ext: "dh_cbs d = ExtCbs" using assms(1) by (auto simp: impl_inv_def)
  then obtain f where "rd = (\<lambda>d n. lift_ext (\<lambda>u. f u n) d)"
    using assms(2) by (auto simp: cbs_of_def foreign_cbs_def)
  then show ?thesis
    using eintr_retry_invariant [OF assms(3), of "impl_inv ExtCbs"] lift_ext_keeps assms(1) ext
    by auto
qed

lemma data_read_live:
  assumes "objects st h = Some d" "cb_read (cbs_of env d) = Some rd"
    "gpgme_data_get_prop st (Some h) 0 DATA_PROP_BLANKOUT = Ok (v, e)"
  shows "gpgme_data_read env st (Some h) sz =
    (if is_err e \<or> v \<noteq> 0
     then Some (Ok (st, \<lparr> sr_ret = trace_sysres 0, sr_bytes = [], sr_errno = None \<rparr>))
     else map_option (io_finish st h d (\<lambda>bs. (int (length bs), bs)))
            (eintr_retry (\<lambda>x. rd x sz) (dh_data d)))"
  using assms by (simp add: gpgme_data_read_def)

lemma read_ok [gpgme_inv]:
  assumes ok: "st_ok st" and live: "live st dh" and y: "gpgme_data_read env st dh sz = Some y"
  shows "\<exists>st' r. y = Ok (st', r) \<and> st_ok st' \<and> same_table st st'"
proof -
  have same: "same_table st st" by (simp add: same_table_def)
  obtain v e where bl: "gpgme_data_get_prop st dh 0 DATA_PROP_BLANKOUT = Ok (v, e)"
    using get_prop_ok [OF ok live] by blast
  consider "dh = None" | h d where "dh = Some h" "objects st h = Some d" "cb_read (cbs_of env d) = None"
    | h d rd where "dh = Some h" "objects st h = Some d" "cb_read (cbs_of env d) = Some rd"
    using live by (rule live_cases) (metis option.exhaust)+
  then show ?thesis
  proof cases
    case (3 h d rd)
    note eq = y [unfolded 3(1) data_read_live [OF 3(2,3) bl [unfolded 3(1)]]]
    show ?thesis
    proof (cases "is_err e \<or> v \<noteq> 0")
      case True
      with eq have "y = Ok (st, \<lparr> sr_ret = trace_sysres 0, sr_bytes = [], sr_errno = None \<rparr>)"
        by (simp only: if_True option.inject)
      then show ?thesis using ok same by blast
    next
      case False
      with eq obtain z where z: "eintr_retry (\<lambda>x. rd x sz) (dh_data d) = Some z"
        "y = io_finish st h d (\<lambda>bs. (int (length bs), bs)) z"
        by (simp only: if_False map_option_eq_Some) blast
      show ?thesis unfolding z(2)
        by (rule io_finish_ok [OF ok 3(2) read_retry_inv [OF live_impl [OF ok 3(2)] 3(3) z(1)]])
    qed
  qed (use y ok same in \<open>auto simp: gpgme_data_read_def\<close>)
qed

text \<open>A write has to stay within the address space.\<close>

definition write_fits :: "'u data_state \<Rightarrow> nat option \<Rightarrow> string \<Rightarrow> bool" where
  "write_fits st dh bs \<longleftrightarrow> (case dh of None \<Rightarrow> True | Some h \<Rightarrow>
     (case objects st h of None \<Rightarrow> True | Some d \<Rightarrow>
       (case dh_data d of DMem m \<Rightarrow> mem_offset m + length bs < SIZE_MOD | DExt u \<Rightarrow> True)))"

lemma write_retry_inv:
  assumes "impl_inv (dh_cbs d) (dh_data d)" "cb_write (cbs_of env d) = Some wr"
    "\<And>m. dh_data d = DMem m \<Longrightarrow> mem_offset m + length bs < SIZE_MOD"
    "eintr_retry (\<lambda>x. wr x bs) (dh_data d) = Some y"
  shows "\<exists>p. y = Ok p \<and> impl_inv (dh_cbs d) (fst p)"
proof (cases "dh_data d")
  case (DMem m)
  then have m: "mem_ok m" "dh_cbs d = MemCbs" using assms(1) by (auto simp: impl_inv_def)
  then have wr: "wr = (\<lambda>d s. lift_mem (\<lambda>m. mem_write (env_mal env) m s) d)"
    using assms(2) by (auto simp: cbs_of_def mem_cbs_def)
  obtain m' r where "y = Ok (DMem m', r)" "mem_ok m'"
    using mem_write_once [OF m(1) assms(3) [OF DMem], of "env_mal env"] assms(4)
    unfolding wr DMem by (metis option.inject)
  then show ?thesis using m(2) by (simp add: impl_inv_def)
next
  case (DExt u)
  then have ext: "dh_cbs d = ExtCbs" using assms(1) by (auto simp: impl_inv_def)
  then obtain f where "wr = (\<lambda>d n. lift_ext (\<lambda>u. f u n) d)"
    using assms(2) by (auto simp: cbs_of_def foreign_cbs_def)
  then show ?thesis
    using eintr_retry_invariant [OF assms(4), of "impl_inv ExtCbs"] lift_ext_keeps assms(1) ext
    by auto
qed

lemma write_ok [gpgme_inv]:
  assumes ok: "st_ok st" and live: "live st dh" and fits: "write_fits st dh bs"
    and y: "gpgme_data_write env st dh bs = Some y"
  shows "\<exists>st' r. y = Ok (st', r) \<and> st_ok st' \<and> same_table st st'"
proof -
  have same: "same_table st st" by (simp add: same_table_def)
  consider "dh = None" | h d where "dh = Some h" "objects st h = Some d" "cb_write (cbs_of env d) = None"
    | h d wr where "dh = Some h" "objects st h = Some d" "cb_write (cbs_of env d) = Some wr"
    using live by (rule live_cases) (metis option.exhaust)+
  then show ?thesis
  proof cases
    case (3 h d wr)
    then obtain z where z: "eintr_retry (\<lambda>x. wr x bs) (dh_data d) = Some z"
      "y = io_finish st h d (\<lambda>n. (int n, [])) z"
      using y by (auto simp: gpgme_data_write_def)
    have "\<And>m. dh_data d = DMem m \<Longrightarrow> mem_offset m + length bs < SIZE_MOD"
      using fits 3 by (simp add: write_fits_def)
    then have "\<exists>p. z = Ok p \<and> impl_inv (dh_cbs d) (fst p)"
      using write_retry_inv [OF live_impl [OF ok 3(2)] 3(3) _ z(1)] by simp
    then show ?thesis unfolding z(2) by (rule io_finish_ok [OF ok 3(2)])
  qed (use y ok same in \<open>auto simp: gpgme_data_write_def\<close>)
qed

text \<open>The offset a seek hands to its callback must not be the smallest number.\<close>

definition seek_fits :: "'u data_state \<Rightarrow> nat option \<Rightarrow> int \<Rightarrow> bool" where
  "seek_fits st dh offset \<longleftrightarrow> (case dh of None \<Rightarrow> True | Some h \<Rightarrow>
     (case objects st h of None \<Rightarrow> True | Some d \<Rightarrow> LONG_MIN < offset - int (length (dh_pending d))))"

lemma seek_cb_inv:
  assumes "impl_inv (dh_cbs d) (dh_data d)" "cb_seek (cbs_of env d) = Some sk" "off \<noteq> LONG_MIN"
  shows "\<exists>p. sk (dh_data d) off w = Ok p \<and> impl_inv (dh_cbs d) (fst p)"
proof (cases "dh_data d")
  case (DMem m)
  then have m: "mem_ok m" "dh_cbs d = MemCbs" using assms(1) by (auto simp: impl_inv_def)
  then have sk: "sk = (\<lambda>d off w. lift_mem (\<lambda>m. mem_seek m off w) d)"
    using assms(2) by (auto simp: cbs_of_def mem_cbs_def)
  obtain m' r where "mem_seek m off w = Ok (m', r)" "mem_ok m'"
    using mem.sk_law [OF m(1) assms(3), of w] m(1) unfolding Let_def
    by (cases "0 \<le> file_target (mem_file m) off w
        \<and> file_target (mem_file m) off w \<le> int (length (fst (mem_file m)))") auto
  then show ?thesis using m(2) by (simp add: impl_inv_def sk lift_mem_def DMem)
next
  case (DExt u)
  then have ext: "dh_cbs d = ExtCbs" using assms(1) by (auto simp: impl_inv_def)
  then obtain f where sk: "sk = (\<lambda>d off w. lift_ext (\<lambda>u. f u off w) d)"
    using assms(2) by (auto simp: cbs_of_def foreign_cbs_def)
  obtain u' r where "f u off w = (u', r)" by (cases "f u off w")
  then show ?thesis using ext by (simp add: sk lift_ext_def DExt impl_inv_def)
qed

lemma seek_ok [gpgme_inv]:
  assumes ok: "st_ok st" and live: "live st dh" and fits: "seek_fits st dh offset"
  shows "\<exists>st' r. gpgme_data_seek env st dh offset w = Ok (st', r) \<and> st_ok st' \<and> same_table st st'"
proof -
  have same: "same_table st st" by (simp add: same_table_def)
  consider "dh = None" | h d where "dh = Some h" "objects st h = Some d" "cb_seek (cbs_of env d) = None"
    | h d sk where "dh = Some h" "objects st h = Some d" "cb_seek (cbs_of env d) = Some sk"
    using live by (rule live_cases) (metis option.exhaust)+
  then show ?thesis
  proof cases
    case (3 h d sk)
    define off where "off = (if w = SEEK_CUR then offset - int (length (dh_pending d)) else offset)"
    have off: "LONG_MIN < off" using fits 3 by (simp add: seek_fits_def off_def)
    then have "off \<noteq> LONG_MIN" by linarith
    then obtain x r where x: "sk (dh_data d) off w = Ok (x, r)" "impl_inv (dh_cbs d) x"
      using seek_cb_inv [OF live_impl [OF ok 3(2)] 3(3), of off w] by auto
    have "\<not> off < LONG_MIN" using off by linarith
    then show ?thesis using 3 x obj_update_ok [OF ok 3(2) x(2)]
      by (cases r) (auto simp: gpgme_data_seek_def off_def [symmetric] same_table_def dom_def)
  qed (use ok same in \<open>auto simp: gpgme_data_seek_def\<close>)
qed

lemma get_mem_mem:
  assumes ok: "st_ok st" and d: "objects st h = Some d" "dh_data d = DMem m"
    and blank: "gpgme_data_get_prop st (Some h) 0 DATA_PROP_BLANKOUT = Ok (v, no_error)"
  shows "\<exists>st' b n. gpgme_data_release_and_get_mem env st (Some h) = Ok (st', b, n) \<and> st_ok st'
    \<and> objects st' = (objects st)(h := None) \<and> last_dserial st' = last_dserial st
    \<and> (n = None \<and> b = None \<and> \<not> (\<forall>k. env_mal env k)
       \<or> v \<noteq> 0 \<and> n = Some (min 1 (length (mem_content m))) \<and> (\<forall>k < the n. the b ! k = Some NUL)
       \<or> v = 0 \<and> n = Some (length (mem_content m))
           \<and> mem_content m = (case b of None \<Rightarrow> [] | Some b \<Rightarrow> map the (take (length (mem_content m)) b)))"
proof -
  have m: "mem_ok m" "dh_cbs d = MemCbs" using live_impl [OF ok d(1)] d(2) by (auto simp: impl_inv_def)
  have fin: "\<exists>st'. gpgme_data_release env st1 (Some h) = Ok st' \<and> st_ok st' \<and> objects st' = (objects st)(h := None)
      \<and> last_dserial st' = last_dserial st"
    if "st1 = st \<or> st1 = store_data st h (d\<lparr> dh_data := DMem (m\<lparr> mem_buffer := None \<rparr>) \<rparr>)" for st1
  proof -
    have "gpgme_data_release env st1 (Some h) = gpgme_data_release_int st (Some h)"
      using that release_int_eq [of st1 h] release_int_store [OF d(1)] d(1) by auto
    then show ?thesis using release_int_ok [OF ok d(1)] by auto
  qed
  have len: "length (mem_content m) = mem_length m" using m by (simp add: mem_content_length)
  define n where "n = (if v \<noteq> 0 \<and> mem_length m \<noteq> 0 then 1 else mem_length m)"
  note unf = gpgme_data_release_and_get_mem_def Let_def option.case d m(2) blank cres.case prod.case
    cbs_id.case data_impl.case simp_thms if_False n_def [symmetric]
  show ?thesis
  proof (cases "mem_buffer m = None \<and> mem_orig m \<noteq> None")
    case True
    then obtain s where s: "mem_buffer m = None" "mem_orig m = Some s" by blast
    have content: "mem_content m = take (mem_length m) s" "mem_length m \<le> length s"
      using s m(1) by (auto simp: mem_content_def mem_src_def mem_ok_def take_map o_def)
    obtain st' where st': "gpgme_data_release env st (Some h) = Ok st'" "st_ok st'"
      "objects st' = (objects st)(h := None)" "last_dserial st' = last_dserial st"
      using fin [of st] by blast
    show ?thesis
    proof (cases "env_mal env n")
      case True
      then show ?thesis unfolding unf s using st' content len
        by (auto simp: n_def take_map o_def)
    next
      case False
      then show ?thesis unfolding unf s using st' by auto
    qed
  next
    case False
    obtain st' where st': "gpgme_data_release env (store_data st h (d\<lparr> dh_data := DMem (m\<lparr> mem_buffer := None \<rparr>) \<rparr>)) (Some h) = Ok st'"
      "st_ok st'" "objects st' = (objects st)(h := None)" "last_dserial st' = last_dserial st"
      using fin by blast
    show ?thesis
    proof (cases "mem_buffer m")
      case None
      then have "mem_orig m = None" "mem_length m = 0" "n = 0" "mem_content m = []"
        using False m(1) by (auto simp: mem_ok_def n_def mem_content_def mem_src_def)
      then show ?thesis unfolding unf None using st' by auto
    next
      case (Some b)
      have b: "length b = mem_size m" "mem_length m \<le> mem_size m" using m(1) Some by (auto simp: mem_ok_def)
      then show ?thesis unfolding unf Some using st' len
        by (auto simp: n_def copy_in_def mem_content_def mem_src_def Some)
    qed
  qed
qed

lemma live_table: "st_ok st \<Longrightarrow> objects st h = Some d \<Longrightarrow> property_table st = Some (tab st)"
  by (cases "property_table st") (auto simp: st_ok_def tab_def)

lemma get_blankout_live:
  assumes "st_ok st" "objects st h = Some d"
  shows "gpgme_data_get_prop st (Some h) 0 DATA_PROP_BLANKOUT =
    Ok (if p_blankout (tab st ! dh_propidx d) then 1 else 0, no_error)"
  using prop_index_live [OF assms] live_table [OF assms]
  by (simp add: gpgme_data_get_prop_def prop_lookup_def)

lemma get_mem_ok [gpgme_inv]:
  assumes "st_ok st" "live st dh"
  shows "\<exists>st' b n. gpgme_data_release_and_get_mem env st dh = Ok (st', b, n) \<and> st_ok st'
    \<and> last_dserial st' = last_dserial st"
  using assms(2)
proof (cases rule: live_cases)
  case 1
  then show ?thesis using assms(1) by (simp add: gpgme_data_release_and_get_mem_def gpgme_data_release_def)
next
  case (2 h d)
  show ?thesis
  proof (cases "dh_data d")
    case (DMem m)
    then show ?thesis
      using get_mem_mem [OF assms(1) 2(2) DMem get_blankout_live [OF assms(1) 2(2)], of env] 2(1) by blast
  next
    case (DExt u)
    then have "dh_cbs d = ExtCbs" using live_impl [OF assms(1) 2(2)] by (simp add: impl_inv_def)
    then show ?thesis using release_ok [OF assms, of env] 2
      by (auto simp: gpgme_data_release_and_get_mem_def)
  qed
qed

lemma meta_ok [gpgme_inv]:
  assumes "st_ok st" "live st dh"
  shows "\<exists>st' e. gpgme_data_set_encoding st dh enc = Ok (st', e) \<and> st_ok st' \<and> same_table st st'"
    "\<exists>st' e. gpgme_data_set_file_name mal st dh name = Ok (st', e) \<and> st_ok st' \<and> same_table st st'"
    "gpgme_data_set_flag st dh flag val \<noteq> UB \<Longrightarrow>
     \<exists>st' e. gpgme_data_set_flag st dh flag val = Ok (st', e) \<and> st_ok st' \<and> same_table st st'"
proof -
  have upd: "st_ok (store_data st h d') \<and> same_table st (store_data st h d')"
    if "objects st h = Some d" "dh_propidx d' = dh_propidx d" "impl_ok d'" for h d d'
    using that st_ok_store [OF assms(1)] by (auto simp: same_table_def dom_def)
  have obj: "impl_ok d" if "objects st h = Some d" for h d
    using assms(1) that by (auto simp: st_ok_def)
  have same: "same_table st st" by (simp add: same_table_def)
  show "\<exists>st' e. gpgme_data_set_encoding st dh enc = Ok (st', e) \<and> st_ok st' \<and> same_table st st'"
    using assms(2) by (cases rule: live_cases)
      (use assms(1) same upd obj in \<open>auto simp: gpgme_data_set_encoding_def\<close>)
  show "\<exists>st' e. gpgme_data_set_file_name mal st dh name = Ok (st', e) \<and> st_ok st' \<and> same_table st st'"
    using assms(2) by (cases rule: live_cases; cases name)
      (use assms(1) same upd obj in \<open>auto simp: gpgme_data_set_file_name_def\<close>)
  show "\<exists>st' e. gpgme_data_set_flag st dh flag val = Ok (st', e) \<and> st_ok st' \<and> same_table st st'"
    if "gpgme_data_set_flag st dh flag val \<noteq> UB"
    using assms(2) that by (cases rule: live_cases)
      (use assms(1) same upd obj in \<open>auto simp: gpgme_data_set_flag_def split: option.splits if_splits\<close>)
qed

section \<open>Sequences of calls\<close>

text \<open>
  The calls an application and the library itself make on data objects.  A handle is NULL or live;
  an address \<open>calloc\<close> returns is not in use; and the 64 bit serial number does not wrap around.
\<close>

inductive data_step :: "'u data_env \<Rightarrow> 'u data_state \<Rightarrow> 'u data_state \<Rightarrow> bool" for env where
  step_new: "\<lbrakk>\<forall>h. addr = Some h \<longrightarrow> objects st h = None; last_dserial st < last_dserial st + 1;
     gpgme_data_new (env_mal env) selftest st r_dh addr = (st', r)\<rbrakk> \<Longrightarrow> data_step env st st'"
| step_new_from_mem: "\<lbrakk>\<forall>h. addr = Some h \<longrightarrow> objects st h = None; last_dserial st < last_dserial st + 1;
     length buf < SIZE_MOD;
     gpgme_data_new_from_mem (env_mal env) selftest st r_dh addr buf copy = Ok (st', r)\<rbrakk> \<Longrightarrow> data_step env st st'"
| step_new_foreign: "\<lbrakk>\<forall>h. addr = Some h \<longrightarrow> objects st h = None; last_dserial st < last_dserial st + 1;
     gpgme_data_new_cbs (env_mal env) selftest st r_dh addr ExtCbs (DExt u) = (st', r)\<rbrakk> \<Longrightarrow> data_step env st st'"
| step_release: "\<lbrakk>live st dh; gpgme_data_release env st dh = Ok st'\<rbrakk> \<Longrightarrow> data_step env st st'"
| step_get_mem: "\<lbrakk>live st dh; gpgme_data_release_and_get_mem env st dh = Ok (st', b, n)\<rbrakk> \<Longrightarrow> data_step env st st'"
| step_set_prop: "\<lbrakk>live st dh; gpgme_data_set_prop st dh dserial name val = Ok (st', e)\<rbrakk> \<Longrightarrow> data_step env st st'"
| step_read: "\<lbrakk>live st dh; gpgme_data_read env st dh sz = Some (Ok (st', r))\<rbrakk> \<Longrightarrow> data_step env st st'"
| step_write: "\<lbrakk>live st dh; write_fits st dh bs; gpgme_data_write env st dh bs = Some (Ok (st', r))\<rbrakk>
     \<Longrightarrow> data_step env st st'"
| step_seek: "\<lbrakk>live st dh; seek_fits st dh offset; gpgme_data_seek env st dh offset whence = Ok (st', r)\<rbrakk>
     \<Longrightarrow> data_step env st st'"
| step_encoding: "\<lbrakk>live st dh; gpgme_data_set_encoding st dh enc = Ok (st', e)\<rbrakk> \<Longrightarrow> data_step env st st'"
| step_file_name: "\<lbrakk>live st dh; gpgme_data_set_file_name (env_mal env) st dh fname = Ok (st', e)\<rbrakk> \<Longrightarrow> data_step env st st'"
| step_flag: "\<lbrakk>live st dh; gpgme_data_set_flag st dh flag fval = Ok (st', e)\<rbrakk> \<Longrightarrow> data_step env st st'"

inductive data_reach :: "'u data_env \<Rightarrow> 'u data_state \<Rightarrow> bool" for env where
  reach_init: "data_reach env data_init"
| reach_step: "data_reach env st \<Longrightarrow> data_step env st st' \<Longrightarrow> data_reach env st'"

lemma impl_ok_new: "impl_ok (new_data MemCbs (DMem mem_init) idx)" "impl_ok (new_data ExtCbs (DExt u) idx)"
  by (simp_all add: impl_ok_def new_data_def mem_ok_init)

lemma new_from_mem_ok [gpgme_inv]:
  assumes ok: "st_ok st" and fresh: "\<forall>h. addr = Some h \<longrightarrow> objects st h = None"
    and wrap: "last_dserial st < last_dserial st + 1" and len: "length buf < SIZE_MOD"
    and res: "gpgme_data_new_from_mem mal selftest st r_dh addr buf copy = y"
  shows "\<exists>st' r. y = Ok (st', r) \<and> st_ok st'"
proof -
  obtain st1 r1 where new: "gpgme_data_new_cbs mal selftest st r_dh addr MemCbs (DMem mem_init) = (st1, r1)"
    by (cases "gpgme_data_new_cbs mal selftest st r_dh addr MemCbs (DMem mem_init)")
  show ?thesis using new_cbs_ok [OF ok fresh wrap impl_ok_new(1) new]
  proof (elim disjE exE conjE)
    fix e assume "r1 = Inl e" "st1 = st"
    then show ?thesis using res new ok by (auto simp: gpgme_data_new_from_mem_def)
  next
    fix h idx
    assume 1: "r1 = Inr h" "st_ok st1" "objects st1 = (objects st)(h \<mapsto> new_data MemCbs (DMem mem_init) idx)"
    let ?d = "new_data MemCbs (DMem mem_init) idx"
    have d: "objects st1 h = Some ?d" using 1 by simp
    show ?thesis
    proof (cases "mem_from mal buf copy")
      case None
      then show ?thesis using res new 1 release_int_ok [OF 1(2) d]
        by (auto simp: gpgme_data_new_from_mem_def)
    next
      case (Some m)
      then have "mem_ok m" using mem_from_ok len by blast
      then have "st_ok (store_data st1 h (?d\<lparr> dh_data := DMem m \<rparr>))"
        by (intro st_ok_store [OF 1(2) d]) (simp_all add: impl_ok_def new_data_def)
      then show ?thesis using res new 1 d Some
        by (auto simp: gpgme_data_new_from_mem_def store_data_def)
    qed
  qed
qed

lemma data_step_ok: "data_step env st st' \<Longrightarrow> st_ok st \<Longrightarrow> st_ok st'"
proof (induction rule: data_step.induct)
  case (step_new addr st selftest r_dh st' r)
  then show ?case using new_cbs_ok [OF step_new.prems step_new.hyps(1,2) impl_ok_new(1)
        step_new.hyps(3) [unfolded gpgme_data_new_def]] by auto
next
  case (step_new_from_mem addr st buf selftest r_dh copy st' r)
  then show ?case using new_from_mem_ok [OF step_new_from_mem.prems step_new_from_mem.hyps] by auto
next
  case (step_new_foreign addr st selftest r_dh u st' r)
  then show ?case using new_cbs_ok [OF step_new_foreign.prems step_new_foreign.hyps(1,2) impl_ok_new(2)
        step_new_foreign.hyps(3)] by auto
next
  case (step_release st dh st')
  then show ?case using release_ok [of st dh env] by auto
next
  case (step_get_mem st dh st' b n)
  then show ?case using get_mem_ok [of st dh env] by auto
next
  case (step_set_prop st dh dserial name val st' e)
  then show ?case using set_prop_ok [of st dh dserial name val] by auto
next
  case (step_read st dh sz st' r)
  then show ?case using read_ok [of st dh env sz] by auto
next
  case (step_write st dh bs st' r)
  then show ?case using write_ok [of st dh bs env] by auto
next
  case (step_seek st dh offset whence st' r)
  then show ?case using seek_ok [of st dh offset env whence] by auto
next
  case (step_encoding st dh enc st' e)
  then show ?case using meta_ok(1) [of st dh enc] by auto
next
  case (step_file_name st dh fname st' e)
  then show ?case using meta_ok(2) [of st dh "env_mal env" fname] by auto
next
  case (step_flag st dh flag fval st' e)
  then show ?case using meta_ok(3) [of st dh flag fval] by auto
qed

lemma data_reach_ok: "data_reach env st \<Longrightarrow> st_ok st"
  by (induction rule: data_reach.induct) (auto simp: st_ok_init data_step_ok)

end
