(* ===== verification/Gpgme_DataProps.thy ===== *)
theory Gpgme_DataProps
  imports Gpgme_DataInv
begin

text \<open>
  The properties of data objects in all states that sequences of calls reach: assertions hold, what
  is written is read back, blanked out objects give nothing away, and the handlers of the event loop
  neither lose nor reorder bytes.
\<close>

section \<open>Properties of the property table\<close>

lemma prop_lookup_serial:
  assumes "st_ok st" "objects st h = Some d"
  shows "prop_lookup st None (p_dserial (tab st ! dh_propidx d)) = Ok (dh_propidx d)
    \<and> prop_lookup st (Some h) 0 = Ok (dh_propidx d)"
proof -
  let ?i = "dh_propidx d" and ?s = "p_dserial (tab st ! dh_propidx d)"
  have i: "?i < length (tab st)" "p_dh (tab st ! ?i) = Some h" using assms by (auto simp: st_ok_def)
  then have "0 < ?s" using assms(1) by (auto simp: st_ok_def slots_ok_def)
  moreover have "slot_search (\<lambda>p. p_dh p \<noteq> None \<and> p_dserial p = ?s) (tab st) = ?i"
    by (rule slot_search_unique) (use i assms(1) in \<open>auto simp: st_ok_def slots_ok_def\<close>)
  ultimately show ?thesis using i live_table [OF assms] prop_index_live [OF assms]
    by (simp add: prop_lookup_def)
qed

lemma get_dserial_live:
  assumes "st_ok st" "objects st h = Some d"
  shows "gpgme_data_get_dserial st (Some h) = Ok (p_dserial (tab st ! dh_propidx d))"
  using prop_index_live [OF assms] live_table [OF assms] by (simp add: gpgme_data_get_dserial_def)

text \<open>
  C9: whatever calls were made before, the property table and the data objects agree.  A live
  object has a serial number other than 0 which no other live object has; its properties are found
  by this number as well as by the handle; and none of the calls on a live object or NULL runs
  into a failed assertion or a bad memory access.
\<close>

theorem data_handles_safe:
  assumes "data_reach env st" "objects st h = Some d"
  shows "(\<exists>s. gpgme_data_get_dserial st (Some h) = Ok s \<and> s \<noteq> 0
          \<and> gpgme_data_get_prop st None s name = gpgme_data_get_prop st (Some h) 0 name
          \<and> (\<forall>h' d'. objects st h' = Some d' \<longrightarrow> gpgme_data_get_dserial st (Some h') = Ok s \<longrightarrow> h' = h))
    \<and> gpgme_data_set_prop st (Some h) 0 name val \<noteq> UB
    \<and> gpgme_data_read env st (Some h) sz \<noteq> Some UB
    \<and> (write_fits st (Some h) bs \<longrightarrow> gpgme_data_write env st (Some h) bs \<noteq> Some UB)
    \<and> (seek_fits st (Some h) offset \<longrightarrow> gpgme_data_seek env st (Some h) offset whence \<noteq> UB)
    \<and> gpgme_data_release_and_get_mem env st (Some h) \<noteq> UB
    \<and> gpgme_data_release env st (Some h) \<noteq> UB"
proof -
  have ok: "st_ok st" using assms(1) by (rule data_reach_ok)
  have live: "live st (Some h)" using assms(2) by (simp add: live_def)
  let ?s = "p_dserial (tab st ! dh_propidx d)"
  have i: "dh_propidx d < length (tab st)" "p_dh (tab st ! dh_propidx d) = Some h"
    using ok assms(2) by (auto simp: st_ok_def)
  then have "?s \<noteq> 0" using ok by (auto simp: st_ok_def slots_ok_def)
  moreover have "gpgme_data_get_prop st None ?s name = gpgme_data_get_prop st (Some h) 0 name"
    using prop_lookup_serial [OF ok assms(2)] by (simp add: gpgme_data_get_prop_def)
  moreover have "h' = h" if "objects st h' = Some d'" "gpgme_data_get_dserial st (Some h') = Ok ?s" for h' d'
  proof -
    have "dh_propidx d' < length (tab st)" "p_dh (tab st ! dh_propidx d') = Some h'"
      using ok that(1) by (auto simp: st_ok_def)
    moreover have "p_dserial (tab st ! dh_propidx d') = ?s"
      using that get_dserial_live [OF ok that(1)] by simp
    ultimately have "dh_propidx d' = dh_propidx d" using ok i by (auto simp: st_ok_def slots_ok_def)
    then show ?thesis using i \<open>p_dh (tab st ! dh_propidx d') = Some h'\<close> by simp
  qed
  moreover have "gpgme_data_get_dserial st (Some h) = Ok ?s" by (rule get_dserial_live [OF ok assms(2)])
  moreover have "gpgme_data_set_prop st (Some h) 0 name val \<noteq> UB"
    using set_prop_ok [OF ok live] by (metis cres.distinct(3))
  moreover have "gpgme_data_read env st (Some h) sz \<noteq> Some UB"
    using read_ok [OF ok live] by (metis cres.distinct(3))
  moreover have "gpgme_data_write env st (Some h) bs \<noteq> Some UB" if "write_fits st (Some h) bs"
    using write_ok [OF ok live that] by (metis cres.distinct(3))
  moreover have "gpgme_data_seek env st (Some h) offset whence \<noteq> UB" if "seek_fits st (Some h) offset"
    using seek_ok [OF ok live that] by (metis cres.distinct(3))
  moreover have "gpgme_data_release_and_get_mem env st (Some h) \<noteq> UB"
    using get_mem_ok [OF ok live] by (metis cres.distinct(3))
  moreover have "gpgme_data_release env st (Some h) \<noteq> UB"
    using release_ok [OF ok live] by (metis cres.distinct(3))
  ultimately show ?thesis by blast
qed

text \<open>An environment without foreign callbacks and with plenty of memory, for examples.\<close>

definition plain_env :: "unit data_env" where
  "plain_env = \<lparr> env_mal = (\<lambda>_. True), ext_read = None, ext_write = None, ext_seek = None,
     ext_release = None, ext_get_fd = None \<rparr>"

lemma reach_new:
  "data_reach plain_env (fst (gpgme_data_new (\<lambda>_. True) no_error (data_init :: unit data_state) True (Some 7)))"
proof (rule reach_step [OF reach_init step_new])
  show "\<forall>h. Some (7 :: nat) = Some h \<longrightarrow> objects data_init h = None" by (simp add: data_init_def)
  show "last_dserial data_init < last_dserial data_init + 1" by (simp add: data_init_def)
  show "gpgme_data_new (env_mal plain_env) no_error (data_init :: unit data_state) True (Some 7) =
      (fst (gpgme_data_new (\<lambda>_. True) no_error (data_init :: unit data_state) True (Some 7)),
       snd (gpgme_data_new (\<lambda>_. True) no_error (data_init :: unit data_state) True (Some 7)))"
    by (simp only: prod.collapse plain_env_def data_env.select_convs)
qed

theorem data_handles_safe_witness:
  "gpgme_data_read plain_env (fst (gpgme_data_new (\<lambda>_. True) no_error data_init True (Some 7))) (Some 7) 100
     \<noteq> Some UB"
proof -
  let ?st = "fst (gpgme_data_new (\<lambda>_. True) no_error data_init True (Some 7)) :: unit data_state"
  have "objects ?st 7 = Some (new_data MemCbs (DMem mem_init) 0)" by code_simp
  from data_handles_safe [OF reach_new this, of DATA_PROP_NONE 0 100 "[]" 0 0] show ?thesis by blast
qed

section \<open>Memory objects behind their handles\<close>

definition mem_at :: "'u data_state \<Rightarrow> nat \<Rightarrow> mem_data \<Rightarrow> string \<Rightarrow> bool" where
  "mem_at st h m pend \<longleftrightarrow> (\<exists>d. objects st h = Some d \<and> dh_data d = DMem m \<and> dh_pending d = pend
     \<and> \<not> p_blankout (tab st ! dh_propidx d))"

lemma mem_atE:
  assumes "st_ok st" "mem_at st h m pend"
  obtains d where "objects st h = Some d" "dh_data d = DMem m" "dh_pending d = pend" "dh_cbs d = MemCbs"
    "mem_ok m" "gpgme_data_get_prop st (Some h) 0 DATA_PROP_BLANKOUT = Ok (0, no_error)"
    "\<not> p_blankout (tab st ! dh_propidx d)"
proof -
  obtain d where d: "objects st h = Some d" "dh_data d = DMem m" "dh_pending d = pend"
    "\<not> p_blankout (tab st ! dh_propidx d)"
    using assms(2) by (auto simp: mem_at_def)
  then show ?thesis using that live_impl [OF assms(1) d(1)] get_blankout_live [OF assms(1) d(1)]
    by (simp add: impl_inv_def)
qed

lemma mem_at_store:
  "objects st h = Some d \<Longrightarrow> dh_propidx d' = dh_propidx d \<Longrightarrow> \<not> p_blankout (tab st ! dh_propidx d) \<Longrightarrow>
   dh_data d' = DMem m \<Longrightarrow> dh_pending d' = pend \<Longrightarrow> mem_at (store_data st h d') h m pend"
  by (simp add: mem_at_def)

lemma trace_sysres_id: "- 2147483648 \<le> n \<Longrightarrow> n < 2147483648 \<Longrightarrow> trace_sysres n = n"
  by (simp add: trace_sysres_def to_int32_id)

lemma read_mem:
  fixes st :: "'u data_state"
  assumes "st_ok st" "mem_at st h m pend"
  shows "\<exists>st' m' r. gpgme_data_read env st (Some h) n = Some (Ok (st', r)) \<and> st_ok st'
    \<and> sr_bytes r = file_read (mem_file m) n \<and> sr_ret r = trace_sysres (int (length (sr_bytes r)))
    \<and> mem_at st' h m' pend \<and> mem_file m' = file_advance (mem_file m) (length (sr_bytes r))"
proof -
  obtain d where d: "objects st h = Some d" "dh_data d = DMem m" "dh_pending d = pend" "dh_cbs d = MemCbs"
    "mem_ok m" "gpgme_data_get_prop st (Some h) 0 DATA_PROP_BLANKOUT = Ok (0, no_error)"
    "\<not> p_blankout (tab st ! dh_propidx d)"
    using assms by (rule mem_atE)
  have cb: "cb_read (cbs_of env d) = Some (\<lambda>d n. lift_mem (\<lambda>m. mem_read m n) d)"
    using d by (simp add: cbs_of_def mem_cbs_def)
  obtain m' s where m': "eintr_retry (\<lambda>x. lift_mem (\<lambda>m. mem_read m n) x) (DMem m :: 'u data_impl) = Some (Ok (DMem m', Inr s))"
    "s = file_read (mem_file m) n" "mem_ok m'" "mem_file m' = file_advance (mem_file m) (length s)"
    using d(5) by (rule mem_read_once)
  define d' where "d' = d\<lparr> dh_data := DMem m' \<rparr>"
  have "gpgme_data_read env st (Some h) n =
      Some (Ok (store_data st h d', \<lparr> sr_ret = trace_sysres (int (length s)), sr_bytes = s, sr_errno = None \<rparr>))"
    by (simp add: data_read_live [OF d(1) cb d(6)] d(2) m'(1) io_finish_def d'_def)
  moreover have "st_ok (store_data st h d')" "mem_at (store_data st h d') h m' pend"
    using m'(3) d st_ok_store [OF assms(1) d(1), of d'] mem_at_store [OF d(1), of d']
    by (simp_all add: d'_def impl_ok_def)
  ultimately show ?thesis using m'(2,4) by auto
qed

lemma write_mem:
  fixes st :: "'u data_state"
  assumes "st_ok st" "mem_at st h m pend" "mem_offset m + length bs < SIZE_MOD"
  shows "\<exists>st' m' r. gpgme_data_write env st (Some h) bs = Some (Ok (st', r)) \<and> st_ok st' \<and> mem_at st' h m' pend
    \<and> (r = \<lparr> sr_ret = trace_sysres (int (length bs)), sr_bytes = [], sr_errno = None \<rparr>
          \<and> mem_file m' = file_write (mem_file m) bs
       \<or> r = sys_fail ENOMEM \<and> mem_file m' = mem_file m \<and> \<not> (\<forall>n. env_mal env n))"
proof -
  obtain d where d: "objects st h = Some d" "dh_data d = DMem m" "dh_pending d = pend" "dh_cbs d = MemCbs"
    "mem_ok m" "gpgme_data_get_prop st (Some h) 0 DATA_PROP_BLANKOUT = Ok (0, no_error)"
    "\<not> p_blankout (tab st ! dh_propidx d)"
    using assms(1,2) by (rule mem_atE)
  obtain m' r where m': "eintr_retry (\<lambda>x. lift_mem (\<lambda>m. mem_write (env_mal env) m bs) x) (DMem m :: 'u data_impl) = Some (Ok (DMem m', r))"
    "mem_ok m'" "r = Inr (length bs) \<and> mem_file m' = file_write (mem_file m) bs
        \<or> r = Inl ENOMEM \<and> mem_file m' = mem_file m \<and> \<not> (\<forall>n. env_mal env n)"
    using mem_write_once [OF d(5) assms(3), of "env_mal env"] by blast
  define d' where "d' = d\<lparr> dh_data := DMem m' \<rparr>"
  have "gpgme_data_write env st (Some h) bs = Some (Ok (store_data st h d', case r of
        Inl e \<Rightarrow> sys_fail e
      | Inr n \<Rightarrow> \<lparr> sr_ret = trace_sysres (int n), sr_bytes = [], sr_errno = None \<rparr>))"
    using d by (simp add: gpgme_data_write_def cbs_of_def mem_cbs_def m'(1) io_finish_def d'_def
        split: sum.splits)
  moreover have "st_ok (store_data st h d')" "mem_at (store_data st h d') h m' pend"
    using m'(2) d st_ok_store [OF assms(1) d(1), of d'] mem_at_store [OF d(1), of d']
    by (simp_all add: d'_def impl_ok_def)
  ultimately show ?thesis using m'(3) by auto
qed

lemma seek_mem:
  assumes "st_ok st" "mem_at st h m pend" "t = file_target (mem_file m) off w" "LONG_MIN < off" "0 \<le> t" "t \<le> int (length (fst (mem_file m)))" "w = SEEK_CUR \<longrightarrow> pend = []"
  shows "\<exists>st' m'. gpgme_data_seek env st (Some h) off w
      = Ok (st', \<lparr> sr_ret = trace_sysres t, sr_bytes = [], sr_errno = None \<rparr>) \<and> st_ok st' \<and> mem_at st' h m' []
      \<and> mem_file m' = (fst (mem_file m), nat t)"
proof -
  obtain d where d: "objects st h = Some d" "dh_data d = DMem m" "dh_pending d = pend" "dh_cbs d = MemCbs"
    "mem_ok m" "gpgme_data_get_prop st (Some h) 0 DATA_PROP_BLANKOUT = Ok (0, no_error)"
    "\<not> p_blankout (tab st ! dh_propidx d)"
    using assms(1,2) by (rule mem_atE)
  obtain m' where m': "mem_seek m off w = Ok (m', Inr t)" "mem_ok m'" "mem_file m' = (fst (mem_file m), nat t)"
    using mem.sk_law [OF d(5), of off w] assms(3-6) by (auto simp: Let_def)
  define d' where "d' = d\<lparr> dh_data := DMem m', dh_pending := [] \<rparr>"
  have "gpgme_data_seek env st (Some h) off w
      = Ok (store_data st h d', \<lparr> sr_ret = trace_sysres t, sr_bytes = [], sr_errno = None \<rparr>)"
    using m'(1) d assms(4-) by (cases "w = SEEK_CUR")
      (simp_all add: gpgme_data_seek_def cbs_of_def mem_cbs_def lift_mem_def d'_def)
  moreover have "st_ok (store_data st h d')" "mem_at (store_data st h d') h m' []"
    using m'(2) d st_ok_store [OF assms(1) d(1), of d'] mem_at_store [OF d(1), of d']
    by (simp_all add: d'_def impl_ok_def)
  ultimately show ?thesis using m'(3) by auto
qed

lemma new_mem_at:
  assumes "st_ok st" "\<forall>h. addr = Some h \<longrightarrow> objects st h = None" "last_dserial st < last_dserial st + 1"
    "gpgme_data_new mal selftest st r_dh addr = (st1, Inr h)"
  shows "st_ok st1 \<and> mem_at st1 h mem_init []"
  using new_cbs_ok [OF assms(1,2,3) impl_ok_new(1) assms(4) [unfolded gpgme_data_new_def]]
  by (auto simp: mem_at_def new_data_def)

text \<open>
  C22: what is written to a new data object comes back.  With enough memory and less than 2 GiB of
  data, writing succeeds completely, the object can be rewound, reading then returns the first
  bytes that were written, and taking the memory out of the object gives all of them.
\<close>

theorem data_write_read_roundtrip:
  assumes "data_reach env st" "\<forall>h. addr = Some h \<longrightarrow> objects st h = None"
    "last_dserial st < last_dserial st + 1" "gpgme_data_new mal selftest st r_dh addr = (st1, Inr h)"
    "\<forall>n. env_mal env n" "length s < 2147483648"
  shows "\<exists>st2 r2. gpgme_data_write env st1 (Some h) s = Some (Ok (st2, r2)) \<and> sr_ret r2 = int (length s)
    \<and> (\<exists>st3 st4 r4. gpgme_data_rewind env stale st2 (Some h) = Ok (st3, no_error)
        \<and> gpgme_data_read env st3 (Some h) n = Some (Ok (st4, r4))
        \<and> sr_bytes r4 = take n s \<and> sr_ret r4 = int (length (take n s)))
    \<and> (\<exists>st5 b. gpgme_data_release_and_get_mem env st2 (Some h) = Ok (st5, b, Some (length s))
        \<and> s = (case b of None \<Rightarrow> [] | Some b \<Rightarrow> map the (take (length s) b)) \<and> objects st5 h = None)"
proof -
  have st1: "st_ok st1" "mem_at st1 h mem_init []"
    using new_mem_at [OF data_reach_ok [OF assms(1)] assms(2-4)] by simp_all
  have fit: "mem_offset mem_init + length s < SIZE_MOD" using assms(6) by (simp add: mem_init_def SIZE_MOD_def)
  obtain st2 m2 r2 where w: "gpgme_data_write env st1 (Some h) s = Some (Ok (st2, r2))" "st_ok st2"
    "mem_at st2 h m2 []" "r2 = \<lparr> sr_ret = trace_sysres (int (length s)), sr_bytes = [], sr_errno = None \<rparr>"
    "mem_file m2 = (s, length s)"
    using write_mem [OF st1 fit, of env] assms(5) by (auto simp: mem_ok_init file_write_def)
  have ret: "sr_ret r2 = int (length s)" using w(4) assms(6) by (simp add: trace_sysres_id)
  obtain st3 m3 where k: "gpgme_data_seek env st2 (Some h) 0 SEEK_SET
      = Ok (st3, \<lparr> sr_ret = trace_sysres 0, sr_bytes = [], sr_errno = None \<rparr>)" "st_ok st3" "mem_at st3 h m3 []"
    "mem_file m3 = (s, 0)"
    using seek_mem [OF w(2,3), of 0 0 SEEK_SET env] w(5) by (auto simp: file_target_def)
  have rew: "gpgme_data_rewind env stale st2 (Some h) = Ok (st3, no_error)"
    using k(1) by (simp add: gpgme_data_rewind_def trace_sysres_id)
  obtain st4 m4 r4 where r: "gpgme_data_read env st3 (Some h) n = Some (Ok (st4, r4))"
    "sr_bytes r4 = take n s" "sr_ret r4 = trace_sysres (int (length (sr_bytes r4)))"
    using read_mem [OF k(2,3), of env n] k(4) by (auto simp: file_read_def)
  have "length (take n s) < 2147483648" using assms(6) by (simp add: min_def)
  then have r': "sr_ret r4 = int (length (take n s))" using r by (simp add: trace_sysres_id del: length_take)
  obtain d2 where d2: "objects st2 h = Some d2" "dh_data d2 = DMem m2"
    "gpgme_data_get_prop st2 (Some h) 0 DATA_PROP_BLANKOUT = Ok (0, no_error)"
    using mem_atE [OF w(2,3)] by metis
  have "mem_content m2 = s" using w(5) by (simp add: mem_file_def)
  then obtain st5 b where "gpgme_data_release_and_get_mem env st2 (Some h) = Ok (st5, b, Some (length s))"
    "s = (case b of None \<Rightarrow> [] | Some b \<Rightarrow> map the (take (length s) b))" "objects st5 h = None"
    using get_mem_mem [OF w(2) d2, of env] assms(5) by auto
  then show ?thesis using w(1) ret rew r r' by blast
qed

theorem data_write_read_roundtrip_witness:
  "\<exists>st1 st2 r2. gpgme_data_new (\<lambda>_. True) no_error (data_init :: unit data_state) True (Some 7) = (st1, Inr 7)
    \<and> gpgme_data_write plain_env st1 (Some 7) ''hello'' = Some (Ok (st2, r2)) \<and> sr_ret r2 = 5"
proof -
  let ?new = "gpgme_data_new (\<lambda>_. True) no_error (data_init :: unit data_state) True (Some 7)"
  have "snd ?new = Inr 7" by code_simp
  then have new: "?new = (fst ?new, Inr 7)" by (metis prod.collapse)
  have "\<forall>h. Some (7 :: nat) = Some h \<longrightarrow> objects (data_init :: unit data_state) h = None"
    "last_dserial (data_init :: unit data_state) < last_dserial (data_init :: unit data_state) + 1"
    "\<forall>n. env_mal plain_env n"
    by (simp_all add: data_init_def plain_env_def)
  from data_write_read_roundtrip [OF reach_init this(1,2) new this(3), of "''hello''" EINVAL 0] new
  show ?thesis by fastforce
qed

section \<open>Blanked out objects\<close>

text \<open>Marking a live object by its serial number: the mark and nothing else changes.\<close>

lemma set_blankout_live:
  assumes ok: "st_ok st" and d: "objects st h = Some d" and s: "gpgme_data_get_dserial st (Some h) = Ok s"
  shows "\<exists>st'. gpgme_data_set_prop st None s DATA_PROP_BLANKOUT 1 = Ok (st', no_error)
    \<and> st_ok st' \<and> objects st' = objects st \<and> gpgme_data_get_dserial st' (Some h) = Ok s
    \<and> gpgme_data_get_prop st' (Some h) 0 DATA_PROP_BLANKOUT = Ok (1, no_error)
    \<and> (\<forall>h' d'. objects st h' = Some d' \<longrightarrow> h' \<noteq> h \<longrightarrow>
          gpgme_data_get_prop st' (Some h') 0 DATA_PROP_BLANKOUT = gpgme_data_get_prop st (Some h') 0 DATA_PROP_BLANKOUT)"
proof -
  let ?i = "dh_propidx d"
  have s: "s = p_dserial (tab st ! ?i)" using s get_dserial_live [OF ok d] by simp
  have i: "?i < length (tab st)" "p_dh (tab st ! ?i) = Some h" using ok d by (auto simp: st_ok_def)
  define st' where "st' = st\<lparr> property_table :=
      map_option (\<lambda>t. t[?i := (t ! ?i)\<lparr> p_blankout := True \<rparr>]) (property_table st) \<rparr>"
  have set: "gpgme_data_set_prop st None s DATA_PROP_BLANKOUT 1 = Ok (st', no_error)"
    using prop_lookup_serial [OF ok d] by (simp add: gpgme_data_set_prop_def s st'_def)
  have ok': "st_ok st'" unfolding st'_def by (rule tab_blankout_ok [OF ok i(1)])
  have obj: "objects st' = objects st" by (simp add: st'_def)
  have tab': "tab st' = (tab st)[?i := (tab st ! ?i)\<lparr> p_blankout := True \<rparr>]"
    by (auto simp: st'_def tab_def split: option.splits)
  have d': "objects st' h = Some d" using d obj by simp
  have blank: "gpgme_data_get_prop st' (Some h) 0 DATA_PROP_BLANKOUT = Ok (1, no_error)"
    using get_blankout_live [OF ok' d'] i(1) by (simp add: tab')
  have ser: "gpgme_data_get_dserial st' (Some h) = Ok s"
    using get_dserial_live [OF ok' d'] i(1) by (simp add: tab' s)
  have "gpgme_data_get_prop st' (Some h') 0 DATA_PROP_BLANKOUT = gpgme_data_get_prop st (Some h') 0 DATA_PROP_BLANKOUT"
    if "objects st h' = Some e" "h' \<noteq> h" for h' e
  proof -
    have "p_dh (tab st ! dh_propidx e) = Some h'" using ok that unfolding st_ok_def by blast
    then have "dh_propidx e \<noteq> ?i" using i that(2) by auto
    then show ?thesis using get_blankout_live [OF ok that(1)] get_blankout_live [OF ok', of h' e] that(1) obj
      by (simp add: tab')
  qed
  then show ?thesis using set ok' obj ser blank by blast
qed

lemma blankout_read_nothing:
  assumes "objects st h = Some d" "gpgme_data_get_prop st (Some h) 0 DATA_PROP_BLANKOUT = Ok (1, no_error)"
    and "gpgme_data_read env st (Some h) n = Some (Ok (st2, r))"
  shows "sr_bytes r = [] \<and> sr_ret r \<le> 0"
proof (cases "cb_read (cbs_of env d)")
  case None
  then show ?thesis using assms by (auto simp: gpgme_data_read_def sys_fail_def trace_sysres_id)
next
  case (Some rd)
  then show ?thesis using assms(3) data_read_live [OF assms(1) Some assms(2), of n] by (auto simp: trace_sysres_id)
qed



section \<open>Positions beyond 2 GiB\<close>

lemma to_int32_minus1: "to_int32 x = - 1 \<longleftrightarrow> (x + 1) mod 4294967296 = 0"
proof -
  define y where "y = (x + 2147483648) mod 4294967296"
  have y: "0 \<le> y" "y < 4294967296" by (simp_all add: y_def)
  have "(x + 1) mod 4294967296 = (y - 2147483647) mod 4294967296"
    by (simp add: y_def mod_diff_left_eq add.commute)
  moreover have "(y - 2147483647) mod 4294967296 = 0 \<longleftrightarrow> y = 2147483647"
  proof
    assume "(y - 2147483647) mod 4294967296 = 0"
    then obtain k where "y - 2147483647 = 4294967296 * k" by (auto simp: mod_eq_0_iff_dvd dvd_def)
    then have "k < 1" "- 1 < k" using y by linarith+
    then have "k = 0" by linarith
    then show "y = 2147483647" using \<open>y - 2147483647 = 4294967296 * k\<close> by simp
  qed simp
  ultimately show ?thesis by (simp add: to_int32_def y_def)
qed

text \<open>
  The position that \<open>gpgme_data_seek\<close> reports went through a C \<open>int\<close>.  Whenever a callback
  moves to the position \<open>pos\<close>, the caller sees that position only if it is below 2 GiB; from there
  on the number is wrong, and exactly the positions 4 GiB - 1, 8 GiB - 1 and so on look like a failure.
\<close>

theorem data_seek_truncates:
  assumes "objects st h = Some d" "cb_seek (cbs_of env d) = Some sk" "whence \<noteq> SEEK_CUR" "LONG_MIN \<le> offset"
    "sk (dh_data d) offset whence = Ok (x, Inr pos)" "0 \<le> pos" "pos \<le> LONG_MAX"
  shows "\<exists>st' r. gpgme_data_seek env st (Some h) offset whence = Ok (st', r) \<and> sr_errno r = None
    \<and> (sr_ret r = pos \<longleftrightarrow> pos < 2147483648) \<and> (sr_ret r = - 1 \<longleftrightarrow> (pos + 1) mod 4294967296 = 0)"
proof -
  have "gpgme_data_seek env st (Some h) offset whence =
      Ok (store_data st h (d\<lparr> dh_data := x, dh_pending := [] \<rparr>),
          \<lparr> sr_ret = to_int32 pos, sr_bytes = [], sr_errno = None \<rparr>)"
    using assms by (simp add: gpgme_data_seek_def trace_sysres_def)
  moreover have "to_int32 pos = pos \<longleftrightarrow> pos < 2147483648"
    using assms(6) to_int32_id [of pos] to_int32_bounds [of pos] by linarith
  moreover have "to_int32 pos = - 1 \<longleftrightarrow> (pos + 1) mod 4294967296 = 0"
    by (rule to_int32_minus1)
  ultimately show ?thesis by auto
qed

text \<open>A foreign object whose callback always ends up at 5 GB.\<close>

definition big_env :: "unit data_env" where
  "big_env = plain_env\<lparr> ext_seek := Some (\<lambda>u off w. (u, Inr 5000000000)) \<rparr>"

theorem data_seek_truncates_witness:
  "\<exists>st' r. gpgme_data_seek big_env (data_init\<lparr> objects := [7 \<mapsto> new_data ExtCbs (DExt ()) 0] \<rparr>) (Some 7)
     0 SEEK_END = Ok (st', r) \<and> sr_ret r \<noteq> 5000000000"
proof -
  let ?d = "new_data ExtCbs (DExt ()) 0"
  let ?st = "data_init\<lparr> objects := [7 \<mapsto> ?d] \<rparr>"
  let ?sk = "\<lambda>d off w. lift_ext (\<lambda>u. (u, Inr (5000000000 :: int))) d"
  have "objects ?st 7 = Some ?d" "cb_seek (cbs_of big_env ?d) = Some ?sk"
    "?sk (dh_data ?d) 0 SEEK_END = Ok (DExt (), Inr 5000000000)"
    by (simp_all add: cbs_of_def foreign_cbs_def big_env_def new_data_def lift_ext_def)
  moreover have "SEEK_END \<noteq> SEEK_CUR" "LONG_MIN \<le> 0" "(0 :: int) \<le> 5000000000" "(5000000000 :: int) \<le> LONG_MAX"
    by simp_all
  ultimately obtain st' r where r: "gpgme_data_seek big_env ?st (Some 7) 0 SEEK_END = Ok (st', r)"
    "sr_ret r = 5000000000 \<longleftrightarrow> (5000000000 :: int) < 2147483648"
    using data_seek_truncates [of ?st 7 ?d big_env ?sk SEEK_END 0 "DExt ()" 5000000000] by blast
  then have "sr_ret r \<noteq> 5000000000" by simp
  then show ?thesis using r(1) by blast
qed

section \<open>The outbound handler\<close>

definition mem_rest :: "mem_data \<Rightarrow> string" where
  "mem_rest m = drop (mem_offset m) (mem_content m)"

text \<open>
  A descriptor answers each offer with EAGAIN or takes at least one byte of it; the event loop calls
  the handler once per answer until the handler closes the descriptor or fails.
\<close>

datatype fd_answer = Again | Takes nat

fun fd_write :: "fd_answer \<Rightarrow> string \<Rightarrow> errno + nat" where
  "fd_write Again p = Inl EAGAIN"
| "fd_write (Takes n) p = Inr (min (Suc n) (length p))"

fun outbound_run ::
  "'u data_env \<Rightarrow> errno \<Rightarrow> 'u data_state \<Rightarrow> nat \<Rightarrow> fd_answer list \<Rightarrow> ('u data_state \<times> string \<times> bool) option" where
  "outbound_run env stale st h [] = Some (st, [], False)"
| "outbound_run env stale st h (a # as) =
     (case gpgme_data_outbound_handler env stale st h (fd_write a) of
        Some (Ok (st1, res)) \<Rightarrow>
          if is_err (ob_err res) then None
          else if ob_closed res then Some (st1, ob_sent res, True)
          else (case outbound_run env stale st1 h as of
                  None \<Rightarrow> None
                | Some (st2, s, c) \<Rightarrow> Some (st2, ob_sent res @ s, c))
      | _ \<Rightarrow> None)"

definition takers :: "fd_answer list \<Rightarrow> nat" where
  "takers as = length (filter (\<lambda>a. a \<noteq> Again) as)"

lemma fd_write_cases:
  assumes "p \<noteq> []"
  obtains "a = Again" "fd_write a p = Inl EAGAIN"
  | n where "a \<noteq> Again" "fd_write a p = Inr n" "0 < n" "n \<le> length p"
  using assms by (cases a) auto

lemma outbound_flush_mem:
  assumes ok: "st_ok st" and at: "mem_at st h m pend" "objects st h = Some d" and pend: "pend \<noteq> []"
  obtains st' pend' res where "outbound_flush stale st h d (fd_write a) = Ok (st', res)" "st_ok st'"
    "mem_at st' h m pend'" "ob_sent res @ pend' = pend" "\<not> ob_closed res" "ob_err res = no_error"
    "a \<noteq> Again \<longrightarrow> ob_sent res \<noteq> []"
proof -
  have d: "dh_data d = DMem m" "dh_pending d = pend" "\<not> p_blankout (tab st ! dh_propidx d)" "impl_ok d"
    using at ok by (auto simp: mem_at_def st_ok_def)
  from pend show ?thesis
  proof (cases rule: fd_write_cases [where a = a])
    case 1
    then show ?thesis
      using that [of st "\<lparr> ob_err = no_error, ob_sent = [], ob_closed = False \<rparr>" pend] ok at(1) d
      by (simp add: outbound_flush_def Let_def)
  next
    case (2 n)
    define d' where "d' = d\<lparr> dh_pending := drop n pend \<rparr>"
    have "st_ok (store_data st h d')" "mem_at (store_data st h d') h m (drop n pend)"
      using st_ok_store [OF ok at(2), of d'] mem_at_store [OF at(2), of d'] d by (simp_all add: d'_def)
    then show ?thesis using that [of "store_data st h d'" _ "drop n pend"] 2 d pend
      by (simp add: outbound_flush_def Let_def d'_def)
  qed
qed

lemma outbound_step:
  assumes ok: "st_ok st" and at: "mem_at st h m pend"
  obtains st' m' pend' res where "gpgme_data_outbound_handler env stale st h (fd_write a) = Some (Ok (st', res))"
    "st_ok st'" "mem_at st' h m' pend'" "ob_sent res @ pend' @ mem_rest m' = pend @ mem_rest m"
    "ob_closed res \<longleftrightarrow> pend @ mem_rest m = []" "ob_err res = no_error"
    "\<not> ob_closed res \<longrightarrow> a \<noteq> Again \<longrightarrow> ob_sent res \<noteq> []"
proof -
  obtain d where d: "objects st h = Some d" "dh_pending d = pend" using at by (auto simp: mem_at_def)
  show ?thesis
  proof (cases "pend = []")
    case False
    obtain st' pend' res where f: "outbound_flush stale st h d (fd_write a) = Ok (st', res)" "st_ok st'"
      "mem_at st' h m pend'" "ob_sent res @ pend' = pend" "\<not> ob_closed res" "ob_err res = no_error"
      "a \<noteq> Again \<longrightarrow> ob_sent res \<noteq> []"
      using ok at d(1) False by (rule outbound_flush_mem)
    have "gpgme_data_outbound_handler env stale st h (fd_write a) = Some (Ok (st', res))"
      using d False f(1) by (simp add: gpgme_data_outbound_handler_def)
    moreover have "ob_sent res @ pend' @ mem_rest m = pend @ mem_rest m" using f(4) by (metis append.assoc)
    ultimately show ?thesis using that f False by blast
  next
    case True
    obtain st1 m1 r where r: "gpgme_data_read env st (Some h) BUFFER_SIZE = Some (Ok (st1, r))" "st_ok st1"
      "sr_bytes r = file_read (mem_file m) BUFFER_SIZE" "sr_ret r = trace_sysres (int (length (sr_bytes r)))"
      "mem_at st1 h m1 pend" "mem_file m1 = file_advance (mem_file m) (length (sr_bytes r))"
      using read_mem [OF ok at, of env BUFFER_SIZE] by blast
    have len: "length (sr_bytes r) \<le> BUFFER_SIZE" by (simp add: r(3) file_read_def)
    then have ret: "sr_ret r = int (length (sr_bytes r))" unfolding r(4) by (intro trace_sysres_id) auto
    have sr: "sr_bytes r = take BUFFER_SIZE (mem_rest m)"
      using r(3) by (simp add: file_read_def mem_file_def mem_rest_def)
    have m1: "mem_content m1 = mem_content m" "mem_offset m1 = mem_offset m + length (sr_bytes r)"
      using r(6) by (simp_all add: file_advance_def mem_file_def)
    have "mem_rest m1 = drop (length (sr_bytes r)) (mem_rest m)"
      unfolding mem_rest_def m1 by (simp add: add.commute)
    then have rest: "sr_bytes r @ mem_rest m1 = mem_rest m" unfolding sr
      by (metis append_eq_conv_conj append_take_drop_id)
    show ?thesis
    proof (cases "sr_bytes r = []")
      case empty: True
      then have "gpgme_data_outbound_handler env stale st h (fd_write a) =
          Some (Ok (st1, \<lparr> ob_err = no_error, ob_sent = [], ob_closed = True \<rparr>))"
        using d r(1) ret True by (simp add: gpgme_data_outbound_handler_def)
      moreover have "mem_rest m = []" "mem_rest m1 = []" using rest sr empty by auto
      ultimately show ?thesis
        using that [of st1 "\<lparr> ob_err = no_error, ob_sent = [], ob_closed = True \<rparr>" m1 pend] r(2,5) True by simp
    next
      case full: False
      obtain d1 where d1: "objects st1 h = Some d1" "dh_data d1 = DMem m1" "dh_pending d1 = pend"
        "\<not> p_blankout (tab st1 ! dh_propidx d1)" using r(5) by (auto simp: mem_at_def)
      define d2 where "d2 = d1\<lparr> dh_pending := sr_bytes r \<rparr>"
      define st2 where "st2 = store_data st1 h d2"
      have "impl_ok d1" using r(2) d1(1) by (auto simp: st_ok_def)
      then have st2: "st_ok st2" "mem_at st2 h m1 (sr_bytes r)" "objects st2 h = Some d2"
        unfolding st2_def using st_ok_store [OF r(2) d1(1), of d2] mem_at_store [OF d1(1), of d2] d1
        by (simp_all add: d2_def)
      have eq: "gpgme_data_outbound_handler env stale st h (fd_write a) = Some (outbound_flush stale st2 h d2 (fd_write a))"
        using d r(1) ret full True d1(1) len by (simp add: gpgme_data_outbound_handler_def st2_def d2_def Let_def)
      obtain st' pend' res where f: "outbound_flush stale st2 h d2 (fd_write a) = Ok (st', res)" "st_ok st'"
        "mem_at st' h m1 pend'" "ob_sent res @ pend' = sr_bytes r" "\<not> ob_closed res" "ob_err res = no_error"
        "a \<noteq> Again \<longrightarrow> ob_sent res \<noteq> []"
        using st2 full by (rule outbound_flush_mem)
      have "ob_sent res @ pend' @ mem_rest m1 = pend @ mem_rest m"
        using f(4) rest True by (metis append.assoc append_Nil)
      moreover have "mem_rest m \<noteq> []" using sr full by auto
      moreover have "gpgme_data_outbound_handler env stale st h (fd_write a) = Some (Ok (st', res))" using eq f(1) by simp
      ultimately show ?thesis using that f by blast
    qed
  qed
qed



section \<open>The inbound handler and identification\<close>

text \<open>
  What the inbound handler receives from an engine is stored completely and in order at the
  current position, for any object kept in memory, unless memory runs out; then the handler
  reports that.
\<close>

theorem inbound_stores:
  assumes "data_reach env st" "mem_at st h m pend" "bs \<noteq> []" "length bs \<le> BUFFER_SIZE"
    "mem_offset m + length bs < SIZE_MOD"
  shows "\<exists>st' m' err. gpgme_data_inbound_handler env stale st (Some h) (Inr bs) = Some (Ok (st', err, False))
    \<and> mem_at st' h m' pend
    \<and> (err = no_error \<and> mem_file m' = file_write (mem_file m) bs
       \<or> err = syserror ENOMEM \<and> mem_file m' = mem_file m \<and> \<not> (\<forall>n. env_mal env n))"
proof -
  obtain st' m' r where w: "gpgme_data_write env st (Some h) bs = Some (Ok (st', r))" "mem_at st' h m' pend"
    "r = \<lparr> sr_ret = trace_sysres (int (length bs)), sr_bytes = [], sr_errno = None \<rparr>
          \<and> mem_file m' = file_write (mem_file m) bs
       \<or> r = sys_fail ENOMEM \<and> mem_file m' = mem_file m \<and> \<not> (\<forall>n. env_mal env n)"
    using write_mem [OF data_reach_ok [OF assms(1)] assms(2,5), of env] by blast
  have ret: "trace_sysres (int (length bs)) = int (length bs)" using assms(4) by (intro trace_sysres_id) auto
  show ?thesis
  proof (cases "r = sys_fail ENOMEM")
    case True
    then have "inbound_loop env stale st (Some h) bs = Some (Ok (st', syserror ENOMEM))"
      using w(1) by (simp add: inbound_loop.simps sys_fail_def trace_sysres_id)
    then show ?thesis using w True ret assms(3) by (auto simp: gpgme_data_inbound_handler_def sys_fail_def)
  next
    case False
    then have r: "r = \<lparr> sr_ret = trace_sysres (int (length bs)), sr_bytes = [], sr_errno = None \<rparr>"
      "mem_file m' = file_write (mem_file m) bs" using w(3) by auto
    then have "inbound_loop env stale st (Some h) bs = Some (Ok (st', no_error))"
      using w(1) ret assms(3) by (simp add: inbound_loop.simps)
    then show ?thesis using w(2) r assms(3) by (auto simp: gpgme_data_inbound_handler_def)
  qed
qed

lemma new_at: "mem_at (fst (gpgme_data_new (\<lambda>_. True) no_error (data_init :: unit data_state) True (Some 7))) 7 mem_init []"
proof -
  let ?st = "fst (gpgme_data_new (\<lambda>_. True) no_error (data_init :: unit data_state) True (Some 7))"
  have "objects ?st 7 = Some (new_data MemCbs (DMem mem_init) 0)" "\<not> p_blankout (tab ?st ! 0)" by code_simp+
  then show ?thesis by (simp add: mem_at_def new_data_def)
qed

theorem inbound_stores_witness:
  "\<exists>st' m'. gpgme_data_inbound_handler plain_env EINVAL
      (fst (gpgme_data_new (\<lambda>_. True) no_error (data_init :: unit data_state) True (Some 7))) (Some 7) (Inr ''abc'')
      = Some (Ok (st', no_error, False)) \<and> mem_file m' = (''abc'', 3) \<and> mem_at st' 7 m' []"
proof -
  have c: "''abc'' \<noteq> []" "length ''abc'' \<le> BUFFER_SIZE" "mem_offset mem_init + length ''abc'' < SIZE_MOD"
    by (simp_all add: mem_init_def SIZE_MOD_def)
  have "\<forall>n. env_mal plain_env n" by (simp add: plain_env_def)
  then show ?thesis
    using inbound_stores [OF reach_new new_at c, of EINVAL] unfolding mem_ok_init(2) file_write_def
    by (auto simp: numeral_3_eq_3)
qed

text \<open>
  Identifying a data object kept in memory looks at its next 2047 bytes and leaves the object as
  it was: the position is restored, provided that it is below 2 GiB.
\<close>

theorem data_identify_restores:
  assumes "data_reach env st" "mem_at st h m []" "env_mal env SAMPLE_SIZE" "mem_offset m < 2147483648"
  shows "\<exists>st' m'. gpgme_data_identify env st (Some h) =
        Some (Ok (st', basic_detection (env_mal env 1) (take 2047 (mem_rest m))))
      \<and> mem_at st' h m' [] \<and> mem_file m' = mem_file m"
proof -
  have ok: "st_ok st" using assms(1) by (rule data_reach_ok)
  have mok: "mem_ok m" using mem_atE [OF ok assms(2)] by metis
  let ?pos = "int (mem_offset m)"
  have le: "?pos \<le> int (length (mem_content m))" using mok by (simp add: mem_content_length mem_ok_def)
  have pos: "trace_sysres ?pos = ?pos" using assms(4) by (intro trace_sysres_id) auto
  obtain st1 m1 where s1: "gpgme_data_seek env st (Some h) 0 SEEK_CUR
      = Ok (st1, \<lparr> sr_ret = trace_sysres ?pos, sr_bytes = [], sr_errno = None \<rparr>)" "st_ok st1" "mem_at st1 h m1 []"
    "mem_file m1 = mem_file m"
    using seek_mem [OF ok assms(2), of ?pos 0 SEEK_CUR env] le by (auto simp: file_target_def mem_file_def)
  obtain st2 m2 r where s2: "gpgme_data_read env st1 (Some h) 2047 = Some (Ok (st2, r))" "st_ok st2"
    "sr_bytes r = take 2047 (mem_rest m)" "sr_ret r = trace_sysres (int (length (sr_bytes r)))" "mem_at st2 h m2 []"
    "fst (mem_file m2) = mem_content m"
    using read_mem [OF s1(2,3), of env 2047] s1(4)
    by (auto simp: file_read_def mem_file_def mem_rest_def file_advance_def)
  have len: "length (sr_bytes r) \<le> 2047" by (simp add: s2(3))
  then have ret: "sr_ret r = int (length (sr_bytes r))" unfolding s2(4) by (intro trace_sysres_id) auto
  obtain st3 m3 where s3: "gpgme_data_seek env st2 (Some h) ?pos SEEK_SET
      = Ok (st3, \<lparr> sr_ret = trace_sysres ?pos, sr_bytes = [], sr_errno = None \<rparr>)" "mem_at st3 h m3 []"
    "mem_file m3 = mem_file m"
    using seek_mem [OF s2(2,5), of ?pos ?pos SEEK_SET env] s2(6) le by (auto simp: file_target_def mem_file_def)
  have "gpgme_data_identify env st (Some h) =
        Some (Ok (st3, basic_detection (env_mal env 1) (take 2047 (mem_rest m))))"
    using s1(1) s2(1) s3(1) pos ret len assms(3) s2(3) by (simp add: gpgme_data_identify_def)
  then show ?thesis using s3 by blast
qed

theorem data_identify_restores_witness:
  "\<exists>st'. gpgme_data_identify plain_env
      (fst (gpgme_data_new (\<lambda>_. True) no_error (data_init :: unit data_state) True (Some 7))) (Some 7)
      = Some (Ok (st', GPGME_DATA_TYPE_UNKNOWN))"
proof -
  have "env_mal plain_env SAMPLE_SIZE" "mem_offset mem_init < 2147483648" "mem_rest mem_init = []"
    "basic_detection True [] = GPGME_DATA_TYPE_UNKNOWN" "env_mal plain_env 1"
    by (simp_all add: plain_env_def mem_init_def mem_rest_def mem_content_def mem_src_def basic_detection_def)
  then show ?thesis using data_identify_restores [OF reach_new new_at] by auto
qed

end
