(* ===== verification/Gpgme_Key.thy ===== *)
theory Gpgme_Key
  imports Gpgme_Conversion Gpgme_MboxUtil
begin

text \<open>
  Key objects (\<open>key.c\<close>, the structures of \<open>gpgme.h\<close>): creation, the user ID parser, the lists
  of subkeys, user IDs and key signatures, reference counts and the attribute interface.
  The records have the fields the modelled code uses.
  The linked lists are Isabelle lists in the order of their \<open>next\<close> pointers; the \<open>_last_...\<close>
  pointers, which the code keeps at the end of each list, are the last elements. A C string
  pointer that may be NULL is an option.
\<close>

section \<open>Data\<close>

datatype gpgme_validity_t =
    GPGME_VALIDITY_UNKNOWN | GPGME_VALIDITY_UNDEFINED | GPGME_VALIDITY_NEVER
  | GPGME_VALIDITY_MARGINAL | GPGME_VALIDITY_FULL | GPGME_VALIDITY_ULTIMATE

datatype gpgme_tofu_policy_t =
    GPGME_TOFU_POLICY_NONE | GPGME_TOFU_POLICY_AUTO | GPGME_TOFU_POLICY_GOOD
  | GPGME_TOFU_POLICY_UNKNOWN | GPGME_TOFU_POLICY_BAD | GPGME_TOFU_POLICY_ASK

datatype gpgme_keyorg_t =
    GPGME_KEYORG_UNKNOWN | GPGME_KEYORG_KS | GPGME_KEYORG_DANE | GPGME_KEYORG_WKD
  | GPGME_KEYORG_URL | GPGME_KEYORG_FILE | GPGME_KEYORG_SELF | GPGME_KEYORG_OTHER

record tofu_info =
  ti_validity :: int
  ti_policy :: gpgme_tofu_policy_t
  ti_signcount :: int
  ti_encrcount :: int
  ti_signfirst :: int
  ti_signlast :: int
  ti_encrfirst :: int
  ti_encrlast :: int
  ti_description :: "string option"

record sig_notation =
  nota_name :: "string option"
  nota_value :: "string option"
  nota_name_len :: int
  nota_value_len :: int
  nota_flags :: int
  nota_human_readable :: bool
  nota_critical :: bool

record subkey =
  sk_revoked :: bool
  sk_expired :: bool
  sk_disabled :: bool
  sk_invalid :: bool
  sk_can_encrypt :: bool
  sk_can_sign :: bool
  sk_can_certify :: bool
  sk_pubkey_algo :: int
  sk_length :: int
  sk_keyid :: string
  sk_fpr :: "string option"
  sk_timestamp :: int
  sk_expires :: int
  sk_secret :: bool
  sk_can_authenticate :: bool
  sk_is_qualified :: bool
  sk_is_cardkey :: bool
  sk_is_de_vs :: bool
  sk_card_number :: "string option"
  sk_curve :: "string option"
  sk_keygrip :: "string option"

text \<open>The name, email and comment pointers of a key signature stay NULL when it has no user ID.\<close>

record key_sig =
  ks_revoked :: bool
  ks_expired :: bool
  ks_invalid :: bool
  ks_pubkey_algo :: int
  ks_keyid :: string
  ks_timestamp :: int
  ks_expires :: int
  ks_status :: gpgme_error_t
  ks_uid :: string
  ks_name :: "string option"
  ks_email :: "string option"
  ks_comment :: "string option"
  ks_sig_class :: int
  ks_exportable :: bool
  ks_notations :: "sig_notation list"

record user_id =
  uid_revoked :: bool
  uid_invalid :: bool
  uid_validity :: gpgme_validity_t
  uid_uid :: string
  uid_name :: string
  uid_email :: string
  uid_comment :: string
  uid_signatures :: "key_sig list"
  uid_address :: "string option"
  uid_tofu :: "tofu_info option"
  uid_last_update :: int
  uid_origin :: gpgme_keyorg_t

record gpgme_key =
  key_refs :: nat
  key_can_encrypt :: bool
  key_can_sign :: bool
  key_can_certify :: bool
  key_secret :: bool
  key_protocol :: gpgme_protocol_t
  key_issuer_serial :: "string option"
  key_issuer_name :: "string option"
  key_chain_id :: "string option"
  key_owner_trust :: gpgme_validity_t
  key_subkeys :: "subkey list"
  key_uids :: "user_id list"
  key_fpr :: "string option"
  key_revoked :: bool
  key_expired :: bool
  key_disabled :: bool
  key_invalid :: bool
  key_can_authenticate :: bool
  key_is_qualified :: bool
  key_keylist_mode :: "32 word"
  key_last_update :: int
  key_origin :: gpgme_keyorg_t

text \<open>What \<open>calloc\<close> gives: the first enumerators, null pointers, zeros.\<close>

definition zero_tofu :: tofu_info where
  "zero_tofu = \<lparr>ti_validity = 0, ti_policy = GPGME_TOFU_POLICY_NONE, ti_signcount = 0,
     ti_encrcount = 0, ti_signfirst = 0, ti_signlast = 0, ti_encrfirst = 0, ti_encrlast = 0,
     ti_description = None\<rparr>"

definition zero_subkey :: subkey where
  "zero_subkey = \<lparr>sk_revoked = False, sk_expired = False, sk_disabled = False,
     sk_invalid = False, sk_can_encrypt = False, sk_can_sign = False, sk_can_certify = False,
     sk_pubkey_algo = 0, sk_length = 0, sk_keyid = [], sk_fpr = None, sk_timestamp = 0,
     sk_expires = 0, sk_secret = False, sk_can_authenticate = False, sk_is_qualified = False,
     sk_is_cardkey = False, sk_is_de_vs = False, sk_card_number = None, sk_curve = None,
     sk_keygrip = None\<rparr>"

definition zero_key_sig :: key_sig where
  "zero_key_sig = \<lparr>ks_revoked = False, ks_expired = False, ks_invalid = False,
     ks_pubkey_algo = 0, ks_keyid = [], ks_timestamp = 0, ks_expires = 0,
     ks_status = no_error, ks_uid = [], ks_name = None, ks_email = None, ks_comment = None,
     ks_sig_class = 0, ks_exportable = False, ks_notations = []\<rparr>"

section \<open>Creation\<close>

text \<open>\<open>core\<close> tells whether the allocation of the function succeeds.\<close>

definition gpgme_key_new :: "bool \<Rightarrow> gpgme_key cres" where
  "gpgme_key_new core =
     (if \<not> core then Err (syserror ENOMEM)
      else Ok \<lparr>key_refs = 1, key_can_encrypt = False, key_can_sign = False,
        key_can_certify = False, key_secret = False, key_protocol = GPGME_PROTOCOL_OpenPGP,
        key_issuer_serial = None, key_issuer_name = None, key_chain_id = None,
        key_owner_trust = GPGME_VALIDITY_UNKNOWN, key_subkeys = [], key_uids = [],
        key_fpr = None, key_revoked = False, key_expired = False, key_disabled = False,
        key_invalid = False, key_can_authenticate = False, key_is_qualified = False,
        key_keylist_mode = 0, key_last_update = 0, key_origin = GPGME_KEYORG_UNKNOWN\<rparr>)"

definition gpgme_key_add_subkey :: "bool \<Rightarrow> gpgme_key \<Rightarrow> gpgme_key cres" where
  "gpgme_key_add_subkey core key =
     (if \<not> core then Err (syserror ENOMEM)
      else Ok (key\<lparr>key_subkeys := key_subkeys key @ [zero_subkey]\<rparr>))"

section \<open>The user ID parser\<close>

definition is_blank :: "char \<Rightarrow> bool" where
  "is_blank c \<longleftrightarrow> c = CHR '' '' \<or> c = CHR 0x09"

text \<open>The bytes \<open>set_user_id_part\<close> stores at \<open>tail\<close>, without the terminator it adds.\<close>

definition trim_blanks :: "string \<Rightarrow> string" where
  "trim_blanks s = rev (dropWhile is_blank (rev s))"

text \<open>
  The locals of \<open>parse_user_id\<close>: the text from \<open>start\<close> up to \<open>src\<close>, the nesting counters, the
  three results and everything stored at \<open>tail\<close> so far.
\<close>

record uid_parse =
  up_text :: string
  up_in_name :: bool
  up_in_email :: nat
  up_in_comment :: nat
  up_name :: "string option"
  up_email :: "string option"
  up_comment :: "string option"
  up_written :: string

definition set_user_id_part :: "uid_parse \<Rightarrow> uid_parse" where
  "set_user_id_part p = p\<lparr>up_written := up_written p @ trim_blanks (up_text p) @ [NUL]\<rparr>"

definition store_name :: "uid_parse \<Rightarrow> uid_parse" where
  "store_name p =
     (if up_in_name p \<and> up_name p = None
      then (set_user_id_part p)\<lparr>up_name := Some (trim_blanks (up_text p))\<rparr> else p)"

definition store_email :: "uid_parse \<Rightarrow> uid_parse" where
  "store_email p =
     (if up_in_email p = 0 \<and> up_email p = None
      then (set_user_id_part p)\<lparr>up_email := Some (trim_blanks (up_text p))\<rparr> else p)"

definition store_comment :: "uid_parse \<Rightarrow> uid_parse" where
  "store_comment p =
     (if up_in_comment p = 0 \<and> up_comment p = None
      then (set_user_id_part p)\<lparr>up_comment := Some (trim_blanks (up_text p))\<rparr> else p)"

definition push_text :: "char \<Rightarrow> uid_parse \<Rightarrow> uid_parse" where
  "push_text c p = p\<lparr>up_text := up_text p @ [c]\<rparr>"

definition parse_user_id_step :: "char \<Rightarrow> uid_parse \<Rightarrow> uid_parse" where
  "parse_user_id_step c p =
     (if 0 < up_in_email p then
        push_text c
          (if c = CHR ''<'' then p\<lparr>up_in_email := up_in_email p + 1\<rparr>
           else if c = CHR ''>'' then store_email (p\<lparr>up_in_email := up_in_email p - 1\<rparr>)
           else p)
      else if 0 < up_in_comment p then
        push_text c
          (if c = CHR ''('' then p\<lparr>up_in_comment := up_in_comment p + 1\<rparr>
           else if c = CHR '')'' then store_comment (p\<lparr>up_in_comment := up_in_comment p - 1\<rparr>)
           else p)
      else if c = CHR ''<'' then
        (store_name p)\<lparr>up_in_name := False, up_in_email := 1, up_text := []\<rparr>
      else if c = CHR ''('' then
        (store_name p)\<lparr>up_in_name := False, up_in_comment := 1, up_text := []\<rparr>
      else if \<not> up_in_name p \<and> c \<noteq> CHR '' '' \<and> c \<noteq> CHR 0x09 then
        p\<lparr>up_in_name := True, up_text := [c]\<rparr>
      else push_text c p)"

definition uid_parse_init :: uid_parse where
  "uid_parse_init = \<lparr>up_text = [], up_in_name = False, up_in_email = 0, up_in_comment = 0,
     up_name = None, up_email = None, up_comment = None, up_written = []\<rparr>"

definition parse_user_id_run :: "string \<Rightarrow> uid_parse" where
  "parse_user_id_run src = store_name (fold parse_user_id_step src uid_parse_init)"

text \<open>The results are the name, the email and the comment; unused ones are empty strings.\<close>

definition eos_if_null :: "string option \<Rightarrow> string" where
  "eos_if_null x = (case x of None \<Rightarrow> [] | Some s \<Rightarrow> s)"

definition parse_user_id :: "string \<Rightarrow> string \<times> string \<times> string" where
  "parse_user_id src =
     (let p = parse_user_id_run src
      in (eos_if_null (up_name p), eos_if_null (up_email p), eos_if_null (up_comment p)))"

definition parse_x509_user_id :: "string \<Rightarrow> string \<times> string \<times> string" where
  "parse_x509_user_id src =
     ([], if peek src = CHR ''<'' \<and> last src = CHR ''>'' then src else [], [])"

section \<open>User IDs and key signatures\<close>

text \<open>
  \<open>core\<close> says for each allocation whether it succeeds: \<open>''uid''\<close> the user ID object,
  \<open>''address''\<close> the mail address.
\<close>

definition new_user_id ::
    "string \<Rightarrow> string \<Rightarrow> string \<Rightarrow> string \<Rightarrow> string option \<Rightarrow> user_id" where
  "new_user_id uid name email comment address =
     (let mailbox_only = (email = [] \<and> address = Some name)
      in \<lparr>uid_revoked = False, uid_invalid = False, uid_validity = GPGME_VALIDITY_UNKNOWN,
          uid_uid = uid, uid_name = (if mailbox_only then [] else name),
          uid_email = (if mailbox_only then name else email), uid_comment = comment,
          uid_signatures = [], uid_address = address, uid_tofu = None,
          uid_last_update = 0, uid_origin = GPGME_KEYORG_UNKNOWN\<rparr>)"

definition gpgme_key_append_name ::
    "(string \<Rightarrow> bool) \<Rightarrow> gpgme_key \<Rightarrow> string \<Rightarrow> bool \<Rightarrow> gpgme_key cres" where
  "gpgme_key_append_name core key src convert =
     (if \<not> core ''uid'' then Err (syserror ENOMEM)
      else case (if convert then gpgme_decode_c_string True src (length src + 1) else Ok src) of
        UB \<Rightarrow> UB
      | Err e \<Rightarrow> Err e
      | Ok uid \<Rightarrow>
          (let (name, email, comment) =
                 (if key_protocol key = GPGME_PROTOCOL_CMS then parse_x509_user_id uid
                  else parse_user_id uid)
           in case gpgme_mailbox_from_userid (core ''address'') uid of
                UB \<Rightarrow> UB
              | r \<Rightarrow>
                  Ok (key\<lparr>key_uids := key_uids key @
                    [new_user_id uid name email comment
                       (case r of Ok a \<Rightarrow> Some a | _ \<Rightarrow> None)]\<rparr>)))"

text \<open>
  A new key signature goes to the end of the signatures of the last user ID; without a user ID
  the assertion of the code fails. \<open>None\<close> is the NULL the function returns when it is out of
  memory.
\<close>

definition gpgme_key_add_sig ::
    "bool \<Rightarrow> gpgme_key \<Rightarrow> string option \<Rightarrow> gpgme_key option cres" where
  "gpgme_key_add_sig core key src =
     (if key_uids key = [] then UB
      else if \<not> core then Ok None
      else
        (let parsed =
               (case src of
                  None \<Rightarrow> Ok zero_key_sig
                | Some s \<Rightarrow>
                    (case gpgme_decode_c_string True s (length s + 1) of
                       UB \<Rightarrow> UB
                     | Err e \<Rightarrow> Err e
                     | Ok uid \<Rightarrow>
                         (let (name, email, comment) =
                                (if key_protocol key = GPGME_PROTOCOL_CMS
                                 then parse_x509_user_id uid else parse_user_id uid)
                          in Ok (zero_key_sig\<lparr>ks_uid := uid, ks_name := Some name,
                                   ks_email := Some email, ks_comment := Some comment\<rparr>))))
         in case parsed of
              UB \<Rightarrow> UB
            | Err e \<Rightarrow> Err e
            | Ok sig \<Rightarrow>
                (let uid = last (key_uids key)
                 in Ok (Some (key\<lparr>key_uids := butlast (key_uids key) @
                      [uid\<lparr>uid_signatures := uid_signatures uid @ [sig]\<rparr>]\<rparr>)))))"

definition gpgme_key_from_uid :: "(string \<Rightarrow> bool) \<Rightarrow> string \<Rightarrow> gpgme_key cres" where
  "gpgme_key_from_uid core name =
     (case gpgme_key_new (core ''key'') of
        Ok key \<Rightarrow> gpgme_key_append_name core key name False
      | e \<Rightarrow> e)"

section \<open>Reference counts\<close>

text \<open>\<open>Ok None\<close> is a key whose last reference went away; its memory is released.\<close>

definition gpgme_key_ref :: "gpgme_key \<Rightarrow> gpgme_key" where
  "gpgme_key_ref key = key\<lparr>key_refs := key_refs key + 1\<rparr>"

definition gpgme_key_unref :: "gpgme_key option \<Rightarrow> gpgme_key option cres" where
  "gpgme_key_unref k =
     (case k of
        None \<Rightarrow> Ok None
      | Some key \<Rightarrow>
          if key_refs key = 0 then UB
          else if key_refs key - 1 \<noteq> 0 then Ok (Some (key\<lparr>key_refs := key_refs key - 1\<rparr>))
          else Ok None)"

definition gpgme_key_release :: "gpgme_key option \<Rightarrow> gpgme_key option cres" where
  "gpgme_key_release k = gpgme_key_unref k"

section \<open>Attributes\<close>

datatype gpgme_attr_t =
    GPGME_ATTR_KEYID | GPGME_ATTR_FPR | GPGME_ATTR_ALGO | GPGME_ATTR_LEN | GPGME_ATTR_CREATED
  | GPGME_ATTR_EXPIRE | GPGME_ATTR_OTRUST | GPGME_ATTR_USERID | GPGME_ATTR_NAME
  | GPGME_ATTR_EMAIL | GPGME_ATTR_COMMENT | GPGME_ATTR_VALIDITY | GPGME_ATTR_LEVEL
  | GPGME_ATTR_TYPE | GPGME_ATTR_IS_SECRET | GPGME_ATTR_KEY_REVOKED | GPGME_ATTR_KEY_INVALID
  | GPGME_ATTR_UID_REVOKED | GPGME_ATTR_UID_INVALID | GPGME_ATTR_KEY_CAPS
  | GPGME_ATTR_CAN_ENCRYPT | GPGME_ATTR_CAN_SIGN | GPGME_ATTR_CAN_CERTIFY
  | GPGME_ATTR_KEY_EXPIRED | GPGME_ATTR_KEY_DISABLED | GPGME_ATTR_SERIAL | GPGME_ATTR_ISSUER
  | GPGME_ATTR_CHAINID | GPGME_ATTR_SIG_STATUS | GPGME_ATTR_ERRTOK | GPGME_ATTR_SIG_SUMMARY
  | GPGME_ATTR_SIG_CLASS

definition otrust_to_string :: "gpgme_validity_t \<Rightarrow> string" where
  "otrust_to_string otrust =
     (case otrust of
        GPGME_VALIDITY_NEVER \<Rightarrow> ''n'' | GPGME_VALIDITY_MARGINAL \<Rightarrow> ''m''
      | GPGME_VALIDITY_FULL \<Rightarrow> ''f'' | GPGME_VALIDITY_ULTIMATE \<Rightarrow> ''u'' | _ \<Rightarrow> ''?'')"

definition validity_to_string :: "gpgme_validity_t \<Rightarrow> string" where
  "validity_to_string validity =
     (case validity of
        GPGME_VALIDITY_UNDEFINED \<Rightarrow> ''q'' | GPGME_VALIDITY_NEVER \<Rightarrow> ''n''
      | GPGME_VALIDITY_MARGINAL \<Rightarrow> ''m'' | GPGME_VALIDITY_FULL \<Rightarrow> ''f''
      | GPGME_VALIDITY_ULTIMATE \<Rightarrow> ''u'' | GPGME_VALIDITY_UNKNOWN \<Rightarrow> ''?'')"

definition validity_number :: "gpgme_validity_t \<Rightarrow> int" where
  "validity_number v =
     (case v of GPGME_VALIDITY_UNKNOWN \<Rightarrow> 0 | GPGME_VALIDITY_UNDEFINED \<Rightarrow> 1
      | GPGME_VALIDITY_NEVER \<Rightarrow> 2 | GPGME_VALIDITY_MARGINAL \<Rightarrow> 3 | GPGME_VALIDITY_FULL \<Rightarrow> 4
      | GPGME_VALIDITY_ULTIMATE \<Rightarrow> 5)"

definition capabilities_to_string :: "subkey \<Rightarrow> string" where
  "capabilities_to_string s =
     [[], ''c'', ''s'', ''sc'', ''e'', ''ec'', ''es'', ''esc''] !
       ((if sk_can_encrypt s then 4 else 0) + (if sk_can_sign s then 2 else 0)
        + (if sk_can_certify s then 1 else 0))"

text \<open>The names of \<open>gpgme_pubkey_algo_name\<close> in \<open>gpgme.c\<close>.\<close>

definition gpgme_pubkey_algo_name :: "int \<Rightarrow> string option" where
  "gpgme_pubkey_algo_name algo =
     (if algo = 1 then Some ''RSA'' else if algo = 2 then Some ''RSA-E''
      else if algo = 3 then Some ''RSA-S'' else if algo = 16 then Some ''ELG-E''
      else if algo = 17 then Some ''DSA'' else if algo = 18 then Some ''ECC''
      else if algo = 20 then Some ''ELG'' else if algo = GPGME_PK_ECDSA then Some ''ECDSA''
      else if algo = GPGME_PK_ECDH then Some ''ECDH''
      else if algo = GPGME_PK_EDDSA then Some ''EdDSA'' else None)"

text \<open>
  The list walk of the attribute functions: from the head, \<open>idx\<close> steps along \<open>next\<close>, stopping
  at the end. A step from a null head is undefined.
\<close>

definition select_idx :: "'a list \<Rightarrow> int \<Rightarrow> 'a option cres" where
  "select_idx xs idx =
     (if xs = [] then (if 0 < idx then UB else Ok None)
      else if nat idx < length xs then Ok (Some (xs ! nat idx)) else Ok None)"

definition key_string_attr ::
    "gpgme_key \<Rightarrow> gpgme_attr_t \<Rightarrow> int \<Rightarrow> subkey option \<Rightarrow> user_id option \<Rightarrow> string option" where
  "key_string_attr key what idx subkey uid =
     (case what of
        GPGME_ATTR_KEYID \<Rightarrow> map_option sk_keyid subkey
      | GPGME_ATTR_FPR \<Rightarrow> Option.bind subkey sk_fpr
      | GPGME_ATTR_ALGO \<Rightarrow> Option.bind subkey (\<lambda>s. gpgme_pubkey_algo_name (sk_pubkey_algo s))
      | GPGME_ATTR_TYPE \<Rightarrow> Some (if key_protocol key = GPGME_PROTOCOL_CMS then ''X.509'' else ''PGP'')
      | GPGME_ATTR_OTRUST \<Rightarrow> Some (otrust_to_string (key_owner_trust key))
      | GPGME_ATTR_USERID \<Rightarrow> map_option uid_uid uid
      | GPGME_ATTR_NAME \<Rightarrow> map_option uid_name uid
      | GPGME_ATTR_EMAIL \<Rightarrow> map_option uid_email uid
      | GPGME_ATTR_COMMENT \<Rightarrow> map_option uid_comment uid
      | GPGME_ATTR_VALIDITY \<Rightarrow> map_option (\<lambda>u. validity_to_string (uid_validity u)) uid
      | GPGME_ATTR_KEY_CAPS \<Rightarrow> map_option capabilities_to_string subkey
      | GPGME_ATTR_SERIAL \<Rightarrow> key_issuer_serial key
      | GPGME_ATTR_ISSUER \<Rightarrow> if idx \<noteq> 0 then None else key_issuer_name key
      | GPGME_ATTR_CHAINID \<Rightarrow> key_chain_id key
      | _ \<Rightarrow> None)"

definition gpgme_key_get_string_attr ::
    "gpgme_key option \<Rightarrow> gpgme_attr_t \<Rightarrow> bool \<Rightarrow> int \<Rightarrow> string option cres" where
  "gpgme_key_get_string_attr k what reserved idx =
     (case k of
        None \<Rightarrow> Ok None
      | Some key \<Rightarrow>
          if reserved \<or> idx < 0 then Ok None
          else case select_idx (key_subkeys key) idx of
            Ok subkey \<Rightarrow>
              (case select_idx (key_uids key) idx of
                 Ok uid \<Rightarrow> Ok (key_string_attr key what idx subkey uid)
               | _ \<Rightarrow> UB)
          | _ \<Rightarrow> UB)"

definition bool_num :: "bool \<Rightarrow> int" where
  "bool_num b = (if b then 1 else 0)"

definition num_or_0 :: "('a \<Rightarrow> int) \<Rightarrow> 'a option \<Rightarrow> int" where
  "num_or_0 f x = (case x of None \<Rightarrow> 0 | Some a \<Rightarrow> f a)"

definition key_ulong_attr ::
    "gpgme_key \<Rightarrow> gpgme_attr_t \<Rightarrow> subkey option \<Rightarrow> user_id option \<Rightarrow> int" where
  "key_ulong_attr key what subkey uid =
     (case what of
        GPGME_ATTR_ALGO \<Rightarrow> num_or_0 sk_pubkey_algo subkey
      | GPGME_ATTR_LEN \<Rightarrow> num_or_0 sk_length subkey
      | GPGME_ATTR_TYPE \<Rightarrow> bool_num (key_protocol key = GPGME_PROTOCOL_CMS)
      | GPGME_ATTR_CREATED \<Rightarrow> num_or_0 (\<lambda>s. max 0 (sk_timestamp s)) subkey
      | GPGME_ATTR_EXPIRE \<Rightarrow> num_or_0 (\<lambda>s. max 0 (sk_expires s)) subkey
      | GPGME_ATTR_VALIDITY \<Rightarrow> num_or_0 (\<lambda>u. validity_number (uid_validity u)) uid
      | GPGME_ATTR_OTRUST \<Rightarrow> validity_number (key_owner_trust key)
      | GPGME_ATTR_IS_SECRET \<Rightarrow> bool_num (key_secret key)
      | GPGME_ATTR_KEY_REVOKED \<Rightarrow> num_or_0 (\<lambda>s. bool_num (sk_revoked s)) subkey
      | GPGME_ATTR_KEY_INVALID \<Rightarrow> num_or_0 (\<lambda>s. bool_num (sk_invalid s)) subkey
      | GPGME_ATTR_KEY_EXPIRED \<Rightarrow> num_or_0 (\<lambda>s. bool_num (sk_expired s)) subkey
      | GPGME_ATTR_KEY_DISABLED \<Rightarrow> num_or_0 (\<lambda>s. bool_num (sk_disabled s)) subkey
      | GPGME_ATTR_UID_REVOKED \<Rightarrow> num_or_0 (\<lambda>u. bool_num (uid_revoked u)) uid
      | GPGME_ATTR_UID_INVALID \<Rightarrow> num_or_0 (\<lambda>u. bool_num (uid_invalid u)) uid
      | GPGME_ATTR_CAN_ENCRYPT \<Rightarrow> bool_num (key_can_encrypt key)
      | GPGME_ATTR_CAN_SIGN \<Rightarrow> bool_num (key_can_sign key)
      | GPGME_ATTR_CAN_CERTIFY \<Rightarrow> bool_num (key_can_certify key)
      | _ \<Rightarrow> 0)"

definition gpgme_key_get_ulong_attr ::
    "gpgme_key option \<Rightarrow> gpgme_attr_t \<Rightarrow> bool \<Rightarrow> int \<Rightarrow> int cres" where
  "gpgme_key_get_ulong_attr k what reserved idx =
     (case k of
        None \<Rightarrow> Ok 0
      | Some key \<Rightarrow>
          if reserved \<or> idx < 0 then Ok 0
          else case select_idx (key_subkeys key) idx of
            Ok subkey \<Rightarrow>
              (case select_idx (key_uids key) idx of
                 Ok uid \<Rightarrow> Ok (key_ulong_attr key what subkey uid)
               | _ \<Rightarrow> UB)
          | _ \<Rightarrow> UB)"

fun walk :: "'a list \<Rightarrow> nat \<Rightarrow> 'a list" where
  "walk (x # xs) (Suc n) = walk xs n"
| "walk xs n = xs"

definition get_keysig :: "gpgme_key option \<Rightarrow> int \<Rightarrow> int \<Rightarrow> key_sig option" where
  "get_keysig k uid_idx idx =
     (case k of
        None \<Rightarrow> None
      | Some key \<Rightarrow>
          if uid_idx < 0 \<or> idx < 0 then None
          else case walk (key_uids key) (nat uid_idx) of
            [] \<Rightarrow> None
          | uid # _ \<Rightarrow>
              (case walk (uid_signatures uid) (nat idx) of [] \<Rightarrow> None | s # _ \<Rightarrow> Some s))"

definition gpgme_key_sig_get_string_attr ::
    "gpgme_key option \<Rightarrow> int \<Rightarrow> gpgme_attr_t \<Rightarrow> bool \<Rightarrow> int \<Rightarrow> string option" where
  "gpgme_key_sig_get_string_attr k uid_idx what reserved idx =
     (case get_keysig k uid_idx idx of
        None \<Rightarrow> None
      | Some s \<Rightarrow>
          if reserved then None
          else case what of
            GPGME_ATTR_KEYID \<Rightarrow> Some (ks_keyid s)
          | GPGME_ATTR_ALGO \<Rightarrow> gpgme_pubkey_algo_name (ks_pubkey_algo s)
          | GPGME_ATTR_USERID \<Rightarrow> Some (ks_uid s)
          | GPGME_ATTR_NAME \<Rightarrow> ks_name s
          | GPGME_ATTR_EMAIL \<Rightarrow> ks_email s
          | GPGME_ATTR_COMMENT \<Rightarrow> ks_comment s
          | _ \<Rightarrow> None)"

text \<open>\<open>errnum\<close> is the numeric value of an error, which is libgpg-error's.\<close>

definition gpgme_key_sig_get_ulong_attr ::
    "(gpgme_error_t \<Rightarrow> int) \<Rightarrow> gpgme_key option \<Rightarrow> int \<Rightarrow> gpgme_attr_t \<Rightarrow> bool \<Rightarrow> int \<Rightarrow> int" where
  "gpgme_key_sig_get_ulong_attr errnum k uid_idx what reserved idx =
     (case get_keysig k uid_idx idx of
        None \<Rightarrow> 0
      | Some s \<Rightarrow>
          if reserved then 0
          else case what of
            GPGME_ATTR_ALGO \<Rightarrow> ks_pubkey_algo s
          | GPGME_ATTR_CREATED \<Rightarrow> max 0 (ks_timestamp s)
          | GPGME_ATTR_EXPIRE \<Rightarrow> max 0 (ks_expires s)
          | GPGME_ATTR_KEY_REVOKED \<Rightarrow> bool_num (ks_revoked s)
          | GPGME_ATTR_KEY_INVALID \<Rightarrow> bool_num (ks_invalid s)
          | GPGME_ATTR_KEY_EXPIRED \<Rightarrow> bool_num (ks_expired s)
          | GPGME_ATTR_SIG_CLASS \<Rightarrow> ks_sig_class s
          | GPGME_ATTR_SIG_STATUS \<Rightarrow> errnum (ks_status s)
          | _ \<Rightarrow> 0)"

section \<open>Lemmas on the user ID parser\<close>

lemma length_trim_blanks: "length (trim_blanks s) \<le> length s"
  by (simp add: trim_blanks_def) (metis length_dropWhile_le length_rev)

lemma trim_blanks_id: "s = [] \<or> \<not> is_blank (last s) \<Longrightarrow> trim_blanks s = s"
  by (cases s rule: rev_cases) (auto simp: trim_blanks_def)

text \<open>
  What the parser has stored, together with the text that is still open, never exceeds what it
  has read by more than the terminator of the name.
\<close>

definition uid_parse_inv :: "nat \<Rightarrow> uid_parse \<Rightarrow> bool" where
  "uid_parse_inv n p \<longleftrightarrow>
     length (up_written p)
       + (if 0 < up_in_email p \<or> 0 < up_in_comment p then length (up_text p) + 1
          else if up_in_name p then length (up_text p) else 0)
     \<le> n + (if up_name p = None then 0 else 1)
     \<and> \<not> (up_in_name p \<and> (0 < up_in_email p \<or> 0 < up_in_comment p))
     \<and> \<not> (0 < up_in_email p \<and> 0 < up_in_comment p)"

lemmas uid_store_defs = store_name_def store_email_def store_comment_def set_user_id_part_def
  push_text_def

lemma uid_parse_inv_store_name:
  assumes "uid_parse_inv n p"
  shows "length (up_written (store_name p)) \<le> n + (if up_name (store_name p) = None then 0 else 1)"
  using assms length_trim_blanks [of "up_text p"]
  by (cases "up_name p"; cases "up_in_name p") (simp_all add: uid_parse_inv_def uid_store_defs split: if_splits)

lemma store_name_keeps [simp]:
  "up_in_email (store_name p) = up_in_email p" "up_in_comment (store_name p) = up_in_comment p"
  by (simp_all add: store_name_def set_user_id_part_def)

lemma uid_parse_inv_email:
  assumes "uid_parse_inv n p" "0 < up_in_email p"
  shows "uid_parse_inv (Suc n) (parse_user_id_step c p)"
  using assms length_trim_blanks [of "up_text p"]
  by (cases "c = CHR ''<''"; cases "c = CHR ''>''")
     (simp_all add: uid_parse_inv_def parse_user_id_step_def uid_store_defs)

lemma uid_parse_inv_comment:
  assumes "uid_parse_inv n p" "up_in_email p = 0" "0 < up_in_comment p"
  shows "uid_parse_inv (Suc n) (parse_user_id_step c p)"
  using assms length_trim_blanks [of "up_text p"]
  by (cases "c = CHR ''(''"; cases "c = CHR '')''")
     (simp_all add: uid_parse_inv_def parse_user_id_step_def uid_store_defs)

lemma uid_parse_inv_step:
  assumes "uid_parse_inv n p"
  shows "uid_parse_inv (Suc n) (parse_user_id_step c p)"
proof -
  consider "0 < up_in_email p" | "up_in_email p = 0" "0 < up_in_comment p"
    | "up_in_email p = 0" "up_in_comment p = 0" "c = CHR ''<'' \<or> c = CHR ''(''"
    | "up_in_email p = 0" "up_in_comment p = 0" "c \<noteq> CHR ''<''" "c \<noteq> CHR ''(''"
    by blast
  then show ?thesis
  proof cases
    case 3
    then show ?thesis
      using uid_parse_inv_store_name [OF assms]
      by (elim disjE) (simp_all add: uid_parse_inv_def parse_user_id_step_def)
  next
    case 4
    then show ?thesis
      using assms
      by (cases "up_in_name p") (simp_all add: uid_parse_inv_def parse_user_id_step_def push_text_def)
  qed (use assms uid_parse_inv_email uid_parse_inv_comment in blast)+
qed

lemma uid_parse_inv_fold:
  "uid_parse_inv n p \<Longrightarrow> uid_parse_inv (n + length src) (fold parse_user_id_step src p)"
proof (induction src arbitrary: n p)
  case (Cons c src)
  then show ?case using uid_parse_inv_step [OF Cons.prems, of c] by fastforce
qed simp

lemma uid_parse_inv_init: "uid_parse_inv 0 uid_parse_init"
  by (simp add: uid_parse_inv_def uid_parse_init_def)

lemma parse_user_id_written: "length (up_written (parse_user_id_run src)) \<le> length src + 1"
proof -
  define p where "p = fold parse_user_id_step src uid_parse_init"
  have inv: "uid_parse_inv (length src) p"
    using uid_parse_inv_fold [OF uid_parse_inv_init, of src] by (simp add: p_def)
  have "length (up_written (store_name p)) \<le> length src + 1"
    using inv length_trim_blanks [of "up_text p"]
    by (auto simp: uid_parse_inv_def uid_store_defs split: if_splits)
  then show ?thesis by (simp add: parse_user_id_run_def p_def)
qed

text \<open>How the parser runs through the parts of a user ID.\<close>

lemma fold_name:
  assumes "up_in_email p = 0" "up_in_comment p = 0" "up_in_name p"
    and "\<forall>c\<in>set s. c \<noteq> CHR ''<'' \<and> c \<noteq> CHR ''(''"
  shows "fold parse_user_id_step s p = p\<lparr>up_text := up_text p @ s\<rparr>"
  using assms
proof (induction s arbitrary: p)
  case (Cons c s)
  have "parse_user_id_step c p = p\<lparr>up_text := up_text p @ [c]\<rparr>"
    using Cons.prems by (simp add: parse_user_id_step_def push_text_def)
  then show ?case using Cons by simp
qed simp

lemma fold_email:
  assumes "up_in_email p = 1" and "\<forall>c\<in>set s. c \<noteq> CHR ''<'' \<and> c \<noteq> CHR ''>''"
  shows "fold parse_user_id_step s p = p\<lparr>up_text := up_text p @ s\<rparr>"
  using assms
proof (induction s arbitrary: p)
  case (Cons c s)
  have "parse_user_id_step c p = p\<lparr>up_text := up_text p @ [c]\<rparr>"
    using Cons.prems by (simp add: parse_user_id_step_def push_text_def)
  then show ?case using Cons by simp
qed simp

lemma fold_comment:
  assumes "up_in_email p = 0" "up_in_comment p = 1"
    and "\<forall>c\<in>set s. c \<noteq> CHR ''('' \<and> c \<noteq> CHR '')''"
  shows "fold parse_user_id_step s p = p\<lparr>up_text := up_text p @ s\<rparr>"
  using assms
proof (induction s arbitrary: p)
  case (Cons c s)
  have "parse_user_id_step c p = p\<lparr>up_text := up_text p @ [c]\<rparr>"
    using Cons.prems by (simp add: parse_user_id_step_def push_text_def)
  then show ?case using Cons by simp
qed simp

text \<open>The parts of a user ID as \<open>gpg\<close> composes them.\<close>

definition uid_name_ok :: "string \<Rightarrow> bool" where
  "uid_name_ok n \<longleftrightarrow> n \<noteq> [] \<and> \<not> is_blank (hd n) \<and> \<not> is_blank (last n)
     \<and> (\<forall>c\<in>set n. c \<noteq> CHR ''<'' \<and> c \<noteq> CHR ''('')"

definition uid_email_ok :: "string \<Rightarrow> bool" where
  "uid_email_ok e \<longleftrightarrow> (e = [] \<or> \<not> is_blank (last e))
     \<and> (\<forall>c\<in>set e. c \<noteq> CHR ''<'' \<and> c \<noteq> CHR ''>'')"

definition uid_comment_ok :: "string \<Rightarrow> bool" where
  "uid_comment_ok e \<longleftrightarrow> (e = [] \<or> \<not> is_blank (last e))
     \<and> (\<forall>c\<in>set e. c \<noteq> CHR ''('' \<and> c \<noteq> CHR '')'')"

lemma uid_name_trim: "uid_name_ok n \<Longrightarrow> trim_blanks (n @ '' '') = n"
  by (cases n rule: rev_cases) (auto simp: uid_name_ok_def trim_blanks_def is_blank_def)

lemma fold_name_start:
  assumes "uid_name_ok n"
  shows "fold parse_user_id_step n uid_parse_init = uid_parse_init\<lparr>up_in_name := True, up_text := n\<rparr>"
proof -
  obtain c s where n: "n = c # s" using assms by (cases n) (auto simp: uid_name_ok_def)
  have "parse_user_id_step c uid_parse_init = uid_parse_init\<lparr>up_in_name := True, up_text := [c]\<rparr>"
    using assms n
    by (simp add: parse_user_id_step_def uid_parse_init_def uid_name_ok_def is_blank_def)
  then show ?thesis
    using assms n by (simp add: fold_name uid_name_ok_def) (simp add: uid_parse_init_def fold_name)
qed

lemma step_open:
  assumes "up_in_email p = 0" "up_in_comment p = 0"
  shows "parse_user_id_step CHR ''<'' p =
           (store_name p)\<lparr>up_in_name := False, up_in_email := 1, up_text := []\<rparr>"
    and "parse_user_id_step CHR ''('' p =
           (store_name p)\<lparr>up_in_name := False, up_in_comment := 1, up_text := []\<rparr>"
  using assms by (simp_all add: parse_user_id_step_def)

lemma step_close:
  shows "up_in_email p = 1 \<Longrightarrow> parse_user_id_step CHR ''>'' p =
           push_text CHR ''>'' (store_email (p\<lparr>up_in_email := 0\<rparr>))"
    and "up_in_email p = 0 \<Longrightarrow> up_in_comment p = 1 \<Longrightarrow> parse_user_id_step CHR '')'' p =
           push_text CHR '')'' (store_comment (p\<lparr>up_in_comment := 0\<rparr>))"
  by (simp_all add: parse_user_id_step_def)

lemma step_gap:
  "up_in_email p = 0 \<Longrightarrow> up_in_comment p = 0 \<Longrightarrow>
   parse_user_id_step CHR '' '' p = push_text CHR '' '' p"
  by (simp add: parse_user_id_step_def)

lemma parse_user_id_name_email:
  assumes "uid_name_ok n" "uid_email_ok e"
  shows "parse_user_id (n @ '' <'' @ e @ ''>'') = (n, e, [])"
proof -
  have e: "\<forall>c\<in>set e. c \<noteq> CHR ''<'' \<and> c \<noteq> CHR ''>''" "trim_blanks e = e"
    using assms(2) trim_blanks_id [of e] by (auto simp: uid_email_ok_def)
  show ?thesis
    using assms(1) e(2)
    by (simp add: parse_user_id_def parse_user_id_run_def fold_name_start [unfolded uid_parse_init_def]
        uid_name_trim step_gap step_open step_close fold_email [OF _ e(1)] uid_parse_init_def uid_store_defs
        eos_if_null_def)
qed

lemma parse_user_id_full:
  assumes "uid_name_ok n" "uid_comment_ok k" "uid_email_ok e"
  shows "parse_user_id (n @ '' ('' @ k @ '') <'' @ e @ ''>'') = (n, e, k)"
proof -
  have e: "\<forall>c\<in>set e. c \<noteq> CHR ''<'' \<and> c \<noteq> CHR ''>''" "trim_blanks e = e"
    and k: "\<forall>c\<in>set k. c \<noteq> CHR ''('' \<and> c \<noteq> CHR '')''" "trim_blanks k = k"
    using assms(2,3) trim_blanks_id [of e] trim_blanks_id [of k]
    by (auto simp: uid_email_ok_def uid_comment_ok_def)
  show ?thesis
    using assms(1) e(2) k(2)
    by (simp add: parse_user_id_def parse_user_id_run_def fold_name_start [unfolded uid_parse_init_def]
        uid_name_trim step_gap step_open step_close fold_email [OF _ e(1)] fold_comment [OF _ _ k(1)]
        uid_parse_init_def uid_store_defs eos_if_null_def)
qed

lemma append_name_parsed:
  assumes "core ''uid''" "gpgme_mailbox_from_userid (core ''address'') src = Ok a"
    and "key_protocol key \<noteq> GPGME_PROTOCOL_CMS" "parse_user_id src = (n, e, k)"
  shows "gpgme_key_append_name core key src False
           = Ok (key\<lparr>key_uids := key_uids key @ [new_user_id src n e k (Some a)]\<rparr>)"
  using assms by (simp add: gpgme_key_append_name_def)

lemma walk_drop: "walk xs n = drop n xs"
  by (induction xs n rule: walk.induct) auto

lemma get_keysig_nth:
  "get_keysig (Some key) i j =
     (if 0 \<le> i \<and> 0 \<le> j \<and> nat i < length (key_uids key)
         \<and> nat j < length (uid_signatures (key_uids key ! nat i))
      then Some (uid_signatures (key_uids key ! nat i) ! nat j) else None)"
proof -
  have d: "drop m xs = (if m < length xs then xs ! m # drop (Suc m) xs else [])" for m and xs :: "'b list"
    by (simp add: Cons_nth_drop_Suc)
  show ?thesis
    by (auto simp: get_keysig_def walk_drop d [of "nat i"] d [of "nat j"])
qed

section \<open>Properties\<close>

text \<open>
  C31: The buffer of a user ID object (\<open>2 * src_len + 3\<close> bytes) holds the user ID, its
  terminator and everything the user ID parser stores behind it, for every user ID, also one
  with unbalanced brackets.
\<close>

theorem parse_user_id_fits:
  "length src + 1 + length (up_written (parse_user_id_run src)) \<le> 2 * length src + 3"
  using parse_user_id_written [of src] by simp

text \<open>
  C33: The user ID parser inverts the composition of a user ID from its parts: for a name
  without brackets and without blanks at its ends, a comment without parentheses and an email
  without angle brackets, the object that \<open>_gpgme_key_append_name\<close> puts at the end of the key's
  list has exactly these parts, with and without a comment, and the other user IDs stay.
\<close>

theorem user_id_roundtrip:
  assumes "uid_name_ok n" "uid_comment_ok k" "uid_email_ok e"
    and "key_protocol key \<noteq> GPGME_PROTOCOL_CMS" "core ''uid''"
    and "basic_address_checks e" "e \<noteq> []" "CHR ''<'' \<notin> set k" "core ''address''"
  shows "\<exists>u v. gpgme_key_append_name core key (n @ '' ('' @ k @ '') <'' @ e @ ''>'') False
             = Ok (key\<lparr>key_uids := key_uids key @ [u]\<rparr>)
           \<and> gpgme_key_append_name core key (n @ '' <'' @ e @ ''>'') False
             = Ok (key\<lparr>key_uids := key_uids key @ [v]\<rparr>)
           \<and> (uid_name u, uid_email u, uid_comment u) = (n, e, k)
           \<and> (uid_name v, uid_email v, uid_comment v) = (n, e, [])
           \<and> uid_address u = Some (ascii_strlwr e) \<and> uid_address v = Some (ascii_strlwr e)"
proof -
  have no: "CHR ''<'' \<notin> set n" "CHR ''>'' \<notin> set e"
    using assms(1,3) by (auto simp: uid_name_ok_def uid_email_ok_def)
  have "strchr_split CHR ''<'' (n @ '' ('' @ k @ '') <'' @ e @ ''>'') = (n @ '' ('' @ k @ '') '', Some (e @ ''>''))"
       "strchr_split CHR ''<'' (n @ '' <'' @ e @ ''>'') = (n @ '' '', Some (e @ ''>''))"
       "strchr_split CHR ''>'' (e @ ''>'') = (e, Some [])"
    using no assms(8) by (simp_all add: strchr_split_Some)
  then have m: "gpgme_mailbox_from_userid True (n @ '' ('' @ k @ '') <'' @ e @ ''>'') = Ok (ascii_strlwr e)"
      "gpgme_mailbox_from_userid True (n @ '' <'' @ e @ ''>'') = Ok (ascii_strlwr e)"
    using assms(6,7) by (simp_all add: gpgme_mailbox_from_userid_def)
  show ?thesis
    by (intro exI conjI, rule append_name_parsed, fact, simp only: assms(9) m, fact,
        rule parse_user_id_full [OF assms(1-3)], rule append_name_parsed, fact,
        simp only: assms(9) m, fact, rule parse_user_id_name_email [OF assms(1,3)])
       (simp_all add: new_user_id_def assms(7))
qed

theorem user_id_roundtrip_witness:
  "\<exists>u v. gpgme_key_append_name (\<lambda>_. True) (case gpgme_key_new True of Ok x \<Rightarrow> x)
             (''Al B'' @ '' ('' @ ''x'' @ '') <'' @ ''A@b.c'' @ ''>'') False
             = Ok ((case gpgme_key_new True of Ok x \<Rightarrow> x)\<lparr>key_uids := [u]\<rparr>)
           \<and> gpgme_key_append_name (\<lambda>_. True) (case gpgme_key_new True of Ok x \<Rightarrow> x)
             (''Al B'' @ '' <'' @ ''A@b.c'' @ ''>'') False
             = Ok ((case gpgme_key_new True of Ok x \<Rightarrow> x)\<lparr>key_uids := [v]\<rparr>)
           \<and> (uid_name u, uid_email u, uid_comment u) = (''Al B'', ''A@b.c'', ''x'')
           \<and> (uid_name v, uid_email v, uid_comment v) = (''Al B'', ''A@b.c'', [])
           \<and> uid_address u = Some ''a@b.c'' \<and> uid_address v = Some ''a@b.c''"
proof -
  have h: "uid_name_ok ''Al B''" "uid_comment_ok ''x''" "uid_email_ok ''A@b.c''"
      "basic_address_checks ''A@b.c''" "ascii_strlwr ''A@b.c'' = ''a@b.c''"
    by code_simp+
  show ?thesis
    using user_id_roundtrip [OF h(1-3) _ _ h(4), of "case gpgme_key_new True of Ok x \<Rightarrow> x" "\<lambda>_. True"]
      h(5) by (simp add: gpgme_key_new_def)
qed

text \<open>
  Reading an attribute by index from a key whose list of subkeys or user IDs is empty
  dereferences a null pointer for every positive index, as the walk steps from the head before
  it looks whether there is one; with both lists non-empty every index is safe.
\<close>

theorem key_attr_index_safe:
  "(gpgme_key_get_string_attr (Some key) what False idx = UB
     \<longleftrightarrow> 0 < idx \<and> (key_subkeys key = [] \<or> key_uids key = []))
   \<and> (gpgme_key_get_ulong_attr (Some key) what False idx = UB
     \<longleftrightarrow> 0 < idx \<and> (key_subkeys key = [] \<or> key_uids key = []))"
  by (auto simp: gpgme_key_get_string_attr_def gpgme_key_get_ulong_attr_def select_idx_def)

end
