(* ===== verification/Gpgme_OpSupport.thy ===== *)
theory Gpgme_OpSupport
  imports Gpgme_Key Gpgme_StatusTable
begin

text \<open>
  What the operations share: the context with the operation data hooked into it (\<open>context.h\<close>,
  \<open>_gpgme_op_data_lookup\<close>), the data each operation keeps between status lines, the parsers of
  \<open>op-support.c\<close> and \<open>util.h\<close> for status lines that several operations read, and the handlers of
  \<open>passphrase.c\<close> and \<open>progress.c\<close> that the other handlers run first.

  A status handler takes the state, the status code and the arguments of the line. The
  arguments are a writable C string that a parser may cut short, which the next handler of a
  chain sees; so a handler returns the new state, the arguments as it leaves them and the error
  it returns to the engine. \<open>None\<close> is undefined behaviour: a null pointer dereferenced or a
  failed assertion. The linked lists of the results are appended to at a pointer to their end;
  here they are lists.
\<close>

section \<open>Environment and outcomes\<close>

text \<open>
  \<open>core\<close> says which allocations succeed, one label per call in the code. \<open>dec\<close> reads the error
  number of a status line.
\<close>

record op_env =
  core :: "string \<Rightarrow> bool"
  dec :: "int \<Rightarrow> gpgme_error_t"

definition err_of_num :: "op_env \<Rightarrow> int \<Rightarrow> gpgme_error_t" where
  "err_of_num env n = dec env (to_uint32 n)"

definition env_ok :: "op_env \<Rightarrow> bool" where
  "env_ok env \<longleftrightarrow> err_decoder (dec env)"

text \<open>\<open>trace_gpg_error\<close> on an error value: the code stays, the source becomes GPGME.\<close>

definition trace_gpg_error :: "gpgme_error_t \<Rightarrow> gpgme_error_t" where
  "trace_gpg_error e =
     (if gpg_err_code e = GPG_ERR_NO_ERROR then no_error else gpg_error (gpg_err_code e))"

type_synonym 's hres = "('s \<times> string \<times> gpgme_error_t) option"
type_synonym 's handler = "'s \<Rightarrow> int \<Rightarrow> string \<Rightarrow> 's hres"

text \<open>How the handlers chain: the second runs when the first reported no error.\<close>

definition then_handler :: "'s handler \<Rightarrow> 's handler \<Rightarrow> 's handler" where
  "then_handler h1 h2 s code args =
     (case h1 s code args of
        None \<Rightarrow> None
      | Some (s1, args1, err) \<Rightarrow>
          if is_err err then Some (s1, args1, err) else h2 s1 code args1)"

text \<open>
  An engine hands the lines of the status channel to the handler one after the other and stops
  at the first error the handler reports.
\<close>

fun feed :: "'s handler \<Rightarrow> 's \<Rightarrow> (int \<times> string) list \<Rightarrow> ('s \<times> gpgme_error_t) option" where
  "feed h s [] = Some (s, no_error)"
| "feed h s ((code, args) # ls) =
     (case h s code args of
        None \<Rightarrow> None
      | Some (s1, _, err) \<Rightarrow> if is_err err then Some (s1, err) else feed h s1 ls)"

section \<open>Operation data\<close>

datatype ctx_op_data_id_t =
    OPDATA_DECRYPT | OPDATA_SIGN | OPDATA_ENCRYPT | OPDATA_PASSPHRASE | OPDATA_IMPORT
  | OPDATA_GENKEY | OPDATA_KEYLIST | OPDATA_EDIT | OPDATA_VERIFY | OPDATA_TRUSTLIST
  | OPDATA_ASSUAN | OPDATA_VFS_MOUNT | OPDATA_PASSWD | OPDATA_EXPORT | OPDATA_KEYSIGN
  | OPDATA_TOFU_POLICY | OPDATA_QUERY_SWDB

record invalid_key =
  ik_fpr :: "string option"
  ik_reason :: gpgme_error_t

record op_passphrase =
  pp_no_passphrase :: bool
  pp_uid_hint :: "string option"
  pp_info :: "string option"
  pp_bad :: int
  pp_maxlen :: "string option"

text \<open>The algorithm of a recipient is \<open>None\<close> while its field is uninitialised memory.\<close>

record recipient =
  rcp_keyid :: string
  rcp_pubkey_algo :: "int option"
  rcp_status :: gpgme_error_t

record op_decrypt =
  dec_unsupported_algorithm :: "string option"
  dec_wrong_key_usage :: bool
  dec_is_de_vs :: bool
  dec_is_mime :: bool
  dec_legacy_cipher_nomdc :: bool
  dec_recipients :: "recipient list"
  dec_file_name :: "string option"
  dec_session_key :: "string option"
  dec_symkey_algo :: "string option"
  dec_failure_code :: gpgme_error_t
  dec_okay :: bool
  dec_failed :: bool
  dec_pkdecrypt_failed :: gpgme_error_t
  dec_any_no_seckey :: bool
  dec_not_integrity_protected :: bool
  dec_first_status_error :: gpgme_error_t
  dec_plaintext_dserial :: "64 word"

datatype gpgme_sig_mode_t = GPGME_SIG_MODE_NORMAL | GPGME_SIG_MODE_DETACH | GPGME_SIG_MODE_CLEAR

record new_signature =
  ns_type :: gpgme_sig_mode_t
  ns_pubkey_algo :: int
  ns_hash_algo :: int
  ns_sig_class :: int
  ns_timestamp :: int
  ns_fpr :: string

record op_sign =
  sg_invalid_signers :: "invalid_key list"
  sg_signatures :: "new_signature list"
  sg_failure_code :: gpgme_error_t
  sg_kc_fpr :: "string option"
  sg_kc_flags :: int
  sg_ignore_inv_recp :: bool
  sg_inv_sgnr_seen :: bool
  sg_sig_created_seen :: bool

record op_encrypt =
  en_invalid_recipients :: "invalid_key list"
  en_failure_code :: gpgme_error_t
  en_kc_fpr :: "string option"
  en_kc_flags :: int

record import_status =
  im_fpr :: string
  im_result :: gpgme_error_t
  im_status :: int

text \<open>The fifteen counters of an import result are kept in the order of the IMPORT_RES line.\<close>

record op_import =
  imp_counts :: "int list"
  imp_imports :: "import_status list"

record op_genkey =
  gk_primary :: bool
  gk_sub :: bool
  gk_uid :: bool
  gk_fpr :: "string option"
  gk_failure_code :: gpgme_error_t
  gk_error_code :: gpgme_error_t
  gk_uidmode :: int

record signature =
  sig_summary :: "32 word"
  sig_fpr :: "string option"
  sig_status :: gpgme_error_t
  sig_notations :: "sig_notation list"
  sig_timestamp :: int
  sig_exp_timestamp :: int
  sig_wrong_key_usage :: bool
  sig_pka_trust :: int
  sig_chain_model :: bool
  sig_is_de_vs :: bool
  sig_validity :: gpgme_validity_t
  sig_validity_reason :: gpgme_error_t
  sig_pubkey_algo :: int
  sig_hash_algo :: int
  sig_pka_address :: "string option"
  sig_key :: "gpgme_key option"

text \<open>
  \<open>current_sig\<close> of the verify operation: no signature, an element of the result list, or an
  object that is not linked into the list.
\<close>

datatype current_sig = NoSig | SigAt nat | LooseSig signature

record op_verify =
  vf_signatures :: "signature list"
  vf_file_name :: "string option"
  vf_is_mime :: bool
  vf_failure_code :: gpgme_error_t
  vf_current_sig :: current_sig
  vf_did_prepare_new_sig :: bool
  vf_only_newsig_seen :: bool
  vf_plaintext_seen :: int
  vf_conflict_user_seen :: bool

text \<open>
  The key listing: the key being read, the position of the user ID and of the key signature that
  following lines refer to, and the keys that are ready.
\<close>

record op_keylist =
  kl_truncated :: bool
  kl_search_err :: gpgme_error_t
  kl_tmp_key :: "gpgme_key option"
  kl_tmp_uid :: "nat option"
  kl_tmp_keysig :: "nat option"
  kl_key_cond :: bool
  kl_queue :: "gpgme_key list"

text \<open>The hook of a \<open>ctx_op_data\<close> node; its constructor is the type field of the node.\<close>

record op_passwd =
  pw_failure_code :: gpgme_error_t
  pw_success_seen :: bool
  pw_error_seen :: bool

record op_export =
  ex_err :: gpgme_error_t

record op_keysign =
  kg_failure_code :: gpgme_error_t
  kg_error_code :: gpgme_error_t

record op_tofu_policy =
  tp_failure_code :: gpgme_error_t
  tp_error_code :: gpgme_error_t

datatype op_hook =
    HDecrypt op_decrypt | HSign op_sign | HEncrypt op_encrypt | HPassphrase op_passphrase
  | HImport op_import | HGenkey op_genkey | HVerify op_verify | HKeylist op_keylist
  | HPasswd op_passwd | HExport op_export | HKeysign op_keysign | HTofuPolicy op_tofu_policy
  | HOther ctx_op_data_id_t

fun hook_id :: "op_hook \<Rightarrow> ctx_op_data_id_t" where
  "hook_id (HDecrypt _) = OPDATA_DECRYPT"
| "hook_id (HSign _) = OPDATA_SIGN"
| "hook_id (HEncrypt _) = OPDATA_ENCRYPT"
| "hook_id (HPassphrase _) = OPDATA_PASSPHRASE"
| "hook_id (HImport _) = OPDATA_IMPORT"
| "hook_id (HGenkey _) = OPDATA_GENKEY"
| "hook_id (HVerify _) = OPDATA_VERIFY"
| "hook_id (HKeylist _) = OPDATA_KEYLIST"
| "hook_id (HPasswd _) = OPDATA_PASSWD"
| "hook_id (HExport _) = OPDATA_EXPORT"
| "hook_id (HKeysign _) = OPDATA_KEYSIGN"
| "hook_id (HTofuPolicy _) = OPDATA_TOFU_POLICY"
| "hook_id (HOther i) = i"

definition zero_passphrase :: op_passphrase where
  "zero_passphrase = \<lparr>pp_no_passphrase = False, pp_uid_hint = None, pp_info = None, pp_bad = 0,
     pp_maxlen = None\<rparr>"

definition zero_decrypt :: op_decrypt where
  "zero_decrypt = \<lparr>dec_unsupported_algorithm = None, dec_wrong_key_usage = False,
     dec_is_de_vs = False, dec_is_mime = False, dec_legacy_cipher_nomdc = False,
     dec_recipients = [], dec_file_name = None, dec_session_key = None, dec_symkey_algo = None,
     dec_failure_code = no_error, dec_okay = False, dec_failed = False,
     dec_pkdecrypt_failed = no_error, dec_any_no_seckey = False,
     dec_not_integrity_protected = False, dec_first_status_error = no_error,
     dec_plaintext_dserial = 0\<rparr>"

definition zero_sign :: op_sign where
  "zero_sign = \<lparr>sg_invalid_signers = [], sg_signatures = [], sg_failure_code = no_error,
     sg_kc_fpr = None, sg_kc_flags = 0, sg_ignore_inv_recp = False, sg_inv_sgnr_seen = False,
     sg_sig_created_seen = False\<rparr>"

definition zero_encrypt :: op_encrypt where
  "zero_encrypt = \<lparr>en_invalid_recipients = [], en_failure_code = no_error, en_kc_fpr = None,
     en_kc_flags = 0\<rparr>"

definition zero_import :: op_import where
  "zero_import = \<lparr>imp_counts = replicate 15 0, imp_imports = []\<rparr>"

definition zero_genkey :: op_genkey where
  "zero_genkey = \<lparr>gk_primary = False, gk_sub = False, gk_uid = False, gk_fpr = None,
     gk_failure_code = no_error, gk_error_code = no_error, gk_uidmode = 0\<rparr>"

definition zero_signature :: signature where
  "zero_signature = \<lparr>sig_summary = 0, sig_fpr = None, sig_status = no_error, sig_notations = [],
     sig_timestamp = 0, sig_exp_timestamp = 0, sig_wrong_key_usage = False, sig_pka_trust = 0,
     sig_chain_model = False, sig_is_de_vs = False, sig_validity = GPGME_VALIDITY_UNKNOWN,
     sig_validity_reason = no_error, sig_pubkey_algo = 0, sig_hash_algo = 0,
     sig_pka_address = None, sig_key = None\<rparr>"

definition zero_verify :: op_verify where
  "zero_verify = \<lparr>vf_signatures = [], vf_file_name = None, vf_is_mime = False,
     vf_failure_code = no_error, vf_current_sig = NoSig, vf_did_prepare_new_sig = False,
     vf_only_newsig_seen = False, vf_plaintext_seen = 0, vf_conflict_user_seen = False\<rparr>"

definition zero_keylist :: op_keylist where
  "zero_keylist = \<lparr>kl_truncated = False, kl_search_err = no_error, kl_tmp_key = None, kl_tmp_uid = None,
     kl_tmp_keysig = None, kl_key_cond = False, kl_queue = []\<rparr>"

text \<open>The zeroed object \<open>calloc\<close> gives for a type.\<close>

definition zero_passwd :: op_passwd where
  "zero_passwd = \<lparr>pw_failure_code = no_error, pw_success_seen = False, pw_error_seen = False\<rparr>"

definition zero_export :: op_export where
  "zero_export = \<lparr>ex_err = no_error\<rparr>"

definition zero_keysign :: op_keysign where
  "zero_keysign = \<lparr>kg_failure_code = no_error, kg_error_code = no_error\<rparr>"

definition zero_tofu_policy :: op_tofu_policy where
  "zero_tofu_policy = \<lparr>tp_failure_code = no_error, tp_error_code = no_error\<rparr>"

fun zero_hook :: "ctx_op_data_id_t \<Rightarrow> op_hook" where
  "zero_hook OPDATA_DECRYPT = HDecrypt zero_decrypt"
| "zero_hook OPDATA_SIGN = HSign zero_sign"
| "zero_hook OPDATA_ENCRYPT = HEncrypt zero_encrypt"
| "zero_hook OPDATA_PASSPHRASE = HPassphrase zero_passphrase"
| "zero_hook OPDATA_IMPORT = HImport zero_import"
| "zero_hook OPDATA_GENKEY = HGenkey zero_genkey"
| "zero_hook OPDATA_VERIFY = HVerify zero_verify"
| "zero_hook OPDATA_KEYLIST = HKeylist zero_keylist"
| "zero_hook OPDATA_PASSWD = HPasswd zero_passwd"
| "zero_hook OPDATA_EXPORT = HExport zero_export"
| "zero_hook OPDATA_KEYSIGN = HKeysign zero_keysign"
| "zero_hook OPDATA_TOFU_POLICY = HTofuPolicy zero_tofu_policy"
| "zero_hook i = HOther i"

section \<open>The context\<close>

text \<open>
  What an operation sets up in its engine: the status callback, the event loop it reports to,
  the status handler and whether passphrase requests go to the context.
\<close>

datatype io_loop = PrivateLoop | GlobalLoop | UserLoop

datatype handler_id =
    DecryptHandler | DecryptVerifyHandler | VerifyHandler | SignHandler | EncryptHandler
  | EncryptSymHandler | EncryptSignHandler | EncryptSignSymHandler | ImportHandler | GenkeyHandler
  | KeylistHandler | DeleteHandler | PasswdHandler | ExportHandler | KeysignHandler | TofuPolicyHandler

record engine_state =
  eng_status_cb :: bool
  eng_loop :: "io_loop option"
  eng_handler :: "handler_id option"
  eng_command_handler :: bool
  eng_colon_handler :: bool

text \<open>
  The fields of \<open>struct gpgme_context\<close> that the operations use. The
  callbacks of the application are functions, and \<open>ctx_events\<close> records the calls made to them
  in order.
\<close>

datatype cb_event =
    StatusCall string string
  | ProgressCall string int int int
  | PassphraseCall "string option" "string option" int

record gpgme_ctx =
  ctx_protocol :: gpgme_protocol_t
  ctx_full_status :: bool
  ctx_raw_description :: bool
  ctx_ignore_mdc_error :: bool
  ctx_redraw_suggested :: bool
  ctx_status_cb :: "(string \<Rightarrow> string \<Rightarrow> gpgme_error_t) option"
  ctx_progress_cb :: bool
  ctx_passphrase_cb :: "(string option \<Rightarrow> string option \<Rightarrow> int \<Rightarrow> gpgme_error_t) option"
  ctx_signers_len :: nat
  ctx_canceled :: bool
  ctx_engine :: "engine_state option"
  ctx_engine_info :: "gpgme_protocol_t list"
  ctx_sub_protocol :: gpgme_protocol_t
  ctx_user_loop :: bool
  ctx_keylist_mode :: "32 word"
  ctx_op_data :: "op_hook list"
  ctx_events :: "cb_event list"

definition op_find :: "ctx_op_data_id_t \<Rightarrow> op_hook list \<Rightarrow> op_hook option" where
  "op_find i hs = find (\<lambda>h. hook_id h = i) hs"

text \<open>A store through the hook pointer of a node.\<close>

primrec op_write :: "op_hook \<Rightarrow> op_hook list \<Rightarrow> op_hook list" where
  "op_write h [] = []"
| "op_write h (g # hs) = (if hook_id g = hook_id h then h # hs else g # op_write h hs)"

text \<open>
  \<open>_gpgme_op_data_lookup\<close>: a negative size only searches; otherwise a missing object is
  allocated, zeroed and put in front. The results are the context, the hook and the error.
\<close>

definition gpgme_op_data_lookup ::
    "op_env \<Rightarrow> gpgme_ctx option \<Rightarrow> ctx_op_data_id_t \<Rightarrow> int \<Rightarrow>
     gpgme_ctx option \<times> op_hook option \<times> gpgme_error_t" where
  "gpgme_op_data_lookup env c i sz =
     (case c of
        None \<Rightarrow> (None, None, gpg_error GPG_ERR_INV_VALUE)
      | Some ctx \<Rightarrow>
          (case op_find i (ctx_op_data ctx) of
             Some h \<Rightarrow> (Some ctx, Some h, no_error)
           | None \<Rightarrow>
               if sz < 0 then (Some ctx, None, no_error)
               else if \<not> core env ''op_data'' then (Some ctx, None, syserror ENOMEM)
               else (Some (ctx\<lparr>ctx_op_data := zero_hook i # ctx_op_data ctx\<rparr>),
                     Some (zero_hook i), no_error)))"

definition put_hook :: "op_hook \<Rightarrow> gpgme_ctx \<Rightarrow> gpgme_ctx" where
  "put_hook h ctx = ctx\<lparr>ctx_op_data := op_write h (ctx_op_data ctx)\<rparr>"

definition get_hook :: "ctx_op_data_id_t \<Rightarrow> gpgme_ctx \<Rightarrow> op_hook option" where
  "get_hook i ctx = op_find i (ctx_op_data ctx)"

definition log_event :: "cb_event \<Rightarrow> gpgme_ctx \<Rightarrow> gpgme_ctx" where
  "log_event ev ctx = ctx\<lparr>ctx_events := ctx_events ctx @ [ev]\<rparr>"

text \<open>The call of the application's status callback that several handlers make.\<close>

definition call_status_cb :: "gpgme_ctx \<Rightarrow> string \<Rightarrow> string \<Rightarrow> gpgme_ctx \<times> gpgme_error_t" where
  "call_status_cb ctx key args =
     (case ctx_status_cb ctx of
        Some cb \<Rightarrow>
          if ctx_full_status ctx then (ctx, no_error)
          else (log_event (StatusCall key args) ctx, cb key args)
      | None \<Rightarrow> (ctx, no_error))"

section \<open>Status lines several operations read\<close>

definition inv_recp_reason :: "string option \<Rightarrow> int \<Rightarrow> int \<Rightarrow> gpg_err_code" where
  "inv_recp_reason kc_fpr kc_flags reason =
     (if reason = 0 then
        (if kc_fpr \<noteq> None \<and> (kc_flags div 2) mod 2 = 1 then GPG_ERR_SUBKEYS_EXP_OR_REV
         else GPG_ERR_GENERAL)
      else if reason = 1 then GPG_ERR_NO_PUBKEY
      else if reason = 2 then GPG_ERR_AMBIGUOUS_NAME
      else if reason = 3 then GPG_ERR_WRONG_KEY_USAGE
      else if reason = 4 then GPG_ERR_CERT_REVOKED
      else if reason = 5 then GPG_ERR_CERT_EXPIRED
      else if reason = 6 then GPG_ERR_NO_CRL_KNOWN
      else if reason = 7 then GPG_ERR_CRL_TOO_OLD
      else if reason = 8 then GPG_ERR_NO_POLICY_MATCH
      else if reason = 9 then GPG_ERR_NO_SECKEY
      else if reason = 10 then GPG_ERR_PUBKEY_NOT_TRUSTED
      else if reason = 11 then GPG_ERR_MISSING_CERT
      else if reason = 12 then GPG_ERR_MISSING_ISSUER_CERT
      else if reason = 13 then GPG_ERR_KEY_DISABLED
      else if reason = 14 then GPG_ERR_INV_USER_ID
      else GPG_ERR_GENERAL)"

definition gpgme_parse_inv_recp ::
    "op_env \<Rightarrow> string \<Rightarrow> string option \<Rightarrow> int \<Rightarrow> invalid_key cres" where
  "gpgme_parse_inv_recp env args kc_fpr kc_flags =
     (if \<not> core env ''inv_key'' then Err (syserror ENOMEM)
      else case strtol 0 args of
        (reason, tail, e) \<Rightarrow>
          if e \<or> args = tail \<or> (tail \<noteq> [] \<and> peek tail \<noteq> CHR '' '')
          then Err (gpg_error GPG_ERR_INV_ENGINE)
          else
            (let fpr = skip_spaces tail
             in if fpr = [] then Ok \<lparr>ik_fpr = None, ik_reason = gpg_error (inv_recp_reason kc_fpr kc_flags reason)\<rparr>
                else if \<not> core env ''inv_key.fpr'' then Err (syserror ENOMEM)
                else Ok \<lparr>ik_fpr = Some fpr, ik_reason = gpg_error (inv_recp_reason kc_fpr kc_flags reason)\<rparr>))"

definition gpgme_parse_key_considered :: "op_env \<Rightarrow> string \<Rightarrow> (string \<times> int) cres" where
  "gpgme_parse_key_considered env args =
     (case strchr_split CHR '' '' args of
        (_, None) \<Rightarrow> Err (gpg_error GPG_ERR_INV_ENGINE)
      | (fpr, Some r) \<Rightarrow>
          if fpr = [] then Err (gpg_error GPG_ERR_INV_ENGINE)
          else if \<not> core env ''kc_fpr'' then Err (syserror ENOMEM)
          else case strtoul 0 r of
            (flags, pend, e) \<Rightarrow>
              if e \<or> r = pend \<or> (pend \<noteq> [] \<and> peek pend \<noteq> CHR '' '')
              then Err (gpg_error GPG_ERR_INV_ENGINE)
              else Ok (fpr, to_uint32 flags))"

text \<open>
  \<open>_gpgme_parse_plaintext\<close> returns the arguments as it leaves them, the new file name when
  there is one, and whether the MIME flag is set. It writes a terminator behind the file name.
\<close>

definition skip_field :: "string \<Rightarrow> string" where
  "skip_field s = skip_spaces (dropWhile (\<lambda>c. c \<noteq> CHR '' '') s)"

definition gpgme_parse_plaintext ::
    "op_env \<Rightarrow> string \<Rightarrow> string \<times> (string option \<times> bool) cres" where
  "gpgme_parse_plaintext env args =
     (let a1 = skip_spaces args in
      if a1 = [] then (args, Ok (None, False))
      else
        (let mime = (cchr a1 0 = CHR ''6'' \<and> cchr a1 1 = CHR ''D'');
             a2 = skip_field a1
         in if a2 = [] then (args, Ok (None, mime))
            else
              (let a3 = skip_field a2
               in if a3 = [] then (args, Ok (None, mime))
                  else
                    (let name = takeWhile (\<lambda>c. c \<noteq> CHR '' '') a3;
                         left = take (length args - length a3 + length name) args
                     in if name = [] then (left, Ok (None, mime))
                        else if \<not> core env ''filename'' then (left, Err (syserror ENOMEM))
                        else (left, Ok (Some name, mime))))))"

text \<open>
  \<open>_gpgme_parse_failure\<close> cuts its arguments down to the location, so that a second call on the
  same line finds no error code.
\<close>

definition gpgme_parse_failure :: "op_env \<Rightarrow> string \<Rightarrow> string \<times> gpgme_error_t" where
  "gpgme_parse_failure env args =
     (if strncmp_eq args ''gpg-exit'' then (args, no_error)
      else case strchr_split CHR '' '' args of
        (_, None) \<Rightarrow> (args, gpg_error GPG_ERR_INV_ENGINE)
      | (loc, Some which) \<Rightarrow>
          (loc, err_of_num env (atoi (fst (strchr_split CHR '' '' which)))))"

text \<open>\<open>PARSE_COMPLIANCE_FLAGS\<close>: whether the flag 23 is among the numbers read.\<close>

function compliance_loop :: "string \<Rightarrow> bool" where
  "compliance_loop s =
     (case strtoul 10 s of
        (ul, endp, _) \<Rightarrow>
          if ul = 0 \<or> endp = s then False
          else ul = 23 \<or> compliance_loop endp)"
  by pat_completeness auto
termination
  by (relation "measure length") (auto dest: strtoul_progress [OF sym])

declare compliance_loop.simps [simp del]

section \<open>The passphrase handler\<close>

definition get_passphrase :: "gpgme_ctx \<Rightarrow> op_passphrase option" where
  "get_passphrase ctx = (case get_hook OPDATA_PASSPHRASE ctx of Some (HPassphrase d) \<Rightarrow> Some d | _ \<Rightarrow> None)"

text \<open>The body of the handler on its operation data.\<close>

definition passphrase_switch ::
    "op_env \<Rightarrow> gpgme_ctx \<Rightarrow> op_passphrase \<Rightarrow> int \<Rightarrow> string \<Rightarrow> gpgme_ctx \<times> gpgme_error_t" where
  "passphrase_switch env ctx opd code args =
     (if code = GPGME_STATUS_INQUIRE_MAXLEN then
        (if core env ''maxlen'' then (put_hook (HPassphrase (opd\<lparr>pp_maxlen := Some args\<rparr>)) ctx, no_error)
         else (put_hook (HPassphrase (opd\<lparr>pp_maxlen := None\<rparr>)) ctx, syserror ENOMEM))
      else if code = GPGME_STATUS_USERID_HINT then
        (if core env ''uid_hint'' then (put_hook (HPassphrase (opd\<lparr>pp_uid_hint := Some args\<rparr>)) ctx, no_error)
         else (put_hook (HPassphrase (opd\<lparr>pp_uid_hint := None\<rparr>)) ctx, syserror ENOMEM))
      else if code = GPGME_STATUS_BAD_PASSPHRASE then
        (put_hook (HPassphrase (opd\<lparr>pp_bad := pp_bad opd + 1, pp_no_passphrase := False\<rparr>)) ctx, no_error)
      else if code = GPGME_STATUS_GOOD_PASSPHRASE then
        (put_hook (HPassphrase (opd\<lparr>pp_bad := 0, pp_no_passphrase := False\<rparr>)) ctx, no_error)
      else if code = GPGME_STATUS_NEED_PASSPHRASE \<or> code = GPGME_STATUS_NEED_PASSPHRASE_SYM
              \<or> code = GPGME_STATUS_NEED_PASSPHRASE_PIN then
        (if core env ''passphrase_info'' then (put_hook (HPassphrase (opd\<lparr>pp_info := Some args\<rparr>)) ctx, no_error)
         else (put_hook (HPassphrase (opd\<lparr>pp_info := None\<rparr>)) ctx, syserror ENOMEM))
      else if code = GPGME_STATUS_MISSING_PASSPHRASE then
        (put_hook (HPassphrase (opd\<lparr>pp_no_passphrase := True\<rparr>)) ctx, no_error)
      else if code = GPGME_STATUS_EOF then
        (ctx, if pp_no_passphrase opd \<or> pp_bad opd \<noteq> 0 then gpg_error GPG_ERR_BAD_PASSPHRASE else no_error)
      else if code = GPGME_STATUS_ERROR then call_status_cb ctx ''ERROR'' args
      else if code = GPGME_STATUS_FAILURE then call_status_cb ctx ''FAILURE'' args
      else (ctx, no_error))"

definition gpgme_passphrase_status_handler :: "op_env \<Rightarrow> gpgme_ctx handler" where
  "gpgme_passphrase_status_handler env ctx code args =
     (case gpgme_op_data_lookup env (Some ctx) OPDATA_PASSPHRASE 1 of
        (Some ctx1, Some (HPassphrase opd), err) \<Rightarrow>
          (case passphrase_switch env ctx1 opd code args of (ctx2, err2) \<Rightarrow> Some (ctx2, args, err2))
      | (Some ctx1, _, err) \<Rightarrow> if is_err err then Some (ctx1, args, err) else None
      | _ \<Rightarrow> None)"

text \<open>
  The command handler asks the application for the passphrase. The result tells whether the
  request was processed.
\<close>

definition gpgme_passphrase_command_handler ::
    "op_env \<Rightarrow> gpgme_ctx \<Rightarrow> int \<Rightarrow> string \<Rightarrow> (gpgme_ctx \<times> bool \<times> gpgme_error_t) option" where
  "gpgme_passphrase_command_handler env ctx code key =
     (case ctx_passphrase_cb ctx of
        None \<Rightarrow> None
      | Some cb \<Rightarrow>
          (case gpgme_op_data_lookup env (Some ctx) OPDATA_PASSPHRASE 1 of
             (Some ctx1, Some (HPassphrase opd), err) \<Rightarrow>
               if code = GPGME_STATUS_GET_HIDDEN \<and> (key = ''passphrase.enter'' \<or> key = ''passphrase.pin.ask'')
               then
                 (let (ctx2, err2) =
                        (case (ctx_status_cb ctx1, pp_maxlen opd) of
                           (Some scb, Some m) \<Rightarrow>
                             (log_event (StatusCall ''INQUIRE_MAXLEN'' m) ctx1, scb ''INQUIRE_MAXLEN'' m)
                         | _ \<Rightarrow> (ctx1, no_error));
                      (ctx3, err3) =
                        (if is_err err2 then (ctx2, err2)
                         else (log_event (PassphraseCall (pp_uid_hint opd) (pp_info opd) (pp_bad opd)) ctx2,
                               cb (pp_uid_hint opd) (pp_info opd) (pp_bad opd)))
                  in Some (put_hook (HPassphrase (opd\<lparr>pp_bad := 0\<rparr>)) ctx3, True, err3))
               else Some (ctx1, False, no_error)
           | (Some ctx1, _, err) \<Rightarrow> if is_err err then Some (ctx1, False, err) else None
           | _ \<Rightarrow> None))"

section \<open>The progress handler\<close>

definition parse_progress :: "string \<Rightarrow> string \<times> int \<times> int \<times> int" where
  "parse_progress args =
     (case strchr_split CHR '' '' args of
        (what, None) \<Rightarrow> (what, 0, 0, 0)
      | (what, Some p) \<Rightarrow>
          if p = [] then (what, 0, 0, 0)
          else
            (let type = int (uchar (hd p))
             in case strchr_split CHR '' '' (tl p) of
                  (_, None) \<Rightarrow> (what, type, 0, 0)
                | (_, Some q) \<Rightarrow>
                    if q = [] then (what, type, 0, 0)
                    else (what, type, atoi q,
                          case strchr_split CHR '' '' (tl q) of
                            (_, None) \<Rightarrow> 0 | (_, Some r) \<Rightarrow> atoi r)))"

definition gpgme_progress_status_handler :: "op_env \<Rightarrow> gpgme_ctx handler" where
  "gpgme_progress_status_handler env ctx code args =
     (if code = GPGME_STATUS_PINENTRY_LAUNCHED
      then Some (ctx\<lparr>ctx_redraw_suggested := True\<rparr>, args, no_error)
      else if code \<noteq> GPGME_STATUS_PROGRESS \<or> args = [] \<or> \<not> ctx_progress_cb ctx
      then Some (ctx, args, no_error)
      else if \<not> core env ''args_cpy'' then Some (ctx, args, syserror ENOMEM)
      else case parse_progress args of
        (what, type, cur, tot) \<Rightarrow>
          Some (if type \<noteq> 88 then log_event (ProgressCall what type cur tot) ctx else ctx,
                args, no_error))"

section \<open>The store of operation data\<close>

text \<open>
  The contract between the lookup of operation data and the handlers: each kind of data has at
  most one object, a store through a hook reaches that object and no other.
\<close>

locale hook_store =
  fixes ident :: "'h \<Rightarrow> 'i"
    and search :: "'i \<Rightarrow> 's \<Rightarrow> 'h option"
    and store :: "'h \<Rightarrow> 's \<Rightarrow> 's"
  assumes search_ident: "search i s = Some h \<Longrightarrow> ident h = i"
    and search_store: "search i (store h s) = (if i = ident h \<and> search i s \<noteq> None then Some h else search i s)"
begin

lemma search_store_same: "search (ident h) s \<noteq> None \<Longrightarrow> search (ident h) (store h s) = Some h"
  by (simp add: search_store)

lemma search_store_other: "i \<noteq> ident h \<Longrightarrow> search i (store h s) = search i s"
  by (simp add: search_store)

lemma search_store_None: "search i (store h s) = None \<longleftrightarrow> search i s = None"
  by (auto simp: search_store)

lemma store_twice: "ident g = ident h \<Longrightarrow> search i (store h (store g s)) = search i (store h s)"
  by (auto simp: search_store)

lemma store_commute:
  "ident g \<noteq> ident h \<Longrightarrow> search i (store h (store g s)) = search i (store g (store h s))"
  by (auto simp: search_store)

end

lemma op_find_Cons: "op_find i (h # hs) = (if hook_id h = i then Some h else op_find i hs)"
  by (simp add: op_find_def)

lemma op_find_Nil [simp]: "op_find i [] = None"
  by (simp add: op_find_def)

lemma op_find_ident: "op_find i hs = Some h \<Longrightarrow> hook_id h = i"
  by (induction hs) (auto simp: op_find_Cons split: if_splits)

lemma op_find_write:
  "op_find i (op_write h hs) = (if i = hook_id h \<and> op_find i hs \<noteq> None then Some h else op_find i hs)"
  by (induction hs) (auto simp: op_find_Cons)

interpretation od: hook_store hook_id op_find op_write
  by unfold_locales (auto simp: op_find_ident op_find_write)

interpretation ctx: hook_store hook_id get_hook put_hook
  by unfold_locales (auto simp: get_hook_def put_hook_def op_find_ident op_find_write)

lemma get_hook_frame [simp]:
  "get_hook i (log_event ev ctx) = get_hook i ctx"
  "get_hook i (ctx\<lparr>ctx_redraw_suggested := b\<rparr>) = get_hook i ctx"
  "get_hook i (ctx\<lparr>ctx_ignore_mdc_error := b\<rparr>) = get_hook i ctx"
  "get_hook i (ctx\<lparr>ctx_op_data := hs\<rparr>) = op_find i hs"
  by (simp_all add: get_hook_def log_event_def)

lemma put_hook_frame [simp]:
  "ctx_protocol (put_hook h ctx) = ctx_protocol ctx"
  "ctx_full_status (put_hook h ctx) = ctx_full_status ctx"
  "ctx_raw_description (put_hook h ctx) = ctx_raw_description ctx"
  "ctx_ignore_mdc_error (put_hook h ctx) = ctx_ignore_mdc_error ctx"
  "ctx_redraw_suggested (put_hook h ctx) = ctx_redraw_suggested ctx"
  "ctx_status_cb (put_hook h ctx) = ctx_status_cb ctx"
  "ctx_signers_len (put_hook h ctx) = ctx_signers_len ctx"
  "ctx_events (put_hook h ctx) = ctx_events ctx"
  by (simp_all add: put_hook_def)

lemma log_event_frame [simp]:
  "ctx_protocol (log_event e ctx) = ctx_protocol ctx"
  "ctx_full_status (log_event e ctx) = ctx_full_status ctx"
  "ctx_raw_description (log_event e ctx) = ctx_raw_description ctx"
  "ctx_ignore_mdc_error (log_event e ctx) = ctx_ignore_mdc_error ctx"
  "ctx_status_cb (log_event e ctx) = ctx_status_cb ctx"
  "ctx_op_data (log_event e ctx) = ctx_op_data ctx"
  by (simp_all add: log_event_def)

lemma hook_id_zero [simp]: "hook_id (zero_hook i) = i"
  by (cases i) simp_all

lemma call_status_cb_frame:
  assumes "call_status_cb ctx key args = (ctx', e)"
  shows "get_hook i ctx' = get_hook i ctx \<and> ctx_ignore_mdc_error ctx' = ctx_ignore_mdc_error ctx
    \<and> ctx_protocol ctx' = ctx_protocol ctx"
  using assms by (auto simp: call_status_cb_def split: option.splits if_splits)

text \<open>
  The hooks of a well-formed context: one object per type, each of the structure of its type.
\<close>

definition hooks_ok :: "op_hook list \<Rightarrow> bool" where
  "hooks_ok hs \<longleftrightarrow> distinct (map hook_id hs) \<and> (\<forall>h\<in>set hs. \<forall>i. h = HOther i \<longrightarrow> zero_hook i = HOther i)"

definition ctx_ok :: "gpgme_ctx \<Rightarrow> bool" where
  "ctx_ok ctx \<longleftrightarrow> hooks_ok (ctx_op_data ctx)"

lemma op_find_None: "op_find i hs = None \<longleftrightarrow> i \<notin> hook_id ` set hs"
  by (auto simp: op_find_def find_None_iff)

lemma hooks_ok_create: "hooks_ok hs \<Longrightarrow> op_find i hs = None \<Longrightarrow> hooks_ok (zero_hook i # hs)"
  by (cases i) (auto simp: hooks_ok_def op_find_None)

lemma map_hook_id_write [simp]: "map hook_id (op_write h hs) = map hook_id hs"
  by (induction hs) auto

lemma set_op_write: "set (op_write h hs) \<subseteq> insert h (set hs)"
  by (induction hs) auto

lemma hooks_ok_write:
  "hooks_ok hs \<Longrightarrow> (\<forall>i. h = HOther i \<longrightarrow> zero_hook i = HOther i) \<Longrightarrow> hooks_ok (op_write h hs)"
  using set_op_write [of h hs] by (auto simp: hooks_ok_def)

lemma ctx_ok_put: "ctx_ok ctx \<Longrightarrow> (\<forall>i. h = HOther i \<longrightarrow> zero_hook i = HOther i) \<Longrightarrow> ctx_ok (put_hook h ctx)"
  by (simp add: ctx_ok_def put_hook_def hooks_ok_write)

lemma ctx_ok_log [simp]: "ctx_ok (log_event e ctx) = ctx_ok ctx"
  by (simp add: ctx_ok_def)

text \<open>In a well-formed context a hook of a modelled type has the structure of that type.\<close>

lemma ctx_ok_typed:
  assumes "ctx_ok ctx" "get_hook i ctx = Some h"
  shows "hook_id h = i" and "h = HOther j \<Longrightarrow> zero_hook i = HOther i"
proof -
  show id: "hook_id h = i" using assms(2) by (simp add: get_hook_def op_find_ident)
  have "h \<in> set (ctx_op_data ctx)"
    using assms(2) by (auto simp: get_hook_def op_find_def find_Some_iff)
  then show "zero_hook i = HOther i" if "h = HOther j"
    using assms(1) that id by (auto simp: ctx_ok_def hooks_ok_def)
qed

lemma ctx_ok_typed_cases:
  assumes "ctx_ok ctx"
  shows "get_hook OPDATA_PASSPHRASE ctx = Some h \<Longrightarrow> \<exists>d. h = HPassphrase d"
    and "get_hook OPDATA_DECRYPT ctx = Some h \<Longrightarrow> \<exists>d. h = HDecrypt d"
    and "get_hook OPDATA_SIGN ctx = Some h \<Longrightarrow> \<exists>d. h = HSign d"
    and "get_hook OPDATA_ENCRYPT ctx = Some h \<Longrightarrow> \<exists>d. h = HEncrypt d"
    and "get_hook OPDATA_IMPORT ctx = Some h \<Longrightarrow> \<exists>d. h = HImport d"
    and "get_hook OPDATA_GENKEY ctx = Some h \<Longrightarrow> \<exists>d. h = HGenkey d"
    and "get_hook OPDATA_VERIFY ctx = Some h \<Longrightarrow> \<exists>d. h = HVerify d"
    and "get_hook OPDATA_KEYLIST ctx = Some h \<Longrightarrow> \<exists>d. h = HKeylist d"
  using ctx_ok_typed [OF assms] by (cases h; fastforce)+

section \<open>Lemmas on the shared handlers\<close>

text \<open>What a handler that runs first promises to the handlers after it.\<close>

definition ctx_keeps :: "ctx_op_data_id_t set \<Rightarrow> gpgme_ctx \<Rightarrow> gpgme_ctx \<Rightarrow> bool" where
  "ctx_keeps I ctx ctx' \<longleftrightarrow> (\<forall>i. i \<notin> I \<longrightarrow> get_hook i ctx' = get_hook i ctx)
     \<and> ctx_ignore_mdc_error ctx' = ctx_ignore_mdc_error ctx \<and> ctx_protocol ctx' = ctx_protocol ctx
     \<and> ctx_status_cb ctx' = ctx_status_cb ctx \<and> ctx_raw_description ctx' = ctx_raw_description ctx
     \<and> ctx_signers_len ctx' = ctx_signers_len ctx \<and> (ctx_ok ctx \<longrightarrow> ctx_ok ctx')"

lemma keeps_refl [simp]: "ctx_keeps I ctx ctx"
  by (simp add: ctx_keeps_def)

lemma keeps_trans: "ctx_keeps I a b \<Longrightarrow> ctx_keeps I b c \<Longrightarrow> ctx_keeps I a c"
  by (simp add: ctx_keeps_def)

lemma keeps_mono: "ctx_keeps I a b \<Longrightarrow> I \<subseteq> J \<Longrightarrow> ctx_keeps J a b"
  by (auto simp: ctx_keeps_def)

lemma keeps_get: "ctx_keeps I a b \<Longrightarrow> i \<notin> I \<Longrightarrow> get_hook i b = get_hook i a"
  by (simp add: ctx_keeps_def)

lemma keeps_put: "ctx_keeps I a b \<Longrightarrow> hook_id h \<in> I \<Longrightarrow> (\<forall>i. h = HOther i \<longrightarrow> zero_hook i = HOther i) \<Longrightarrow>
   ctx_keeps I a (put_hook h b)"
  by (auto simp: ctx_keeps_def ctx.search_store ctx_ok_put)

lemma keeps_log: "ctx_keeps I a b \<Longrightarrow> ctx_keeps I a (log_event e b)"
  by (simp add: ctx_keeps_def) (simp add: log_event_def)

lemma keeps_cb: "call_status_cb ctx key args = (ctx', e) \<Longrightarrow> ctx_keeps I ctx ctx'"
  by (auto simp: call_status_cb_def keeps_log split: option.splits if_splits)

lemma keeps_create:
  assumes "get_hook i ctx = None" "i \<in> I"
  shows "ctx_keeps I ctx (ctx\<lparr>ctx_op_data := zero_hook i # ctx_op_data ctx\<rparr>)"
  using assms hooks_ok_create [of "ctx_op_data ctx" i]
  by (auto simp: ctx_keeps_def op_find_Cons get_hook_def ctx_ok_def)

lemma lookup_create:
  assumes "gpgme_op_data_lookup env (Some ctx) i n = (r, h, e)"
  shows "\<exists>ctx'. r = Some ctx' \<and> ctx_keeps {i} ctx ctx' \<and> (e = no_error \<or> e = syserror ENOMEM)
           \<and> (e \<noteq> no_error \<longrightarrow> ctx' = ctx \<and> \<not> core env ''op_data'')
           \<and> (e = no_error \<longrightarrow> get_hook i ctx' = h \<and> (0 \<le> n \<longrightarrow> h \<noteq> None))
           \<and> (e = no_error \<longrightarrow> get_hook i ctx = None \<longrightarrow> 0 \<le> n \<longrightarrow> h = Some (zero_hook i))
           \<and> (get_hook i ctx \<noteq> None \<longrightarrow> ctx' = ctx \<and> h = get_hook i ctx \<and> e = no_error)"
proof (cases "get_hook i ctx")
  case None
  then show ?thesis
    using assms keeps_create [OF None, of "{i}"]
    by (auto simp: gpgme_op_data_lookup_def get_hook_def op_find_Cons split: if_splits)
next
  case (Some g)
  then show ?thesis
    using assms by (simp add: gpgme_op_data_lookup_def Some [unfolded get_hook_def]) (auto simp: Some)
qed

lemma passphrase_switch_keeps:
  assumes "passphrase_switch env ctx opd code args = (ctx', e)"
  shows "ctx_keeps {OPDATA_PASSPHRASE} ctx ctx'"
  using assms
  by (auto simp: passphrase_switch_def intro!: keeps_put split: if_splits
      dest: keeps_cb [where I = "{OPDATA_PASSPHRASE}"])

lemma passphrase_handler_keeps:
  assumes "gpgme_passphrase_status_handler env ctx code args = Some (ctx', args', e)"
  shows "ctx_keeps {OPDATA_PASSPHRASE} ctx ctx' \<and> args' = args"
proof -
  obtain r h e1 where l: "gpgme_op_data_lookup env (Some ctx) OPDATA_PASSPHRASE 1 = (r, h, e1)"
    by (cases "gpgme_op_data_lookup env (Some ctx) OPDATA_PASSPHRASE 1") auto
  from lookup_create [OF l] obtain ctx1 where r: "r = Some ctx1" and k: "ctx_keeps {OPDATA_PASSPHRASE} ctx ctx1"
    by auto
  show ?thesis
    using assms k l r
    by (auto simp: gpgme_passphrase_status_handler_def split: option.splits op_hook.splits if_splits
        prod.splits dest!: passphrase_switch_keeps intro: keeps_trans)
qed

lemma passphrase_handler_total:
  assumes "ctx_ok ctx"
  shows "\<exists>ctx' e. gpgme_passphrase_status_handler env ctx code args = Some (ctx', args, e)"
proof -
  obtain r h e1 where l: "gpgme_op_data_lookup env (Some ctx) OPDATA_PASSPHRASE 1 = (r, h, e1)"
    by (cases "gpgme_op_data_lookup env (Some ctx) OPDATA_PASSPHRASE 1") auto
  from lookup_create [OF l] obtain ctx1 where r: "r = Some ctx1" and k: "ctx_keeps {OPDATA_PASSPHRASE} ctx ctx1"
    and e: "e1 = no_error \<longrightarrow> get_hook OPDATA_PASSPHRASE ctx1 = h \<and> h \<noteq> None"
    by auto
  have ok: "ctx_ok ctx1" using k assms by (simp add: ctx_keeps_def)
  show ?thesis
  proof (cases "e1 = no_error")
    case True
    then obtain d where "h = Some (HPassphrase d)"
      using e ctx_ok_typed_cases(1) [OF ok] by (cases h) auto
    then show ?thesis using l r by (simp add: gpgme_passphrase_status_handler_def split: prod.split)
  next
    case False
    then have "h = None" using l r by (auto simp: gpgme_op_data_lookup_def split: option.splits if_splits)
    then show ?thesis using False l r by (simp add: gpgme_passphrase_status_handler_def)
  qed
qed

lemma progress_handler_keeps:
  assumes "gpgme_progress_status_handler env ctx code args = Some (ctx', args', e)"
  shows "ctx_keeps {} ctx ctx' \<and> args' = args"
  using assms
  by (auto simp: gpgme_progress_status_handler_def keeps_log split: if_splits prod.splits)
     (simp add: ctx_keeps_def ctx_ok_def)

lemma progress_handler_total:
  "\<exists>ctx' e. gpgme_progress_status_handler env ctx code args = Some (ctx', args, e)"
  by (auto simp: gpgme_progress_status_handler_def split: prod.split)

text \<open>The progress handler lets every line pass when no application callback is set.\<close>

lemma progress_handler_quiet:
  assumes "code \<noteq> GPGME_STATUS_PINENTRY_LAUNCHED" "code \<noteq> GPGME_STATUS_PROGRESS"
  shows "gpgme_progress_status_handler env ctx code args = Some (ctx, args, no_error)"
  using assms by (simp add: gpgme_progress_status_handler_def)

lemma feed_append:
  "feed h s (xs @ ys) =
     (case feed h s xs of None \<Rightarrow> None
      | Some (s1, e) \<Rightarrow> if is_err e then Some (s1, e) else feed h s1 ys)"
  by (induction xs arbitrary: s) (auto split: option.splits)

lemma feed_invariant:
  assumes "\<And>s c a s' a' e. I s \<Longrightarrow> h s c a = Some (s', a', e) \<Longrightarrow> I s'"
  shows "I s \<Longrightarrow> feed h s ls = Some (s', e) \<Longrightarrow> I s'"
proof (induction ls arbitrary: s)
  case (Cons l ls)
  obtain c a where l: "l = (c, a)" by (cases l)
  from Cons.prems(2) obtain s1 a1 e1 where h: "h s c a = Some (s1, a1, e1)"
    by (auto simp: l split: option.splits)
  have "I s1" using assms [OF Cons.prems(1) h] .
  then show ?case using Cons.prems(2) Cons.IH [of s1] h by (auto simp: l split: if_splits)
qed simp

text \<open>The last word of the engine on the passphrase: a line that says it was wrong or missing.\<close>

definition pp_refused :: "(int \<times> string) list \<Rightarrow> bool \<Rightarrow> bool" where
  "pp_refused ls b = fold (\<lambda>(code, _) r.
       if code = GPGME_STATUS_BAD_PASSPHRASE \<or> code = GPGME_STATUS_MISSING_PASSPHRASE then True
       else if code = GPGME_STATUS_GOOD_PASSPHRASE then False else r) ls b"

definition pp_bad_state :: "op_passphrase \<Rightarrow> bool" where
  "pp_bad_state d \<longleftrightarrow> pp_no_passphrase d \<or> pp_bad d \<noteq> 0"

lemma passphrase_step_verdict:
  assumes "\<forall>x. core env x" "ctx_status_cb ctx = None" "get_hook OPDATA_PASSPHRASE ctx = Some (HPassphrase d)"
    and "0 \<le> pp_bad d" "code \<noteq> GPGME_STATUS_EOF"
  shows "\<exists>ctx' d'. gpgme_passphrase_status_handler env ctx code args = Some (ctx', args, no_error)
           \<and> ctx_status_cb ctx' = None \<and> get_hook OPDATA_PASSPHRASE ctx' = Some (HPassphrase d')
           \<and> 0 \<le> pp_bad d' \<and> pp_bad_state d' = pp_refused [(code, args)] (pp_bad_state d)"
proof -
  have l: "gpgme_op_data_lookup env (Some ctx) OPDATA_PASSPHRASE 1 = (Some ctx, Some (HPassphrase d), no_error)"
    using assms(3) by (simp add: gpgme_op_data_lookup_def get_hook_def)
  have put: "get_hook OPDATA_PASSPHRASE (put_hook (HPassphrase d') ctx) = Some (HPassphrase d')" for d'
    using assms(3) by (simp add: ctx.search_store)
  show ?thesis
    using assms(1,2,4,5) put assms(3)
    by (auto simp: gpgme_passphrase_status_handler_def l passphrase_switch_def call_status_cb_def
        pp_bad_state_def pp_refused_def split: prod.splits)
qed

lemma passphrase_feed_verdict:
  assumes "\<forall>x. core env x" "ctx_status_cb ctx = None" "get_hook OPDATA_PASSPHRASE ctx = Some (HPassphrase d)"
    and "0 \<le> pp_bad d" "\<forall>l\<in>set ls. fst l \<noteq> GPGME_STATUS_EOF"
  shows "\<exists>ctx' d'. feed (gpgme_passphrase_status_handler env) ctx ls = Some (ctx', no_error)
           \<and> get_hook OPDATA_PASSPHRASE ctx' = Some (HPassphrase d')
           \<and> pp_bad_state d' = pp_refused ls (pp_bad_state d)"
  using assms(2-)
proof (induction ls arbitrary: ctx d)
  case Nil
  then show ?case by (simp add: pp_refused_def)
next
  case (Cons l ls)
  obtain code args where l: "l = (code, args)" by (cases l)
  obtain ctx1 d1 where s: "gpgme_passphrase_status_handler env ctx code args = Some (ctx1, args, no_error)"
      "ctx_status_cb ctx1 = None" "get_hook OPDATA_PASSPHRASE ctx1 = Some (HPassphrase d1)" "0 \<le> pp_bad d1"
      "pp_bad_state d1 = pp_refused [(code, args)] (pp_bad_state d)"
    using passphrase_step_verdict [OF assms(1) Cons.prems(1-3), of code args] Cons.prems(4) by (auto simp: l)
  have "pp_refused (l # ls) (pp_bad_state d) = pp_refused ls (pp_bad_state d1)"
    by (simp add: l s(5) pp_refused_def)
  then show ?case using Cons.IH [OF s(2-4)] Cons.prems(4) by (simp add: l s(1))
qed

section \<open>Properties\<close>

text \<open>
  Looking up operation data keeps a context well-formed. With a negative size it changes
  nothing and finds the object of that type or none. Otherwise it returns the object that is
  there, or puts a zeroed one in, or reports that memory is out and changes nothing. The
  objects of all other types stay as they are, and the next lookup finds the same object.
\<close>

theorem op_data_lookup_law:
  assumes "ctx_ok ctx"
  shows "\<exists>ctx' h e. gpgme_op_data_lookup env (Some ctx) i n = (Some ctx', h, e) \<and> ctx_ok ctx'
     \<and> (n < 0 \<longrightarrow> ctx' = ctx \<and> h = get_hook i ctx \<and> e = no_error)
     \<and> (0 \<le> n \<longrightarrow> e = no_error \<longrightarrow> h = Some (case get_hook i ctx of Some g \<Rightarrow> g | None \<Rightarrow> zero_hook i))
     \<and> (e \<noteq> no_error \<longrightarrow> ctx' = ctx \<and> e = syserror ENOMEM)
     \<and> (\<forall>j. j \<noteq> i \<longrightarrow> get_hook j ctx' = get_hook j ctx)
     \<and> (e = no_error \<longrightarrow> gpgme_op_data_lookup env2 (Some ctx') i m = (Some ctx', h, no_error) \<or> h = None)"
proof -
  obtain r h e where l: "gpgme_op_data_lookup env (Some ctx) i n = (r, h, e)"
    by (cases "gpgme_op_data_lookup env (Some ctx) i n") auto
  note c = lookup_create [OF l]
  then obtain ctx' where r: "r = Some ctx'" and k: "ctx_keeps {i} ctx ctx'" by auto
  have neg: "n < 0 \<longrightarrow> ctx' = ctx \<and> h = get_hook i ctx \<and> e = no_error"
    using l r by (auto simp: gpgme_op_data_lookup_def get_hook_def split: option.splits)
  have again: "e = no_error \<longrightarrow> gpgme_op_data_lookup env2 (Some ctx') i m = (Some ctx', h, no_error) \<or> h = None"
    using c r by (cases h) (auto simp: gpgme_op_data_lookup_def get_hook_def)
  show ?thesis
    using l r c k assms neg again by (cases "get_hook i ctx") (auto simp: ctx_keeps_def)
qed

definition sample_ctx :: gpgme_ctx where
  "sample_ctx = \<lparr>ctx_protocol = GPGME_PROTOCOL_OpenPGP, ctx_full_status = False,
     ctx_raw_description = False, ctx_ignore_mdc_error = False, ctx_redraw_suggested = False,
     ctx_status_cb = None, ctx_progress_cb = False, ctx_passphrase_cb = None,
     ctx_signers_len = 0, ctx_canceled = False, ctx_engine = None,
     ctx_engine_info = [GPGME_PROTOCOL_OpenPGP, GPGME_PROTOCOL_CMS],
     ctx_sub_protocol = GPGME_PROTOCOL_DEFAULT, ctx_user_loop = False, ctx_keylist_mode = 0,
     ctx_op_data = [], ctx_events = []\<rparr>"

definition sample_env :: op_env where
  "sample_env = \<lparr>core = (\<lambda>_. True),
     dec = (\<lambda>n. if n = 0 then no_error else gpg_error (GPG_ERR_OTHER (nat \<bar>n\<bar>)))\<rparr>"

lemma sample_ctx_ok [simp]: "ctx_ok sample_ctx" "get_hook i sample_ctx = None"
  by (simp_all add: ctx_ok_def hooks_ok_def sample_ctx_def get_hook_def)

lemma sample_env_ok [simp]: "env_ok sample_env" "core sample_env x"
  by (simp_all add: env_ok_def err_decoder_def sample_env_def)

theorem op_data_lookup_law_witness:
  "\<exists>ctx' h e. gpgme_op_data_lookup sample_env (Some sample_ctx) OPDATA_SIGN 1 = (Some ctx', h, e)
     \<and> ctx_ok ctx' \<and> h = Some (HSign zero_sign)"
proof -
  have "gpgme_op_data_lookup sample_env (Some sample_ctx) OPDATA_SIGN 1
      = (Some (sample_ctx\<lparr>ctx_op_data := [HSign zero_sign]\<rparr>), Some (HSign zero_sign), no_error)"
    by (simp add: gpgme_op_data_lookup_def) (simp add: sample_ctx_def)
  with op_data_lookup_law [OF sample_ctx_ok(1), of sample_env OPDATA_SIGN 1 sample_env 1]
  show ?thesis by auto
qed

text \<open>
  C24: The passphrase handler reports a bad passphrase at the end of the operation exactly when
  the last line of the engine about the passphrase said that it was wrong or missing, whatever
  other lines came before, between and after.
\<close>

theorem passphrase_verdict:
  assumes "\<forall>x. core env x" "ctx_status_cb ctx = None" "get_hook OPDATA_PASSPHRASE ctx = None"
    and "\<forall>l\<in>set ls. fst l \<noteq> GPGME_STATUS_EOF"
  shows "\<exists>ctx'. feed (gpgme_passphrase_status_handler env) ctx (ls @ [(GPGME_STATUS_EOF, a)])
     = Some (ctx', if pp_refused ls False then gpg_error GPG_ERR_BAD_PASSPHRASE else no_error)"
proof -
  define ctx0 where "ctx0 = ctx\<lparr>ctx_op_data := zero_hook OPDATA_PASSPHRASE # ctx_op_data ctx\<rparr>"
  have l0: "gpgme_op_data_lookup env (Some ctx) OPDATA_PASSPHRASE 1
      = gpgme_op_data_lookup env (Some ctx0) OPDATA_PASSPHRASE 1"
    using assms(1,3) by (simp add: gpgme_op_data_lookup_def get_hook_def ctx0_def op_find_Cons)
  have same: "feed (gpgme_passphrase_status_handler env) ctx (x # xs)
      = feed (gpgme_passphrase_status_handler env) ctx0 (x # xs)" for x xs
    by (cases x) (simp add: gpgme_passphrase_status_handler_def l0)
  have g: "get_hook OPDATA_PASSPHRASE ctx0 = Some (HPassphrase zero_passphrase)"
    by (simp add: ctx0_def op_find_Cons)
  have cb: "ctx_status_cb ctx0 = None" using assms(2) by (simp add: ctx0_def)
  obtain ctx' d' where f: "feed (gpgme_passphrase_status_handler env) ctx0 ls = Some (ctx', no_error)"
      "get_hook OPDATA_PASSPHRASE ctx' = Some (HPassphrase d')"
      "pp_bad_state d' = pp_refused ls (pp_bad_state zero_passphrase)"
    using passphrase_feed_verdict [OF assms(1) cb g _ assms(4)] by (auto simp: zero_passphrase_def)
  have "feed (gpgme_passphrase_status_handler env) ctx0 (ls @ [(GPGME_STATUS_EOF, a)])
      = Some (ctx', if pp_refused ls False then gpg_error GPG_ERR_BAD_PASSPHRASE else no_error)"
    using f(2,3)
    by (simp add: feed_append f(1) gpgme_passphrase_status_handler_def gpgme_op_data_lookup_def
        get_hook_def passphrase_switch_def pp_bad_state_def zero_passphrase_def split: prod.splits)
  then show ?thesis using same by (cases ls) auto
qed

theorem passphrase_verdict_witness:
  "\<exists>ctx'. feed (gpgme_passphrase_status_handler sample_env) sample_ctx
      ([(GPGME_STATUS_BAD_PASSPHRASE, ''1234''), (GPGME_STATUS_GOOD_PASSPHRASE, []),
        (GPGME_STATUS_MISSING_PASSPHRASE, []), (GPGME_STATUS_PLAINTEXT, [])] @ [(GPGME_STATUS_EOF, [])])
     = Some (ctx', gpg_error GPG_ERR_BAD_PASSPHRASE)"
proof -
  have "pp_refused [(GPGME_STATUS_BAD_PASSPHRASE, ''1234''), (GPGME_STATUS_GOOD_PASSPHRASE, []),
        (GPGME_STATUS_MISSING_PASSPHRASE, []), (GPGME_STATUS_PLAINTEXT, [])] False"
    by (simp add: pp_refused_def)
  moreover have "ctx_status_cb sample_ctx = None" by (simp add: sample_ctx_def)
  ultimately show ?thesis
    using passphrase_verdict [of sample_env sample_ctx
        "[(GPGME_STATUS_BAD_PASSPHRASE, ''1234''), (GPGME_STATUS_GOOD_PASSPHRASE, []),
        (GPGME_STATUS_MISSING_PASSPHRASE, []), (GPGME_STATUS_PLAINTEXT, [])]" "[]"] by simp
qed

section \<open>Passphrase lines inside other operations\<close>

text \<open>
  The same bookkeeping for a handler that ran without error under any callbacks and
  allocations, which is what the operations that call it first need.
\<close>

definition pp_state :: "gpgme_ctx \<Rightarrow> bool" where
  "pp_state ctx = (case get_hook OPDATA_PASSPHRASE ctx of Some (HPassphrase d) \<Rightarrow> pp_bad_state d | _ \<Rightarrow> False)"

definition pp_inv :: "gpgme_ctx \<Rightarrow> bool" where
  "pp_inv ctx \<longleftrightarrow> (\<forall>d. get_hook OPDATA_PASSPHRASE ctx = Some (HPassphrase d) \<longrightarrow> 0 \<le> pp_bad d)"

lemma pp_keeps: "ctx_keeps I a b \<Longrightarrow> OPDATA_PASSPHRASE \<notin> I \<Longrightarrow> pp_state b = pp_state a \<and> pp_inv b = pp_inv a"
  by (simp add: ctx_keeps_def pp_state_def pp_inv_def)

lemma pp_put: "get_hook OPDATA_PASSPHRASE c = Some x \<Longrightarrow>
   pp_state (put_hook (HPassphrase d) c) = pp_bad_state d \<and> (pp_inv (put_hook (HPassphrase d) c) \<longleftrightarrow> 0 \<le> pp_bad d)"
  by (simp add: pp_state_def pp_inv_def ctx.search_store)

lemma passphrase_handler_eq:
  "gpgme_passphrase_status_handler env ctx code args =
     (case get_hook OPDATA_PASSPHRASE ctx of
        Some (HPassphrase d) \<Rightarrow> (case passphrase_switch env ctx d code args of (c, e) \<Rightarrow> Some (c, args, e))
      | None \<Rightarrow>
          if core env ''op_data''
          then (case passphrase_switch env (ctx\<lparr>ctx_op_data := HPassphrase zero_passphrase # ctx_op_data ctx\<rparr>)
                       zero_passphrase code args of (c, e) \<Rightarrow> Some (c, args, e))
          else Some (ctx, args, syserror ENOMEM)
      | _ \<Rightarrow> None)"
  by (auto simp: gpgme_passphrase_status_handler_def gpgme_op_data_lookup_def get_hook_def
      split: option.split op_hook.split)

lemma passphrase_switch_ok:
  assumes "passphrase_switch env c d code args = (c', no_error)" "0 \<le> pp_bad d"
    and g: "get_hook OPDATA_PASSPHRASE c = Some (HPassphrase d)" and "code \<noteq> GPGME_STATUS_EOF"
  shows "pp_inv c' \<and> pp_state c' = pp_refused [(code, args)] (pp_bad_state d)"
proof -
  have frame: "pp_state c = pp_bad_state d" "pp_inv c" using g assms(2) by (simp_all add: pp_state_def pp_inv_def)
  show ?thesis
  proof (cases "code = GPGME_STATUS_ERROR \<or> code = GPGME_STATUS_FAILURE")
    case True
    then obtain k where "call_status_cb c k args = (c', no_error)"
      using assms(1) by (auto simp: passphrase_switch_def)
    from pp_keeps [OF keeps_cb [OF this, of "{}"]] show ?thesis using frame True by (auto simp: pp_refused_def)
  next
    case False
    then consider "code = GPGME_STATUS_INQUIRE_MAXLEN" | "code = GPGME_STATUS_USERID_HINT"
      | "code = GPGME_STATUS_BAD_PASSPHRASE" | "code = GPGME_STATUS_GOOD_PASSPHRASE"
      | "code = GPGME_STATUS_NEED_PASSPHRASE \<or> code = GPGME_STATUS_NEED_PASSPHRASE_SYM
           \<or> code = GPGME_STATUS_NEED_PASSPHRASE_PIN"
      | "code = GPGME_STATUS_MISSING_PASSPHRASE"
      | "c' = c" "pp_refused [(code, args)] (pp_bad_state d) = pp_bad_state d"
      using assms(1,4) by (fastforce simp: passphrase_switch_def pp_refused_def split: if_splits)
    then show ?thesis
    proof cases
      case 7
      then show ?thesis using frame by simp
    next
      case 5
      then show ?thesis
        using assms(1,2)
        by (elim disjE) (simp_all add: passphrase_switch_def pp_refused_def split: if_splits,
          auto simp: pp_put [OF g] pp_bad_state_def)
    qed (use assms(1,2) in \<open>simp add: passphrase_switch_def pp_refused_def split: if_splits,
      auto simp: pp_put [OF g] pp_bad_state_def\<close>)+
  qed
qed

lemma passphrase_step_ok:
  assumes "gpgme_passphrase_status_handler env ctx code args = Some (ctx', args', no_error)"
    and "pp_inv ctx" "code \<noteq> GPGME_STATUS_EOF"
  shows "pp_inv ctx' \<and> pp_state ctx' = pp_refused [(code, args)] (pp_state ctx)"
proof (cases "get_hook OPDATA_PASSPHRASE ctx")
  case None
  let ?c = "ctx\<lparr>ctx_op_data := HPassphrase zero_passphrase # ctx_op_data ctx\<rparr>"
  have p: "passphrase_switch env ?c zero_passphrase code args = (ctx', no_error)"
    using assms(1) None by (auto simp: passphrase_handler_eq split: if_splits prod.splits)
  have "get_hook OPDATA_PASSPHRASE ?c = Some (HPassphrase zero_passphrase)" by (simp add: op_find_Cons)
  from passphrase_switch_ok [OF p _ this assms(3)] None show ?thesis
    by (simp add: pp_state_def zero_passphrase_def pp_bad_state_def)
next
  case (Some h)
  then obtain d where h: "h = HPassphrase d" and p: "passphrase_switch env ctx d code args = (ctx', no_error)"
    using assms(1) by (cases h) (auto simp: passphrase_handler_eq split: prod.splits)
  have "0 \<le> pp_bad d" using assms(2) Some h by (simp add: pp_inv_def)
  from passphrase_switch_ok [OF p this _ assms(3)] Some h show ?thesis by (simp add: pp_state_def)
qed

lemma passphrase_eof:
  assumes "gpgme_passphrase_status_handler env ctx GPGME_STATUS_EOF args = Some (ctx', args', e)"
    and "core env ''op_data''"
  shows "ctx_keeps {OPDATA_PASSPHRASE} ctx ctx'
     \<and> e = (if pp_state ctx then gpg_error GPG_ERR_BAD_PASSPHRASE else no_error)"
proof -
  have "e = (if pp_state ctx then gpg_error GPG_ERR_BAD_PASSPHRASE else no_error)"
  proof (cases "get_hook OPDATA_PASSPHRASE ctx")
    case None
    then show ?thesis
      using assms by (auto simp: passphrase_handler_eq passphrase_switch_def pp_state_def zero_passphrase_def)
  next
    case (Some h)
    then show ?thesis
      using assms(1)
      by (cases h) (auto simp: passphrase_handler_eq passphrase_switch_def pp_state_def pp_bad_state_def)
  qed
  then show ?thesis using passphrase_handler_keeps [OF assms(1)] by simp
qed

end
