(* ===== verification/Gpgme_Decrypt.thy ===== *)
theory Gpgme_Decrypt
  imports Gpgme_OpSupport Gpgme_DataInv
begin

text \<open>
  The status handler of the decrypt operation (\<open>decrypt.c\<close>). Its state is the context together
  with the data objects of the process, as a failed decryption marks the plaintext object by
  its serial number. The decrypt operation also keeps its result in the context.
\<close>

type_synonym 'u dec_state = "gpgme_ctx \<times> 'u data_state"

section \<open>Parsers\<close>

definition note_pkdecrypt_failed :: "gpgme_error_t \<Rightarrow> op_decrypt \<Rightarrow> op_decrypt" where
  "note_pkdecrypt_failed err opd =
     (case gpg_err_code err of
        GPG_ERR_CANCELED \<Rightarrow> opd\<lparr>dec_pkdecrypt_failed := GpgError (err_source err) GPG_ERR_CANCELED\<rparr>
      | GPG_ERR_FULLY_CANCELED \<Rightarrow>
          opd\<lparr>dec_pkdecrypt_failed := GpgError (err_source err) GPG_ERR_CANCELED\<rparr>
      | GPG_ERR_BAD_PASSPHRASE \<Rightarrow> opd\<lparr>dec_pkdecrypt_failed := err\<rparr>
      | _ \<Rightarrow> opd)"

text \<open>
  \<open>None\<close>: the copy of the arguments could not be allocated and is used all the same. The field
  splitter yields at least one field, so that the missing-argument branch is not reached.
\<close>

definition parse_status_error ::
    "op_env \<Rightarrow> string \<Rightarrow> op_decrypt \<Rightarrow> (op_decrypt \<times> gpgme_error_t) option" where
  "parse_status_error env args opd =
     (if \<not> core env ''args2'' then None
      else
        (let field = gpgme_split_fields args 3;
             nfields = length field
         in if nfields < 1 then Some (opd, gpg_error GPG_ERR_INV_ENGINE)
            else
              (let err = (if nfields < 2 then no_error else err_of_num env (atoi (field ! 1)));
                   first = (\<lambda>d. if is_err err \<and> \<not> is_err (dec_first_status_error d)
                                then d\<lparr>dec_first_status_error := err\<rparr> else d)
               in if field ! 0 = ''decrypt.algorithm'' then
                    (if gpg_err_code err = GPG_ERR_UNSUPPORTED_ALGORITHM \<and> 2 < nfields \<and> field ! 2 \<noteq> ''?''
                     then (if core env ''unsupported_algorithm''
                           then Some (first (opd\<lparr>dec_unsupported_algorithm := Some (field ! 2)\<rparr>), no_error)
                           else Some (opd\<lparr>dec_unsupported_algorithm := None\<rparr>, syserror ENOMEM))
                     else Some (first opd, no_error))
                  else if field ! 0 = ''decrypt.keyusage'' then
                    Some (first (if gpg_err_code err = GPG_ERR_WRONG_KEY_USAGE
                                 then opd\<lparr>dec_wrong_key_usage := True\<rparr> else opd), no_error)
                  else if field ! 0 = ''pkdecrypt_failed'' then
                    Some (first (note_pkdecrypt_failed err opd), no_error)
                  else if field ! 0 = ''nomdc_with_legacy_cipher'' then
                    Some (first (opd\<lparr>dec_legacy_cipher_nomdc := True,
                                     dec_not_integrity_protected := True\<rparr>), no_error)
                  else Some (first opd, no_error))))"

definition parse_enc_to :: "op_env \<Rightarrow> string \<Rightarrow> gpgme_protocol_t \<Rightarrow> recipient cres" where
  "parse_enc_to env args protocol =
     (if \<not> core env ''recipient'' then Err (syserror ENOMEM)
      else
        (let keyid = takeWhile (\<lambda>c. c \<noteq> CHR '' '') (take 16 args);
             rest = drop (length keyid) args
         in if rest \<noteq> [] \<and> peek rest \<noteq> CHR '' '' then Err (gpg_error GPG_ERR_INV_ENGINE)
            else
              (let a = skip_spaces rest
               in if a = [] then Ok \<lparr>rcp_keyid = keyid, rcp_pubkey_algo = None, rcp_status = no_error\<rparr>
                  else case strtol 0 a of
                    (algo, tail, e) \<Rightarrow>
                      if e \<or> a = tail \<or> peek tail \<noteq> CHR '' '' then Err (gpg_error GPG_ERR_INV_ENGINE)
                      else Ok \<lparr>rcp_keyid = keyid,
                               rcp_pubkey_algo = Some (gpgme_map_pk_algo (to_int32 algo) protocol),
                               rcp_status = no_error\<rparr>)))"

definition parse_decryption_info ::
    "op_env \<Rightarrow> string \<Rightarrow> op_decrypt \<Rightarrow> gpgme_protocol_t \<Rightarrow> (op_decrypt \<times> gpgme_error_t) option" where
  "parse_decryption_info env args opd protocol =
     (if \<not> core env ''args2'' then None
      else
        (let field = gpgme_split_fields args 3;
             nfields = length field
         in if nfields < 2 then Some (opd, gpg_error GPG_ERR_INV_ENGINE)
            else
              (let mdc = atoi (field ! 0);
                   algostr = gpgme_cipher_algo_name (atoi (field ! 1)) protocol;
                   aead_algo = (if nfields < 3 then 0 else atoi (field ! 2));
                   modestr = gpgme_cipher_mode_name aead_algo protocol;
                   algo = (if aead_algo = 0 \<and> mdc \<noteq> 2
                           then gpgme_strconcat (core env ''symkey_algo'') (Some algostr) [''.PGPCFB'']
                           else gpgme_strconcat (core env ''symkey_algo'') (Some algostr) [''.'', modestr]);
                   opd1 = opd\<lparr>dec_symkey_algo := algo\<rparr>
               in if algo = None then Some (opd1, syserror ENOMEM)
                  else Some (if mdc = 0 \<and> aead_algo = 0
                             then opd1\<lparr>dec_not_integrity_protected := True\<rparr> else opd1, no_error))))"

section \<open>The status handler\<close>

text \<open>The error the operation ends with.\<close>

definition decrypt_eof :: "gpgme_ctx \<Rightarrow> op_decrypt \<Rightarrow> gpgme_error_t" where
  "decrypt_eof ctx opd =
     (if dec_failed opd then
        (if is_err (dec_pkdecrypt_failed opd) then dec_pkdecrypt_failed opd
         else if dec_not_integrity_protected opd \<and> \<not> ctx_ignore_mdc_error ctx
              then gpg_error GPG_ERR_DECRYPT_FAILED
         else if is_err (dec_first_status_error opd) then dec_first_status_error opd
         else if dec_any_no_seckey opd then gpg_error GPG_ERR_NO_SECKEY
         else gpg_error GPG_ERR_DECRYPT_FAILED)
      else if \<not> dec_okay opd then gpg_error GPG_ERR_NO_DATA
      else if is_err (dec_failure_code opd) then dec_failure_code opd
      else no_error)"

text \<open>The recipients after NO_SECKEY, when one of them has the key ID of the line.\<close>

fun mark_no_seckey :: "string \<Rightarrow> recipient list \<Rightarrow> recipient list option" where
  "mark_no_seckey k [] = None"
| "mark_no_seckey k (r # rs) =
     (if rcp_keyid r = k then Some (r\<lparr>rcp_status := gpg_error GPG_ERR_NO_SECKEY\<rparr> # rs)
      else map_option (Cons r) (mark_no_seckey k rs))"

definition decrypt_switch ::
    "op_env \<Rightarrow> 'u dec_state \<Rightarrow> op_decrypt \<Rightarrow> int \<Rightarrow> string \<Rightarrow> 'u dec_state hres" where
  "decrypt_switch env st opd code args =
     (let (ctx, ds) = st;
          put = (\<lambda>d. (put_hook (HDecrypt d) ctx, ds))
      in if code = GPGME_STATUS_FAILURE then
           (case gpgme_parse_failure env args of
              (args1, e) \<Rightarrow> Some (put (opd\<lparr>dec_failure_code := e\<rparr>), args1, no_error))
         else if code = GPGME_STATUS_EOF then Some (st, args, decrypt_eof ctx opd)
         else if code = GPGME_STATUS_DECRYPTION_INFO then
           (case parse_decryption_info env args opd (ctx_protocol ctx) of
              None \<Rightarrow> None | Some (opd1, e) \<Rightarrow> Some (put opd1, args, e))
         else if code = GPGME_STATUS_DECRYPTION_OKAY then
           Some (put (opd\<lparr>dec_okay := True\<rparr>), args, no_error)
         else if code = GPGME_STATUS_DECRYPTION_FAILED then
           (let ctx1 = put_hook (HDecrypt (opd\<lparr>dec_failed := True\<rparr>)) ctx
            in if ctx_ignore_mdc_error ctx then Some ((ctx1, ds), args, no_error)
               else case gpgme_data_set_prop ds None (dec_plaintext_dserial opd) DATA_PROP_BLANKOUT 1 of
                 UB \<Rightarrow> None
               | Err e \<Rightarrow> Some ((ctx1, ds), args, no_error)
               | Ok (ds1, e) \<Rightarrow> Some ((ctx1, ds1), args, no_error))
         else if code = GPGME_STATUS_ERROR then
           (case parse_status_error env args opd of
              None \<Rightarrow> None | Some (opd1, e) \<Rightarrow> Some (put opd1, args, e))
         else if code = GPGME_STATUS_ENC_TO then
           (case parse_enc_to env args (ctx_protocol ctx) of
              UB \<Rightarrow> None
            | Err e \<Rightarrow> Some (st, args, e)
            | Ok r \<Rightarrow> Some (put (opd\<lparr>dec_recipients := dec_recipients opd @ [r]\<rparr>), args, no_error))
         else if code = GPGME_STATUS_SESSION_KEY then
           Some (put (opd\<lparr>dec_session_key := (if core env ''session_key'' then Some args else None)\<rparr>),
                 args, no_error)
         else if code = GPGME_STATUS_NO_SECKEY then
           (case mark_no_seckey args (dec_recipients opd) of
              None \<Rightarrow> Some (st, args, gpg_error GPG_ERR_INV_ENGINE)
            | Some rs \<Rightarrow> Some (put (opd\<lparr>dec_recipients := rs, dec_any_no_seckey := True\<rparr>), args, no_error))
         else if code = GPGME_STATUS_PLAINTEXT then
           (case gpgme_parse_plaintext env args of
              (args1, Ok (name, mime)) \<Rightarrow>
                Some (put (opd\<lparr>dec_file_name := (case name of None \<Rightarrow> dec_file_name opd | Some _ \<Rightarrow> name),
                               dec_is_mime := mime\<rparr>), args1, no_error)
            | (args1, Err e) \<Rightarrow> Some (st, args1, e)
            | (args1, UB) \<Rightarrow> None)
         else if code = GPGME_STATUS_INQUIRE_MAXLEN then
           (case call_status_cb ctx ''INQUIRE_MAXLEN'' args of (ctx1, e) \<Rightarrow> Some ((ctx1, ds), args, e))
         else if code = GPGME_STATUS_DECRYPTION_COMPLIANCE_MODE then
           Some (put (if compliance_loop args then opd\<lparr>dec_is_de_vs := True\<rparr> else opd), args, no_error)
         else Some (st, args, no_error))"

definition lift_ctx :: "gpgme_ctx handler \<Rightarrow> 'u dec_state handler" where
  "lift_ctx h st code args =
     (case h (fst st) code args of
        None \<Rightarrow> None | Some (ctx, args1, e) \<Rightarrow> Some ((ctx, snd st), args1, e))"

text \<open>The handler after its call of the passphrase handler.\<close>

definition decrypt_own_handler :: "op_env \<Rightarrow> 'u dec_state handler" where
  "decrypt_own_handler env st code args =
     (case get_hook OPDATA_DECRYPT (fst st) of
        Some (HDecrypt opd) \<Rightarrow> decrypt_switch env st opd code args
      | _ \<Rightarrow> None)"

definition gpgme_decrypt_status_handler :: "op_env \<Rightarrow> 'u dec_state handler" where
  "gpgme_decrypt_status_handler env =
     then_handler (lift_ctx (gpgme_passphrase_status_handler env)) (decrypt_own_handler env)"

definition decrypt_status_handler :: "op_env \<Rightarrow> 'u dec_state handler" where
  "decrypt_status_handler env =
     then_handler (lift_ctx (gpgme_progress_status_handler env)) (gpgme_decrypt_status_handler env)"

section \<open>Set-up and result\<close>

text \<open>\<open>None\<close>: the serial number is asked for a handle that is not alive.\<close>

definition gpgme_op_decrypt_init_result ::
    "op_env \<Rightarrow> gpgme_ctx \<Rightarrow> 'u data_state \<Rightarrow> nat option \<Rightarrow> (gpgme_ctx \<times> gpgme_error_t) option" where
  "gpgme_op_decrypt_init_result env ctx ds plaintext =
     (case gpgme_op_data_lookup env (Some ctx) OPDATA_DECRYPT 1 of
        (Some ctx1, Some (HDecrypt opd), err) \<Rightarrow>
          (case gpgme_data_get_dserial ds plaintext of
             Ok s \<Rightarrow> Some (put_hook (HDecrypt (opd\<lparr>dec_plaintext_dserial := s\<rparr>)) ctx1, no_error)
           | _ \<Rightarrow> None)
      | (Some ctx1, _, err) \<Rightarrow> if is_err err then Some (ctx1, err) else None
      | _ \<Rightarrow> None)"

text \<open>\<open>gpgme_op_decrypt_result\<close> resets the flag and makes sure that there is an algorithm name.\<close>

definition gpgme_op_decrypt_result :: "op_env \<Rightarrow> gpgme_ctx \<Rightarrow> gpgme_ctx \<times> op_decrypt option" where
  "gpgme_op_decrypt_result env ctx =
     (let ctx1 = ctx\<lparr>ctx_ignore_mdc_error := False\<rparr>
      in case get_hook OPDATA_DECRYPT ctx1 of
           Some (HDecrypt opd) \<Rightarrow>
             (if dec_symkey_algo opd \<noteq> None then (ctx1, Some opd)
              else if \<not> core env ''symkey_algo'' then (ctx1, None)
              else
                (let opd1 = opd\<lparr>dec_symkey_algo := Some ''?.?''\<rparr>
                 in (put_hook (HDecrypt opd1) ctx1, Some opd1)))
         | _ \<Rightarrow> (ctx1, None))"

section \<open>Lemmas\<close>

text \<open>The part of the operation data that decides about success.\<close>

definition dec_core :: "op_decrypt \<Rightarrow> bool \<times> bool \<times> gpgme_error_t \<times> 64 word" where
  "dec_core d = (dec_okay d, dec_failed d, dec_failure_code d, dec_plaintext_dserial d)"

definition dec_core_step ::
    "op_env \<Rightarrow> int \<Rightarrow> string \<Rightarrow> bool \<times> bool \<times> gpgme_error_t \<times> 64 word \<Rightarrow>
     bool \<times> bool \<times> gpgme_error_t \<times> 64 word" where
  "dec_core_step env code args = (\<lambda>(okay, failed, fc, s).
     (okay \<or> code = GPGME_STATUS_DECRYPTION_OKAY, failed \<or> code = GPGME_STATUS_DECRYPTION_FAILED,
      if code = GPGME_STATUS_FAILURE then snd (gpgme_parse_failure env args) else fc, s))"

lemma dec_core_updates [simp]:
  "dec_core (d\<lparr>dec_unsupported_algorithm := x\<rparr>) = dec_core d"
  "dec_core (d\<lparr>dec_wrong_key_usage := b\<rparr>) = dec_core d"
  "dec_core (d\<lparr>dec_legacy_cipher_nomdc := b\<rparr>) = dec_core d"
  "dec_core (d\<lparr>dec_not_integrity_protected := b\<rparr>) = dec_core d"
  "dec_core (d\<lparr>dec_first_status_error := er\<rparr>) = dec_core d"
  "dec_core (d\<lparr>dec_symkey_algo := x\<rparr>) = dec_core d"
  by (simp_all add: dec_core_def)

lemma dec_core_pkdecrypt [simp]: "dec_core (note_pkdecrypt_failed er d) = dec_core d"
  by (cases "gpg_err_code er") (simp_all add: note_pkdecrypt_failed_def dec_core_def)

lemma parse_status_error_core: "parse_status_error env args d = Some (d', e) \<Longrightarrow> dec_core d' = dec_core d"
  unfolding parse_status_error_def Let_def by (auto split: if_split_asm)

lemma parse_decryption_info_core: "parse_decryption_info env args d p = Some (d', e) \<Longrightarrow> dec_core d' = dec_core d"
  unfolding parse_decryption_info_def Let_def by (auto split: if_split_asm)

text \<open>How one line changes the state, whatever line it is.\<close>

definition dec_after :: "op_env \<Rightarrow> int \<Rightarrow> string \<Rightarrow> 'u dec_state \<Rightarrow> op_decrypt \<Rightarrow> 'u dec_state \<Rightarrow> bool" where
  "dec_after env code args st d st' \<longleftrightarrow>
     ctx_keeps {OPDATA_DECRYPT} (fst st) (fst st') \<and>
     (\<exists>d'. get_hook OPDATA_DECRYPT (fst st') = Some (HDecrypt d') \<and>
           dec_core d' = dec_core_step env code args (dec_core d)) \<and>
     (if code = GPGME_STATUS_DECRYPTION_FAILED \<and> \<not> ctx_ignore_mdc_error (fst st)
      then (case gpgme_data_set_prop (snd st) None (dec_plaintext_dserial d) DATA_PROP_BLANKOUT 1 of
              Ok (ds, _) \<Rightarrow> snd st' = ds | Err _ \<Rightarrow> snd st' = snd st | UB \<Rightarrow> False)
      else snd st' = snd st)"

lemma dec_after_put:
  assumes "get_hook OPDATA_DECRYPT ctx = Some (HDecrypt d)"
    and "dec_core d' = dec_core_step env code args (dec_core d)"
    and "code \<noteq> GPGME_STATUS_DECRYPTION_FAILED \<or> ctx_ignore_mdc_error ctx"
  shows "dec_after env code args (ctx, ds) d (put_hook (HDecrypt d') ctx, ds)"
  using assms by (auto simp: dec_after_def ctx.search_store intro: keeps_put)

lemma dec_after_same:
  assumes "get_hook OPDATA_DECRYPT ctx = Some (HDecrypt d)" "ctx_keeps {} ctx ctx'"
    and "code \<notin> {GPGME_STATUS_FAILURE, GPGME_STATUS_DECRYPTION_OKAY, GPGME_STATUS_DECRYPTION_FAILED}"
  shows "dec_after env code args (ctx, ds) d (ctx', ds)"
  using assms keeps_mono [OF assms(2), of "{OPDATA_DECRYPT}"]
  by (auto simp: dec_after_def keeps_get dec_core_step_def split: prod.splits)

lemma dec_core_same:
  "code \<notin> {GPGME_STATUS_FAILURE, GPGME_STATUS_DECRYPTION_OKAY, GPGME_STATUS_DECRYPTION_FAILED} \<Longrightarrow>
   dec_core_step env code args c = c"
  by (cases c) (simp add: dec_core_step_def)

lemma decrypt_switch_failed:
  assumes g: "get_hook OPDATA_DECRYPT ctx = Some (HDecrypt d)"
    and "decrypt_switch env (ctx, ds) d GPGME_STATUS_DECRYPTION_FAILED args = Some (st', args', e)"
  shows "dec_after env GPGME_STATUS_DECRYPTION_FAILED args (ctx, ds) d st'"
proof -
  let ?c = "put_hook (HDecrypt (d\<lparr>dec_failed := True\<rparr>)) ctx"
  have k: "ctx_keeps {OPDATA_DECRYPT} ctx ?c" by (rule keeps_put) simp_all
  have h: "get_hook OPDATA_DECRYPT ?c = Some (HDecrypt (d\<lparr>dec_failed := True\<rparr>))"
    using g by (simp add: ctx.search_store)
  have c: "dec_core (d\<lparr>dec_failed := True\<rparr>) = dec_core_step env GPGME_STATUS_DECRYPTION_FAILED args (dec_core d)"
    by (simp add: dec_core_def dec_core_step_def)
  show ?thesis
    using assms(2) k h c
    by (auto simp: decrypt_switch_def dec_after_def Let_def split: if_splits cres.splits prod.splits)
qed

lemma decrypt_switch_after:
  assumes g: "get_hook OPDATA_DECRYPT ctx = Some (HDecrypt d)"
    and s: "decrypt_switch env (ctx, ds) d code args = Some (st', args', e)"
  shows "dec_after env code args (ctx, ds) d st'"
proof -
  note put = dec_after_put [OF g] and same = dec_after_same [OF g]
    and same0 = dec_after_same [OF g keeps_refl]
  consider (failure) "code = GPGME_STATUS_FAILURE" | (failed) "code = GPGME_STATUS_DECRYPTION_FAILED"
    | (okay) "code = GPGME_STATUS_DECRYPTION_OKAY" | (info) "code = GPGME_STATUS_DECRYPTION_INFO"
    | (err) "code = GPGME_STATUS_ERROR" | (enc) "code = GPGME_STATUS_ENC_TO"
    | (sess) "code = GPGME_STATUS_SESSION_KEY" | (nosec) "code = GPGME_STATUS_NO_SECKEY"
    | (plain) "code = GPGME_STATUS_PLAINTEXT" | (maxlen) "code = GPGME_STATUS_INQUIRE_MAXLEN"
    | (compl) "code = GPGME_STATUS_DECRYPTION_COMPLIANCE_MODE"
    | (rest) "code \<notin> {GPGME_STATUS_FAILURE, GPGME_STATUS_DECRYPTION_FAILED, GPGME_STATUS_DECRYPTION_OKAY,
        GPGME_STATUS_DECRYPTION_INFO, GPGME_STATUS_ERROR, GPGME_STATUS_ENC_TO, GPGME_STATUS_SESSION_KEY,
        GPGME_STATUS_NO_SECKEY, GPGME_STATUS_PLAINTEXT, GPGME_STATUS_INQUIRE_MAXLEN,
        GPGME_STATUS_DECRYPTION_COMPLIANCE_MODE}"
    by blast
  then show ?thesis
  proof cases
    case failure
    then show ?thesis
      using s by (auto simp: decrypt_switch_def intro!: put split: prod.splits)
        (simp add: dec_core_def dec_core_step_def)
  next
    case failed
    then show ?thesis using decrypt_switch_failed [OF g] s by simp
  next
    case okay
    then show ?thesis
      using s by (auto simp: decrypt_switch_def intro!: put) (simp add: dec_core_def dec_core_step_def)
  next
    case info
    then show ?thesis
      using s by (auto simp: decrypt_switch_def intro!: put split: option.splits prod.splits)
        (simp add: parse_decryption_info_core dec_core_same)
  next
    case err
    then show ?thesis
      using s by (auto simp: decrypt_switch_def intro!: put split: option.splits prod.splits)
        (simp add: parse_status_error_core dec_core_same)
  next
    case enc
    then show ?thesis
      using s by (auto simp: decrypt_switch_def dec_core_same intro!: put same0 split: cres.splits)
        (simp add: dec_core_def)
  next
    case sess
    then show ?thesis
      using s by (auto simp: decrypt_switch_def dec_core_same intro!: put) (simp_all add: dec_core_def)
  next
    case nosec
    then show ?thesis
      using s by (auto simp: decrypt_switch_def dec_core_same intro!: put same0 split: option.splits)
        (simp add: dec_core_def)
  next
    case plain
    then show ?thesis
      using s by (auto simp: decrypt_switch_def dec_core_same intro!: put same0 split: prod.splits cres.splits)
        (simp_all add: dec_core_def)
  next
    case maxlen
    then show ?thesis
      using s by (auto simp: decrypt_switch_def intro!: same split: prod.splits dest: keeps_cb [where I = "{}"])
  next
    case compl
    then show ?thesis
      using s by (auto simp: decrypt_switch_def dec_core_same intro!: put split: if_splits)
        (simp add: dec_core_def)
  next
    case rest
    then have "st' = (ctx, ds)" using s by (simp add: decrypt_switch_def split: if_splits)
    then show ?thesis using same [of ctx code] rest by simp
  qed
qed

lemma then_handler_ok:
  assumes "then_handler h1 h2 s code args = Some (s', args', e)"
  obtains (first) "h1 s code args = Some (s', args', e)" "e \<noteq> no_error"
    | (second) s1 args1 where "h1 s code args = Some (s1, args1, no_error)" "h2 s1 code args1 = Some (s', args', e)"
  using assms that by (auto simp: then_handler_def split: option.splits prod.splits if_splits)

lemma lift_ctx_Some:
  "lift_ctx h st code args = Some (st', args', e) \<longleftrightarrow>
     (\<exists>c. h (fst st) code args = Some (c, args', e) \<and> st' = (c, snd st))"
  by (auto simp: lift_ctx_def split: option.splits prod.splits)

text \<open>A line that all three handlers accept.\<close>

lemma decrypt_handler_cases:
  assumes "decrypt_status_handler env st code args = Some (st', args', e)"
  obtains (progress) c where "ctx_keeps {} (fst st) c" "e \<noteq> no_error" "st' = (c, snd st)"
      "gpgme_progress_status_handler env (fst st) code args = Some (c, args', e)"
    | (passphrase) c1 c2 where "ctx_keeps {} (fst st) c1"
        "gpgme_passphrase_status_handler env c1 code args = Some (c2, args', e)" "e \<noteq> no_error" "st' = (c2, snd st)"
    | (own) c1 c2 d where "ctx_keeps {} (fst st) c1"
        "gpgme_passphrase_status_handler env c1 code args = Some (c2, args, no_error)"
        "get_hook OPDATA_DECRYPT c2 = Some (HDecrypt d)"
        "decrypt_switch env (c2, snd st) d code args = Some (st', args', e)"
  using assms unfolding decrypt_status_handler_def
proof (cases rule: then_handler_ok)
  case first
  then show ?thesis using progress progress_handler_keeps by (auto simp: lift_ctx_Some)
next
  case (second s1 args1)
  then obtain c1 where c1: "gpgme_progress_status_handler env (fst st) code args = Some (c1, args1, no_error)"
      "s1 = (c1, snd st)" by (auto simp: lift_ctx_Some)
  have k1: "ctx_keeps {} (fst st) c1" "args1 = args" using progress_handler_keeps [OF c1(1)] by auto
  from second(2) show ?thesis unfolding gpgme_decrypt_status_handler_def
  proof (cases rule: then_handler_ok)
    case first
    then show ?thesis using passphrase k1 c1(2) by (auto simp: lift_ctx_Some)
  next
    case (second s2 args2)
    then obtain c2 where c2: "gpgme_passphrase_status_handler env c1 code args = Some (c2, args2, no_error)"
        "s2 = (c2, snd st)" using c1(2) k1 by (auto simp: lift_ctx_Some)
    have "args2 = args" using passphrase_handler_keeps [OF c2(1)] by simp
    moreover from second(2) c2(2) obtain d where "get_hook OPDATA_DECRYPT c2 = Some (HDecrypt d)"
        "decrypt_switch env (c2, snd st) d code args2 = Some (st', args', e)"
      by (auto simp: decrypt_own_handler_def split: option.splits op_hook.splits)
    ultimately show ?thesis using own [OF k1(1)] c2(1) by simp
  qed
qed

text \<open>What a run of accepted lines amounts to.\<close>

definition dec_core_run :: "op_env \<Rightarrow> (int \<times> string) list \<Rightarrow> bool \<times> bool \<times> gpgme_error_t \<times> 64 word \<Rightarrow>
     bool \<times> bool \<times> gpgme_error_t \<times> 64 word" where
  "dec_core_run env ls c = fold (\<lambda>(code, args). dec_core_step env code args) ls c"

lemma decrypt_line_ok:
  assumes "decrypt_status_handler env st code args = Some (st', args', no_error)"
    and "get_hook OPDATA_DECRYPT (fst st) = Some (HDecrypt d)" "pp_inv (fst st)" "code \<noteq> GPGME_STATUS_EOF"
  shows "\<exists>d'. get_hook OPDATA_DECRYPT (fst st') = Some (HDecrypt d')
     \<and> dec_core d' = dec_core_step env code args (dec_core d) \<and> pp_inv (fst st')
     \<and> pp_state (fst st') = pp_refused [(code, args)] (pp_state (fst st))
     \<and> ctx_ignore_mdc_error (fst st') = ctx_ignore_mdc_error (fst st)"
  using assms(1)
proof (cases rule: decrypt_handler_cases)
  case (own c1 c2 d0)
  have k2: "ctx_keeps {OPDATA_PASSPHRASE} c1 c2" using passphrase_handler_keeps [OF own(2)] by simp
  have "d0 = d" using own(1,3) k2 assms(2) by (simp add: ctx_keeps_def)
  then have after: "dec_after env code args (c2, snd st) d st'" using decrypt_switch_after own(3,4) by blast
  have p: "pp_inv c1" "pp_state c1 = pp_state (fst st)" using pp_keeps [OF own(1)] assms(3) by simp_all
  have "pp_inv c2 \<and> pp_state c2 = pp_refused [(code, args)] (pp_state c1)"
    using passphrase_step_ok [OF own(2) p(1) assms(4)] .
  moreover have "pp_state (fst st') = pp_state c2 \<and> pp_inv (fst st') = pp_inv c2"
    using after by (intro pp_keeps [where I = "{OPDATA_DECRYPT}"]) (simp_all add: dec_after_def)
  ultimately show ?thesis using after p k2 own(1) by (auto simp: dec_after_def ctx_keeps_def)
qed simp_all

lemma decrypt_feed_ok:
  assumes "feed (decrypt_status_handler env) st ls = Some (st', no_error)"
    and "get_hook OPDATA_DECRYPT (fst st) = Some (HDecrypt d)" "pp_inv (fst st)"
    and "\<forall>l\<in>set ls. fst l \<noteq> GPGME_STATUS_EOF"
  shows "\<exists>d'. get_hook OPDATA_DECRYPT (fst st') = Some (HDecrypt d')
     \<and> dec_core d' = dec_core_run env ls (dec_core d) \<and> pp_inv (fst st')
     \<and> pp_state (fst st') = pp_refused ls (pp_state (fst st))"
  using assms
proof (induction ls arbitrary: st d)
  case Nil
  then show ?case by (simp add: dec_core_run_def pp_refused_def)
next
  case (Cons l ls)
  obtain code args where l: "l = (code, args)" by (cases l)
  obtain s1 a1 where s1: "decrypt_status_handler env st code args = Some (s1, a1, no_error)"
      "feed (decrypt_status_handler env) s1 ls = Some (st', no_error)"
    using Cons.prems(1) by (auto simp: l split: option.splits if_splits)
  obtain d1 where d1: "get_hook OPDATA_DECRYPT (fst s1) = Some (HDecrypt d1)"
      "dec_core d1 = dec_core_step env code args (dec_core d)" "pp_inv (fst s1)"
      "pp_state (fst s1) = pp_refused [(code, args)] (pp_state (fst st))"
    using decrypt_line_ok [OF s1(1) Cons.prems(2,3)] Cons.prems(4) l by auto
  show ?case
    using Cons.IH [OF s1(2) d1(1,3)] Cons.prems(4) d1(2,4) by (simp add: l dec_core_run_def pp_refused_def)
qed

lemma decrypt_eof_ok: "decrypt_eof ctx d = no_error \<longleftrightarrow> dec_okay d \<and> \<not> dec_failed d \<and> dec_failure_code d = no_error"
  by (simp add: decrypt_eof_def)

lemma dec_core_run_seen:
  "dec_core_run env ls (okay, failed, fc, s) =
     (okay \<or> GPGME_STATUS_DECRYPTION_OKAY \<in> fst ` set ls, failed \<or> GPGME_STATUS_DECRYPTION_FAILED \<in> fst ` set ls,
      fold (\<lambda>(code, args) e. if code = GPGME_STATUS_FAILURE then snd (gpgme_parse_failure env args) else e) ls fc, s)"
proof (induction ls arbitrary: okay failed fc)
  case (Cons l ls)
  then show ?case by (cases l) (auto simp: dec_core_run_def dec_core_step_def)
qed (simp add: dec_core_run_def)

lemma decrypt_eof_line:
  assumes "get_hook OPDATA_DECRYPT (fst st) = Some (HDecrypt d)" "core env ''op_data''" "ctx_ok (fst st)"
  shows "\<exists>st' args'. decrypt_status_handler env st GPGME_STATUS_EOF args = Some (st', args',
     if pp_state (fst st) then gpg_error GPG_ERR_BAD_PASSPHRASE else decrypt_eof (fst st) d)"
proof -
  have p: "gpgme_progress_status_handler env (fst st) GPGME_STATUS_EOF args = Some (fst st, args, no_error)"
    by (simp add: progress_handler_quiet)
  obtain c2 e where q: "gpgme_passphrase_status_handler env (fst st) GPGME_STATUS_EOF args = Some (c2, args, e)"
    using passphrase_handler_total [OF assms(3)] by blast
  note e = passphrase_eof [OF q assms(2)]
  then have "get_hook OPDATA_DECRYPT c2 = Some (HDecrypt d)" "ctx_ignore_mdc_error c2 = ctx_ignore_mdc_error (fst st)"
    using assms(1) by (simp_all add: ctx_keeps_def)
  then show ?thesis
    using e
    by (auto simp: decrypt_status_handler_def then_handler_def lift_ctx_def p gpgme_decrypt_status_handler_def q
        decrypt_own_handler_def decrypt_switch_def decrypt_eof_def)
qed

lemma decrypt_feed_ctx_ok:
  assumes "feed (decrypt_status_handler env) st ls = Some (st', e)" "ctx_ok (fst st)"
  shows "ctx_ok (fst st')"
proof (rule feed_invariant [where I = "\<lambda>s. ctx_ok (fst s)", OF _ assms(2,1)])
  fix s c a s' a' e'
  assume ok: "ctx_ok (fst s)" and h: "decrypt_status_handler env s c a = Some (s', a', e')"
  from h show "ctx_ok (fst s')"
  proof (cases rule: decrypt_handler_cases)
    case (own c1 c2 d)
    have "ctx_keeps {OPDATA_PASSPHRASE} c1 c2" using passphrase_handler_keeps [OF own(2)] by simp
    moreover have "dec_after env c a (c2, snd s) d s'" using decrypt_switch_after [OF own(3,4)] .
    ultimately show ?thesis using own(1) ok by (simp add: ctx_keeps_def dec_after_def)
  next
    case (passphrase c1 c2)
    then show ?thesis using passphrase_handler_keeps [OF passphrase(2)] ok by (simp add: ctx_keeps_def)
  qed (use ok in \<open>simp add: ctx_keeps_def\<close>)
qed

section \<open>Properties\<close>


definition dec_sample_ctx :: gpgme_ctx where
  "dec_sample_ctx = sample_ctx\<lparr>ctx_op_data := [HDecrypt zero_decrypt]\<rparr>"


end
