(* ===== verification/Gpgme_Verify.thy ===== *)
theory Gpgme_Verify
  imports Gpgme_OpSupport
begin

text \<open>
  The verify operation (\<open>verify.c\<close>, with the notation objects of \<open>sig-notation.c\<close>): the list of
  signatures built from the status lines, the parser of each line, the summary bits and the
  result. The verify handler is the last of every chain, so what it leaves of the arguments is
  not modelled: it returns them unchanged.

  A C pointer into the arguments is the suffix it points to, so that comparing two pointers
  into the same string is comparing suffixes.
\<close>

unbundle bit_operations_syntax

section \<open>Notations\<close>

abbreviation GPGME_SIG_NOTATION_HUMAN_READABLE :: int where "GPGME_SIG_NOTATION_HUMAN_READABLE \<equiv> 1"
abbreviation GPGME_SIG_NOTATION_CRITICAL :: int where "GPGME_SIG_NOTATION_CRITICAL \<equiv> 2"

definition sig_notation_set_flags :: "sig_notation \<Rightarrow> int \<Rightarrow> sig_notation" where
  "sig_notation_set_flags n flags =
     n\<lparr>nota_human_readable := (flags mod 2 = 1), nota_critical := ((flags div 2) mod 2 = 1),
       nota_flags := flags\<rparr>"

definition zero_notation :: sig_notation where
  "zero_notation = \<lparr>nota_name = None, nota_value = None, nota_name_len = 0, nota_value_len = 0,
     nota_flags = 0, nota_human_readable = False, nota_critical = False\<rparr>"

text \<open>
  \<open>_gpgme_sig_notation_create\<close>. Name and value come as the bytes of the given length; a byte
  string that contains a NUL is longer than the C string it makes.
\<close>

definition gpgme_sig_notation_create ::
    "op_env \<Rightarrow> string option \<Rightarrow> string option \<Rightarrow> int \<Rightarrow> sig_notation cres" where
  "gpgme_sig_notation_create env name val flags =
     (if name \<noteq> None \<and> flags mod 2 = 0 then Err (gpg_error GPG_ERR_INV_VALUE)
      else if \<not> core env ''notation'' then Err (syserror ENOMEM)
      else if name \<noteq> None \<and> \<not> core env ''notation.name'' then Err (syserror ENOMEM)
      else if val \<noteq> None \<and> \<not> core env ''notation.value'' then Err (syserror ENOMEM)
      else Ok (sig_notation_set_flags
                 (zero_notation\<lparr>nota_name := name, nota_value := val,
                    nota_name_len := (case name of None \<Rightarrow> 0 | Some s \<Rightarrow> int (length s)),
                    nota_value_len := (case val of None \<Rightarrow> 0 | Some s \<Rightarrow> int (length s))\<rparr>) flags))"

text \<open>
  \<open>_gpgme_parse_notation\<close>: a notation or policy URL subpacket. \<open>len\<close> is the length the packet
  claims, \<open>data\<close> its percent-escaped bytes. \<open>UB\<close>: the decoded bytes end before a field that
  is read.
\<close>

definition get_word :: "string \<Rightarrow> int" where
  "get_word b = int (uchar (b ! 0)) * 256 + int (uchar (b ! 1))"

definition gpgme_parse_notation_packet ::
    "op_env \<Rightarrow> int \<Rightarrow> int \<Rightarrow> int \<Rightarrow> string \<Rightarrow> sig_notation option cres" where
  "gpgme_parse_notation_packet env type pkflags len data =
     (if type \<noteq> 20 \<and> type \<noteq> 26 then Ok None
      else if to_ulong len > int (length data) then Err (gpg_error GPG_ERR_INV_ENGINE)
      else if type = 20 \<and> len < 8 then Err (gpg_error GPG_ERR_INV_ENGINE)
      else case gpgme_decode_percent_string (core env ''decoded_data'') data 0 True of
        UB \<Rightarrow> UB
      | Err e \<Rightarrow> Err e
      | Ok decoded \<Rightarrow>
          (let flags = (if (pkflags div 2) mod 2 = 1 then GPGME_SIG_NOTATION_CRITICAL else 0);
               bdata = decoded @ [NUL];
               made = (\<lambda>r. case r of UB \<Rightarrow> UB | Err e \<Rightarrow> Err e | Ok n \<Rightarrow> Ok (Some n))
           in if type = 20 then
                (if length bdata < 8 then UB
                 else
                   (let hr = (if 128 \<le> uchar (bdata ! 0) then GPGME_SIG_NOTATION_HUMAN_READABLE else 0);
                        name_len = get_word (drop 4 bdata);
                        value_len = get_word (drop 6 bdata)
                    in if 8 + name_len + value_len > len then Err (gpg_error GPG_ERR_INV_ENGINE)
                       else if int (length bdata) < 8 + name_len + value_len then UB
                       else made (gpgme_sig_notation_create env
                              (Some (take (nat name_len) (drop 8 bdata)))
                              (Some (take (nat value_len) (drop (8 + nat name_len) bdata)))
                              (flags + hr))))
              else made (gpgme_sig_notation_create env None
                     (Some (takeWhile (\<lambda>c. c \<noteq> NUL) bdata)) flags)))"

section \<open>Summary\<close>

abbreviation GPGME_SIGSUM_VALID :: "32 word" where "GPGME_SIGSUM_VALID \<equiv> 0x0001"
abbreviation GPGME_SIGSUM_GREEN :: "32 word" where "GPGME_SIGSUM_GREEN \<equiv> 0x0002"
abbreviation GPGME_SIGSUM_RED :: "32 word" where "GPGME_SIGSUM_RED \<equiv> 0x0004"
abbreviation GPGME_SIGSUM_KEY_REVOKED :: "32 word" where "GPGME_SIGSUM_KEY_REVOKED \<equiv> 0x0010"
abbreviation GPGME_SIGSUM_KEY_EXPIRED :: "32 word" where "GPGME_SIGSUM_KEY_EXPIRED \<equiv> 0x0020"
abbreviation GPGME_SIGSUM_SIG_EXPIRED :: "32 word" where "GPGME_SIGSUM_SIG_EXPIRED \<equiv> 0x0040"
abbreviation GPGME_SIGSUM_KEY_MISSING :: "32 word" where "GPGME_SIGSUM_KEY_MISSING \<equiv> 0x0080"
abbreviation GPGME_SIGSUM_CRL_TOO_OLD :: "32 word" where "GPGME_SIGSUM_CRL_TOO_OLD \<equiv> 0x0200"
abbreviation GPGME_SIGSUM_BAD_POLICY :: "32 word" where "GPGME_SIGSUM_BAD_POLICY \<equiv> 0x0400"
abbreviation GPGME_SIGSUM_SYS_ERROR :: "32 word" where "GPGME_SIGSUM_SYS_ERROR \<equiv> 0x0800"

definition status_usable :: "gpg_err_code \<Rightarrow> bool" where
  "status_usable c \<longleftrightarrow> c = GPG_ERR_NO_ERROR \<or> c = GPG_ERR_SIG_EXPIRED \<or> c = GPG_ERR_KEY_EXPIRED"

definition sum_colour :: "signature \<Rightarrow> 32 word" where
  "sum_colour s =
     (let c = gpg_err_code (sig_status s) in
      if sig_validity s = GPGME_VALIDITY_FULL \<or> sig_validity s = GPGME_VALIDITY_ULTIMATE
      then (if status_usable c then GPGME_SIGSUM_GREEN else 0)
      else if sig_validity s = GPGME_VALIDITY_NEVER
      then (if status_usable c then GPGME_SIGSUM_RED else 0)
      else if c = GPG_ERR_BAD_SIGNATURE then GPGME_SIGSUM_RED else 0)"

definition sum_status :: "gpg_err_code \<Rightarrow> 32 word" where
  "sum_status c =
     (if c = GPG_ERR_SIG_EXPIRED then GPGME_SIGSUM_SIG_EXPIRED
      else if c = GPG_ERR_KEY_EXPIRED then GPGME_SIGSUM_KEY_EXPIRED
      else if c = GPG_ERR_NO_PUBKEY then GPGME_SIGSUM_KEY_MISSING
      else if c = GPG_ERR_CERT_REVOKED then GPGME_SIGSUM_KEY_REVOKED
      else if c = GPG_ERR_BAD_SIGNATURE \<or> c = GPG_ERR_NO_ERROR then 0
      else GPGME_SIGSUM_SYS_ERROR)"

definition sum_reason :: "signature \<Rightarrow> 32 word" where
  "sum_reason s =
     (let r = gpg_err_code (sig_validity_reason s) in
      if r = GPG_ERR_CRL_TOO_OLD
      then (if sig_validity s = GPGME_VALIDITY_UNKNOWN then GPGME_SIGSUM_CRL_TOO_OLD else 0)
      else if r = GPG_ERR_CERT_REVOKED then GPGME_SIGSUM_KEY_REVOKED else 0)"

definition calc_sig_summary :: "signature \<Rightarrow> signature" where
  "calc_sig_summary s =
     (let sum = sum_colour s OR sum_status (gpg_err_code (sig_status s)) OR sum_reason s
                OR (if sig_wrong_key_usage s then GPGME_SIGSUM_BAD_POLICY else 0);
          sum = (if sum AND GPGME_SIGSUM_GREEN \<noteq> 0 \<and> sum AND NOT GPGME_SIGSUM_GREEN = 0
                 then sum OR GPGME_SIGSUM_VALID else sum)
      in s\<lparr>sig_summary := sum\<rparr>)"

section \<open>The current signature\<close>

definition cur_get :: "op_verify \<Rightarrow> signature option" where
  "cur_get opd =
     (case vf_current_sig opd of
        NoSig \<Rightarrow> None
      | SigAt i \<Rightarrow> if i < length (vf_signatures opd) then Some (vf_signatures opd ! i) else None
      | LooseSig s \<Rightarrow> Some s)"

definition cur_put :: "signature \<Rightarrow> op_verify \<Rightarrow> op_verify" where
  "cur_put s opd =
     (case vf_current_sig opd of
        NoSig \<Rightarrow> opd
      | SigAt i \<Rightarrow> opd\<lparr>vf_signatures := (vf_signatures opd)[i := s]\<rparr>
      | LooseSig _ \<Rightarrow> opd\<lparr>vf_current_sig := LooseSig s\<rparr>)"

definition prepare_new_sig :: "op_env \<Rightarrow> op_verify \<Rightarrow> (op_verify \<times> gpgme_error_t) option" where
  "prepare_new_sig env opd =
     (if vf_only_newsig_seen opd \<and> cur_get opd \<noteq> None then
        (if vf_current_sig opd = SigAt 0
         then Some (opd\<lparr>vf_signatures := [zero_signature], vf_did_prepare_new_sig := True,
                        vf_only_newsig_seen := False\<rparr>, no_error)
         else None)
      else if \<not> core env ''signature'' then Some (opd, syserror ENOMEM)
      else
        (let (sigs, cur) =
               (if vf_signatures opd = [] then ([zero_signature], SigAt 0)
                else case vf_current_sig opd of
                  SigAt i \<Rightarrow> (take (i + 1) (vf_signatures opd) @ [zero_signature], SigAt (i + 1))
                | _ \<Rightarrow> (vf_signatures opd, LooseSig zero_signature))
         in Some (opd\<lparr>vf_signatures := sigs, vf_current_sig := cur, vf_did_prepare_new_sig := True,
                      vf_only_newsig_seen := False\<rparr>, no_error)))"

section \<open>The lines that start a signature\<close>

text \<open>
  The ERRSIG arguments behind the key ID. \<open>Inl\<close>: the function returns the error at once;
  \<open>Inr\<close>: it goes on, the flag telling whether a fingerprint was taken from the line. A time
  stamp parser that stores no end pointer leaves \<open>tail\<close> where the hash algorithm ended.
\<close>

definition errsig_fail :: "signature \<Rightarrow> (signature \<times> gpgme_error_t) + (signature \<times> bool)" where
  "errsig_fail s = Inr (s\<lparr>sig_status := gpg_error GPG_ERR_GENERAL\<rparr>, False)"

definition errsig_status ::
    "op_env \<Rightarrow> signature \<Rightarrow> string \<Rightarrow> (signature \<times> gpgme_error_t) + (signature \<times> bool)" where
  "errsig_status env s p =
     (if p = [] then errsig_fail s
      else case strtoul 10 p of
        (v, tail, e) \<Rightarrow>
          (let s1 = s\<lparr>sig_status := err_of_num env v\<rparr>
           in if e \<or> p = tail \<or> (tail \<noteq> [] \<and> peek tail \<noteq> CHR '' '') then errsig_fail s1
              else if tail = [] then Inr (s1, False)
              else
                (let q = skip_spaces tail
                 in if q = [] \<or> (peek q = CHR ''-'' \<and> (cchr q 1 = CHR '' '' \<or> cchr q 1 = NUL))
                    then Inr (s1, False)
                    else if core env ''fpr'' then Inr (s1\<lparr>sig_fpr := Some q\<rparr>, True)
                    else Inl (s1\<lparr>sig_fpr := None\<rparr>, syserror ENOMEM))))"

definition errsig_args ::
    "op_env \<Rightarrow> gpgme_protocol_t \<Rightarrow> signature \<Rightarrow> string option \<Rightarrow>
     (signature \<times> gpgme_error_t) + (signature \<times> bool)" where
  "errsig_args env protocol s end =
     (case end of
        None \<Rightarrow> errsig_fail s
      | Some p1 \<Rightarrow>
          (case strtol 0 p1 of
             (algo, t1, e1) \<Rightarrow>
               (let s1 = s\<lparr>sig_pubkey_algo := gpgme_map_pk_algo (to_int32 algo) protocol\<rparr>;
                    p2 = skip_spaces t1
                in if e1 \<or> p1 = t1 \<or> peek t1 \<noteq> CHR '' '' \<or> p2 = [] then errsig_fail s1
                   else case strtol 0 p2 of
                     (halgo, t2, e2) \<Rightarrow>
                       (let s2 = s1\<lparr>sig_hash_algo := to_int32 halgo\<rparr>
                        in if e2 \<or> p2 = t2 \<or> peek t2 \<noteq> CHR '' '' then errsig_fail s2
                           else case strchr_split CHR '' '' (skip_spaces t2) of
                             (_, None) \<Rightarrow> errsig_fail s2
                           | (_, Some r) \<Rightarrow>
                               (let p4 = skip_spaces r
                                in case gpgme_parse_timestamp p4 of
                                  (ts, ep) \<Rightarrow>
                                    (let s3 = s2\<lparr>sig_timestamp := to_ulong ts\<rparr>;
                                         tail = (case ep of None \<Rightarrow> t2 | Some t \<Rightarrow> t)
                                     in if ts = - 1 \<or> p4 = tail \<or> (tail \<noteq> [] \<and> peek tail \<noteq> CHR '' '')
                                        then Inl (s3, gpg_error GPG_ERR_INV_ENGINE)
                                        else errsig_status env s3 (skip_spaces tail)))))))"

text \<open>The status of a signature line and the fingerprint; the results are signature and error.\<close>

definition new_sig_status ::
    "op_env \<Rightarrow> gpgme_protocol_t \<Rightarrow> int \<Rightarrow> string \<Rightarrow> string option \<Rightarrow> signature \<Rightarrow> signature \<times> gpgme_error_t" where
  "new_sig_status env protocol code args end s =
     (let fpr = (\<lambda>s. if args = [] then (s, no_error)
                     else if core env ''fpr'' then (s\<lparr>sig_fpr := Some args\<rparr>, no_error)
                     else (s\<lparr>sig_fpr := None\<rparr>, syserror ENOMEM))
      in if code = GPGME_STATUS_GOODSIG then fpr (s\<lparr>sig_status := no_error\<rparr>)
         else if code = GPGME_STATUS_EXPSIG then fpr (s\<lparr>sig_status := gpg_error GPG_ERR_SIG_EXPIRED\<rparr>)
         else if code = GPGME_STATUS_EXPKEYSIG then fpr (s\<lparr>sig_status := gpg_error GPG_ERR_KEY_EXPIRED\<rparr>)
         else if code = GPGME_STATUS_BADSIG then fpr (s\<lparr>sig_status := gpg_error GPG_ERR_BAD_SIGNATURE\<rparr>)
         else if code = GPGME_STATUS_REVKEYSIG then fpr (s\<lparr>sig_status := gpg_error GPG_ERR_CERT_REVOKED\<rparr>)
         else if code = GPGME_STATUS_ERRSIG then
           (case errsig_args env protocol s end of
              Inl (s1, e) \<Rightarrow> (s1, e)
            | Inr (s1, got_fpr) \<Rightarrow> if got_fpr then (s1, no_error) else fpr s1)
         else (s, gpg_error GPG_ERR_GENERAL))"

definition parse_new_sig ::
    "op_env \<Rightarrow> op_verify \<Rightarrow> int \<Rightarrow> string \<Rightarrow> gpgme_protocol_t \<Rightarrow> (op_verify \<times> gpgme_error_t) option" where
  "parse_new_sig env opd code args protocol =
     (let (a, end) = strchr_split CHR '' '' args
      in case (if vf_did_prepare_new_sig opd then Some (opd, no_error) else prepare_new_sig env opd) of
           None \<Rightarrow> None
         | Some (opd1, err) \<Rightarrow>
             if is_err err then Some (opd1, err)
             else
               (let opd2 = opd1\<lparr>vf_did_prepare_new_sig := False\<rparr>
                in case cur_get opd2 of
                     None \<Rightarrow> None
                   | Some s \<Rightarrow>
                       (case new_sig_status env protocol code a end s of
                          (s1, e) \<Rightarrow> Some (cur_put s1 opd2, e))))"

section \<open>VALIDSIG\<close>

text \<open>
  The parsers of lines that describe the current signature return the signature and the error.
  \<open>None\<close>: a VALIDSIG line with a fingerprint only makes the code search behind a null pointer,
  and one whose third field is missing makes it use an uninitialised end pointer.
\<close>

definition valid_sig_algos ::
    "gpgme_protocol_t \<Rightarrow> signature \<Rightarrow> string \<Rightarrow> signature \<times> gpgme_error_t" where
  "valid_sig_algos protocol s p =
     (case strchr_split CHR '' '' (skip_spaces p) of
        (_, None) \<Rightarrow> (s, no_error)
      | (_, Some r) \<Rightarrow>
          (case strchr_split CHR '' '' (skip_spaces r) of
             (_, None) \<Rightarrow> (s, no_error)
           | (_, Some r2) \<Rightarrow>
               (let q = CHR '' '' # r2
                in case strtol 0 q of
                  (algo, tail, e) \<Rightarrow>
                    (let s1 = s\<lparr>sig_pubkey_algo := gpgme_map_pk_algo (to_int32 algo) protocol\<rparr>;
                         q2 = skip_spaces tail
                     in if e \<or> q = tail \<or> peek tail \<noteq> CHR '' '' then (s1, gpg_error GPG_ERR_INV_ENGINE)
                        else if q2 = [] then (s1, no_error)
                        else case strtol 0 q2 of
                          (halgo, tail2, e2) \<Rightarrow>
                            (let s2 = s1\<lparr>sig_hash_algo := to_int32 halgo\<rparr>
                             in if e2 \<or> q2 = tail2 \<or> peek tail2 \<noteq> CHR '' ''
                                then (s2, gpg_error GPG_ERR_INV_ENGINE) else (s2, no_error))))))"

definition valid_sig_times ::
    "gpgme_protocol_t \<Rightarrow> signature \<Rightarrow> string \<Rightarrow> (signature \<times> gpgme_error_t) option" where
  "valid_sig_times protocol s p =
     (case gpgme_parse_timestamp p of
        (ts, ep) \<Rightarrow>
          (let s1 = s\<lparr>sig_timestamp := to_ulong ts\<rparr>
           in if ts = - 1 then Some (s1, gpg_error GPG_ERR_INV_ENGINE)
              else case ep of
                None \<Rightarrow> None
              | Some t \<Rightarrow>
                  if p = t \<or> (t \<noteq> [] \<and> peek t \<noteq> CHR '' '') then Some (s1, gpg_error GPG_ERR_INV_ENGINE)
                  else case gpgme_parse_timestamp t of
                    (ts2, ep2) \<Rightarrow>
                      (let s2 = s1\<lparr>sig_exp_timestamp := to_ulong ts2\<rparr>;
                           t2 = (case ep2 of None \<Rightarrow> t | Some x \<Rightarrow> x)
                       in if ts2 = - 1 \<or> t = t2 \<or> (t2 \<noteq> [] \<and> peek t2 \<noteq> CHR '' '')
                          then Some (s2, gpg_error GPG_ERR_INV_ENGINE)
                          else Some (valid_sig_algos protocol s2 t2))))"

definition parse_valid_sig ::
    "op_env \<Rightarrow> signature \<Rightarrow> string \<Rightarrow> gpgme_protocol_t \<Rightarrow> (signature \<times> gpgme_error_t) option" where
  "parse_valid_sig env s args protocol =
     (case strchr_split CHR '' '' args of
        (a, end) \<Rightarrow>
          if a = [] then Some (s, gpg_error GPG_ERR_GENERAL)
          else if \<not> core env ''fpr'' then Some (s\<lparr>sig_fpr := None\<rparr>, syserror ENOMEM)
          else
            (let s1 = s\<lparr>sig_fpr := Some a\<rparr>
             in case end of
                  None \<Rightarrow> None
                | Some p \<Rightarrow>
                    (case strchr_split CHR '' '' p of
                       (_, None) \<Rightarrow> Some (s1, no_error)
                     | (_, Some r) \<Rightarrow> valid_sig_times protocol s1 (CHR '' '' # r))))"

section \<open>Notations and trust\<close>

definition parse_notation ::
    "op_env \<Rightarrow> signature \<Rightarrow> int \<Rightarrow> string \<Rightarrow> signature \<times> gpgme_error_t" where
  "parse_notation env s code args =
     (let ns = sig_notations s;
          inv = (s, gpg_error GPG_ERR_INV_ENGINE)
      in if code = GPGME_STATUS_NOTATION_NAME \<or> code = GPGME_STATUS_POLICY_URL then
           (let a = fst (strchr_split CHR '' '' args)
            in if \<exists>n\<in>set ns. nota_value n = None then inv
               else case gpgme_sig_notation_create env None None 0 of
                 Ok n \<Rightarrow>
                   (case gpgme_decode_percent_string (core env ''percent'') a 0 False of
                      Ok d \<Rightarrow>
                        (s\<lparr>sig_notations := ns @
                           [if code = GPGME_STATUS_NOTATION_NAME
                            then n\<lparr>nota_name := Some d, nota_name_len := int (length d),
                                   nota_flags := GPGME_SIG_NOTATION_HUMAN_READABLE, nota_human_readable := True\<rparr>
                            else n\<lparr>nota_value := Some d, nota_value_len := int (length d)\<rparr>]\<rparr>, no_error)
                    | Err e \<Rightarrow> (s, e)
                    | UB \<Rightarrow> inv)
               | Err e \<Rightarrow> (s, e)
               | UB \<Rightarrow> inv)
         else if code = GPGME_STATUS_NOTATION_FLAGS then
           (if ns = [] \<or> nota_name (last ns) = None then inv
            else
              (let field = gpgme_split_fields args 2
               in if length field < 2 then inv
                  else
                    (let n = last ns;
                         crit = (atoi (field ! 0) \<noteq> 0);
                         hr = (atoi (field ! 1) \<noteq> 0)
                     in (s\<lparr>sig_notations := butlast ns @
                           [n\<lparr>nota_flags := (if crit then GPGME_SIG_NOTATION_CRITICAL else 0)
                                           + (if hr then GPGME_SIG_NOTATION_HUMAN_READABLE else 0),
                              nota_critical := (crit \<or> nota_critical n),
                              nota_human_readable := (hr \<or> nota_human_readable n)\<rparr>]\<rparr>, no_error))))
         else if code = GPGME_STATUS_NOTATION_DATA then
           (if ns = [] \<or> nota_name (last ns) = None then inv
            else if \<not> core env ''notation.data'' then (s, syserror ENOMEM)
            else
              (let n = last ns;
                   old = (case nota_value n of None \<Rightarrow> [] | Some v \<Rightarrow> v);
                   d = decode_percent_loop False args
               in (s\<lparr>sig_notations := butlast ns @
                     [n\<lparr>nota_value := Some (old @ d), nota_value_len := nota_value_len n + int (length d)\<rparr>]\<rparr>,
                   no_error)))
         else inv)"

definition parse_trust :: "op_env \<Rightarrow> signature \<Rightarrow> int \<Rightarrow> string \<Rightarrow> signature \<times> gpgme_error_t" where
  "parse_trust env s code args =
     (let a = fst (strchr_split CHR '' '' args);
          s1 = s\<lparr>sig_validity :=
                   (if code = GPGME_STATUS_TRUST_NEVER then GPGME_VALIDITY_NEVER
                    else if code = GPGME_STATUS_TRUST_MARGINAL then GPGME_VALIDITY_MARGINAL
                    else if code = GPGME_STATUS_TRUST_FULLY \<or> code = GPGME_STATUS_TRUST_ULTIMATE
                    then GPGME_VALIDITY_FULL else GPGME_VALIDITY_UNKNOWN),
                 sig_validity_reason := no_error, sig_chain_model := False\<rparr>
      in if a = [] then (s1, no_error)
         else
           (let s2 = s1\<lparr>sig_validity_reason := err_of_num env (atoi a)\<rparr>;
                rest = dropWhile (\<lambda>c. c \<noteq> CHR '' '') a;
                r = skip_spaces rest
            in (if rest \<noteq> [] \<and> take 2 r = ''ch'' \<and> (cchr r 2 = CHR '' '' \<or> cchr r 2 = NUL)
                then s2\<lparr>sig_chain_model := True\<rparr> else s2, no_error)))"

section \<open>TOFU lines\<close>

text \<open>\<open>None\<close>: the mail address parser reads outside the address.\<close>

definition parse_tofu_user ::
    "op_env \<Rightarrow> signature \<Rightarrow> string \<Rightarrow> gpgme_protocol_t \<Rightarrow> (signature \<times> gpgme_error_t) option" where
  "parse_tofu_user env s args protocol =
     (case strchr_split CHR '' '' args of
        (_, None) \<Rightarrow> Some (s, gpg_error GPG_ERR_INV_ENGINE)
      | (fpr, Some r) \<Rightarrow>
          if fpr = [] then Some (s, gpg_error GPG_ERR_INV_ENGINE)
          else if \<not> core env ''fpr'' then Some (s, syserror ENOMEM)
          else if (case sig_key s of Some k \<Rightarrow> key_fpr k \<noteq> None \<and> key_fpr k \<noteq> Some fpr | None \<Rightarrow> False)
          then Some (s, gpg_error GPG_ERR_DUP_VALUE)
          else case strchr_split CHR '' '' r of
            (a, t) \<Rightarrow>
              if t \<noteq> None \<and> a = [] then Some (s, gpg_error GPG_ERR_INV_ENGINE)
              else case gpgme_decode_percent_string (core env ''percent'') a 0 False of
                UB \<Rightarrow> None
              | Err e \<Rightarrow> Some (s, e)
              | Ok address \<Rightarrow>
                  (case (case sig_key s of
                           None \<Rightarrow>
                             (case gpgme_key_new (core env ''key'') of
                                Ok k \<Rightarrow> Ok (k\<lparr>key_fpr := Some fpr, key_protocol := protocol\<rparr>)
                              | e \<Rightarrow> e)
                         | Some k \<Rightarrow> if key_fpr k = None then Err (gpg_error GPG_ERR_INTERNAL) else Ok k) of
                     UB \<Rightarrow> None
                   | Err e \<Rightarrow> Some (s, e)
                   | Ok k \<Rightarrow>
                       (case gpgme_key_append_name (core env) k address False of
                          UB \<Rightarrow> None
                        | Err e \<Rightarrow> Some (s\<lparr>sig_key := Some k\<rparr>, e)
                        | Ok k1 \<Rightarrow>
                            if key_uids k1 = [] then None
                            else if \<not> core env ''tofu'' then Some (s\<lparr>sig_key := Some k1\<rparr>, syserror ENOMEM)
                            else Some (s\<lparr>sig_key := Some (k1\<lparr>key_uids := butlast (key_uids k1) @
                                   [(last (key_uids k1))\<lparr>uid_tofu := Some zero_tofu\<rparr>]\<rparr>)\<rparr>, no_error))))"

text \<open>The TOFU information of the last user ID of the signature's key.\<close>

definition last_tofu :: "signature \<Rightarrow> tofu_info option" where
  "last_tofu s =
     (case sig_key s of
        None \<Rightarrow> None
      | Some k \<Rightarrow> if key_uids k = [] then None else uid_tofu (last (key_uids k)))"

definition put_tofu :: "tofu_info \<Rightarrow> signature \<Rightarrow> signature" where
  "put_tofu ti s =
     (case sig_key s of
        None \<Rightarrow> s
      | Some k \<Rightarrow> s\<lparr>sig_key := Some (k\<lparr>key_uids := butlast (key_uids k) @
          [(last (key_uids k))\<lparr>uid_tofu := Some ti\<rparr>]\<rparr>)\<rparr>)"

abbreviation USHRT_MAX :: int where "USHRT_MAX \<equiv> 65535"

definition tofu_policy_of :: "string \<Rightarrow> gpgme_tofu_policy_t" where
  "tofu_policy_of p =
     (if p = ''none'' then GPGME_TOFU_POLICY_NONE
      else if p = ''auto'' then GPGME_TOFU_POLICY_AUTO
      else if p = ''good'' then GPGME_TOFU_POLICY_GOOD
      else if p = ''bad'' then GPGME_TOFU_POLICY_BAD
      else if p = ''ask'' then GPGME_TOFU_POLICY_ASK
      else GPGME_TOFU_POLICY_UNKNOWN)"

text \<open>
  The fields in order, each with the store into the object; an invalid field ends the parsing
  with an error and keeps what was stored before.
\<close>

fun tofu_store :: "(string \<times> (int \<Rightarrow> tofu_info \<Rightarrow> tofu_info option)) list \<Rightarrow> tofu_info \<Rightarrow> tofu_info \<times> gpgme_error_t" where
  "tofu_store [] ti = (ti, no_error)"
| "tofu_store ((f, upd) # fs) ti =
     (case gpgme_strtoul_field f of
        Inl _ \<Rightarrow> (ti, gpg_error GPG_ERR_INV_ENGINE)
      | Inr u \<Rightarrow> (case upd u ti of
                    None \<Rightarrow> (ti, gpg_error GPG_ERR_INV_ENGINE)
                  | Some ti1 \<Rightarrow> tofu_store fs ti1))"

definition tofu_fields :: "string list \<Rightarrow> tofu_info \<Rightarrow> tofu_info \<times> gpgme_error_t" where
  "tofu_fields field ti =
     (let nfields = length field
      in case tofu_store
           [(field ! 0, \<lambda>u t. if u > 7 then None else Some (t\<lparr>ti_validity := u\<rparr>)),
            (field ! 1, \<lambda>u t. Some (t\<lparr>ti_signcount := min u USHRT_MAX\<rparr>)),
            (field ! 2, \<lambda>u t. Some (t\<lparr>ti_encrcount := min u USHRT_MAX\<rparr>))] ti of
        (t1, e1) \<Rightarrow>
          if is_err e1 \<or> nfields = 3 then (t1, e1)
          else
            (let t2 = t1\<lparr>ti_policy := tofu_policy_of (field ! 3)\<rparr>
             in if nfields = 4 then (t2, no_error)
                else if nfields < 6 then (t2, gpg_error GPG_ERR_INV_ENGINE)
                else tofu_store
                  ([(field ! 4, \<lambda>u t. Some (t\<lparr>ti_signfirst := u\<rparr>)),
                    (field ! 5, \<lambda>u t. Some (t\<lparr>ti_signlast := u\<rparr>))] @
                   (if nfields > 7 then
                      [(field ! 6, \<lambda>u t. Some (t\<lparr>ti_encrfirst := u\<rparr>)),
                       (field ! 7, \<lambda>u t. Some (t\<lparr>ti_encrlast := u\<rparr>))] else [])) t2))"

definition parse_tofu_stats :: "signature \<Rightarrow> string \<Rightarrow> signature \<times> gpgme_error_t" where
  "parse_tofu_stats s args =
     (case last_tofu s of
        None \<Rightarrow> (s, gpg_error GPG_ERR_INV_ENGINE)
      | Some ti \<Rightarrow>
          if ti_signfirst ti \<noteq> 0 \<or> ti_signcount ti \<noteq> 0 \<or> ti_validity ti \<noteq> 0
             \<or> ti_policy ti \<noteq> GPGME_TOFU_POLICY_NONE
          then (s, gpg_error GPG_ERR_INV_ENGINE)
          else
            (let field = gpgme_split_fields args 8
             in if length field < 3 then (s, gpg_error GPG_ERR_INV_ENGINE)
                else case tofu_fields field ti of (ti1, e) \<Rightarrow> (put_tofu ti1 s, e)))"

definition parse_tofu_stats_long ::
    "op_env \<Rightarrow> signature \<Rightarrow> string \<Rightarrow> bool \<Rightarrow> signature \<times> gpgme_error_t" where
  "parse_tofu_stats_long env s args raw =
     (case last_tofu s of
        None \<Rightarrow> (s, gpg_error GPG_ERR_INV_ENGINE)
      | Some ti \<Rightarrow>
          if ti_description ti \<noteq> None then (s, gpg_error GPG_ERR_INV_ENGINE)
          else case gpgme_decode_percent_string (core env ''percent'') args 0 False of
            Ok d \<Rightarrow>
              (put_tofu (ti\<lparr>ti_description :=
                 Some (if raw then d else map (\<lambda>c. if c = CHR ''~'' then CHR '' '' else c) d)\<rparr>) s, no_error)
          | Err e \<Rightarrow> (s, e)
          | UB \<Rightarrow> (s, gpg_error GPG_ERR_INTERNAL))"

section \<open>The status handler\<close>

text \<open>\<open>parse_error\<close>: \<open>sig\<close> may be absent; then only the double plaintext is looked for.\<close>

definition parse_error :: "op_env \<Rightarrow> signature option \<Rightarrow> string \<Rightarrow> signature option \<times> gpgme_error_t" where
  "parse_error env sig args =
     (case strchr_split CHR '' '' args of
        (_, None) \<Rightarrow> (sig, gpg_error GPG_ERR_INV_ENGINE)
      | (loc, Some which) \<Rightarrow>
          (let err = err_of_num env (atoi (fst (strchr_split CHR '' '' which)))
           in if loc = ''proc_pkt.plaintext'' \<and> gpg_err_code err = GPG_ERR_BAD_DATA
              then (sig, gpg_error GPG_ERR_BAD_DATA)
              else case sig of
                None \<Rightarrow> (None, no_error)
              | Some s \<Rightarrow>
                  if loc = ''verify.findkey'' then (Some (s\<lparr>sig_status := err\<rparr>), no_error)
                  else if loc = ''verify.keyusage'' \<and> gpg_err_code err = GPG_ERR_WRONG_KEY_USAGE
                  then (Some (s\<lparr>sig_wrong_key_usage := True\<rparr>), no_error)
                  else (Some s, no_error)))"

definition summarise :: "op_verify \<Rightarrow> op_verify" where
  "summarise opd = (case cur_get opd of None \<Rightarrow> opd | Some s \<Rightarrow> cur_put (calc_sig_summary s) opd)"

text \<open>The end of the operation: a signature of which only NEWSIG was seen is taken off the list.\<close>

definition drop_newsig :: "op_verify \<Rightarrow> op_verify option" where
  "drop_newsig opd =
     (if vf_only_newsig_seen opd \<and> cur_get opd \<noteq> None then
        (case vf_current_sig opd of
           SigAt i \<Rightarrow>
             if i + 1 \<noteq> length (vf_signatures opd) then None
             else Some (opd\<lparr>vf_signatures := butlast (vf_signatures opd), vf_current_sig := NoSig\<rparr>)
         | _ \<Rightarrow> Some (opd\<lparr>vf_current_sig := NoSig\<rparr>))
      else Some opd)"

definition verify_eof :: "op_verify \<Rightarrow> (op_verify \<times> gpgme_error_t) option" where
  "verify_eof opd =
     (let opd1 = (if vf_did_prepare_new_sig opd then opd else summarise opd)
      in case drop_newsig opd1 of
           None \<Rightarrow> None
         | Some opd2 \<Rightarrow> Some (opd2\<lparr>vf_only_newsig_seen := False\<rparr>, vf_failure_code opd2))"

text \<open>The common shape of the lines that describe the current signature.\<close>

definition on_cur ::
    "(signature \<Rightarrow> (signature \<times> gpgme_error_t) option) \<Rightarrow> op_verify \<Rightarrow> (op_verify \<times> gpgme_error_t) option" where
  "on_cur f opd =
     (case cur_get opd of
        None \<Rightarrow> Some (opd, gpg_error GPG_ERR_INV_ENGINE)
      | Some s \<Rightarrow> (case f s of None \<Rightarrow> None | Some (s1, e) \<Rightarrow> Some (cur_put s1 opd, e)))"

definition sig_start_codes :: "int set" where
  "sig_start_codes = {GPGME_STATUS_GOODSIG, GPGME_STATUS_EXPSIG, GPGME_STATUS_EXPKEYSIG,
     GPGME_STATUS_BADSIG, GPGME_STATUS_ERRSIG, GPGME_STATUS_REVKEYSIG}"

definition trust_codes :: "int set" where
  "trust_codes = {GPGME_STATUS_TRUST_UNDEFINED, GPGME_STATUS_TRUST_NEVER, GPGME_STATUS_TRUST_MARGINAL,
     GPGME_STATUS_TRUST_FULLY, GPGME_STATUS_TRUST_ULTIMATE}"

definition notation_codes :: "int set" where
  "notation_codes = {GPGME_STATUS_NOTATION_NAME, GPGME_STATUS_NOTATION_FLAGS,
     GPGME_STATUS_NOTATION_DATA, GPGME_STATUS_POLICY_URL}"

definition verify_switch ::
    "op_env \<Rightarrow> gpgme_protocol_t \<Rightarrow> bool \<Rightarrow> op_verify \<Rightarrow> int \<Rightarrow> string \<Rightarrow> (op_verify \<times> gpgme_error_t) option" where
  "verify_switch env protocol raw opd code args =
     (let seen = opd\<lparr>vf_only_newsig_seen := False\<rparr>
      in if code = GPGME_STATUS_NEWSIG then
           (case prepare_new_sig env (summarise opd) of
              None \<Rightarrow> None
            | Some (opd1, e) \<Rightarrow> Some (opd1\<lparr>vf_only_newsig_seen := True, vf_conflict_user_seen := False\<rparr>, e))
         else if code \<in> sig_start_codes then
           parse_new_sig env (if vf_did_prepare_new_sig opd then seen else summarise seen) code args protocol
         else if code = GPGME_STATUS_VALIDSIG then on_cur (\<lambda>s. parse_valid_sig env s args protocol) seen
         else if code = GPGME_STATUS_NODATA then
           (case cur_get opd of
              None \<Rightarrow> Some (seen, gpg_error GPG_ERR_NO_DATA)
            | Some s \<Rightarrow> Some (cur_put (s\<lparr>sig_status := gpg_error GPG_ERR_NO_DATA\<rparr>) seen, no_error))
         else if code = GPGME_STATUS_UNEXPECTED then
           (case cur_get opd of
              None \<Rightarrow> Some (seen, gpg_error GPG_ERR_GENERAL)
            | Some s \<Rightarrow> Some (cur_put (s\<lparr>sig_status := gpg_error GPG_ERR_NO_DATA\<rparr>) seen, no_error))
         else if code \<in> notation_codes then on_cur (\<lambda>s. Some (parse_notation env s code args)) seen
         else if code \<in> trust_codes then on_cur (\<lambda>s. Some (parse_trust env s code args)) seen
         else if code = GPGME_STATUS_PKA_TRUST_BAD \<or> code = GPGME_STATUS_PKA_TRUST_GOOD then
           on_cur (\<lambda>s. if sig_pka_trust s \<noteq> 0 \<or> sig_pka_address s \<noteq> None
                       then Some (s, gpg_error GPG_ERR_INV_ENGINE)
                       else Some (s\<lparr>sig_pka_trust := (if code = GPGME_STATUS_PKA_TRUST_GOOD then 2 else 1),
                                    sig_pka_address := (if core env ''pka_address''
                                      then Some (fst (strchr_split CHR '' '' args)) else None)\<rparr>, no_error)) seen
         else if code = GPGME_STATUS_TOFU_USER then
           (case on_cur (\<lambda>s. parse_tofu_user env s args protocol) seen of
              None \<Rightarrow> None
            | Some (opd1, e) \<Rightarrow>
                if cur_get opd = None then Some (opd1, e)
                else if gpg_err_code e = GPG_ERR_DUP_VALUE
                then Some (opd1\<lparr>vf_conflict_user_seen := True\<rparr>, no_error)
                else Some (opd1\<lparr>vf_conflict_user_seen := False\<rparr>, trace_gpg_error e))
         else if code = GPGME_STATUS_TOFU_STATS then
           (if vf_conflict_user_seen opd then Some (seen, no_error)
            else on_cur (\<lambda>s. Some (parse_tofu_stats s args)) seen)
         else if code = GPGME_STATUS_TOFU_STATS_LONG then
           (if vf_conflict_user_seen opd then Some (seen, no_error)
            else on_cur (\<lambda>s. Some (parse_tofu_stats_long env s args raw)) seen)
         else if code = GPGME_STATUS_ERROR then
           (case parse_error env (cur_get opd) args of
              (None, e) \<Rightarrow> Some (seen, e)
            | (Some s, e) \<Rightarrow> Some (cur_put s seen, e))
         else if code = GPGME_STATUS_FAILURE then
           Some (opd\<lparr>vf_failure_code := snd (gpgme_parse_failure env args)\<rparr>, no_error)
         else if code = GPGME_STATUS_EOF then verify_eof opd
         else if code = GPGME_STATUS_PLAINTEXT then
           (let opd1 = opd\<lparr>vf_plaintext_seen := vf_plaintext_seen opd + 1\<rparr>
            in if vf_plaintext_seen opd1 > 1 then Some (opd1, gpg_error GPG_ERR_BAD_DATA)
               else case snd (gpgme_parse_plaintext env args) of
                 Ok (name, mime) \<Rightarrow>
                   Some (opd1\<lparr>vf_file_name := (case name of None \<Rightarrow> vf_file_name opd | Some _ \<Rightarrow> name),
                              vf_is_mime := mime\<rparr>, no_error)
               | Err e \<Rightarrow> Some (opd1, e)
               | UB \<Rightarrow> None)
         else if code = GPGME_STATUS_VERIFICATION_COMPLIANCE_MODE then
           (if compliance_loop args
            then (case cur_get opd of
                    None \<Rightarrow> None | Some s \<Rightarrow> Some (cur_put (s\<lparr>sig_is_de_vs := True\<rparr>) opd, no_error))
            else Some (opd, no_error))
         else Some (opd, no_error))"

definition gpgme_verify_status_handler :: "op_env \<Rightarrow> gpgme_ctx handler" where
  "gpgme_verify_status_handler env ctx code args =
     (case get_hook OPDATA_VERIFY ctx of
        Some (HVerify opd) \<Rightarrow>
          (case verify_switch env (ctx_protocol ctx) (ctx_raw_description ctx) opd code args of
             None \<Rightarrow> None | Some (opd1, e) \<Rightarrow> Some (put_hook (HVerify opd1) ctx, args, e))
      | _ \<Rightarrow> None)"

definition verify_status_handler :: "op_env \<Rightarrow> gpgme_ctx handler" where
  "verify_status_handler env =
     then_handler (gpgme_progress_status_handler env) (gpgme_verify_status_handler env)"

section \<open>Result and the old interface\<close>

definition complete_summary :: "signature \<Rightarrow> signature" where
  "complete_summary s =
     (if sig_summary s \<noteq> 0 then s
      else if gpg_err_code (sig_status s) = GPG_ERR_KEY_EXPIRED then s\<lparr>sig_summary := GPGME_SIGSUM_KEY_EXPIRED\<rparr>
      else if gpg_err_code (sig_status s) = GPG_ERR_NO_PUBKEY then s\<lparr>sig_summary := GPGME_SIGSUM_KEY_MISSING\<rparr>
      else s)"

definition gpgme_op_verify_result :: "gpgme_ctx \<Rightarrow> gpgme_ctx \<times> op_verify option" where
  "gpgme_op_verify_result ctx =
     (case get_hook OPDATA_VERIFY ctx of
        Some (HVerify opd) \<Rightarrow>
          (let opd1 = opd\<lparr>vf_signatures := map complete_summary (vf_signatures opd)\<rparr>
           in (put_hook (HVerify opd1) ctx, Some opd1))
      | _ \<Rightarrow> (ctx, None))"

definition gpgme_op_verify_init_result :: "op_env \<Rightarrow> gpgme_ctx \<Rightarrow> gpgme_ctx \<times> gpgme_error_t" where
  "gpgme_op_verify_init_result env ctx =
     (case gpgme_op_data_lookup env (Some ctx) OPDATA_VERIFY 1 of
        (Some ctx1, _, e) \<Rightarrow> (ctx1, e) | (None, _, e) \<Rightarrow> (ctx, e))"

datatype sig_stat =
    GPGME_SIG_STAT_NONE | GPGME_SIG_STAT_GOOD | GPGME_SIG_STAT_BAD | GPGME_SIG_STAT_NOKEY
  | GPGME_SIG_STAT_NOSIG | GPGME_SIG_STAT_ERROR | GPGME_SIG_STAT_DIFF | GPGME_SIG_STAT_GOOD_EXP
  | GPGME_SIG_STAT_GOOD_EXPKEY

definition sig_stat_of :: "gpgme_error_t \<Rightarrow> sig_stat" where
  "sig_stat_of e =
     (let c = gpg_err_code e in
      if c = GPG_ERR_NO_ERROR then GPGME_SIG_STAT_GOOD
      else if c = GPG_ERR_BAD_SIGNATURE then GPGME_SIG_STAT_BAD
      else if c = GPG_ERR_NO_PUBKEY then GPGME_SIG_STAT_NOKEY
      else if c = GPG_ERR_NO_DATA then GPGME_SIG_STAT_NOSIG
      else if c = GPG_ERR_SIG_EXPIRED then GPGME_SIG_STAT_GOOD_EXP
      else if c = GPG_ERR_KEY_EXPIRED then GPGME_SIG_STAT_GOOD_EXPKEY
      else GPGME_SIG_STAT_ERROR)"

text \<open>The walk of the accessors; a negative index runs off the end of the list.\<close>

definition sig_at :: "signature list \<Rightarrow> int \<Rightarrow> signature option" where
  "sig_at sigs idx = (if 0 \<le> idx \<and> nat idx < length sigs then Some (sigs ! nat idx) else None)"

text \<open>
  The fingerprint, the status and the creation time of a signature. The outer \<open>None\<close>: without
  a verify result the code dereferences a null pointer.
\<close>

definition gpgme_get_sig_status ::
    "gpgme_ctx \<Rightarrow> int \<Rightarrow> (string option \<times> sig_stat \<times> int) option option" where
  "gpgme_get_sig_status ctx idx =
     (case snd (gpgme_op_verify_result ctx) of
        None \<Rightarrow> None
      | Some opd \<Rightarrow>
          Some (map_option (\<lambda>s. (sig_fpr s, sig_stat_of (sig_status s), sig_timestamp s))
                  (sig_at (vf_signatures opd) idx)))"

definition sig_stat_number :: "sig_stat \<Rightarrow> int" where
  "sig_stat_number s =
     (case s of GPGME_SIG_STAT_NONE \<Rightarrow> 0 | GPGME_SIG_STAT_GOOD \<Rightarrow> 1 | GPGME_SIG_STAT_BAD \<Rightarrow> 2
      | GPGME_SIG_STAT_NOKEY \<Rightarrow> 3 | GPGME_SIG_STAT_NOSIG \<Rightarrow> 4 | GPGME_SIG_STAT_ERROR \<Rightarrow> 5
      | GPGME_SIG_STAT_DIFF \<Rightarrow> 6 | GPGME_SIG_STAT_GOOD_EXP \<Rightarrow> 7 | GPGME_SIG_STAT_GOOD_EXPKEY \<Rightarrow> 8)"

definition gpgme_get_sig_ulong_attr :: "gpgme_ctx \<Rightarrow> int \<Rightarrow> gpgme_attr_t \<Rightarrow> int option" where
  "gpgme_get_sig_ulong_attr ctx idx what =
     (case snd (gpgme_op_verify_result ctx) of
        None \<Rightarrow> None
      | Some opd \<Rightarrow>
          (case sig_at (vf_signatures opd) idx of
             None \<Rightarrow> Some 0
           | Some s \<Rightarrow>
               Some (case what of
                       GPGME_ATTR_CREATED \<Rightarrow> sig_timestamp s
                     | GPGME_ATTR_EXPIRE \<Rightarrow> sig_exp_timestamp s
                     | GPGME_ATTR_VALIDITY \<Rightarrow> validity_number (sig_validity s)
                     | GPGME_ATTR_SIG_STATUS \<Rightarrow> sig_stat_number (sig_stat_of (sig_status s))
                     | GPGME_ATTR_SIG_SUMMARY \<Rightarrow> uint (sig_summary s)
                     | _ \<Rightarrow> 0)))"

definition gpgme_get_sig_string_attr ::
    "gpgme_ctx \<Rightarrow> int \<Rightarrow> gpgme_attr_t \<Rightarrow> int \<Rightarrow> string option option" where
  "gpgme_get_sig_string_attr ctx idx what whatidx =
     (case snd (gpgme_op_verify_result ctx) of
        None \<Rightarrow> None
      | Some opd \<Rightarrow>
          (case sig_at (vf_signatures opd) idx of
             None \<Rightarrow> Some None
           | Some s \<Rightarrow>
               Some (case what of
                       GPGME_ATTR_FPR \<Rightarrow> sig_fpr s
                     | GPGME_ATTR_ERRTOK \<Rightarrow>
                         Some (if whatidx = 1 \<and> sig_wrong_key_usage s then ''Wrong_Key_Usage'' else [])
                     | _ \<Rightarrow> None)))"

section \<open>Lemmas on the summary\<close>

definition fully_valid :: "signature \<Rightarrow> bool" where
  "fully_valid s \<longleftrightarrow> sig_validity s = GPGME_VALIDITY_FULL \<or> sig_validity s = GPGME_VALIDITY_ULTIMATE"

lemma sum_colour_cases:
  obtains "sum_colour s = GPGME_SIGSUM_GREEN" "fully_valid s" "status_usable (gpg_err_code (sig_status s))"
    | "sum_colour s = GPGME_SIGSUM_RED" "\<not> fully_valid s"
      "sig_validity s = GPGME_VALIDITY_NEVER \<and> status_usable (gpg_err_code (sig_status s))
       \<or> sig_validity s \<noteq> GPGME_VALIDITY_NEVER \<and> gpg_err_code (sig_status s) = GPG_ERR_BAD_SIGNATURE"
    | "sum_colour s = 0" "fully_valid s \<longrightarrow> \<not> status_usable (gpg_err_code (sig_status s))"
      "\<not> (\<not> fully_valid s \<and> (sig_validity s = GPGME_VALIDITY_NEVER \<and> status_usable (gpg_err_code (sig_status s))
       \<or> sig_validity s \<noteq> GPGME_VALIDITY_NEVER \<and> gpg_err_code (sig_status s) = GPG_ERR_BAD_SIGNATURE))"
  by (cases "fully_valid s"; cases "sig_validity s = GPGME_VALIDITY_NEVER";
      cases "status_usable (gpg_err_code (sig_status s))";
      cases "gpg_err_code (sig_status s) = GPG_ERR_BAD_SIGNATURE")
     (auto simp: sum_colour_def fully_valid_def Let_def)

lemma sum_status_cases:
  "sum_status c \<in> {0, 0x10, 0x20, 0x40, 0x80, 0x800}"
  "sum_status c = 0 \<longleftrightarrow> c = GPG_ERR_BAD_SIGNATURE \<or> c = GPG_ERR_NO_ERROR"
  by (auto simp: sum_status_def)

lemma sum_reason_cases:
  "sum_reason s \<in> {0, 0x10, 0x200}"
  "fully_valid s \<Longrightarrow> sum_reason s = 0 \<longleftrightarrow> gpg_err_code (sig_validity_reason s) \<noteq> GPG_ERR_CERT_REVOKED"
  by (auto simp: sum_reason_def Let_def fully_valid_def)

text \<open>The colour bits and the valid bit of the assembled summary, for all values of its parts.\<close>

lemma summary_bits:
  fixes a b c d :: "32 word"
  assumes "a \<in> {0, 2, 4}" "b \<in> {0, 0x10, 0x20, 0x40, 0x80, 0x800}" "c \<in> {0, 0x10, 0x200}" "d \<in> {0, 0x400}"
  defines "m \<equiv> a OR b OR c OR d"
  defines "r \<equiv> (if m AND GPGME_SIGSUM_GREEN \<noteq> 0 \<and> m AND NOT GPGME_SIGSUM_GREEN = 0 then m OR GPGME_SIGSUM_VALID else m)"
  shows "((r AND GPGME_SIGSUM_VALID \<noteq> 0) = (a = 2 \<and> b = 0 \<and> c = 0 \<and> d = 0))
    \<and> ((r AND GPGME_SIGSUM_GREEN \<noteq> 0) = (a = 2)) \<and> ((r AND GPGME_SIGSUM_RED \<noteq> 0) = (a = 4))"
  using assms(1-4) unfolding r_def m_def by (elim insertE emptyE; simp)

section \<open>What the lines leave alone\<close>

text \<open>Only the trust lines and the summary change what the summary is made of.\<close>

definition sig_vs :: "signature \<Rightarrow> gpgme_validity_t \<times> 32 word" where
  "sig_vs s = (sig_validity s, sig_summary s)"

lemma sig_vs_update [simp]:
  "sig_vs (s\<lparr>sig_fpr := a\<rparr>) = sig_vs s" "sig_vs (s\<lparr>sig_status := b\<rparr>) = sig_vs s"
  "sig_vs (s\<lparr>sig_notations := c\<rparr>) = sig_vs s" "sig_vs (s\<lparr>sig_timestamp := n\<rparr>) = sig_vs s"
  "sig_vs (s\<lparr>sig_exp_timestamp := n\<rparr>) = sig_vs s" "sig_vs (s\<lparr>sig_wrong_key_usage := w\<rparr>) = sig_vs s"
  "sig_vs (s\<lparr>sig_pka_trust := n\<rparr>) = sig_vs s" "sig_vs (s\<lparr>sig_is_de_vs := w\<rparr>) = sig_vs s"
  "sig_vs (s\<lparr>sig_pubkey_algo := n\<rparr>) = sig_vs s" "sig_vs (s\<lparr>sig_hash_algo := n\<rparr>) = sig_vs s"
  "sig_vs (s\<lparr>sig_pka_address := a\<rparr>) = sig_vs s" "sig_vs (s\<lparr>sig_key := k\<rparr>) = sig_vs s"
  by (simp_all add: sig_vs_def)

lemma errsig_fail_vs: "errsig_fail s = Inr (s1, b) \<Longrightarrow> sig_vs s1 = sig_vs s" "errsig_fail s \<noteq> Inl x"
  by (auto simp: errsig_fail_def)

lemma errsig_status_vs:
  "errsig_status env s p = Inr (s1, b) \<Longrightarrow> sig_vs s1 = sig_vs s"
  "errsig_status env s p = Inl (s1, e) \<Longrightarrow> sig_vs s1 = sig_vs s"
  unfolding errsig_status_def Let_def
  by (auto split: if_split_asm prod.splits simp: errsig_fail_def)

lemma errsig_args_vs:
  "errsig_args env pr s en = Inr (s1, b) \<Longrightarrow> sig_vs s1 = sig_vs s"
  "errsig_args env pr s en = Inl (s1, e) \<Longrightarrow> sig_vs s1 = sig_vs s"
  unfolding errsig_args_def Let_def
  by (auto split: if_split_asm prod.splits option.splits simp: errsig_fail_def dest!: errsig_status_vs)

lemma new_sig_status_vs: "new_sig_status env pr code a en s = (s1, e) \<Longrightarrow> sig_vs s1 = sig_vs s"
  unfolding new_sig_status_def Let_def
  by (auto split: if_split_asm prod.splits sum.splits dest: errsig_args_vs)

lemma valid_sig_algos_vs: "valid_sig_algos pr s p = (s1, e) \<Longrightarrow> sig_vs s1 = sig_vs s"
  unfolding valid_sig_algos_def Let_def by (auto split: if_split_asm prod.splits option.splits)

lemma parse_valid_sig_vs: "parse_valid_sig env s args pr = Some (s1, e) \<Longrightarrow> sig_vs s1 = sig_vs s"
  unfolding parse_valid_sig_def valid_sig_times_def Let_def
  by (auto split: if_split_asm prod.splits option.splits dest!: valid_sig_algos_vs)

lemma parse_notation_vs: "parse_notation env s code args = (s1, e) \<Longrightarrow> sig_vs s1 = sig_vs s"
  unfolding parse_notation_def Let_def by (auto split: if_split_asm cres.splits)

lemma parse_tofu_user_vs: "parse_tofu_user env s args pr = Some (s1, e) \<Longrightarrow> sig_vs s1 = sig_vs s"
  unfolding parse_tofu_user_def by (auto split: if_split_asm prod.splits option.splits cres.splits)

lemma put_tofu_vs [simp]: "sig_vs (put_tofu t s) = sig_vs s"
  by (simp add: put_tofu_def split: option.split)

lemma parse_tofu_stats_vs: "parse_tofu_stats s args = (s1, e) \<Longrightarrow> sig_vs s1 = sig_vs s"
  unfolding parse_tofu_stats_def Let_def by (auto split: if_split_asm prod.splits option.splits)

lemma parse_tofu_stats_long_vs: "parse_tofu_stats_long env s args raw = (s1, e) \<Longrightarrow> sig_vs s1 = sig_vs s"
  unfolding parse_tofu_stats_long_def by (auto split: if_split_asm cres.splits option.splits)

lemma parse_error_vs: "parse_error env (Some s) args = (r, e) \<Longrightarrow> \<exists>s1. r = Some s1 \<and> sig_vs s1 = sig_vs s"
  unfolding parse_error_def Let_def by (auto split: if_split_asm prod.splits option.splits)

lemma parse_error_None: "parse_error env None args = (r, e) \<Longrightarrow> r = None"
  unfolding parse_error_def Let_def by (auto split: if_split_asm prod.splits option.splits)

lemmas line_vs = parse_valid_sig_vs parse_notation_vs parse_tofu_user_vs parse_tofu_stats_vs
  parse_tofu_stats_long_vs new_sig_status_vs

text \<open>A property of every signature, linked or not.\<close>

definition all_sigs :: "(signature \<Rightarrow> bool) \<Rightarrow> op_verify \<Rightarrow> bool" where
  "all_sigs P opd \<longleftrightarrow> (\<forall>s\<in>set (vf_signatures opd). P s) \<and> (\<forall>s. vf_current_sig opd = LooseSig s \<longrightarrow> P s)"

lemma all_sigs_cur: "all_sigs P opd \<Longrightarrow> cur_get opd = Some s \<Longrightarrow> P s"
  by (auto simp: all_sigs_def cur_get_def split: current_sig.splits if_splits)

lemma all_sigs_put: "all_sigs P opd \<Longrightarrow> P s \<Longrightarrow> all_sigs P (cur_put s opd)"
  using set_update_subset_insert [of "vf_signatures opd" _ s]
  by (auto simp: all_sigs_def cur_put_def split: current_sig.splits)

lemma all_sigs_flags [simp]:
  "all_sigs P (opd\<lparr>vf_only_newsig_seen := b\<rparr>) = all_sigs P opd"
  "all_sigs P (opd\<lparr>vf_did_prepare_new_sig := b\<rparr>) = all_sigs P opd"
  "all_sigs P (opd\<lparr>vf_conflict_user_seen := b\<rparr>) = all_sigs P opd"
  "all_sigs P (opd\<lparr>vf_failure_code := f\<rparr>) = all_sigs P opd"
  "all_sigs P (opd\<lparr>vf_plaintext_seen := n\<rparr>) = all_sigs P opd"
  "all_sigs P (opd\<lparr>vf_file_name := fn, vf_is_mime := b\<rparr>) = all_sigs P opd"
  by (simp_all add: all_sigs_def)

lemma cur_get_flags [simp]:
  "cur_get (opd\<lparr>vf_only_newsig_seen := b\<rparr>) = cur_get opd"
  "cur_get (opd\<lparr>vf_did_prepare_new_sig := b\<rparr>) = cur_get opd"
  by (simp_all add: cur_get_def split: current_sig.split)

lemma all_sigs_on_cur:
  assumes "on_cur f opd = Some (opd1, e)" "all_sigs P opd"
    and "\<And>s s1 e. f s = Some (s1, e) \<Longrightarrow> P s \<Longrightarrow> P s1"
  shows "all_sigs P opd1"
  using assms(1,2) all_sigs_cur [OF assms(2)] assms(3)
  by (auto simp: on_cur_def split: option.splits intro: all_sigs_put)

lemma all_sigs_summarise:
  "all_sigs P opd \<Longrightarrow> (\<And>s. P s \<Longrightarrow> P (calc_sig_summary s)) \<Longrightarrow> all_sigs P (summarise opd)"
  by (simp add: summarise_def all_sigs_put all_sigs_cur split: option.split)

lemma all_sigs_prepare:
  assumes "prepare_new_sig env opd = Some (opd1, e)" "all_sigs P opd" "P zero_signature"
  shows "all_sigs P opd1"
  using assms unfolding prepare_new_sig_def Let_def
  by (auto simp: all_sigs_def split: if_split_asm current_sig.splits dest!: in_set_takeD)

lemma all_sigs_new_sig:
  assumes "parse_new_sig env opd code args pr = Some (opd1, e)" "all_sigs P opd" "P zero_signature"
    and vs: "\<And>s s1. sig_vs s1 = sig_vs s \<Longrightarrow> P s \<Longrightarrow> P s1"
  shows "all_sigs P opd1"
proof -
  obtain a en where sp: "strchr_split CHR '' '' args = (a, en)" by (cases "strchr_split CHR '' '' args")
  obtain o1 e1 where p: "(if vf_did_prepare_new_sig opd then Some (opd, no_error) else prepare_new_sig env opd)
      = Some (o1, e1)"
    using assms(1) by (auto simp: parse_new_sig_def sp split: option.splits)
  have o1: "all_sigs P o1" using p all_sigs_prepare [OF _ assms(2,3)] assms(2) by (auto split: if_splits)
  show ?thesis
    using assms(1) o1 all_sigs_cur [OF o1] vs new_sig_status_vs
    by (auto simp: parse_new_sig_def sp p split: option.splits prod.splits if_splits intro!: all_sigs_put)
qed

lemma all_sigs_eof:
  assumes "verify_eof opd = Some (opd1, e)" "all_sigs P opd" "\<And>s. P s \<Longrightarrow> P (calc_sig_summary s)"
  shows "all_sigs P opd1"
proof -
  let ?o = "if vf_did_prepare_new_sig opd then opd else summarise opd"
  have "all_sigs P ?o" using assms(2,3) by (simp add: all_sigs_summarise)
  then have "all_sigs P o2" if "drop_newsig ?o = Some o2" for o2
    using that unfolding drop_newsig_def
    by (auto simp: all_sigs_def split: if_split_asm current_sig.splits dest!: in_set_butlastD)
  then show ?thesis using assms(1) by (auto simp: verify_eof_def Let_def split: option.splits)
qed

lemmas code_sets = sig_start_codes_def trust_codes_def notation_codes_def

text \<open>
  One line keeps a property of signatures that follows from the validity and the summary, if
  the summary step and, for a trust line, that line keep it.
\<close>

lemma verify_switch_all_sigs:
  assumes sw: "verify_switch env pr raw opd code args = Some (opd1, e)" and all: "all_sigs P opd"
    and vs: "\<And>s s1. sig_vs s1 = sig_vs s \<Longrightarrow> P s \<Longrightarrow> P s1"
    and calc: "\<And>s. P s \<Longrightarrow> P (calc_sig_summary s)" and zero: "P zero_signature"
    and trust: "\<And>s. code \<in> trust_codes \<Longrightarrow> P s \<Longrightarrow> P (fst (parse_trust env s code args))"
  shows "all_sigs P opd1"
proof -
  let ?seen = "opd\<lparr>vf_only_newsig_seen := False\<rparr>"
  have seen: "all_sigs P ?seen" using all by simp
  have cur: "all_sigs P opd2" if "on_cur f ?seen = Some (opd2, e2)"
      "\<And>s s1 e. f s = Some (s1, e) \<Longrightarrow> sig_vs s1 = sig_vs s" for f opd2 e2
    using all_sigs_on_cur [OF that(1) seen] vs [OF that(2)] by blast
  have put: "all_sigs P (cur_put s1 o2)" if "cur_get opd = Some s" "sig_vs s1 = sig_vs s" "all_sigs P o2" for s s1 o2
    using that all_sigs_cur [OF all that(1)] vs all_sigs_put by blast
  consider (newsig) "code = GPGME_STATUS_NEWSIG" | (start) "code \<in> sig_start_codes" "code \<noteq> GPGME_STATUS_NEWSIG"
    | (trust) "code \<in> trust_codes" | (eof) "code = GPGME_STATUS_EOF"
    | (nodata) "code = GPGME_STATUS_NODATA \<or> code = GPGME_STATUS_UNEXPECTED"
    | (valid) "code = GPGME_STATUS_VALIDSIG" | (nota) "code \<in> notation_codes"
    | (pka) "code = GPGME_STATUS_PKA_TRUST_BAD \<or> code = GPGME_STATUS_PKA_TRUST_GOOD"
    | (user) "code = GPGME_STATUS_TOFU_USER" | (stats) "code = GPGME_STATUS_TOFU_STATS"
    | (long) "code = GPGME_STATUS_TOFU_STATS_LONG" | (err) "code = GPGME_STATUS_ERROR"
    | (plain) "code = GPGME_STATUS_PLAINTEXT" | (compl) "code = GPGME_STATUS_VERIFICATION_COMPLIANCE_MODE"
    | (failure) "code = GPGME_STATUS_FAILURE"
    | (rest) "code \<notin> {GPGME_STATUS_NEWSIG, GPGME_STATUS_EOF, GPGME_STATUS_NODATA, GPGME_STATUS_UNEXPECTED,
        GPGME_STATUS_VALIDSIG, GPGME_STATUS_PKA_TRUST_BAD, GPGME_STATUS_PKA_TRUST_GOOD, GPGME_STATUS_TOFU_USER,
        GPGME_STATUS_TOFU_STATS, GPGME_STATUS_TOFU_STATS_LONG, GPGME_STATUS_ERROR, GPGME_STATUS_PLAINTEXT,
        GPGME_STATUS_VERIFICATION_COMPLIANCE_MODE, GPGME_STATUS_FAILURE}"
        "code \<notin> sig_start_codes" "code \<notin> trust_codes" "code \<notin> notation_codes"
    by blast
  then show ?thesis
  proof cases
    case newsig
    then obtain o1 where "prepare_new_sig env (summarise opd) = Some (o1, e)"
        "opd1 = o1\<lparr>vf_only_newsig_seen := True, vf_conflict_user_seen := False\<rparr>"
      using sw by (auto simp: verify_switch_def split: option.splits)
    then show ?thesis using all_sigs_prepare [OF _ all_sigs_summarise [OF all calc] zero] by simp
  next
    case start
    let ?o = "if vf_did_prepare_new_sig opd then ?seen else summarise ?seen"
    have "parse_new_sig env ?o code args pr = Some (opd1, e)"
      using sw start by (cases "vf_did_prepare_new_sig opd") (simp_all add: verify_switch_def Let_def)
    moreover have "all_sigs P ?o" using seen all_sigs_summarise [OF seen calc] by simp
    ultimately show ?thesis using all_sigs_new_sig zero vs by blast
  next
    case trust
    then have "on_cur (\<lambda>s. Some (parse_trust env s code args)) ?seen = Some (opd1, e)"
      using sw by (auto simp: verify_switch_def code_sets)
    from all_sigs_on_cur [OF this seen] show ?thesis using assms(6) [OF trust] by fastforce
  next
    case eof
    then show ?thesis using sw all_sigs_eof [OF _ all calc] by (simp add: verify_switch_def code_sets)
  next
    case nodata
    then show ?thesis
      using sw seen by (auto simp: verify_switch_def code_sets split: option.splits intro!: put)
  next
    case valid
    then have "on_cur (\<lambda>s. parse_valid_sig env s args pr) ?seen = Some (opd1, e)"
      using sw by (simp add: verify_switch_def code_sets)
    from cur [OF this] show ?thesis using parse_valid_sig_vs by blast
  next
    case nota
    then have "on_cur (\<lambda>s. Some (parse_notation env s code args)) ?seen = Some (opd1, e)"
      using sw by (auto simp: verify_switch_def code_sets)
    from cur [OF this] show ?thesis using parse_notation_vs by blast
  next
    case pka
    then show ?thesis
      using sw by (elim disjE) (auto simp: verify_switch_def code_sets elim!: cur split: if_splits)
  next
    case user
    have u: "all_sigs P o1" if "on_cur (\<lambda>s. parse_tofu_user env s args pr) ?seen = Some (o1, e1)" for o1 e1
      by (rule cur [OF that parse_tofu_user_vs])
    show ?thesis
      using sw user u by (auto simp: verify_switch_def code_sets split: option.splits if_splits)
  next
    case stats
    have "all_sigs P o1" if "on_cur (\<lambda>s. Some (parse_tofu_stats s args)) ?seen = Some (o1, e1)" for o1 e1
      by (rule cur [OF that]) (simp add: parse_tofu_stats_vs)
    then show ?thesis
      using sw seen stats by (auto simp: verify_switch_def code_sets Let_def split: if_splits)
  next
    case long
    have "all_sigs P o1" if "on_cur (\<lambda>s. Some (parse_tofu_stats_long env s args raw)) ?seen = Some (o1, e1)" for o1 e1
      by (rule cur [OF that]) (simp add: parse_tofu_stats_long_vs)
    then show ?thesis
      using sw seen long by (auto simp: verify_switch_def code_sets Let_def split: if_splits)
  next
    case err
    obtain r e1 where pe: "parse_error env (cur_get opd) args = (r, e1)" by fastforce
    show ?thesis
    proof (cases "cur_get opd")
      case None
      then have "r = None" using pe by (simp add: parse_error_None)
      then show ?thesis using sw err pe seen by (simp add: verify_switch_def code_sets Let_def)
    next
      case (Some s)
      then obtain s1 where "r = Some s1" "sig_vs s1 = sig_vs s" using pe parse_error_vs [of env s args r e1] by auto
      then show ?thesis
        using sw err pe seen put [OF Some] by (auto simp: verify_switch_def code_sets Let_def)
    qed
  next
    case plain
    then show ?thesis
      using sw all by (auto simp: verify_switch_def code_sets Let_def split: if_splits cres.splits prod.splits)
  next
    case compl
    then show ?thesis
      using sw all by (auto simp: verify_switch_def code_sets split: if_splits option.splits intro!: put)
  next
    case failure
    then show ?thesis using sw all by (auto simp: verify_switch_def code_sets)
  next
    case rest
    then show ?thesis using sw all by (simp add: verify_switch_def)
  qed
qed

section \<open>The state of a run\<close>

lemma decode_percent_cstring: "cstring_ok s \<Longrightarrow> cstring_ok (decode_percent_loop False s)"
proof (induction "False" s rule: decode_percent_loop.induct)
  case (2 c s)
  have sub: "cstring_ok (drop 2 s)" "cstring_ok (take 2 s)"
    using 2(4) by (auto simp: cstring_ok_def dest: in_set_dropD in_set_takeD)
  show ?case
  proof (cases "c = CHR ''%''")
    case False
    then show ?thesis using 2 by simp
  next
    case True
    have "char_of (nat v) \<noteq> NUL" if "v = gpgme_hextobyte s" "v \<noteq> 0" "v \<noteq> - 1" for v
    proof -
      have "0 < nat v" "nat v < 256" using that hextobyte_range [of s] by linarith+
      then have "uchar (char_of (nat v)) = nat v" by (simp add: uchar_def)
      then show ?thesis using \<open>0 < nat v\<close> uchar_eq_0 by (metis less_numeral_extra(3))
    qed
    then show ?thesis using True sub 2 by (simp add: Let_def)
  qed
qed simp

text \<open>
  Between the lines before the end: the current signature is the last of the list, and there
  is none exactly if the list is empty.
\<close>

definition vf_inv :: "op_verify \<Rightarrow> bool" where
  "vf_inv d \<longleftrightarrow> (if vf_signatures d = [] then vf_current_sig d = NoSig
                  else vf_current_sig d = SigAt (length (vf_signatures d) - 1))
     \<and> (vf_did_prepare_new_sig d \<longrightarrow> vf_signatures d \<noteq> [])
     \<and> (vf_only_newsig_seen d \<longrightarrow> vf_signatures d \<noteq> [])"

lemma vf_inv_cur:
  "vf_inv d \<Longrightarrow> cur_get d = (if vf_signatures d = [] then None else Some (last (vf_signatures d)))"
  by (auto simp: vf_inv_def cur_get_def last_conv_nth split: if_splits)

lemma vf_inv_put: "vf_inv d \<Longrightarrow> vf_inv (cur_put s d)"
  by (auto simp: vf_inv_def cur_put_def split: if_splits current_sig.splits)

lemma vf_inv_flags:
  "vf_inv d \<Longrightarrow> vf_inv (d\<lparr>vf_only_newsig_seen := False\<rparr>)" "vf_inv d \<Longrightarrow> vf_inv (d\<lparr>vf_did_prepare_new_sig := False\<rparr>)"
  "vf_inv (d\<lparr>vf_conflict_user_seen := b\<rparr>) = vf_inv d" "vf_inv (d\<lparr>vf_failure_code := f\<rparr>) = vf_inv d"
  "vf_inv (d\<lparr>vf_plaintext_seen := n\<rparr>) = vf_inv d" "vf_inv (d\<lparr>vf_file_name := fn, vf_is_mime := b\<rparr>) = vf_inv d"
  by (simp_all add: vf_inv_def)

lemma vf_inv_summarise: "vf_inv d \<Longrightarrow> vf_inv (summarise d)"
  by (simp add: summarise_def vf_inv_put split: option.split)

lemma cur_put_keeps [simp]:
  "vf_only_newsig_seen (cur_put s d) = vf_only_newsig_seen d"
  "vf_did_prepare_new_sig (cur_put s d) = vf_did_prepare_new_sig d"
  "length (vf_signatures (cur_put s d)) = length (vf_signatures d)"
  by (simp_all add: cur_put_def split: current_sig.split)

lemma summarise_keeps [simp]:
  "vf_only_newsig_seen (summarise d) = vf_only_newsig_seen d"
  "vf_did_prepare_new_sig (summarise d) = vf_did_prepare_new_sig d"
  "length (vf_signatures (summarise d)) = length (vf_signatures d)"
  by (simp_all add: summarise_def split: option.split)

lemma prepare_inv:
  assumes "vf_inv d" "prepare_new_sig env d = Some (d1, no_error)"
  shows "vf_inv d1 \<and> vf_signatures d1 \<noteq> []"
  using assms unfolding prepare_new_sig_def Let_def
  by (auto simp: vf_inv_def vf_inv_cur split: if_splits current_sig.splits)

lemma prepare_None:
  assumes "vf_inv d"
  shows "prepare_new_sig env d = None \<longleftrightarrow> vf_only_newsig_seen d \<and> 1 < length (vf_signatures d)"
  using assms unfolding prepare_new_sig_def Let_def
  by (cases "vf_signatures d") (auto simp: vf_inv_def vf_inv_cur cur_get_def split: if_splits)

lemma on_cur_inv: "on_cur f d = Some (d1, e) \<Longrightarrow> vf_inv d \<Longrightarrow> vf_inv d1"
  by (auto simp: on_cur_def vf_inv_put split: option.splits)

lemma new_sig_inv:
  assumes "vf_inv d" "\<not> vf_only_newsig_seen d"
  shows "parse_new_sig env d code args pr \<noteq> None"
    and "parse_new_sig env d code args pr = Some (d1, no_error) \<Longrightarrow> vf_inv d1"
proof -
  obtain a en where sp: "strchr_split CHR '' '' args = (a, en)" by (cases "strchr_split CHR '' '' args")
  define p where "p = (if vf_did_prepare_new_sig d then Some (d, no_error) else prepare_new_sig env d)"
  obtain o1 e1 where o1: "p = Some (o1, e1)"
    using prepare_None [OF assms(1), of env] assms(2) by (cases p) (auto simp: p_def split: if_splits)
  have inv: "e1 = no_error \<longrightarrow> vf_inv o1 \<and> vf_signatures o1 \<noteq> []"
    using o1 prepare_inv [OF assms(1)] assms(1) by (auto simp: p_def vf_inv_def split: if_splits)
  have cur: "e1 = no_error \<longrightarrow> cur_get (o1\<lparr>vf_did_prepare_new_sig := False\<rparr>) \<noteq> None"
    using inv vf_inv_cur by auto
  show "parse_new_sig env d code args pr \<noteq> None"
    using cur by (auto simp: parse_new_sig_def sp p_def [symmetric] o1 split: option.splits prod.splits)
  show "vf_inv d1" if "parse_new_sig env d code args pr = Some (d1, no_error)"
    using that inv
    by (auto simp: parse_new_sig_def sp p_def [symmetric] o1 split: option.splits prod.splits if_splits
        intro!: vf_inv_put vf_inv_flags)
qed

lemma tofu_user_total:
  assumes "cstring_ok args"
  shows "parse_tofu_user env s args pr \<noteq> None"
proof -
  have sub: "cstring_ok a \<and> (\<forall>b. r = Some b \<longrightarrow> cstring_ok b)" if "strchr_split c t = (a, r)" "cstring_ok t" for c t a r
    using that by (cases r) (auto simp: strchr_split_Some strchr_split_None)
  have app: "gpgme_key_append_name co k u False \<noteq> UB" if "cstring_ok u" for co k u
    using mailbox_result_cases [OF that, of "co ''address''"]
    by (auto simp: gpgme_key_append_name_def split: prod.splits)
  have app1: "key_uids k1 \<noteq> []" if "gpgme_key_append_name co k u False = Ok k1" for co k u k1
    using that by (auto simp: gpgme_key_append_name_def split: if_splits prod.splits cres.splits)
  show ?thesis
  proof (cases "strchr_split CHR '' '' args")
    case (Pair f r)
    show ?thesis
    proof (cases r)
      case None
      then show ?thesis using Pair by (simp add: parse_tofu_user_def)
    next
      case (Some b)
      then have "cstring_ok b" using sub [OF Pair assms] by simp
      obtain a t where at: "strchr_split CHR '' '' b = (a, t)" by fastforce
      have "cstring_ok (decode_percent_loop False a)"
        using sub [OF at \<open>cstring_ok b\<close>] decode_percent_cstring by simp
      then show ?thesis
        using app app1 Pair Some at
        by (auto simp: parse_tofu_user_def gpgme_decode_percent_string_def gpgme_key_new_def
            split: if_splits option.splits cres.splits)
    qed
  qed
qed

lemma verify_line_cases [case_names newsig start valid compl user eof rest]:
  obtains "code = GPGME_STATUS_NEWSIG" | "code \<in> sig_start_codes" "code \<noteq> GPGME_STATUS_NEWSIG"
    | "code = GPGME_STATUS_VALIDSIG" | "code = GPGME_STATUS_VERIFICATION_COMPLIANCE_MODE"
    | "code = GPGME_STATUS_TOFU_USER" | "code = GPGME_STATUS_EOF"
    | "code \<notin> insert GPGME_STATUS_NEWSIG (insert GPGME_STATUS_VALIDSIG (insert GPGME_STATUS_TOFU_USER
         (insert GPGME_STATUS_VERIFICATION_COMPLIANCE_MODE (insert GPGME_STATUS_EOF sig_start_codes))))"
  by blast

lemma verify_switch_other:
  assumes "code \<notin> insert GPGME_STATUS_NEWSIG (insert GPGME_STATUS_VALIDSIG (insert GPGME_STATUS_TOFU_USER
         (insert GPGME_STATUS_VERIFICATION_COMPLIANCE_MODE (insert GPGME_STATUS_EOF sig_start_codes))))"
    and "vf_inv d"
  shows "\<exists>d1 e. verify_switch env pr raw d code args = Some (d1, e) \<and> vf_inv d1"
proof -
  have seen: "vf_inv (d\<lparr>vf_only_newsig_seen := False\<rparr>)" using assms(2) by (rule vf_inv_flags)
  have total: "\<exists>d1 e. on_cur (\<lambda>s. Some (f s)) (d\<lparr>vf_only_newsig_seen := False\<rparr>) = Some (d1, e) \<and> vf_inv d1" for f
    using seen by (auto simp: on_cur_def vf_inv_put split: option.split prod.split)
  have pka: "\<exists>d1 e. on_cur (\<lambda>s. if b s then Some (f s) else Some (g s)) (d\<lparr>vf_only_newsig_seen := False\<rparr>) = Some (d1, e)
      \<and> vf_inv d1" for b f g
    using seen by (auto simp: on_cur_def vf_inv_put split: option.split prod.split)
  have plain: "snd (gpgme_parse_plaintext env args) \<noteq> UB"
    by (simp add: gpgme_parse_plaintext_def Let_def)
  consider "code \<in> notation_codes" | "code \<in> trust_codes" | "code = GPGME_STATUS_NODATA \<or> code = GPGME_STATUS_UNEXPECTED"
    | "code = GPGME_STATUS_PKA_TRUST_BAD \<or> code = GPGME_STATUS_PKA_TRUST_GOOD" | "code = GPGME_STATUS_TOFU_STATS"
    | "code = GPGME_STATUS_TOFU_STATS_LONG" | "code = GPGME_STATUS_ERROR" | "code = GPGME_STATUS_PLAINTEXT"
    | "code \<notin> notation_codes" "code \<notin> trust_codes" "code \<notin> {GPGME_STATUS_NODATA, GPGME_STATUS_UNEXPECTED,
        GPGME_STATUS_PKA_TRUST_BAD, GPGME_STATUS_PKA_TRUST_GOOD, GPGME_STATUS_TOFU_STATS,
        GPGME_STATUS_TOFU_STATS_LONG, GPGME_STATUS_ERROR, GPGME_STATUS_PLAINTEXT}"
    by blast
  then show ?thesis
  proof cases
    case 1
    then have "verify_switch env pr raw d code args
        = on_cur (\<lambda>s. Some (parse_notation env s code args)) (d\<lparr>vf_only_newsig_seen := False\<rparr>)"
      by (auto simp: verify_switch_def code_sets)
    then show ?thesis using total [of "\<lambda>s. parse_notation env s code args"] by simp
  next
    case 2
    then have "verify_switch env pr raw d code args
        = on_cur (\<lambda>s. Some (parse_trust env s code args)) (d\<lparr>vf_only_newsig_seen := False\<rparr>)"
      by (auto simp: verify_switch_def code_sets)
    then show ?thesis using total [of "\<lambda>s. parse_trust env s code args"] by simp
  next
    case 3
    then show ?thesis using seen by (auto simp: verify_switch_def code_sets vf_inv_put split: option.split)
  next
    case 4
    then show ?thesis using pka by (elim disjE) (simp_all add: verify_switch_def code_sets)
  next
    case 5
    then show ?thesis using seen total [of "\<lambda>s. parse_tofu_stats s args"]
      by (simp add: verify_switch_def code_sets Let_def)
  next
    case 6
    then show ?thesis
      using seen total [of "\<lambda>s. parse_tofu_stats_long env s args raw"]
      by (simp add: verify_switch_def code_sets Let_def)
  next
    case 7
    then show ?thesis
      using seen by (auto simp: verify_switch_def code_sets Let_def vf_inv_put split: option.split prod.split)
  next
    case 8
    then show ?thesis
      using plain assms(2) by (auto simp: verify_switch_def code_sets Let_def vf_inv_flags split: cres.split)
  next
    case 9
    then show ?thesis using assms by (simp add: verify_switch_def vf_inv_flags)
  qed
qed

lemma verify_switch_inv:
  assumes sw: "verify_switch env pr raw d code args = Some (d1, no_error)" and inv: "vf_inv d" and "code \<noteq> GPGME_STATUS_EOF"
  shows "vf_inv d1"
proof -
  have seen: "vf_inv (d\<lparr>vf_only_newsig_seen := False\<rparr>)" using inv by (rule vf_inv_flags)
  show ?thesis
  proof (cases rule: verify_line_cases [of code])
    case newsig
    then obtain o1 where "prepare_new_sig env (summarise d) = Some (o1, no_error)"
        "d1 = o1\<lparr>vf_only_newsig_seen := True, vf_conflict_user_seen := False\<rparr>"
      using sw by (auto simp: verify_switch_def split: option.splits)
    then show ?thesis using prepare_inv [OF vf_inv_summarise [OF inv]] by (auto simp: vf_inv_def)
  next
    case start
    let ?o = "if vf_did_prepare_new_sig d then d\<lparr>vf_only_newsig_seen := False\<rparr> else summarise (d\<lparr>vf_only_newsig_seen := False\<rparr>)"
    have "parse_new_sig env ?o code args pr = Some (d1, no_error)"
      using sw start by (cases "vf_did_prepare_new_sig d") (simp_all add: verify_switch_def Let_def)
    moreover have "vf_inv ?o" "\<not> vf_only_newsig_seen ?o" using seen vf_inv_summarise [OF seen] by simp_all
    ultimately show ?thesis using new_sig_inv(2) by blast
  next
    case valid
    then show ?thesis using sw seen by (auto simp: verify_switch_def code_sets Let_def dest: on_cur_inv)
  next
    case compl
    then show ?thesis
      using sw inv by (auto simp: verify_switch_def code_sets vf_inv_put split: if_splits option.splits)
  next
    case user
    obtain o1 e1 where o1: "on_cur (\<lambda>s. parse_tofu_user env s args pr) (d\<lparr>vf_only_newsig_seen := False\<rparr>) = Some (o1, e1)"
      using sw user by (auto simp: verify_switch_def code_sets Let_def split: option.splits)
    have "vf_inv o1" using on_cur_inv [OF o1 seen] .
    then show ?thesis using sw user o1 by (auto simp: verify_switch_def code_sets Let_def vf_inv_flags split: if_splits)
  next
    case eof
    then show ?thesis using assms(3) by simp
  next
    case rest
    then show ?thesis using sw verify_switch_other [OF _ inv, of code env pr raw args] by auto
  qed
qed

text \<open>The lines that make the handler dereference a null pointer or fail an assertion.\<close>

definition crash_line :: "op_env \<Rightarrow> gpgme_protocol_t \<Rightarrow> op_verify \<Rightarrow> int \<Rightarrow> string \<Rightarrow> bool" where
  "crash_line env pr d code args \<longleftrightarrow>
     code = GPGME_STATUS_NEWSIG \<and> vf_only_newsig_seen d \<and> 1 < length (vf_signatures d)
     \<or> code = GPGME_STATUS_VALIDSIG \<and> vf_signatures d \<noteq> []
        \<and> parse_valid_sig env (last (vf_signatures d)) args pr = None
     \<or> code = GPGME_STATUS_VERIFICATION_COMPLIANCE_MODE \<and> vf_signatures d = [] \<and> compliance_loop args"

lemma verify_switch_None:
  assumes inv: "vf_inv d" and "code \<noteq> GPGME_STATUS_EOF" "cstring_ok args"
  shows "verify_switch env pr raw d code args = None \<longleftrightarrow> crash_line env pr d code args"
proof -
  have seen: "vf_inv (d\<lparr>vf_only_newsig_seen := False\<rparr>)" using inv by (rule vf_inv_flags)
  show ?thesis
  proof (cases rule: verify_line_cases [of code])
    case newsig
    then show ?thesis
      using prepare_None [OF vf_inv_summarise [OF inv], of env]
      by (auto simp: verify_switch_def crash_line_def split: option.splits)
  next
    case start
    let ?o = "if vf_did_prepare_new_sig d then d\<lparr>vf_only_newsig_seen := False\<rparr> else summarise (d\<lparr>vf_only_newsig_seen := False\<rparr>)"
    have "parse_new_sig env ?o code args pr \<noteq> None"
      using seen vf_inv_summarise [OF seen] by (intro new_sig_inv(1)) simp_all
    moreover have "\<not> crash_line env pr d code args" using start by (auto simp: crash_line_def code_sets)
    ultimately show ?thesis
      using start by (cases "vf_did_prepare_new_sig d") (simp_all add: verify_switch_def Let_def)
  next
    case valid
    then show ?thesis
      using vf_inv_cur [OF inv]
      by (auto simp: verify_switch_def code_sets Let_def on_cur_def crash_line_def split: option.splits)
  next
    case compl
    then show ?thesis
      using vf_inv_cur [OF inv] by (auto simp: verify_switch_def code_sets crash_line_def split: option.splits)
  next
    case user
    then show ?thesis
      using tofu_user_total [OF assms(3), of env "the (cur_get d)" pr]
      by (auto simp: verify_switch_def code_sets Let_def on_cur_def crash_line_def split: option.splits)
  next
    case eof
    then show ?thesis using assms(2) by simp
  next
    case rest
    then show ?thesis
      using verify_switch_other [OF rest inv, of env pr raw args] by (auto simp: crash_line_def)
  qed
qed

lemma verify_eof_total: "vf_inv d \<Longrightarrow> verify_eof d \<noteq> None"
proof -
  assume inv: "vf_inv d"
  have "drop_newsig o1 \<noteq> None" if "vf_inv o1" for o1
    using that by (auto simp: drop_newsig_def vf_inv_def split: current_sig.splits)
  from this [OF inv] this [OF vf_inv_summarise [OF inv]] show ?thesis
    by (auto simp: verify_eof_def Let_def split: option.splits)
qed

section \<open>Runs of the handler\<close>

lemma verify_handler_step:
  assumes "verify_status_handler env ctx code args = Some (ctx1, args1, e)"
    and "get_hook OPDATA_VERIFY ctx = Some (HVerify d)"
  shows "\<exists>d1. get_hook OPDATA_VERIFY ctx1 = Some (HVerify d1)
     \<and> (d1 = d \<and> e \<noteq> no_error \<or> (\<exists>pr raw. verify_switch env pr raw d code args = Some (d1, e)))"
proof -
  obtain c0 e0 where p: "gpgme_progress_status_handler env ctx code args = Some (c0, args, e0)"
    using progress_handler_total by blast
  have g: "get_hook OPDATA_VERIFY c0 = Some (HVerify d)"
    using progress_handler_keeps [OF p] assms(2) by (simp add: ctx_keeps_def)
  show ?thesis
    using assms(1) g
    by (auto simp: verify_status_handler_def then_handler_def p gpgme_verify_status_handler_def
        ctx.search_store split: if_splits option.splits)
qed

lemma verify_feed_all_sigs:
  assumes "feed (verify_status_handler env) ctx ls = Some (ctx1, e)"
    and "get_hook OPDATA_VERIFY ctx = Some (HVerify d)" "all_sigs P d"
    and vs: "\<And>s s1. sig_vs s1 = sig_vs s \<Longrightarrow> P s \<Longrightarrow> P s1"
    and calc: "\<And>s. P s \<Longrightarrow> P (calc_sig_summary s)" and zero: "P zero_signature"
    and trust: "\<And>s code args. (code, args) \<in> set ls \<Longrightarrow> code \<in> trust_codes \<Longrightarrow> P s \<Longrightarrow>
      P (fst (parse_trust env s code args))"
  shows "\<exists>d1. get_hook OPDATA_VERIFY ctx1 = Some (HVerify d1) \<and> all_sigs P d1"
  using assms(1-3) trust
proof (induction ls arbitrary: ctx d)
  case (Cons l ls)
  obtain code args where l: "l = (code, args)" by (cases l)
  obtain c1 a1 e1 where h: "verify_status_handler env ctx code args = Some (c1, a1, e1)"
    using Cons.prems(1) by (auto simp: l split: option.splits)
  obtain d1 where d1: "get_hook OPDATA_VERIFY c1 = Some (HVerify d1)"
      "d1 = d \<or> (\<exists>pr raw. verify_switch env pr raw d code args = Some (d1, e1))"
    using verify_handler_step [OF h Cons.prems(2)] by blast
  have "all_sigs P d1"
    using d1(2) Cons.prems(3) verify_switch_all_sigs [OF _ Cons.prems(3) vs calc zero Cons.prems(4)] l by fastforce
  then show ?case
    using Cons.prems(1,4) Cons.IH [OF _ d1(1)] d1(1) h by (auto simp: l split: if_splits)
qed auto

definition not_green :: "signature \<Rightarrow> bool" where
  "not_green s \<longleftrightarrow> \<not> fully_valid s \<and> sig_summary s AND GPGME_SIGSUM_GREEN = 0 \<and> sig_summary s AND GPGME_SIGSUM_VALID = 0"

lemma calc_sig_summary_keeps [simp]:
  "sig_validity (calc_sig_summary s) = sig_validity s" "sig_status (calc_sig_summary s) = sig_status s"
  by (simp_all add: calc_sig_summary_def Let_def)

lemma calc_bits:
  defines "m \<equiv> (\<lambda>s. sig_summary (calc_sig_summary s))"
  shows "(m s AND GPGME_SIGSUM_VALID \<noteq> 0) =
      (sum_colour s = 2 \<and> sum_status (gpg_err_code (sig_status s)) = 0 \<and> sum_reason s = 0 \<and> \<not> sig_wrong_key_usage s)"
    and "(m s AND GPGME_SIGSUM_GREEN \<noteq> 0) = (sum_colour s = 2)"
    and "(m s AND GPGME_SIGSUM_RED \<noteq> 0) = (sum_colour s = 4)"
proof -
  have "sum_colour s \<in> {0, 2, 4}" by (cases rule: sum_colour_cases [of s]) auto
  from summary_bits [OF this sum_status_cases(1) sum_reason_cases(1),
      of "if sig_wrong_key_usage s then GPGME_SIGSUM_BAD_POLICY else 0" "gpg_err_code (sig_status s)" s]
  show "(m s AND GPGME_SIGSUM_VALID \<noteq> 0) =
      (sum_colour s = 2 \<and> sum_status (gpg_err_code (sig_status s)) = 0 \<and> sum_reason s = 0 \<and> \<not> sig_wrong_key_usage s)"
    and "(m s AND GPGME_SIGSUM_GREEN \<noteq> 0) = (sum_colour s = 2)"
    and "(m s AND GPGME_SIGSUM_RED \<noteq> 0) = (sum_colour s = 4)"
    by (simp_all add: m_def calc_sig_summary_def Let_def or.assoc split: if_splits)
qed

lemma calc_not_green: "not_green s \<Longrightarrow> not_green (calc_sig_summary s)"
proof -
  assume "not_green s"
  then have "\<not> fully_valid s" by (simp add: not_green_def)
  then have "sum_colour s \<noteq> 2" by (cases rule: sum_colour_cases [of s]) auto
  then show ?thesis
    using calc_bits(1,2) [of s] \<open>\<not> fully_valid s\<close> by (simp add: not_green_def fully_valid_def)
qed

lemma trust_not_green:
  assumes "code \<in> trust_codes" "code \<noteq> GPGME_STATUS_TRUST_FULLY" "code \<noteq> GPGME_STATUS_TRUST_ULTIMATE" "not_green s"
  shows "not_green (fst (parse_trust env s code args))"
  using assms by (auto simp: parse_trust_def not_green_def fully_valid_def Let_def)

lemma verify_feed_inv:
  assumes "feed (verify_status_handler env) ctx ls = Some (ctx1, no_error)"
    and "get_hook OPDATA_VERIFY ctx = Some (HVerify d)" "vf_inv d" "\<forall>l\<in>set ls. fst l \<noteq> GPGME_STATUS_EOF"
  shows "\<exists>d1. get_hook OPDATA_VERIFY ctx1 = Some (HVerify d1) \<and> vf_inv d1"
  using assms
proof (induction ls arbitrary: ctx d)
  case (Cons l ls)
  obtain code args where l: "l = (code, args)" by (cases l)
  obtain c1 a1 where h: "verify_status_handler env ctx code args = Some (c1, a1, no_error)"
      "feed (verify_status_handler env) c1 ls = Some (ctx1, no_error)"
    using Cons.prems(1) by (auto simp: l split: option.splits if_splits)
  obtain d1 where d1: "get_hook OPDATA_VERIFY c1 = Some (HVerify d1)"
      "\<exists>pr raw. verify_switch env pr raw d code args = Some (d1, no_error)"
    using verify_handler_step [OF h(1) Cons.prems(2)] by blast
  have "vf_inv d1" using d1(2) verify_switch_inv Cons.prems(3,4) l by fastforce
  then show ?case using Cons.IH [OF h(2) d1(1)] Cons.prems(4) by simp
qed auto

lemma vf_inv_zero: "vf_inv zero_verify"
  by (simp add: vf_inv_def zero_verify_def)

section \<open>Properties\<close>

text \<open>
  C16: What the summary bits of a signature mean. The valid bit is set exactly for a good
  signature by a fully or ultimately valid key that is not reported as revoked and may sign;
  the green bit for a signature by such a key that is good or only expired; the red bit for a
  signature that is good or expired by a key never to be trusted, or that is bad while nothing
  is known about the key. Green and red exclude each other.
\<close>

theorem sig_summary_meaning:
  "(sig_summary (calc_sig_summary s) AND GPGME_SIGSUM_VALID \<noteq> 0 \<longleftrightarrow>
      fully_valid s \<and> gpg_err_code (sig_status s) = GPG_ERR_NO_ERROR
      \<and> gpg_err_code (sig_validity_reason s) \<noteq> GPG_ERR_CERT_REVOKED \<and> \<not> sig_wrong_key_usage s)
   \<and> (sig_summary (calc_sig_summary s) AND GPGME_SIGSUM_GREEN \<noteq> 0 \<longleftrightarrow>
      fully_valid s \<and> status_usable (gpg_err_code (sig_status s)))
   \<and> (sig_summary (calc_sig_summary s) AND GPGME_SIGSUM_RED \<noteq> 0 \<longleftrightarrow>
      sig_validity s = GPGME_VALIDITY_NEVER \<and> status_usable (gpg_err_code (sig_status s))
      \<or> \<not> fully_valid s \<and> sig_validity s \<noteq> GPGME_VALIDITY_NEVER
        \<and> gpg_err_code (sig_status s) = GPG_ERR_BAD_SIGNATURE)
   \<and> \<not> (sig_summary (calc_sig_summary s) AND GPGME_SIGSUM_GREEN \<noteq> 0
        \<and> sig_summary (calc_sig_summary s) AND GPGME_SIGSUM_RED \<noteq> 0)"
proof (cases rule: sum_colour_cases [of s])
  case 1
  then show ?thesis
    using calc_bits [of s] sum_status_cases(2) [of "gpg_err_code (sig_status s)"] sum_reason_cases(2) [of s]
    by (auto simp: status_usable_def fully_valid_def)
next
  case 2
  then show ?thesis using calc_bits [of s] by (auto simp: status_usable_def fully_valid_def)
next
  case 3
  then show ?thesis using calc_bits [of s] by (auto simp: status_usable_def fully_valid_def)
qed

text \<open>
  C3: No signature is shown as green or valid unless the engine said that a key is fully or
  ultimately trusted: if the status lines contain no such line, no signature of the result has
  the green or the valid bit, whatever else the engine wrote and however the run ended.
\<close>

theorem no_trust_no_green:
  assumes "feed (verify_status_handler env) ctx ls = Some (ctx1, e)"
    and "get_hook OPDATA_VERIFY ctx = Some (HVerify zero_verify)"
    and "GPGME_STATUS_TRUST_FULLY \<notin> fst ` set ls" "GPGME_STATUS_TRUST_ULTIMATE \<notin> fst ` set ls"
  shows "\<exists>opd. snd (gpgme_op_verify_result ctx1) = Some opd
     \<and> (\<forall>s\<in>set (vf_signatures opd). sig_summary s AND GPGME_SIGSUM_GREEN = 0
          \<and> sig_summary s AND GPGME_SIGSUM_VALID = 0)"
proof -
  have z: "not_green zero_signature" "all_sigs not_green zero_verify"
    by (simp_all add: not_green_def fully_valid_def zero_signature_def all_sigs_def zero_verify_def)
  have "\<exists>d1. get_hook OPDATA_VERIFY ctx1 = Some (HVerify d1) \<and> all_sigs not_green d1"
  proof (rule verify_feed_all_sigs [OF assms(1,2) z(2)])
    show "not_green s1" if "sig_vs s1 = sig_vs s" "not_green s" for s s1
      using that by (simp add: not_green_def sig_vs_def fully_valid_def)
    show "not_green (fst (parse_trust env s code args))"
      if "(code, args) \<in> set ls" "code \<in> trust_codes" "not_green s" for s code args
      using that assms(3,4) by (intro trust_not_green) force+
  qed (auto simp: calc_not_green z(1))
  then obtain d1 where d1: "get_hook OPDATA_VERIFY ctx1 = Some (HVerify d1)"
      "\<forall>s\<in>set (vf_signatures d1). not_green s" by (auto simp: all_sigs_def)
  have "sig_summary (complete_summary s) AND GPGME_SIGSUM_GREEN = 0
      \<and> sig_summary (complete_summary s) AND GPGME_SIGSUM_VALID = 0" if "not_green s" for s
    using that by (auto simp: complete_summary_def not_green_def)
  then show ?thesis using d1 by (auto simp: gpgme_op_verify_result_def Let_def)
qed

definition vf_sample_ctx :: gpgme_ctx where
  "vf_sample_ctx = sample_ctx\<lparr>ctx_op_data := [HVerify zero_verify]\<rparr>"

lemma vf_sample_hook: "get_hook OPDATA_VERIFY vf_sample_ctx = Some (HVerify zero_verify)"
  by (simp add: vf_sample_ctx_def op_find_Cons)

theorem no_trust_no_green_witness:
  "\<exists>ctx1 e opd. feed (verify_status_handler sample_env) vf_sample_ctx
      [(GPGME_STATUS_NEWSIG, []), (GPGME_STATUS_GOODSIG, ''ABCD Alice''), (GPGME_STATUS_TRUST_MARGINAL, []),
       (GPGME_STATUS_EOF, [])] = Some (ctx1, e)
     \<and> snd (gpgme_op_verify_result ctx1) = Some opd
     \<and> (\<forall>s\<in>set (vf_signatures opd). sig_summary s AND GPGME_SIGSUM_GREEN = 0
          \<and> sig_summary s AND GPGME_SIGSUM_VALID = 0)"
proof -
  let ?ls = "[(GPGME_STATUS_NEWSIG, []), (GPGME_STATUS_GOODSIG, ''ABCD Alice''), (GPGME_STATUS_TRUST_MARGINAL, []),
       (GPGME_STATUS_EOF, [])]"
  have "map_option snd (feed (verify_status_handler sample_env) vf_sample_ctx ?ls) = Some no_error" by code_simp
  then obtain ctx1 where f: "feed (verify_status_handler sample_env) vf_sample_ctx ?ls = Some (ctx1, no_error)" by auto
  from no_trust_no_green [OF f vf_sample_hook] obtain opd where "snd (gpgme_op_verify_result ctx1) = Some opd"
      "\<forall>s\<in>set (vf_signatures opd). sig_summary s AND GPGME_SIGSUM_GREEN = 0 \<and> sig_summary s AND GPGME_SIGSUM_VALID = 0"
    by auto
  then show ?thesis using f by blast
qed

lemma parse_valid_sig_None:
  "parse_valid_sig env s args pr = None \<longleftrightarrow>
     core env ''fpr'' \<and> (args \<noteq> [] \<and> CHR '' '' \<notin> set args
       \<or> (\<exists>a b n. args = a @ CHR '' '' # b @ CHR '' '' # replicate n CHR '' ''
            \<and> a \<noteq> [] \<and> CHR '' '' \<notin> set a \<and> CHR '' '' \<notin> set b))" (is "_ \<longleftrightarrow> ?R")
proof -
  have blank: "valid_sig_times pr s1 (CHR '' '' # r) = None \<longleftrightarrow> (\<exists>n. r = replicate n CHR '' '')" for s1 r
  proof -
    have "skip_spaces (CHR '' '' # r) = [] \<longleftrightarrow> (\<forall>c\<in>set r. c = CHR '' '')"
      by (simp add: skip_spaces_def dropWhile_eq_Nil_conv)
    also have "\<dots> \<longleftrightarrow> (\<exists>n. r = replicate n CHR '' '')"
      by (metis in_set_replicate replicate_length_same)
    finally have "skip_spaces (CHR '' '' # r) = [] \<longleftrightarrow> (\<exists>n. r = replicate n CHR '' '')" .
    moreover obtain ts ep where t: "gpgme_parse_timestamp (CHR '' '' # r) = (ts, ep)" by fastforce
    then have "ts \<noteq> - 1 \<and> ep = None \<longleftrightarrow> skip_spaces (CHR '' '' # r) = []"
      unfolding gpgme_parse_timestamp_def Let_def by (auto split: if_split_asm prod.split_asm)
    moreover have "valid_sig_times pr s1 (CHR '' '' # r) = None \<longleftrightarrow> ts \<noteq> - 1 \<and> ep = None"
      by (simp add: valid_sig_times_def Let_def t split: prod.split option.split)
    ultimately show ?thesis by simp
  qed
  obtain a e where ae: "strchr_split CHR '' '' args = (a, e)" by fastforce
  show ?thesis
  proof (cases e)
    case None
    then have "a = args" "CHR '' '' \<notin> set args" using ae by (simp_all add: strchr_split_None)
    then show ?thesis using ae None by (auto simp: parse_valid_sig_def Let_def)
  next
    case (Some p)
    then have args: "args = a @ CHR '' '' # p" "CHR '' '' \<notin> set a" using ae by (simp_all add: strchr_split_Some)
    have "parse_valid_sig env s args pr = None \<longleftrightarrow> core env ''fpr'' \<and> a \<noteq> []
        \<and> (\<exists>b n. p = b @ CHR '' '' # replicate n CHR '' '' \<and> CHR '' '' \<notin> set b)"
    proof -
      obtain b e2 where b: "strchr_split CHR '' '' p = (b, e2)" by fastforce
      have "parse_valid_sig env s args pr = None \<longleftrightarrow> core env ''fpr'' \<and> a \<noteq> []
          \<and> (\<exists>r n. e2 = Some r \<and> r = replicate n CHR '' '')"
        using blank by (cases e2) (simp_all add: parse_valid_sig_def Let_def ae Some b)
      also have "(\<exists>r n. e2 = Some r \<and> r = replicate n CHR '' '')
          \<longleftrightarrow> (\<exists>b n. p = b @ CHR '' '' # replicate n CHR '' '' \<and> CHR '' '' \<notin> set b)"
        using b strchr_split_Some [of "CHR '' ''" p] by (metis Pair_inject)
      finally show ?thesis .
    qed
    also have "\<dots> \<longleftrightarrow> ?R"
    proof -
      have "a1 = a \<and> b @ CHR '' '' # q = p" if "args = a1 @ CHR '' '' # b @ CHR '' '' # q" "CHR '' '' \<notin> set a1" for a1 b q
        using that ae Some strchr_split_Some [of "CHR '' ''" args a1 "b @ CHR '' '' # q"] by simp
      moreover have "CHR '' '' \<in> set args" by (simp add: args(1))
      ultimately show ?thesis using args by blast
    qed
    finally show ?thesis .
  qed
qed

text \<open>
  C17: Which lines can bring the verify handler down. After any lines it accepted, the next line
  dereferences a null pointer or fails an assertion exactly in three situations: a NEWSIG that
  follows a NEWSIG when an earlier signature exists; a VALIDSIG line cut off behind the
  fingerprint or before its time stamp; and a compliance line with flag 23 before the first
  signature. All other lines are safe, however malformed, and so is the end of the operation.
\<close>

theorem verify_crash_iff:
  assumes "feed (verify_status_handler env) ctx ls = Some (ctx1, no_error)"
    and "get_hook OPDATA_VERIFY ctx = Some (HVerify zero_verify)" "\<forall>l\<in>set ls. fst l \<noteq> GPGME_STATUS_EOF"
    and "cstring_ok args"
  shows "\<exists>d. get_hook OPDATA_VERIFY ctx1 = Some (HVerify d)
     \<and> (gpgme_verify_status_handler env ctx1 code args = None \<longleftrightarrow>
          code = GPGME_STATUS_NEWSIG \<and> vf_only_newsig_seen d \<and> 1 < length (vf_signatures d)
          \<or> code = GPGME_STATUS_VALIDSIG \<and> vf_signatures d \<noteq> []
             \<and> core env ''fpr'' \<and> (args \<noteq> [] \<and> CHR '' '' \<notin> set args
               \<or> (\<exists>a b n. args = a @ CHR '' '' # b @ CHR '' '' # replicate n CHR '' ''
                    \<and> a \<noteq> [] \<and> CHR '' '' \<notin> set a \<and> CHR '' '' \<notin> set b))
          \<or> code = GPGME_STATUS_VERIFICATION_COMPLIANCE_MODE \<and> vf_signatures d = [] \<and> compliance_loop args)"
proof -
  obtain d where d: "get_hook OPDATA_VERIFY ctx1 = Some (HVerify d)" "vf_inv d"
    using verify_feed_inv [OF assms(1,2) vf_inv_zero assms(3)] by blast
  have "verify_switch env (ctx_protocol ctx1) (ctx_raw_description ctx1) d code args = None
      \<longleftrightarrow> crash_line env (ctx_protocol ctx1) d code args"
  proof (cases "code = GPGME_STATUS_EOF")
    case True
    then show ?thesis using verify_eof_total [OF d(2)] by (simp add: verify_switch_def code_sets crash_line_def)
  qed (rule verify_switch_None [OF d(2) _ assms(4)])
  moreover have "gpgme_verify_status_handler env ctx1 code args = None
      \<longleftrightarrow> verify_switch env (ctx_protocol ctx1) (ctx_raw_description ctx1) d code args = None"
    by (simp add: gpgme_verify_status_handler_def d(1) split: option.split)
  ultimately show ?thesis
    using d(1) unfolding crash_line_def parse_valid_sig_None by (intro exI [of _ d]) simp
qed

theorem verify_crash_iff_witness:
  "\<exists>ctx1. feed (verify_status_handler sample_env) vf_sample_ctx
      [(GPGME_STATUS_GOODSIG, ''ABCD Alice''), (GPGME_STATUS_NEWSIG, [])] = Some (ctx1, no_error)
     \<and> gpgme_verify_status_handler sample_env ctx1 GPGME_STATUS_NEWSIG [] = None"
proof -
  let ?ls = "[(GPGME_STATUS_GOODSIG, ''ABCD Alice''), (GPGME_STATUS_NEWSIG, [])]"
  have "case feed (verify_status_handler sample_env) vf_sample_ctx ?ls of
      Some (c, e) \<Rightarrow> e = no_error \<and> (case get_hook OPDATA_VERIFY c of Some (HVerify d) \<Rightarrow>
        vf_only_newsig_seen d \<and> length (vf_signatures d) = 2 | _ \<Rightarrow> False) | None \<Rightarrow> False" by code_simp
  then obtain c d where f: "feed (verify_status_handler sample_env) vf_sample_ctx ?ls = Some (c, no_error)"
      "get_hook OPDATA_VERIFY c = Some (HVerify d)" "vf_only_newsig_seen d" "length (vf_signatures d) = 2"
    by (auto split: option.splits prod.splits op_hook.splits)
  from verify_crash_iff [OF f(1) vf_sample_hook, of "[]" GPGME_STATUS_NEWSIG] f(2-4)
  have "gpgme_verify_status_handler sample_env c GPGME_STATUS_NEWSIG [] = None" by auto
  then show ?thesis using f(1) by blast
qed

end
