(* ===== verification/Gpgme_Encrypt.thy ===== *)
theory Gpgme_Encrypt
  imports Gpgme_OpSupport
begin

text \<open>
  The encrypt operation (\<open>encrypt.c\<close>): its status handlers and its result. The first section
  holds the refinement argument that this and the following operations share.

  A handler whose operation data is missing dereferences a null pointer in the C code as soon
  as a line concerns the operation; here it gives \<open>None\<close> on every line. The start functions
  create the data before they install the handler.
\<close>

section \<open>Runs of a handler seen through an abstraction\<close>

text \<open>
  \<open>view\<close> is the part of the state that decides about the outcome of an operation, \<open>None\<close> for a
  state outside the invariant. The contract of a handler: a line that it accepts changes the
  view as \<open>step\<close> says; the end of the operation reports \<open>verdict\<close>, provided that memory is
  there for the operation data of the handlers that run first.
\<close>

locale line_run =
  fixes handle :: "'s handler"
    and view :: "'s \<Rightarrow> 'v option"
    and step :: "int \<Rightarrow> string \<Rightarrow> 'v \<Rightarrow> 'v"
  assumes accepted: "handle s code args = Some (s', args', no_error) \<Longrightarrow> view s = Some v \<Longrightarrow>
      code \<noteq> GPGME_STATUS_EOF \<Longrightarrow> view s' = Some (step code args v)"
begin

lemma run:
  assumes "feed handle s ls = Some (s', no_error)" "view s = Some v" "\<forall>l\<in>set ls. fst l \<noteq> GPGME_STATUS_EOF"
  shows "view s' = Some (fold (\<lambda>(code, args). step code args) ls v)"
  using assms
proof (induction ls arbitrary: s v)
  case (Cons l ls)
  obtain code args where l: "l = (code, args)" by (cases l)
  obtain s1 a1 where s1: "handle s code args = Some (s1, a1, no_error)" "feed handle s1 ls = Some (s', no_error)"
    using Cons.prems(1) by (auto simp: l split: option.splits if_splits)
  have "view s1 = Some (step code args v)" using accepted [OF s1(1) Cons.prems(2)] Cons.prems(3) l by simp
  from Cons.IH [OF s1(2) this] show ?case using Cons.prems(3) l by simp
qed simp

end

locale finished_run = line_run +
  fixes verdict :: "'v \<Rightarrow> gpgme_error_t"
    and mem :: bool
  assumes finish: "mem \<Longrightarrow> view s = Some v \<Longrightarrow>
      \<exists>s' args'. handle s GPGME_STATUS_EOF args = Some (s', args', verdict v)"
begin

lemma outcome:
  assumes "feed handle s ls = Some (s1, no_error)" "view s = Some v" "\<forall>l\<in>set ls. fst l \<noteq> GPGME_STATUS_EOF" mem
  shows "\<exists>s'. feed handle s (ls @ [(GPGME_STATUS_EOF, a)])
           = Some (s', verdict (fold (\<lambda>(code, args). step code args) ls v))"
proof -
  obtain s' a' where "handle s1 GPGME_STATUS_EOF a
      = Some (s', a', verdict (fold (\<lambda>(code, args). step code args) ls v))"
    using finish [OF assms(4) run [OF assms(1-3)]] by blast
  then have "feed handle s (ls @ [(GPGME_STATUS_EOF, a)])
      = Some (s', verdict (fold (\<lambda>(code, args). step code args) ls v))"
    using assms(1) by (simp add: feed_append)
  then show ?thesis by blast
qed

end

text \<open>Accepted lines leave the view of a handler that runs first and never stops a line.\<close>

lemma then_handler_accepts:
  "then_handler h1 h2 s code args = Some (s', args', no_error) \<longleftrightarrow>
     (\<exists>s1 args1. h1 s code args = Some (s1, args1, no_error) \<and> h2 s1 code args1 = Some (s', args', no_error))"
  by (auto simp: then_handler_def split: option.splits prod.splits)

text \<open>The error code of the last FAILURE line.\<close>

definition failure_after :: "op_env \<Rightarrow> (int \<times> string) list \<Rightarrow> gpgme_error_t \<Rightarrow> gpgme_error_t" where
  "failure_after env ls e = fold (\<lambda>(code, args) e. if code = GPGME_STATUS_FAILURE
     then snd (gpgme_parse_failure env args) else e) ls e"

section \<open>Status handlers\<close>

definition encrypt_switch :: "op_env \<Rightarrow> gpgme_ctx \<Rightarrow> op_encrypt \<Rightarrow> int \<Rightarrow> string \<Rightarrow> gpgme_ctx hres" where
  "encrypt_switch env ctx opd code args =
     (if code = GPGME_STATUS_FAILURE then
        (case gpgme_parse_failure env args of
           (args1, e) \<Rightarrow> Some (put_hook (HEncrypt (opd\<lparr>en_failure_code := e\<rparr>)) ctx, args1, no_error))
      else if code = GPGME_STATUS_EOF then
        Some (ctx, args,
          if en_invalid_recipients opd \<noteq> [] then gpg_error GPG_ERR_UNUSABLE_PUBKEY else en_failure_code opd)
      else if code = GPGME_STATUS_KEY_CONSIDERED then
        (case gpgme_parse_key_considered env args of
           Ok (fpr, flags) \<Rightarrow>
             Some (put_hook (HEncrypt (opd\<lparr>en_kc_fpr := Some fpr, en_kc_flags := flags\<rparr>)) ctx, args, no_error)
         | Err e \<Rightarrow> Some (put_hook (HEncrypt (opd\<lparr>en_kc_fpr := None\<rparr>)) ctx, args, e)
         | UB \<Rightarrow> None)
      else if code = GPGME_STATUS_INV_RECP then
        (case gpgme_parse_inv_recp env args (en_kc_fpr opd) (en_kc_flags opd) of
           Ok k \<Rightarrow>
             Some (put_hook (HEncrypt (opd\<lparr>en_invalid_recipients := en_invalid_recipients opd @ [k],
                                           en_kc_fpr := None\<rparr>)) ctx, args, no_error)
         | Err e \<Rightarrow> Some (ctx, args, e)
         | UB \<Rightarrow> None)
      else if code = GPGME_STATUS_NO_RECP then Some (ctx, args, gpg_error GPG_ERR_GENERAL)
      else Some (ctx, args, no_error))"

definition gpgme_encrypt_status_handler :: "op_env \<Rightarrow> gpgme_ctx handler" where
  "gpgme_encrypt_status_handler env ctx code args =
     (case get_hook OPDATA_ENCRYPT ctx of
        Some (HEncrypt opd) \<Rightarrow> encrypt_switch env ctx opd code args
      | _ \<Rightarrow> None)"

definition encrypt_sym_status_handler :: "op_env \<Rightarrow> gpgme_ctx handler" where
  "encrypt_sym_status_handler env =
     then_handler (gpgme_progress_status_handler env) (gpgme_passphrase_status_handler env)"

definition encrypt_status_handler :: "op_env \<Rightarrow> gpgme_ctx handler" where
  "encrypt_status_handler env =
     then_handler (gpgme_progress_status_handler env) (gpgme_encrypt_status_handler env)"

section \<open>Set-up and result\<close>

definition gpgme_op_encrypt_init_result :: "op_env \<Rightarrow> gpgme_ctx \<Rightarrow> gpgme_ctx \<times> gpgme_error_t" where
  "gpgme_op_encrypt_init_result env ctx =
     (case gpgme_op_data_lookup env (Some ctx) OPDATA_ENCRYPT 1 of
        (Some ctx1, _, err) \<Rightarrow> (ctx1, err)
      | (None, _, err) \<Rightarrow> (ctx, err))"

definition gpgme_op_encrypt_result :: "gpgme_ctx \<Rightarrow> op_encrypt option" where
  "gpgme_op_encrypt_result ctx =
     (case get_hook OPDATA_ENCRYPT ctx of Some (HEncrypt opd) \<Rightarrow> Some opd | _ \<Rightarrow> None)"

section \<open>Refinement\<close>

lemma parse_lines_err [simp]:
  "gpgme_parse_inv_recp env args fpr flags \<noteq> Err no_error" "gpgme_parse_inv_recp env args fpr flags \<noteq> UB"
  "gpgme_parse_key_considered env args \<noteq> Err no_error" "gpgme_parse_key_considered env args \<noteq> UB"
  by (auto simp: gpgme_parse_inv_recp_def gpgme_parse_key_considered_def Let_def
      split: prod.split option.split)

text \<open>
  What decides about the outcome: whether a recipient was refused, and the last failure code.
\<close>

definition enc_view :: "gpgme_ctx \<Rightarrow> (bool \<times> gpgme_error_t) option" where
  "enc_view ctx =
     (case get_hook OPDATA_ENCRYPT ctx of
        Some (HEncrypt d) \<Rightarrow> Some (en_invalid_recipients d \<noteq> [], en_failure_code d)
      | _ \<Rightarrow> None)"

definition enc_step :: "op_env \<Rightarrow> int \<Rightarrow> string \<Rightarrow> bool \<times> gpgme_error_t \<Rightarrow> bool \<times> gpgme_error_t" where
  "enc_step env code args = (\<lambda>(refused, fc). (refused \<or> code = GPGME_STATUS_INV_RECP, failure_after env [(code, args)] fc))"

definition enc_verdict :: "bool \<times> gpgme_error_t \<Rightarrow> gpgme_error_t" where
  "enc_verdict = (\<lambda>(refused, fc). if refused then gpg_error GPG_ERR_UNUSABLE_PUBKEY else fc)"

lemma enc_view_keeps: "ctx_keeps I a b \<Longrightarrow> OPDATA_ENCRYPT \<notin> I \<Longrightarrow> enc_view b = enc_view a"
  by (simp add: enc_view_def ctx_keeps_def)

lemma enc_view_put:
  "enc_view ctx = Some v \<Longrightarrow> enc_view (put_hook (HEncrypt d) ctx) = Some (en_invalid_recipients d \<noteq> [], en_failure_code d)"
  by (auto simp: enc_view_def ctx.search_store split: option.splits)

lemma encrypt_switch_keeps:
  "encrypt_switch env ctx opd code args = Some (ctx', args', e) \<Longrightarrow> ctx_keeps {OPDATA_ENCRYPT} ctx ctx'"
  by (auto simp: encrypt_switch_def intro!: keeps_put split: if_splits cres.splits prod.splits)

lemma encrypt_own_keeps:
  "gpgme_encrypt_status_handler env ctx code args = Some (ctx', args', e) \<Longrightarrow> ctx_keeps {OPDATA_ENCRYPT} ctx ctx'"
  by (auto simp: gpgme_encrypt_status_handler_def dest: encrypt_switch_keeps split: option.splits op_hook.splits)

text \<open>Only a FAILURE line is cut for the handlers that follow.\<close>

definition failure_cut :: "op_env \<Rightarrow> int \<Rightarrow> string \<Rightarrow> string" where
  "failure_cut env code args = (if code = GPGME_STATUS_FAILURE then fst (gpgme_parse_failure env args) else args)"

lemma encrypt_own_step:
  assumes "gpgme_encrypt_status_handler env ctx code args = Some (ctx', args', no_error)"
    and v: "enc_view ctx = Some v" and "code \<noteq> GPGME_STATUS_EOF"
  shows "enc_view ctx' = Some (enc_step env code args v) \<and> args' = failure_cut env code args"
proof -
  obtain d where g: "get_hook OPDATA_ENCRYPT ctx = Some (HEncrypt d)" "v = (en_invalid_recipients d \<noteq> [], en_failure_code d)"
    using v by (auto simp: enc_view_def split: option.splits op_hook.splits)
  note put = enc_view_put [OF v]
  have "encrypt_switch env ctx d code args = Some (ctx', args', no_error)"
    using assms(1) g(1) by (simp add: gpgme_encrypt_status_handler_def)
  then show ?thesis
    using assms(3) g(2) v unfolding encrypt_switch_def
    by (auto simp: put enc_step_def failure_after_def failure_cut_def split: if_splits cres.splits prod.splits)
qed

lemma encrypt_own_eof:
  "enc_view ctx = Some v \<Longrightarrow>
   gpgme_encrypt_status_handler env ctx GPGME_STATUS_EOF args = Some (ctx, args, enc_verdict v)"
  by (auto simp: enc_view_def gpgme_encrypt_status_handler_def encrypt_switch_def enc_verdict_def
      split: option.splits op_hook.splits)

interpretation enc: finished_run "encrypt_status_handler env" enc_view "enc_step env" enc_verdict True for env
proof unfold_locales
  fix s code args s' args' v
  assume "encrypt_status_handler env s code args = Some (s', args', no_error)"
    and v: "enc_view s = Some v" and code: "code \<noteq> GPGME_STATUS_EOF"
  then obtain s1 where "gpgme_progress_status_handler env s code args = Some (s1, args, no_error)"
      "gpgme_encrypt_status_handler env s1 code args = Some (s', args', no_error)"
    by (auto simp: encrypt_status_handler_def then_handler_accepts dest: progress_handler_keeps)
  moreover from this(1) have "enc_view s1 = Some v"
    using progress_handler_keeps v enc_view_keeps [of "{}" s s1] by auto
  ultimately show "enc_view s' = Some (enc_step env code args v)" using encrypt_own_step code by blast
next
  fix s args v
  assume "enc_view s = Some v"
  then show "\<exists>s' args'. encrypt_status_handler env s GPGME_STATUS_EOF args = Some (s', args', enc_verdict v)"
    by (simp add: encrypt_status_handler_def then_handler_def progress_handler_quiet encrypt_own_eof)
qed

lemma enc_fold:
  "fold (\<lambda>(code, args). enc_step env code args) ls (refused, fc)
     = (refused \<or> GPGME_STATUS_INV_RECP \<in> fst ` set ls, failure_after env ls fc)"
proof (induction ls arbitrary: refused fc)
  case (Cons l ls)
  then show ?case by (cases l) (auto simp: enc_step_def failure_after_def)
qed (simp add: failure_after_def)

section \<open>Properties\<close>

text \<open>
  When an encryption to recipients is reported as successful: for any lines the handler
  accepted, the end of the operation reports an unusable key if the engine refused any
  recipient, and otherwise the code of the last FAILURE line, which is success if there was
  none.
\<close>

theorem encrypt_outcome:
  assumes "feed (encrypt_status_handler env) ctx ls = Some (ctx1, no_error)"
    and "get_hook OPDATA_ENCRYPT ctx = Some (HEncrypt zero_encrypt)" "\<forall>l\<in>set ls. fst l \<noteq> GPGME_STATUS_EOF"
  shows "\<exists>ctx2. feed (encrypt_status_handler env) ctx (ls @ [(GPGME_STATUS_EOF, a)]) = Some (ctx2,
     if GPGME_STATUS_INV_RECP \<in> fst ` set ls then gpg_error GPG_ERR_UNUSABLE_PUBKEY
     else failure_after env ls no_error)"
proof -
  have "enc_view ctx = Some (False, no_error)" using assms(2) by (simp add: enc_view_def zero_encrypt_def)
  from enc.outcome [OF assms(1) this assms(3)] show ?thesis by (simp add: enc_fold enc_verdict_def)
qed

theorem encrypt_outcome_witness:
  "\<exists>ctx2. feed (encrypt_status_handler sample_env) (sample_ctx\<lparr>ctx_op_data := [HEncrypt zero_encrypt]\<rparr>)
      ([(GPGME_STATUS_KEY_CONSIDERED, ''ABCD 2''), (GPGME_STATUS_INV_RECP, ''0 ABCD'')] @ [(GPGME_STATUS_EOF, [])])
    = Some (ctx2, gpg_error GPG_ERR_UNUSABLE_PUBKEY)"
proof -
  let ?ls = "[(GPGME_STATUS_KEY_CONSIDERED, ''ABCD 2''), (GPGME_STATUS_INV_RECP, ''0 ABCD'')]"
  have "map_option snd (feed (encrypt_status_handler sample_env) (sample_ctx\<lparr>ctx_op_data := [HEncrypt zero_encrypt]\<rparr>) ?ls)
      = Some no_error" by code_simp
  then obtain c where c: "feed (encrypt_status_handler sample_env) (sample_ctx\<lparr>ctx_op_data := [HEncrypt zero_encrypt]\<rparr>) ?ls
      = Some (c, no_error)" by auto
  have "get_hook OPDATA_ENCRYPT (sample_ctx\<lparr>ctx_op_data := [HEncrypt zero_encrypt]\<rparr>) = Some (HEncrypt zero_encrypt)"
    by (simp add: op_find_Cons)
  from encrypt_outcome [OF c this, of "[]"] show ?thesis by simp
qed

text \<open>
  With the symmetric flag set the code installs the symmetric handler even if there are
  recipients; that handler never touches the encrypt result, so that refused recipients are
  not recorded.
\<close>

lemma encrypt_sym_ignores_recipients:
  assumes "feed (encrypt_sym_status_handler env) ctx ls = Some (ctx1, e)"
  shows "gpgme_op_encrypt_result ctx1 = gpgme_op_encrypt_result ctx"
proof -
  have "ctx_keeps {OPDATA_PASSPHRASE} ctx ctx1"
  proof (rule feed_invariant [where I = "ctx_keeps {OPDATA_PASSPHRASE} ctx", OF _ keeps_refl assms])
    fix s c a s' a' e'
    assume k: "ctx_keeps {OPDATA_PASSPHRASE} ctx s" and h: "encrypt_sym_status_handler env s c a = Some (s', a', e')"
    have "ctx_keeps {OPDATA_PASSPHRASE} s s'"
      using h keeps_mono [of "{}" _ _ "{OPDATA_PASSPHRASE}"]
      by (auto simp: encrypt_sym_status_handler_def then_handler_def split: option.splits prod.splits if_splits
          dest!: progress_handler_keeps passphrase_handler_keeps intro: keeps_trans)
    then show "ctx_keeps {OPDATA_PASSPHRASE} ctx s'" using k keeps_trans by blast
  qed
  then show ?thesis by (simp add: gpgme_op_encrypt_result_def ctx_keeps_def)
qed

end
