(* ===== verification/Gpgme_Sign.thy ===== *)
theory Gpgme_Sign
  imports Gpgme_Encrypt
begin

text \<open>
  The sign operation (\<open>sign.c\<close>) and the combined operation (\<open>encrypt-sign.c\<close>): the parser of
  SIG_CREATED lines, the status handlers and the result, which takes back all signatures when
  a signer is missing.
\<close>

section \<open>Created signatures\<close>

text \<open>
  \<open>parse_sig_created\<close> returns the arguments as it leaves them: it ends the fingerprint with a
  terminator. A blank time stamp leaves the end pointer where the previous field put it.
\<close>

definition sig_mode_of :: "char \<Rightarrow> gpgme_sig_mode_t option" where
  "sig_mode_of c =
     (if c = CHR ''S'' then Some GPGME_SIG_MODE_NORMAL
      else if c = CHR ''D'' then Some GPGME_SIG_MODE_DETACH
      else if c = CHR ''C'' then Some GPGME_SIG_MODE_CLEAR else None)"

text \<open>One of the number fields: \<open>None\<close> if the field is malformed or is the last one.\<close>

definition sig_number :: "string \<Rightarrow> (int \<times> string) option" where
  "sig_number p =
     (case strtol 0 p of
        (n, tail, e) \<Rightarrow> if e \<or> p = tail \<or> peek tail \<noteq> CHR '' '' then None else Some (n, tail))"

definition sig_stamp :: "string \<Rightarrow> (int \<times> string) option" where
  "sig_stamp p =
     (case gpgme_parse_timestamp p of
        (ts, ep) \<Rightarrow>
          (let tail = (case ep of None \<Rightarrow> p | Some t \<Rightarrow> t)
           in if ts = - 1 \<or> p = tail \<or> peek tail \<noteq> CHR '' '' then None else Some (ts, tail)))"

definition sig_created_fields ::
    "string \<Rightarrow> gpgme_protocol_t \<Rightarrow> ((string \<Rightarrow> new_signature) \<times> string) option" where
  "sig_created_fields args protocol =
     (case sig_mode_of (cchr args 0) of
        None \<Rightarrow> None
      | Some mode \<Rightarrow>
          if cchr args 1 \<noteq> CHR '' '' then None
          else case sig_number (drop 1 args) of
            None \<Rightarrow> None
          | Some (algo, a1) \<Rightarrow>
              (case sig_number a1 of
                 None \<Rightarrow> None
               | Some (halgo, a2) \<Rightarrow>
                   (case sig_number a2 of
                      None \<Rightarrow> None
                    | Some (cls, a3) \<Rightarrow>
                        (case sig_stamp a3 of
                           None \<Rightarrow> None
                         | Some (ts, a4) \<Rightarrow>
                             if skip_spaces a4 = [] then None
                             else Some (\<lambda>fpr. \<lparr>ns_type = mode,
                                    ns_pubkey_algo = gpgme_map_pk_algo (to_int32 algo) protocol,
                                    ns_hash_algo = to_int32 halgo, ns_sig_class = to_uint32 cls,
                                    ns_timestamp = ts, ns_fpr = fpr\<rparr>, skip_spaces a4)))))"

definition parse_sig_created ::
    "op_env \<Rightarrow> string \<Rightarrow> gpgme_protocol_t \<Rightarrow> string \<times> new_signature cres" where
  "parse_sig_created env args protocol =
     (if \<not> core env ''new_sig'' then (args, Err (syserror ENOMEM))
      else case sig_created_fields args protocol of
        None \<Rightarrow> (args, Err (gpg_error GPG_ERR_INV_ENGINE))
      | Some (mk, a) \<Rightarrow>
          (let fpr = fst (strchr_split CHR '' '' a);
               left = take (length args - length a + length fpr) args
           in if core env ''new_sig.fpr'' then (left, Ok (mk fpr)) else (left, Err (syserror ENOMEM))))"

section \<open>Status handlers\<close>

definition sign_inv_signer :: "op_env \<Rightarrow> gpgme_ctx \<Rightarrow> op_sign \<Rightarrow> string \<Rightarrow> gpgme_ctx hres" where
  "sign_inv_signer env ctx opd args =
     (let opd1 = opd\<lparr>sg_kc_fpr := None\<rparr>
      in case gpgme_parse_inv_recp env args (sg_kc_fpr opd1) (sg_kc_flags opd1) of
           Ok k \<Rightarrow>
             Some (put_hook (HSign (opd1\<lparr>sg_invalid_signers := sg_invalid_signers opd1 @ [k]\<rparr>)) ctx,
                   args, no_error)
         | Err e \<Rightarrow> Some (put_hook (HSign opd1) ctx, args, e)
         | UB \<Rightarrow> None)"

definition sign_switch :: "op_env \<Rightarrow> gpgme_ctx \<Rightarrow> op_sign \<Rightarrow> int \<Rightarrow> string \<Rightarrow> gpgme_ctx hres" where
  "sign_switch env ctx opd code args =
     (if code = GPGME_STATUS_SIG_CREATED then
        (let opd1 = opd\<lparr>sg_sig_created_seen := True\<rparr>
         in case parse_sig_created env args (ctx_protocol ctx) of
              (args1, Ok s) \<Rightarrow>
                Some (put_hook (HSign (opd1\<lparr>sg_signatures := sg_signatures opd1 @ [s]\<rparr>)) ctx, args1, no_error)
            | (args1, Err e) \<Rightarrow> Some (put_hook (HSign opd1) ctx, args1, e)
            | (args1, UB) \<Rightarrow> None)
      else if code = GPGME_STATUS_KEY_CONSIDERED then
        (case gpgme_parse_key_considered env args of
           Ok (fpr, flags) \<Rightarrow>
             Some (put_hook (HSign (opd\<lparr>sg_kc_fpr := Some fpr, sg_kc_flags := flags\<rparr>)) ctx, args, no_error)
         | Err e \<Rightarrow> Some (put_hook (HSign (opd\<lparr>sg_kc_fpr := None\<rparr>)) ctx, args, e)
         | UB \<Rightarrow> None)
      else if code = GPGME_STATUS_INV_RECP then
        (if sg_inv_sgnr_seen opd \<and> sg_ignore_inv_recp opd then Some (ctx, args, no_error)
         else sign_inv_signer env ctx opd args)
      else if code = GPGME_STATUS_INV_SGNR then
        sign_inv_signer env ctx (opd\<lparr>sg_inv_sgnr_seen := True\<rparr>) args
      else if code = GPGME_STATUS_FAILURE then
        (case gpgme_parse_failure env args of
           (args1, e) \<Rightarrow> Some (put_hook (HSign (opd\<lparr>sg_failure_code := e\<rparr>)) ctx, args1, no_error))
      else if code = GPGME_STATUS_EOF then
        Some (ctx, args,
          if sg_invalid_signers opd \<noteq> [] then gpg_error GPG_ERR_UNUSABLE_SECKEY
          else if \<not> sg_sig_created_seen opd \<and> ctx_protocol ctx \<noteq> GPGME_PROTOCOL_UISERVER
          then (if is_err (sg_failure_code opd) then sg_failure_code opd else gpg_error GPG_ERR_GENERAL)
          else no_error)
      else if code = GPGME_STATUS_INQUIRE_MAXLEN then
        (case call_status_cb ctx ''INQUIRE_MAXLEN'' args of (ctx1, e) \<Rightarrow> Some (ctx1, args, e))
      else Some (ctx, args, no_error))"

definition sign_own_handler :: "op_env \<Rightarrow> gpgme_ctx handler" where
  "sign_own_handler env ctx code args =
     (case get_hook OPDATA_SIGN ctx of
        Some (HSign opd) \<Rightarrow> sign_switch env ctx opd code args
      | _ \<Rightarrow> None)"

definition gpgme_sign_status_handler :: "op_env \<Rightarrow> gpgme_ctx handler" where
  "gpgme_sign_status_handler env =
     then_handler (gpgme_passphrase_status_handler env) (sign_own_handler env)"

definition sign_status_handler :: "op_env \<Rightarrow> gpgme_ctx handler" where
  "sign_status_handler env =
     then_handler (gpgme_progress_status_handler env) (gpgme_sign_status_handler env)"

text \<open>\<open>encrypt-sign.c\<close>; the symmetric handler runs the passphrase handler a second time.\<close>

definition encrypt_sign_status_handler :: "op_env \<Rightarrow> gpgme_ctx handler" where
  "encrypt_sign_status_handler env =
     then_handler (then_handler (gpgme_progress_status_handler env) (gpgme_encrypt_status_handler env))
       (gpgme_sign_status_handler env)"

definition encrypt_sign_sym_status_handler :: "op_env \<Rightarrow> gpgme_ctx handler" where
  "encrypt_sign_sym_status_handler env =
     then_handler (then_handler (gpgme_progress_status_handler env) (gpgme_sign_status_handler env))
       (gpgme_passphrase_status_handler env)"

section \<open>Set-up and result\<close>

definition sign_init_result :: "op_env \<Rightarrow> gpgme_ctx \<Rightarrow> bool \<Rightarrow> (gpgme_ctx \<times> gpgme_error_t) option" where
  "sign_init_result env ctx ignore_inv_recp =
     (case gpgme_op_data_lookup env (Some ctx) OPDATA_SIGN 1 of
        (Some ctx1, Some (HSign opd), err) \<Rightarrow>
          Some (put_hook (HSign (opd\<lparr>sg_failure_code := no_error, sg_ignore_inv_recp := ignore_inv_recp,
                  sg_inv_sgnr_seen := False, sg_sig_created_seen := False\<rparr>)) ctx1, no_error)
      | (Some ctx1, _, err) \<Rightarrow> if is_err err then Some (ctx1, err) else None
      | _ \<Rightarrow> None)"

definition gpgme_op_sign_init_result :: "op_env \<Rightarrow> gpgme_ctx \<Rightarrow> (gpgme_ctx \<times> gpgme_error_t) option" where
  "gpgme_op_sign_init_result env ctx = sign_init_result env ctx False"

text \<open>
  The loop that lists the signatures as invalid signers, with the outcome of its allocations
  per signature. It stops at the first failed one and keeps what it appended.
\<close>

fun signatures_to_invalid ::
    "op_env \<Rightarrow> new_signature list \<Rightarrow> invalid_key list \<Rightarrow> invalid_key list \<times> bool" where
  "signatures_to_invalid env [] ks = (ks, True)"
| "signatures_to_invalid env (s # ss) ks =
     (if \<not> core env (''result_key.'' @ ns_fpr s) \<or> \<not> core env (''result_fpr.'' @ ns_fpr s) then (ks, False)
      else signatures_to_invalid env ss
             (ks @ [\<lparr>ik_fpr = Some (ns_fpr s), ik_reason = GpgError SOURCE_UNKNOWN GPG_ERR_GENERAL\<rparr>]))"

definition gpgme_op_sign_result :: "op_env \<Rightarrow> gpgme_ctx \<Rightarrow> gpgme_ctx \<times> op_sign option" where
  "gpgme_op_sign_result env ctx =
     (case get_hook OPDATA_SIGN ctx of
        Some (HSign opd) \<Rightarrow>
          if ctx_signers_len ctx \<noteq> 0
             \<and> length (sg_signatures opd) + length (sg_invalid_signers opd) \<noteq> ctx_signers_len ctx
          then
            (case signatures_to_invalid env (sg_signatures opd) (sg_invalid_signers opd) of
               (ks, False) \<Rightarrow> (put_hook (HSign (opd\<lparr>sg_invalid_signers := ks\<rparr>)) ctx, None)
             | (ks, True) \<Rightarrow>
                 (let opd1 = opd\<lparr>sg_invalid_signers := ks, sg_signatures := []\<rparr>
                  in (put_hook (HSign opd1) ctx, Some opd1)))
          else (ctx, Some opd)
      | _ \<Rightarrow> (ctx, None))"

section \<open>Refinement\<close>

text \<open>
  What decides about the outcome: whether a signer was refused, whether a signature was
  announced, the last failure code, the protocol and the last word on the passphrase. The
  invariant says that the flag for a seen INV_SGNR line implies a listed invalid signer.
\<close>

type_synonym sign_abs = "bool \<times> bool \<times> gpgme_error_t \<times> gpgme_protocol_t \<times> bool"

definition sign_inv :: "op_sign \<Rightarrow> bool" where
  "sign_inv d \<longleftrightarrow> (sg_inv_sgnr_seen d \<longrightarrow> sg_invalid_signers d \<noteq> [])"

definition sign_view :: "gpgme_ctx \<Rightarrow> sign_abs option" where
  "sign_view ctx =
     (case get_hook OPDATA_SIGN ctx of
        Some (HSign d) \<Rightarrow>
          if ctx_ok ctx \<and> pp_inv ctx \<and> sign_inv d
          then Some (sg_invalid_signers d \<noteq> [], sg_sig_created_seen d, sg_failure_code d, ctx_protocol ctx, pp_state ctx)
          else None
      | _ \<Rightarrow> None)"

definition sign_step :: "op_env \<Rightarrow> int \<Rightarrow> string \<Rightarrow> sign_abs \<Rightarrow> sign_abs" where
  "sign_step env code args = (\<lambda>(refused, created, fc, pr, pp).
     (refused \<or> code = GPGME_STATUS_INV_RECP \<or> code = GPGME_STATUS_INV_SGNR,
      created \<or> code = GPGME_STATUS_SIG_CREATED, failure_after env [(code, args)] fc, pr,
      pp_refused [(code, args)] pp))"

definition sign_verdict :: "sign_abs \<Rightarrow> gpgme_error_t" where
  "sign_verdict = (\<lambda>(refused, created, fc, pr, pp).
     if pp then gpg_error GPG_ERR_BAD_PASSPHRASE
     else if refused then gpg_error GPG_ERR_UNUSABLE_SECKEY
     else if created \<or> pr = GPGME_PROTOCOL_UISERVER then no_error
     else if is_err fc then fc else gpg_error GPG_ERR_GENERAL)"

lemma sign_view_Some:
  "sign_view ctx = Some v \<longleftrightarrow> (\<exists>d. get_hook OPDATA_SIGN ctx = Some (HSign d) \<and> ctx_ok ctx \<and> pp_inv ctx \<and> sign_inv d
     \<and> v = (sg_invalid_signers d \<noteq> [], sg_sig_created_seen d, sg_failure_code d, ctx_protocol ctx, pp_state ctx))"
  by (auto simp: sign_view_def split: option.splits op_hook.splits)

lemma sign_view_keeps:
  assumes "ctx_keeps I a b" "OPDATA_SIGN \<notin> I" "OPDATA_PASSPHRASE \<notin> I" "sign_view a = Some v"
  shows "sign_view b = Some v"
  using assms pp_keeps [OF assms(1,3)] unfolding sign_view_Some by (auto simp: ctx_keeps_def)

lemma parse_sig_created_err [simp]:
  "parse_sig_created env args pr \<noteq> (a, Err no_error)" "parse_sig_created env args pr \<noteq> (a, UB)"
  by (auto simp: parse_sig_created_def Let_def split: option.split prod.split)

lemma sign_inv_signer_after:
  assumes "sign_inv_signer env ctx d args = Some (ctx', args', e)" "get_hook OPDATA_SIGN ctx = Some (HSign d0)"
  shows "ctx_keeps {OPDATA_SIGN} ctx ctx'"
    and "e = no_error \<Longrightarrow> \<exists>k. get_hook OPDATA_SIGN ctx' = Some (HSign (d\<lparr>sg_kc_fpr := None,
      sg_invalid_signers := sg_invalid_signers d @ [k]\<rparr>)) \<and> args' = args"
  using assms by (auto simp: sign_inv_signer_def Let_def ctx.search_store intro!: keeps_put split: cres.splits)

text \<open>One line seen by the handler after its call of the passphrase handler.\<close>

definition sign_after :: "op_env \<Rightarrow> int \<Rightarrow> string \<Rightarrow> op_sign \<Rightarrow> op_sign \<Rightarrow> bool" where
  "sign_after env code args d d' \<longleftrightarrow> (sign_inv d \<longrightarrow> sign_inv d' \<and>
     (sg_invalid_signers d' \<noteq> [] \<longleftrightarrow> sg_invalid_signers d \<noteq> [] \<or> code = GPGME_STATUS_INV_RECP \<or> code = GPGME_STATUS_INV_SGNR))
     \<and> (sg_sig_created_seen d' \<longleftrightarrow> sg_sig_created_seen d \<or> code = GPGME_STATUS_SIG_CREATED)
     \<and> sg_failure_code d' = failure_after env [(code, args)] (sg_failure_code d)"

lemma sign_switch_keeps:
  assumes "sign_switch env ctx d code args = Some (ctx', args', e)" "get_hook OPDATA_SIGN ctx = Some (HSign d0)"
  shows "ctx_keeps {OPDATA_SIGN} ctx ctx'"
  using assms unfolding sign_switch_def
  by (auto simp: Let_def intro!: keeps_put split: if_split_asm cres.splits prod.splits
      dest: keeps_cb [where I = "{OPDATA_SIGN}"] sign_inv_signer_after(1))

lemma sign_switch_after:
  assumes g: "get_hook OPDATA_SIGN ctx = Some (HSign d)"
    and s: "sign_switch env ctx d code args = Some (ctx', args', no_error)" and "code \<noteq> GPGME_STATUS_EOF"
  shows "\<exists>d'. get_hook OPDATA_SIGN ctx' = Some (HSign d') \<and> sign_after env code args d d'"
proof -
  have put: "get_hook OPDATA_SIGN (put_hook (HSign d') ctx) = Some (HSign d')" for d'
    using g by (simp add: ctx.search_store)
  note after = sign_after_def sign_inv_def failure_after_def
  consider (created) "code = GPGME_STATUS_SIG_CREATED" | (kc) "code = GPGME_STATUS_KEY_CONSIDERED"
    | (recp) "code = GPGME_STATUS_INV_RECP" | (sgnr) "code = GPGME_STATUS_INV_SGNR"
    | (failure) "code = GPGME_STATUS_FAILURE" | (maxlen) "code = GPGME_STATUS_INQUIRE_MAXLEN"
    | (rest) "code \<notin> {GPGME_STATUS_SIG_CREATED, GPGME_STATUS_KEY_CONSIDERED, GPGME_STATUS_INV_RECP,
        GPGME_STATUS_INV_SGNR, GPGME_STATUS_FAILURE, GPGME_STATUS_INQUIRE_MAXLEN}"
    by blast
  then show ?thesis
  proof cases
    case created
    then show ?thesis
      using s by (auto simp: sign_switch_def Let_def put after split: prod.splits cres.splits)
  next
    case kc
    then show ?thesis using s by (auto simp: sign_switch_def put after split: prod.splits cres.splits)
  next
    case recp
    show ?thesis
    proof (cases "sg_inv_sgnr_seen d \<and> sg_ignore_inv_recp d")
      case True
      then show ?thesis using s recp g by (auto simp: sign_switch_def after)
    next
      case False
      then have "sign_inv_signer env ctx d args = Some (ctx', args', no_error)"
        using s recp by (auto simp: sign_switch_def split: if_split_asm)
      from sign_inv_signer_after(2) [OF this g] recp show ?thesis by (auto simp: after)
    qed
  next
    case sgnr
    then have "sign_inv_signer env ctx (d\<lparr>sg_inv_sgnr_seen := True\<rparr>) args = Some (ctx', args', no_error)"
      using s by (simp add: sign_switch_def)
    from sign_inv_signer_after(2) [OF this g] sgnr show ?thesis by (auto simp: after)
  next
    case failure
    then show ?thesis using s by (auto simp: sign_switch_def put after split: prod.splits)
  next
    case maxlen
    then have "get_hook OPDATA_SIGN ctx' = Some (HSign d)"
      using s g by (auto simp: sign_switch_def split: prod.splits dest: call_status_cb_frame [where i = OPDATA_SIGN])
    then show ?thesis using maxlen by (auto simp: after)
  next
    case rest
    then show ?thesis using s g assms(3) by (auto simp: sign_switch_def after)
  qed
qed

lemma sign_handler_keeps:
  assumes "gpgme_sign_status_handler env ctx code args = Some (ctx', args', e)"
  shows "ctx_keeps {OPDATA_PASSPHRASE, OPDATA_SIGN} ctx ctx'"
proof -
  note up = keeps_mono [where J = "{OPDATA_PASSPHRASE, OPDATA_SIGN}"]
  have p: "ctx_keeps {OPDATA_PASSPHRASE, OPDATA_SIGN} ctx c"
    if "gpgme_passphrase_status_handler env ctx code args = Some (c, a, e1)" for c a e1
    using passphrase_handler_keeps [OF that] by (auto intro: up)
  have o: "ctx_keeps {OPDATA_PASSPHRASE, OPDATA_SIGN} c ctx'"
    if "sign_own_handler env c code a = Some (ctx', args', e)" for c a
    using that by (auto simp: sign_own_handler_def split: option.splits op_hook.splits
        dest: sign_switch_keeps intro: up)
  show ?thesis
    using assms p o
    by (auto simp: gpgme_sign_status_handler_def then_handler_def split: option.splits prod.splits if_splits
        intro: keeps_trans)
qed

lemma sign_handler_step:
  assumes "gpgme_sign_status_handler env ctx code args = Some (ctx', args', no_error)"
    and "sign_view ctx = Some v" and code: "code \<noteq> GPGME_STATUS_EOF"
  shows "sign_view ctx' = Some (sign_step env code args v)"
proof -
  obtain d where d: "get_hook OPDATA_SIGN ctx = Some (HSign d)" "ctx_ok ctx" "pp_inv ctx" "sign_inv d"
      "v = (sg_invalid_signers d \<noteq> [], sg_sig_created_seen d, sg_failure_code d, ctx_protocol ctx, pp_state ctx)"
    using assms(2) unfolding sign_view_Some by blast
  obtain c a1 where p: "gpgme_passphrase_status_handler env ctx code args = Some (c, a1, no_error)"
    and o: "sign_own_handler env c code a1 = Some (ctx', args', no_error)"
    using assms(1) by (auto simp: gpgme_sign_status_handler_def then_handler_accepts)
  have k: "ctx_keeps {OPDATA_PASSPHRASE} ctx c" and a1: "a1 = args" using passphrase_handler_keeps [OF p] by simp_all
  have g: "get_hook OPDATA_SIGN c = Some (HSign d)" using k d(1) by (simp add: ctx_keeps_def)
  then have s: "sign_switch env c d code args = Some (ctx', args', no_error)" using o a1 by (simp add: sign_own_handler_def)
  obtain d' where d': "get_hook OPDATA_SIGN ctx' = Some (HSign d')" "sign_after env code args d d'"
    using sign_switch_after [OF g s code] by blast
  have k2: "ctx_keeps {OPDATA_SIGN} c ctx'" using sign_switch_keeps [OF s g] .
  have pp: "pp_inv ctx' \<and> pp_state ctx' = pp_refused [(code, args)] (pp_state ctx)"
    using passphrase_step_ok [OF p d(3) code] pp_keeps [OF k2] by simp
  show ?thesis
    unfolding sign_view_Some using d d' pp k k2 by (auto simp: sign_after_def sign_step_def ctx_keeps_def)
qed

lemma sign_handler_eof:
  assumes "sign_view ctx = Some v" "core env ''op_data''"
  shows "\<exists>ctx' args'. gpgme_sign_status_handler env ctx GPGME_STATUS_EOF args = Some (ctx', args', sign_verdict v)"
proof -
  obtain d where d: "get_hook OPDATA_SIGN ctx = Some (HSign d)" "ctx_ok ctx"
      "v = (sg_invalid_signers d \<noteq> [], sg_sig_created_seen d, sg_failure_code d, ctx_protocol ctx, pp_state ctx)"
    using assms(1) unfolding sign_view_Some by blast
  obtain c e where p: "gpgme_passphrase_status_handler env ctx GPGME_STATUS_EOF args = Some (c, args, e)"
    using passphrase_handler_total [OF d(2)] by blast
  note e = passphrase_eof [OF p assms(2)]
  then have "get_hook OPDATA_SIGN c = Some (HSign d)" "ctx_protocol c = ctx_protocol ctx"
    using d(1) by (simp_all add: ctx_keeps_def)
  then show ?thesis
    using e d(3) by (auto simp: gpgme_sign_status_handler_def then_handler_def p sign_own_handler_def sign_switch_def
        sign_verdict_def)
qed

interpretation sgn: finished_run "sign_status_handler env" sign_view "sign_step env" sign_verdict "core env ''op_data''" for env
proof unfold_locales
  fix s code args s' args' v
  assume "sign_status_handler env s code args = Some (s', args', no_error)"
    and v: "sign_view s = Some v" and code: "code \<noteq> GPGME_STATUS_EOF"
  then obtain s1 where s1: "gpgme_progress_status_handler env s code args = Some (s1, args, no_error)"
      "gpgme_sign_status_handler env s1 code args = Some (s', args', no_error)"
    by (auto simp: sign_status_handler_def then_handler_accepts dest: progress_handler_keeps)
  have "sign_view s1 = Some v" using progress_handler_keeps [OF s1(1)] by (auto intro: sign_view_keeps [OF _ _ _ v])
  then show "sign_view s' = Some (sign_step env code args v)" using sign_handler_step [OF s1(2)] code by blast
next
  fix s args v
  assume "core env ''op_data''" "sign_view s = Some v"
  then show "\<exists>s' args'. sign_status_handler env s GPGME_STATUS_EOF args = Some (s', args', sign_verdict v)"
    using sign_handler_eof
    by (simp add: sign_status_handler_def then_handler_def progress_handler_quiet)
qed

lemma sign_fold:
  "fold (\<lambda>(code, args). sign_step env code args) ls (refused, created, fc, pr, pp)
     = (refused \<or> GPGME_STATUS_INV_RECP \<in> fst ` set ls \<or> GPGME_STATUS_INV_SGNR \<in> fst ` set ls,
        created \<or> GPGME_STATUS_SIG_CREATED \<in> fst ` set ls, failure_after env ls fc, pr, pp_refused ls pp)"
proof (induction ls arbitrary: refused created fc pp)
  case (Cons l ls)
  then show ?case by (cases l) (auto simp: sign_step_def failure_after_def pp_refused_def)
qed (simp add: failure_after_def pp_refused_def)

lemma sign_view_init:
  assumes "get_hook OPDATA_SIGN ctx = Some (HSign (zero_sign\<lparr>sg_ignore_inv_recp := b\<rparr>))"
    and "get_hook OPDATA_PASSPHRASE ctx = None" "ctx_ok ctx"
  shows "sign_view ctx = Some (False, False, no_error, ctx_protocol ctx, False)"
  using assms by (simp add: sign_view_def zero_sign_def sign_inv_def pp_inv_def pp_state_def)

text \<open>The combined operation refines the product of the two.\<close>

definition encsign_view :: "gpgme_ctx \<Rightarrow> ((bool \<times> gpgme_error_t) \<times> sign_abs) option" where
  "encsign_view ctx =
     (case (enc_view ctx, sign_view ctx) of (Some a, Some b) \<Rightarrow> Some (a, b) | _ \<Rightarrow> None)"

definition encsign_step ::
    "op_env \<Rightarrow> int \<Rightarrow> string \<Rightarrow> (bool \<times> gpgme_error_t) \<times> sign_abs \<Rightarrow> (bool \<times> gpgme_error_t) \<times> sign_abs" where
  "encsign_step env code args = (\<lambda>(a, b).
     (enc_step env code args a, sign_step env code (failure_cut env code args) b))"

definition encsign_verdict :: "(bool \<times> gpgme_error_t) \<times> sign_abs \<Rightarrow> gpgme_error_t" where
  "encsign_verdict = (\<lambda>(a, b). if is_err (enc_verdict a) then enc_verdict a else sign_verdict b)"

lemma encsign_view_Some: "encsign_view ctx = Some (a, b) \<longleftrightarrow> enc_view ctx = Some a \<and> sign_view ctx = Some b"
  by (auto simp: encsign_view_def split: option.splits)

interpretation es: finished_run "encrypt_sign_status_handler env" encsign_view "encsign_step env" encsign_verdict
  "core env ''op_data''" for env
proof unfold_locales
  fix s code args s' args' v
  assume h: "encrypt_sign_status_handler env s code args = Some (s', args', no_error)"
    and "encsign_view s = Some v" and code: "code \<noteq> GPGME_STATUS_EOF"
  then obtain a b where v: "v = (a, b)" "enc_view s = Some a" "sign_view s = Some b"
    by (cases v) (auto simp: encsign_view_Some)
  obtain s1 s2 args2 where s1: "gpgme_progress_status_handler env s code args = Some (s1, args, no_error)"
      "gpgme_encrypt_status_handler env s1 code args = Some (s2, args2, no_error)"
      "gpgme_sign_status_handler env s2 code args2 = Some (s', args', no_error)"
    using h by (auto simp: encrypt_sign_status_handler_def then_handler_accepts dest: progress_handler_keeps)
  have k: "ctx_keeps {} s s1" using progress_handler_keeps [OF s1(1)] by simp
  have e2: "enc_view s2 = Some (enc_step env code args a)" "args2 = failure_cut env code args"
    using encrypt_own_step [OF s1(2) _ code] enc_view_keeps [OF k] v(2) by auto
  have "sign_view s2 = Some b"
    using sign_view_keeps [OF encrypt_own_keeps [OF s1(2)]] sign_view_keeps [OF k _ _ v(3)] by simp
  then have "sign_view s' = Some (sign_step env code args2 b)" using sign_handler_step [OF s1(3)] code by blast
  moreover have "enc_view s' = enc_view s2" using enc_view_keeps [OF sign_handler_keeps [OF s1(3)]] by simp
  ultimately show "encsign_view s' = Some (encsign_step env code args v)"
    using e2 by (simp add: v(1) encsign_step_def encsign_view_Some)
next
  fix s args v
  assume mem: "core env ''op_data''" and "encsign_view s = Some v"
  then obtain a b where v: "v = (a, b)" "enc_view s = Some a" "sign_view s = Some b"
    by (cases v) (auto simp: encsign_view_Some)
  show "\<exists>s' args'. encrypt_sign_status_handler env s GPGME_STATUS_EOF args = Some (s', args', encsign_verdict v)"
    using sign_handler_eof [OF v(3) mem]
    by (simp add: encrypt_sign_status_handler_def then_handler_def progress_handler_quiet
        encrypt_own_eof [OF v(2)] encsign_verdict_def v(1))
qed

lemma encsign_step_pair: "encsign_step env code args (a, b)
    = (enc_step env code args a, sign_step env code (failure_cut env code args) b)"
  by (simp add: encsign_step_def)

lemma encsign_fold:
  "fold (\<lambda>(code, args). encsign_step env code args) ls v
     = (fold (\<lambda>(code, args). enc_step env code args) ls (fst v),
        fold (\<lambda>(code, args). sign_step env code (failure_cut env code args)) ls (snd v))"
proof (induction ls arbitrary: v)
  case (Cons l ls)
  obtain a b where "v = (a, b)" by (cases v)
  then show ?case by (simp add: Cons [unfolded case_prod_beta] encsign_step_pair case_prod_beta)
qed simp

lemma sign_cut_fold:
  "\<exists>fc1. fold (\<lambda>(code, args). sign_step env code (failure_cut env code args)) ls (refused, created, fc, pr, pp)
     = (refused \<or> GPGME_STATUS_INV_RECP \<in> fst ` set ls \<or> GPGME_STATUS_INV_SGNR \<in> fst ` set ls,
        created \<or> GPGME_STATUS_SIG_CREATED \<in> fst ` set ls, fc1, pr, pp_refused ls pp)"
proof (induction ls arbitrary: refused created fc pp)
  case (Cons l ls)
  obtain code args where l: "l = (code, args)" by (cases l)
  show ?case
    using Cons [of "refused \<or> code = GPGME_STATUS_INV_RECP \<or> code = GPGME_STATUS_INV_SGNR"
        "created \<or> code = GPGME_STATUS_SIG_CREATED"
        "failure_after env [(code, failure_cut env code args)] fc" "pp_refused [(code, args)] pp"]
    by (auto simp: l sign_step_def pp_refused_def)
qed (simp add: pp_refused_def)

section \<open>Properties\<close>

text \<open>
  When a signing operation is reported as successful. For any lines the handler accepted,
  the end of the operation reports, in this order: a bad passphrase if the engine's last word
  on it was a refusal; an unusable key if any signer was refused; success if a signature was
  announced (or the protocol announces none); else the code of the last FAILURE line or a
  general error. In particular a failure reported after the first signature does not make the
  operation fail; the application sees it only through the result.
\<close>

theorem sign_outcome:
  assumes "feed (sign_status_handler env) ctx ls = Some (ctx1, no_error)"
    and "get_hook OPDATA_SIGN ctx = Some (HSign (zero_sign\<lparr>sg_ignore_inv_recp := b\<rparr>))"
    and "get_hook OPDATA_PASSPHRASE ctx = None" "ctx_ok ctx"
    and "\<forall>l\<in>set ls. fst l \<noteq> GPGME_STATUS_EOF" "core env ''op_data''"
  shows "\<exists>ctx2. feed (sign_status_handler env) ctx (ls @ [(GPGME_STATUS_EOF, a)]) = Some (ctx2,
     if pp_refused ls False then gpg_error GPG_ERR_BAD_PASSPHRASE
     else if GPGME_STATUS_INV_RECP \<in> fst ` set ls \<or> GPGME_STATUS_INV_SGNR \<in> fst ` set ls
     then gpg_error GPG_ERR_UNUSABLE_SECKEY
     else if GPGME_STATUS_SIG_CREATED \<in> fst ` set ls \<or> ctx_protocol ctx = GPGME_PROTOCOL_UISERVER then no_error
     else if is_err (failure_after env ls no_error) then failure_after env ls no_error
     else gpg_error GPG_ERR_GENERAL)"
  using sgn.outcome [OF assms(1) sign_view_init [OF assms(2-4)] assms(5,6), of a]
  by (simp add: sign_fold sign_verdict_def)

definition sign_sample_ctx :: gpgme_ctx where
  "sign_sample_ctx = sample_ctx\<lparr>ctx_op_data := [HEncrypt zero_encrypt, HSign zero_sign], ctx_signers_len := 2\<rparr>"

lemma sign_sample_hooks:
  "get_hook OPDATA_SIGN sign_sample_ctx = Some (HSign (zero_sign\<lparr>sg_ignore_inv_recp := False\<rparr>))"
  "get_hook OPDATA_ENCRYPT sign_sample_ctx = Some (HEncrypt zero_encrypt)"
  "get_hook OPDATA_PASSPHRASE sign_sample_ctx = None" "ctx_ok sign_sample_ctx"
  by (simp_all add: sign_sample_ctx_def get_hook_def op_find_Cons ctx_ok_def hooks_ok_def zero_sign_def)

theorem sign_outcome_witness:
  "\<exists>ctx2. feed (sign_status_handler sample_env) sign_sample_ctx
      ([(GPGME_STATUS_GOOD_PASSPHRASE, []), (GPGME_STATUS_SIG_CREATED, ''D 1 8 00 1500000000 ABCD'')] @ [(GPGME_STATUS_EOF, [])])
    = Some (ctx2, no_error)"
proof -
  let ?ls = "[(GPGME_STATUS_GOOD_PASSPHRASE, []), (GPGME_STATUS_SIG_CREATED, ''D 1 8 00 1500000000 ABCD'')]"
  have "map_option snd (feed (sign_status_handler sample_env) sign_sample_ctx ?ls) = Some no_error" by code_simp
  then obtain c where c: "feed (sign_status_handler sample_env) sign_sample_ctx ?ls = Some (c, no_error)" by auto
  from sign_outcome [OF c sign_sample_hooks(1,3,4), of "[]"] show ?thesis by (simp add: pp_refused_def)
qed

text \<open>
  C7: Encrypt-and-sign is reported as successful exactly if the engine refused no recipient and
  no signer, its last FAILURE line (if any) carries no error, it announced a signature, and
  its last word on the passphrase was not a refusal. Unlike for signing alone, a failure
  reported after the signature counts.
\<close>

theorem encrypt_sign_success_iff:
  assumes "feed (encrypt_sign_status_handler env) ctx ls = Some (ctx1, no_error)"
    and "get_hook OPDATA_ENCRYPT ctx = Some (HEncrypt zero_encrypt)"
    and "get_hook OPDATA_SIGN ctx = Some (HSign (zero_sign\<lparr>sg_ignore_inv_recp := b\<rparr>))"
    and "get_hook OPDATA_PASSPHRASE ctx = None" "ctx_ok ctx"
    and "\<forall>l\<in>set ls. fst l \<noteq> GPGME_STATUS_EOF" "core env ''op_data''"
    and "ctx_protocol ctx \<noteq> GPGME_PROTOCOL_UISERVER"
  shows "\<exists>ctx2 e. feed (encrypt_sign_status_handler env) ctx (ls @ [(GPGME_STATUS_EOF, a)]) = Some (ctx2, e)
     \<and> (e = no_error \<longleftrightarrow>
          GPGME_STATUS_INV_RECP \<notin> fst ` set ls \<and> GPGME_STATUS_INV_SGNR \<notin> fst ` set ls
          \<and> failure_after env ls no_error = no_error \<and> GPGME_STATUS_SIG_CREATED \<in> fst ` set ls
          \<and> \<not> pp_refused ls False)"
proof -
  have "enc_view ctx = Some (False, no_error)" using assms(2) by (simp add: enc_view_def zero_encrypt_def)
  then have v: "encsign_view ctx = Some ((False, no_error), (False, False, no_error, ctx_protocol ctx, False))"
    using sign_view_init [OF assms(3-5)] by (simp add: encsign_view_Some)
  obtain fc1 where "fold (\<lambda>(code, args). sign_step env code (failure_cut env code args)) ls
        (False, False, no_error, ctx_protocol ctx, False)
      = (GPGME_STATUS_INV_RECP \<in> fst ` set ls \<or> GPGME_STATUS_INV_SGNR \<in> fst ` set ls,
         GPGME_STATUS_SIG_CREATED \<in> fst ` set ls, fc1, ctx_protocol ctx, pp_refused ls False)"
    using sign_cut_fold [of env ls False False no_error "ctx_protocol ctx" False] by auto
  with es.outcome [OF assms(1) v assms(6,7), of a] assms(8) show ?thesis
    by (auto simp: encsign_fold enc_fold encsign_verdict_def enc_verdict_def sign_verdict_def)
qed

theorem encrypt_sign_success_iff_witness:
  "\<exists>ctx2 e. feed (encrypt_sign_status_handler sample_env) sign_sample_ctx
      ([(GPGME_STATUS_SIG_CREATED, ''S 1 8 00 1500000000 ABCD''), (GPGME_STATUS_FAILURE, ''encrypt 100'')]
        @ [(GPGME_STATUS_EOF, [])]) = Some (ctx2, e) \<and> e \<noteq> no_error"
proof -
  let ?ls = "[(GPGME_STATUS_SIG_CREATED, ''S 1 8 00 1500000000 ABCD''), (GPGME_STATUS_FAILURE, ''encrypt 100'')]"
  have "map_option snd (feed (encrypt_sign_status_handler sample_env) sign_sample_ctx ?ls) = Some no_error" by code_simp
  then obtain c where c: "feed (encrypt_sign_status_handler sample_env) sign_sample_ctx ?ls = Some (c, no_error)" by auto
  have "failure_after sample_env ?ls no_error \<noteq> no_error" by code_simp
  moreover have "ctx_protocol sign_sample_ctx \<noteq> GPGME_PROTOCOL_UISERVER" by (simp add: sign_sample_ctx_def sample_ctx_def)
  ultimately show ?thesis
    using encrypt_sign_success_iff [OF c sign_sample_hooks(2,1,3,4), of "[]"] by auto
qed

lemma op_write_twice: "hook_id g = hook_id h \<Longrightarrow> op_write g (op_write h hs) = op_write g hs"
  by (induction hs) auto

lemma signatures_to_invalid_all:
  "signatures_to_invalid env ss ks = (ks', True) \<Longrightarrow>
     ks' = ks @ map (\<lambda>s. \<lparr>ik_fpr = Some (ns_fpr s), ik_reason = GpgError SOURCE_UNKNOWN GPG_ERR_GENERAL\<rparr>) ss"
  by (induction env ss ks rule: signatures_to_invalid.induct) (auto split: if_split_asm)

text \<open>
  C21: The result of signing is all or nothing. With signers set, a returned result either
  accounts for every signer, each with a signature or as invalid, or holds no signature at
  all, every one of them being listed as an invalid signer with its fingerprint behind those
  that were. Asking for the result again gives the same result.
\<close>

theorem sign_result_all_or_nothing:
  assumes "gpgme_op_sign_result env ctx = (ctx1, Some r)" "get_hook OPDATA_SIGN ctx = Some (HSign d)"
    and "ctx_signers_len ctx \<noteq> 0"
  shows "(if length (sg_signatures d) + length (sg_invalid_signers d) = ctx_signers_len ctx then r = d \<and> ctx1 = ctx
          else sg_signatures r = [] \<and> map ik_fpr (sg_invalid_signers r)
            = map ik_fpr (sg_invalid_signers d) @ map (Some \<circ> ns_fpr) (sg_signatures d))
     \<and> gpgme_op_sign_result env ctx1 = (ctx1, Some r)"
proof (cases "length (sg_signatures d) + length (sg_invalid_signers d) = ctx_signers_len ctx")
  case True
  then show ?thesis using assms(1,2) by (auto simp: gpgme_op_sign_result_def)
next
  case False
  then obtain ks where ks: "signatures_to_invalid env (sg_signatures d) (sg_invalid_signers d) = (ks, True)"
      "r = d\<lparr>sg_invalid_signers := ks, sg_signatures := []\<rparr>" "ctx1 = put_hook (HSign r) ctx"
    using assms by (auto simp: gpgme_op_sign_result_def Let_def split: prod.splits bool.splits)
  note all = signatures_to_invalid_all [OF ks(1)]
  have g: "get_hook OPDATA_SIGN ctx1 = Some (HSign r)" using ks(3) assms(2) by (simp add: ctx.search_store)
  have "length ks \<noteq> ctx_signers_len ctx" using False all by simp
  then have "gpgme_op_sign_result env ctx1 = (put_hook (HSign r) ctx1, Some r)"
    using g ks(2,3) assms(3) by (simp add: gpgme_op_sign_result_def Let_def)
  moreover have "put_hook (HSign r) ctx1 = ctx1" using ks(3) by (simp add: put_hook_def op_write_twice)
  ultimately show ?thesis using False all ks(2) by (simp add: comp_def)
qed

theorem sign_result_all_or_nothing_witness:
  "\<exists>ctx1 ctx2 r. feed (sign_status_handler sample_env) sign_sample_ctx
      [(GPGME_STATUS_SIG_CREATED, ''D 1 8 00 1500000000 ABCD''), (GPGME_STATUS_EOF, [])] = Some (ctx1, no_error)
    \<and> gpgme_op_sign_result sample_env ctx1 = (ctx2, Some r) \<and> sg_signatures r = []
    \<and> map ik_fpr (sg_invalid_signers r) = [Some ''ABCD'']"
proof -
  let ?f = "feed (sign_status_handler sample_env) sign_sample_ctx
      [(GPGME_STATUS_SIG_CREATED, ''D 1 8 00 1500000000 ABCD''), (GPGME_STATUS_EOF, [])]"
  have "case ?f of Some (c, e) \<Rightarrow> e = no_error \<and> ctx_signers_len c = 2
      \<and> snd (gpgme_op_sign_result sample_env c) \<noteq> None
      \<and> (case get_hook OPDATA_SIGN c of Some (HSign d) \<Rightarrow>
            map ns_fpr (sg_signatures d) = [''ABCD''] \<and> sg_invalid_signers d = [] | _ \<Rightarrow> False) | None \<Rightarrow> False"
    by code_simp
  then obtain c d where c: "?f = Some (c, no_error)" "ctx_signers_len c = 2"
      "snd (gpgme_op_sign_result sample_env c) \<noteq> None" "get_hook OPDATA_SIGN c = Some (HSign d)"
      "map ns_fpr (sg_signatures d) = [''ABCD'']" "sg_invalid_signers d = []"
    by (cases ?f) (simp_all split: option.split_asm prod.split_asm op_hook.split_asm del: map_eq_Cons_conv)
  then obtain ctx2 r where r: "gpgme_op_sign_result sample_env c = (ctx2, Some r)"
    by (cases "gpgme_op_sign_result sample_env c") auto
  have "length (sg_signatures d) = 1" using c(5) by (metis length_map list.size(3,4) One_nat_def add.right_neutral add_Suc_right)
  with sign_result_all_or_nothing [OF r c(4)] c(2,5,6)
  have "sg_signatures r = []" "map ik_fpr (sg_invalid_signers r) = [Some ''ABCD'']"
    by (simp_all add: map_map [symmetric] del: map_map)
  then show ?thesis using c(1) r by (intro exI [of _ c] exI [of _ ctx2] exI [of _ r]) simp
qed

end
