(* ===== verification/Gpgme_Import.thy ===== *)
theory Gpgme_Import
  imports Gpgme_Encrypt
begin

text \<open>
  The import operation (\<open>import.c\<close>): the parsers of the IMPORT_OK, IMPORT_PROBLEM and IMPORT_RES
  lines, the status handler, the check of the keys given to \<open>gpgme_op_import_keys\<close>, and the
  result.
\<close>

section \<open>The lines\<close>

definition import_reason :: "int \<Rightarrow> gpg_err_code" where
  "import_reason nr =
     (if nr = 1 then GPG_ERR_BAD_CERT
      else if nr = 2 then GPG_ERR_MISSING_ISSUER_CERT
      else if nr = 3 then GPG_ERR_BAD_CERT_CHAIN
      else GPG_ERR_GENERAL)"

text \<open>
  \<open>parse_import\<close> returns the arguments as it leaves them: it writes a terminator behind the
  fingerprint. \<open>gpg_error (GPG_ERR_NO_ERROR)\<close> is 0.
\<close>

definition parse_import :: "op_env \<Rightarrow> string \<Rightarrow> bool \<Rightarrow> string \<times> import_status cres" where
  "parse_import env args problem =
     (if \<not> core env ''import'' then (args, Err (syserror ENOMEM))
      else case strtol 0 args of
        (nr, tail, e) \<Rightarrow>
          if e \<or> args = tail \<or> peek tail \<noteq> CHR '' '' then (args, Err (gpg_error GPG_ERR_INV_ENGINE))
          else
            (let a = skip_spaces tail;
                 fpr = fst (strchr_split CHR '' '' a);
                 left = take (length args - length a + length fpr) args
             in if \<not> core env ''import.fpr'' then (left, Err (syserror ENOMEM))
                else (left, Ok \<lparr>im_fpr = fpr,
                                im_result = (if problem then gpg_error (import_reason nr) else no_error),
                                im_status = (if problem then 0 else to_uint32 nr)\<rparr>)))"

text \<open>
  The macro \<open>PARSE_NEXT\<close> stores the number before it checks the field. The loop stands for the
  macro used \<open>n\<close> times from counter \<open>i\<close> on; \<open>None\<close> for a malformed field.
\<close>

fun import_res_fields :: "nat \<Rightarrow> nat \<Rightarrow> string \<Rightarrow> int list \<Rightarrow> int list \<times> string option" where
  "import_res_fields 0 i args cs = (cs, Some args)"
| "import_res_fields (Suc n) i args cs =
     (case strtol 0 args of
        (v, tail, e) \<Rightarrow>
          (let cs1 = cs[i := to_int32 v]
           in if e \<or> args = tail \<or> (tail \<noteq> [] \<and> peek tail \<noteq> CHR '' '') then (cs1, None)
              else import_res_fields n (Suc i) tail cs1))"

definition parse_import_res :: "string \<Rightarrow> int list \<Rightarrow> int list \<times> gpgme_error_t" where
  "parse_import_res args cs =
     (case import_res_fields 14 0 args cs of
        (cs1, None) \<Rightarrow> (cs1, gpg_error GPG_ERR_INV_ENGINE)
      | (cs1, Some a) \<Rightarrow>
          if a = [] then (cs1, no_error)
          else case import_res_fields 1 14 a cs1 of
            (cs2, None) \<Rightarrow> (cs2, gpg_error GPG_ERR_INV_ENGINE)
          | (cs2, Some _) \<Rightarrow> (cs2, no_error))"

section \<open>Handler, set-up and result\<close>

definition import_switch :: "op_env \<Rightarrow> gpgme_ctx \<Rightarrow> op_import \<Rightarrow> int \<Rightarrow> string \<Rightarrow> gpgme_ctx hres" where
  "import_switch env ctx opd code args =
     (if code = GPGME_STATUS_IMPORT_OK \<or> code = GPGME_STATUS_IMPORT_PROBLEM then
        (case parse_import env args (code \<noteq> GPGME_STATUS_IMPORT_OK) of
           (args1, Ok s) \<Rightarrow>
             Some (put_hook (HImport (opd\<lparr>imp_imports := imp_imports opd @ [s]\<rparr>)) ctx, args1, no_error)
         | (args1, Err e) \<Rightarrow> Some (ctx, args1, e)
         | (args1, UB) \<Rightarrow> None)
      else if code = GPGME_STATUS_IMPORT_RES then
        (case parse_import_res args (imp_counts opd) of
           (cs, e) \<Rightarrow> Some (put_hook (HImport (opd\<lparr>imp_counts := cs\<rparr>)) ctx, args, e))
      else Some (ctx, args, no_error))"

definition import_status_handler :: "op_env \<Rightarrow> gpgme_ctx handler" where
  "import_status_handler env ctx code args =
     (case get_hook OPDATA_IMPORT ctx of
        Some (HImport opd) \<Rightarrow> import_switch env ctx opd code args
      | _ \<Rightarrow> None)"

definition gpgme_op_import_result :: "gpgme_ctx \<Rightarrow> op_import option" where
  "gpgme_op_import_result ctx =
     (case get_hook OPDATA_IMPORT ctx of Some (HImport opd) \<Rightarrow> Some opd | _ \<Rightarrow> None)"

text \<open>
  The loop of \<open>_gpgme_op_import_keys_start\<close> over the protocols and key listing modes of the
  keys: the number of keys of the protocol of the context, or a conflict.
\<close>

fun import_keys_scan ::
    "gpgme_protocol_t \<Rightarrow> (gpgme_protocol_t \<times> 32 word) list \<Rightarrow> 32 word option \<Rightarrow> nat \<Rightarrow> nat cres" where
  "import_keys_scan pr [] first n = (if n = 0 then Err (gpg_error GPG_ERR_NO_DATA) else Ok n)"
| "import_keys_scan pr ((p, m) # ks) first n =
     (if p \<noteq> pr then import_keys_scan pr ks first n
      else
        (let f = (case first of None \<Rightarrow> m | Some x \<Rightarrow> x)
         in if m \<noteq> f then Err (gpg_error GPG_ERR_CONFLICT)
            else import_keys_scan pr ks (Some f) (Suc n)))"

section \<open>Refinement\<close>

lemma parse_import_err [simp]: "parse_import env args b \<noteq> (a, Err no_error)" "parse_import env args b \<noteq> (a, UB)"
  by (auto simp: parse_import_def Let_def split: prod.split)

definition imp_view :: "gpgme_ctx \<Rightarrow> (import_status list \<times> int list) option" where
  "imp_view ctx = map_option (\<lambda>d. (imp_imports d, imp_counts d)) (gpgme_op_import_result ctx)"

definition imp_step ::
    "op_env \<Rightarrow> int \<Rightarrow> string \<Rightarrow> import_status list \<times> int list \<Rightarrow> import_status list \<times> int list" where
  "imp_step env code args = (\<lambda>(is, cs).
     (if code = GPGME_STATUS_IMPORT_OK \<or> code = GPGME_STATUS_IMPORT_PROBLEM
      then (case snd (parse_import env args (code \<noteq> GPGME_STATUS_IMPORT_OK)) of Ok s \<Rightarrow> is @ [s] | _ \<Rightarrow> is) else is,
      if code = GPGME_STATUS_IMPORT_RES then fst (parse_import_res args cs) else cs))"

lemma imp_view_put: "imp_view ctx = Some v \<Longrightarrow> imp_view (put_hook (HImport d) ctx) = Some (imp_imports d, imp_counts d)"
  by (auto simp: imp_view_def gpgme_op_import_result_def ctx.search_store split: option.splits)

interpretation imp: finished_run "import_status_handler env" imp_view "imp_step env" "\<lambda>_. no_error" True for env
proof unfold_locales
  fix s code args s' args' v
  assume h: "import_status_handler env s code args = Some (s', args', no_error)" and v: "imp_view s = Some v"
  then obtain d where d: "import_switch env s d code args = Some (s', args', no_error)" "v = (imp_imports d, imp_counts d)"
    by (auto simp: import_status_handler_def imp_view_def gpgme_op_import_result_def split: option.splits op_hook.splits)
  show "imp_view s' = Some (imp_step env code args v)"
    using d v unfolding import_switch_def imp_step_def
    by (auto simp: imp_view_put [OF v] split: if_split_asm prod.splits cres.splits)
next
  fix s args v
  assume "imp_view s = Some v"
  then show "\<exists>s' args'. import_status_handler env s GPGME_STATUS_EOF args = Some (s', args', no_error)"
    by (auto simp: import_status_handler_def imp_view_def gpgme_op_import_result_def import_switch_def
        split: option.splits op_hook.splits)
qed

text \<open>Numbers as an engine writes them, read with base 0.\<close>

lemma hd_show_nat: "hd (show_nat n) = CHR ''0'' \<Longrightarrow> n = 0"
proof (induction n rule: show_nat.induct)
  case (1 n)
  show ?case
  proof (cases "n < 10")
    case True
    then have "uchar (char_of (48 + n)) = uchar CHR ''0''" using 1(2) by (simp add: show_nat.simps [of n])
    then show ?thesis using True by (simp add: uchar_def)
  next
    case False
    then have "hd (show_nat (n div 10)) = CHR ''0''" using 1(2) by (simp add: show_nat.simps [of n])
    with 1(1) False show ?thesis by simp
  qed
qed

lemma strto_scan_0_show_nat:
  assumes "rest = [] \<or> peek rest = CHR '' ''"
  shows "strto_scan 0 (show_nat n @ rest) = Some (False, int n, rest)"
proof (cases "n = 0")
  case True
  have "\<not> digit_ok 8 CHR '' ''" by code_simp
  then have "takeWhile (digit_ok 8) rest = []" "dropWhile (digit_ok 8) rest = rest"
    using assms by (cases rest; simp)+
  moreover have "show_nat n = ''0''" using True by (simp add: show_nat.simps char_of_def) code_simp
  moreover have z: "digit_ok 8 CHR ''0''" "\<not> isspace CHR ''0''" "digits_value 8 ''0'' = 0" by code_simp+
  moreover have base: "strto_base 0 (CHR ''0'' # rest) = (8, CHR ''0'' # rest)"
    using assms by (cases rest) (auto simp: strto_base_def cchr_def)
  ultimately show ?thesis
    using True z base by (simp add: strto_scan_def)
next
  case False
  obtain c ds where s: "show_nat n = c # ds" by (cases "show_nat n") auto
  have "c \<noteq> CHR ''0''" using hd_show_nat [of n] False s by auto
  then have "strto_base 0 (c # ds @ rest) = strto_base 10 (c # ds @ rest)" by (simp add: strto_base_def cchr_def)
  moreover have c: "isdigit c" using show_nat_digits [of n] s by (simp add: digit_ok_10)
  ultimately have "strto_scan 0 (show_nat n @ rest) = strto_scan 10 (show_nat n @ rest)"
    using isdigit_not_space [OF c] isdigit_not_sign [OF c] by (simp add: s strto_scan_def Let_def)
  moreover have "\<not> isdigit CHR '' ''" by code_simp
  ultimately show ?thesis using strto_scan_show_nat [of rest n] assms by auto
qed

lemma strto_scan_space: "strto_scan base (CHR '' '' # s) = strto_scan base s"
  by (simp add: strto_scan_def isspace_def uchar_def)

lemma strtol_0_show_nat:
  assumes "rest = [] \<or> peek rest = CHR '' ''" "n < 2147483648"
  shows "strtol 0 (show_nat n @ rest) = (int n, rest, False)" "strtol 0 (CHR '' '' # show_nat n @ rest) = (int n, rest, False)"
  using assms by (simp_all add: strtol_def strto_scan_space strto_scan_0_show_nat [OF assms(1)])

section \<open>Properties\<close>

text \<open>The lines an engine writes for an import: per key the outcome, a number and a fingerprint.\<close>

definition import_line :: "bool \<times> nat \<times> string \<Rightarrow> int \<times> string" where
  "import_line = (\<lambda>(problem, n, fpr).
     (if problem then GPGME_STATUS_IMPORT_PROBLEM else GPGME_STATUS_IMPORT_OK, show_nat n @ CHR '' '' # fpr))"

definition import_entry :: "bool \<times> nat \<times> string \<Rightarrow> import_status" where
  "import_entry = (\<lambda>(problem, n, fpr). \<lparr>im_fpr = fpr,
     im_result = (if problem then gpg_error (import_reason (int n)) else no_error),
     im_status = (if problem then 0 else int n)\<rparr>)"

definition counts_tail :: "nat list \<Rightarrow> string" where
  "counts_tail cs = concat (map (\<lambda>n. CHR '' '' # show_nat n) cs)"

definition counts_line :: "nat list \<Rightarrow> string" where
  "counts_line cs = drop 1 (counts_tail cs)"

lemma counts_tail_Cons: "counts_tail (c # cs) = CHR '' '' # show_nat c @ counts_tail cs"
  by (simp add: counts_tail_def)

lemma peek_counts_tail: "rest = [] \<or> peek rest = CHR '' '' \<Longrightarrow> counts_tail cs @ rest = [] \<or> peek (counts_tail cs @ rest) = CHR '' ''"
  by (cases cs) (auto simp: counts_tail_def)

lemma import_res_fields_tail:
  assumes "rest = [] \<or> peek rest = CHR '' ''" "\<forall>c\<in>set ns. c < 2147483648" "length bs = length ns"
  shows "import_res_fields (length ns) (length as) (counts_tail ns @ rest) (as @ bs @ ds)
    = (as @ map int ns @ ds, Some rest)"
  using assms(2,3)
proof (induction ns arbitrary: as bs)
  case Nil
  then show ?case by (simp add: counts_tail_def)
next
  case (Cons c ns)
  obtain b bs1 where bs: "bs = b # bs1" "length bs1 = length ns" using Cons.prems(2) by (cases bs) auto
  have "strtol 0 (CHR '' '' # show_nat c @ counts_tail ns @ rest) = (int c, counts_tail ns @ rest, False)"
    using strtol_0_show_nat(2) [OF peek_counts_tail [OF assms(1)]] Cons.prems(1) by simp
  moreover have "to_int32 (int c) = int c" using Cons.prems(1) by (simp add: to_int32_id)
  moreover have "(as @ b # bs1 @ ds)[length as := int c] = (as @ [int c]) @ bs1 @ ds" by simp
  ultimately show ?case
    using Cons.IH [of bs1 "as @ [int c]"] Cons.prems(1) bs peek_counts_tail [OF assms(1), of ns]
    by (auto simp: counts_tail_Cons Let_def)
qed

lemma import_res_first:
  assumes "rest = [] \<or> peek rest = CHR '' ''" "c < 2147483648"
  shows "import_res_fields (Suc n) i (show_nat c @ rest) cs = import_res_fields (Suc n) i (CHR '' '' # show_nat c @ rest) cs"
  using strtol_0_show_nat [OF assms] by simp

lemma parse_import_res_line:
  assumes "length cs = 14 \<or> length cs = 15" "\<forall>c\<in>set cs. c < 2147483648" "length old = 15"
  shows "parse_import_res (counts_line cs) old = (map int cs @ drop (length cs) old, no_error)"
proof -
  obtain c cs1 where cs: "cs = c # cs1" using assms(1) by (cases cs) auto
  have len: "length (take 14 cs) = 14" "length (take 14 old) = 14" using assms(1,3) by auto
  have fields: "import_res_fields 14 0 (counts_line cs) old
      = (map int (take 14 cs) @ drop 14 old, Some (counts_tail (drop 14 cs)))"
  proof -
    have "counts_tail cs = counts_tail (take 14 cs) @ counts_tail (drop 14 cs)"
      by (metis append_take_drop_id concat_append counts_tail_def map_append)
    moreover have "counts_tail (drop 14 cs) = [] \<or> peek (counts_tail (drop 14 cs)) = CHR '' ''"
      using peek_counts_tail [of "[]"] by simp
    ultimately have "import_res_fields 14 0 (counts_tail cs) old
        = (map int (take 14 cs) @ drop 14 old, Some (counts_tail (drop 14 cs)))"
      using import_res_fields_tail [of "counts_tail (drop 14 cs)" "take 14 cs" "take 14 old" "[]" "drop 14 old"]
        len assms(2) by (auto dest: in_set_takeD)
    moreover have "import_res_fields (Suc 13) 0 (counts_line cs) old = import_res_fields (Suc 13) 0 (counts_tail cs) old"
    proof -
      have "counts_tail cs1 = [] \<or> peek (counts_tail cs1) = CHR '' ''" using peek_counts_tail [of "[]" cs1] by simp
      moreover have "counts_line cs = show_nat c @ counts_tail cs1" "counts_tail cs = CHR '' '' # show_nat c @ counts_tail cs1"
        by (simp_all add: cs counts_line_def counts_tail_Cons)
      moreover have "c < 2147483648" using assms(2) cs by simp
      ultimately show ?thesis using import_res_first by (simp only:)
    qed
    ultimately show ?thesis by simp
  qed
  show ?thesis
  proof (cases "length cs = 14")
    case True
    then show ?thesis by (simp add: parse_import_res_def fields counts_tail_def)
  next
    case False
    then have "length (drop 14 cs) = 1" "length (drop 14 old) = 1" using assms(1,3) by simp_all
    then obtain x y where x: "drop 14 cs = [x]" and y: "drop 14 old = [y]" by (metis length_0_conv length_Suc_conv One_nat_def)
    have xs: "cs = take 14 cs @ [x]" using x by (metis append_take_drop_id)
    then have "x < 2147483648" using assms(2) by (metis in_set_conv_decomp)
    then have "import_res_fields 1 14 (counts_tail [x]) (map int (take 14 cs) @ [y]) = (map int (take 14 cs) @ [int x], Some [])"
      using import_res_fields_tail [of "[]" "[x]" "[y]" "map int (take 14 cs)" "[]"] len
      by (simp del: import_res_fields.simps)
    moreover have "map int (take 14 cs) @ [int x] = map int cs" by (subst (2) xs) simp
    ultimately show ?thesis
      using False assms(1,3) by (simp add: parse_import_res_def fields x y counts_tail_Cons del: One_nat_def)
  qed
qed

lemma parse_import_line:
  assumes "\<forall>x. core env x" "n < 2147483648" "CHR '' '' \<notin> set fpr"
  shows "\<exists>a. parse_import env (show_nat n @ CHR '' '' # fpr) problem = (a, Ok (import_entry (problem, n, fpr)))"
proof -
  have "skip_spaces (CHR '' '' # fpr) = fpr" using assms(3) by (cases fpr) (auto simp: skip_spaces_def)
  moreover have "strchr_split CHR '' '' fpr = (fpr, None)" using assms(3) by (simp add: strchr_split_None)
  moreover have "to_uint32 (int n) = int n" using assms(2) by (simp add: to_uint32_def)
  ultimately show ?thesis
    using assms(1) strtol_0_show_nat(1) [of "CHR '' '' # fpr" n] assms(2)
    by (simp add: parse_import_def import_entry_def)
qed

lemma import_feed_lines:
  assumes "\<forall>x. core env x" "\<forall>(p, n, f)\<in>set evs. n < 2147483648 \<and> CHR '' '' \<notin> set f"
    and "imp_view ctx = Some (is, cs)"
  shows "\<exists>ctx1. feed (import_status_handler env) ctx (map import_line evs) = Some (ctx1, no_error)
    \<and> imp_view ctx1 = Some (is @ map import_entry evs, cs)"
  using assms(2,3)
proof (induction evs arbitrary: ctx "is")
  case (Cons ev evs)
  obtain p n f where ev: "ev = (p, n, f)" by (cases ev)
  have h: "n < 2147483648" "CHR '' '' \<notin> set f" using Cons.prems(1) by (simp_all add: ev)
  obtain a where a: "parse_import env (show_nat n @ CHR '' '' # f) p = (a, Ok (import_entry ev))"
    using parse_import_line [OF assms(1) h] ev by blast
  obtain d where g: "get_hook OPDATA_IMPORT ctx = Some (HImport d)" "imp_imports d = is" "imp_counts d = cs"
    using Cons.prems(2) by (auto simp: imp_view_def gpgme_op_import_result_def split: option.splits op_hook.splits)
  let ?c = "put_hook (HImport (d\<lparr>imp_imports := is @ [import_entry ev]\<rparr>)) ctx"
  have "import_status_handler env ctx (fst (import_line ev)) (snd (import_line ev)) = Some (?c, a, no_error)"
    using a g by (auto simp: import_status_handler_def import_switch_def import_line_def ev)
  moreover have "imp_view ?c = Some (is @ [import_entry ev], cs)" using imp_view_put [OF Cons.prems(2)] g by simp
  ultimately show ?case
    using Cons.IH [of ?c "is @ [import_entry ev]"] Cons.prems(1) by (cases "import_line ev") simp
qed simp

text \<open>
  C15: The result of an import is the report of the engine. For any keys, each with its outcome,
  and any counters, the lines the engine writes for them are all accepted, the operation
  succeeds, and the result lists exactly these keys in their order, with the flags of the
  imported and the reasons of the refused ones, and holds the counters; the fifteenth stays 0
  for engines that write only fourteen.
\<close>

theorem import_report_roundtrip:
  assumes "\<forall>x. core env x" "get_hook OPDATA_IMPORT ctx = Some (HImport zero_import)"
    and "\<forall>(p, n, f)\<in>set evs. n < 2147483648 \<and> CHR '' '' \<notin> set f"
    and "length cs = 14 \<or> length cs = 15" "\<forall>c\<in>set cs. c < 2147483648"
  shows "\<exists>ctx1. feed (import_status_handler env) ctx
        (map import_line evs @ [(GPGME_STATUS_IMPORT_RES, counts_line cs), (GPGME_STATUS_EOF, a)]) = Some (ctx1, no_error)
    \<and> gpgme_op_import_result ctx1 = Some \<lparr>imp_counts = map int cs @ replicate (15 - length cs) 0,
         imp_imports = map import_entry evs\<rparr>"
proof -
  have "imp_view ctx = Some ([], replicate 15 0)"
    using assms(2) by (simp add: imp_view_def gpgme_op_import_result_def zero_import_def)
  from import_feed_lines [OF assms(1,3) this] obtain c1 where
    c1: "feed (import_status_handler env) ctx (map import_line evs) = Some (c1, no_error)"
      "imp_view c1 = Some (map import_entry evs, replicate 15 0)" by auto
  let ?cs = "map int cs @ replicate (15 - length cs) 0"
  have p: "parse_import_res (counts_line cs) (replicate 15 0) = (?cs, no_error)"
    using parse_import_res_line [OF assms(4,5), of "replicate 15 0"] by simp
  obtain d where g: "get_hook OPDATA_IMPORT c1 = Some (HImport d)" "imp_imports d = map import_entry evs"
      "imp_counts d = replicate 15 0"
    using c1(2) by (auto simp: imp_view_def gpgme_op_import_result_def split: option.splits op_hook.splits)
  let ?c2 = "put_hook (HImport (d\<lparr>imp_counts := ?cs\<rparr>)) c1"
  have g2: "get_hook OPDATA_IMPORT ?c2 = Some (HImport (d\<lparr>imp_counts := ?cs\<rparr>))" using g(1) by (simp add: ctx.search_store)
  have "feed (import_status_handler env) c1 [(GPGME_STATUS_IMPORT_RES, counts_line cs), (GPGME_STATUS_EOF, a)]
      = Some (?c2, no_error)"
    using p g(1,3) g2 by (simp add: import_status_handler_def import_switch_def)
  then show ?thesis using c1(1) g2 g(2) by (simp add: feed_append gpgme_op_import_result_def)
qed

theorem import_report_roundtrip_witness:
  "\<exists>ctx1. feed (import_status_handler sample_env) (sample_ctx\<lparr>ctx_op_data := [HImport zero_import]\<rparr>)
      (map import_line [(False, 17, ''ABCD''), (True, 2, ''EF01'')]
        @ [(GPGME_STATUS_IMPORT_RES, counts_line [2, 0, 1, 0, 0, 0, 0, 0, 0, 1, 1, 0, 0, 1]), (GPGME_STATUS_EOF, [])])
      = Some (ctx1, no_error)
    \<and> map_option imp_imports (gpgme_op_import_result ctx1) = Some [
        \<lparr>im_fpr = ''ABCD'', im_result = no_error, im_status = 17\<rparr>,
        \<lparr>im_fpr = ''EF01'', im_result = gpg_error GPG_ERR_MISSING_ISSUER_CERT, im_status = 0\<rparr>]"
proof -
  let ?evs = "[(False, 17, ''ABCD''), (True, 2, ''EF01'')] :: (bool \<times> nat \<times> string) list"
  let ?cs = "[2, 0, 1, 0, 0, 0, 0, 0, 0, 1, 1, 0, 0, 1] :: nat list"
  have "get_hook OPDATA_IMPORT (sample_ctx\<lparr>ctx_op_data := [HImport zero_import]\<rparr>) = Some (HImport zero_import)"
    by (simp add: op_find_Cons)
  from import_report_roundtrip [of sample_env, OF _ this, of ?evs ?cs "[]"] obtain ctx1 where
    "feed (import_status_handler sample_env) (sample_ctx\<lparr>ctx_op_data := [HImport zero_import]\<rparr>)
      (map import_line ?evs @ [(GPGME_STATUS_IMPORT_RES, counts_line ?cs), (GPGME_STATUS_EOF, [])]) = Some (ctx1, no_error)"
    "map_option imp_imports (gpgme_op_import_result ctx1) = Some (map import_entry ?evs)"
    by auto
  then show ?thesis by (simp add: import_entry_def import_reason_def)
qed

end
