(* ===== verification/Gpgme_Genkey.thy ===== *)
theory Gpgme_Genkey
  imports Gpgme_Encrypt
begin

text \<open>
  The key generation operation (\<open>genkey.c\<close>), which also serves \<open>createkey\<close>, \<open>createsubkey\<close>,
  \<open>adduid\<close> and \<open>revuid\<close>: the extraction of the key parameters from the text the application
  passes, the status handler and the result.
\<close>

section \<open>Key parameters\<close>

text \<open>\<open>strstr (s, n)\<close> as the text from the first occurrence of \<open>n\<close> on.\<close>

fun strstr :: "string \<Rightarrow> string \<Rightarrow> string option" where
  "strstr [] n = (if n = [] then Some [] else None)"
| "strstr (c # s) n = (if take (length n) (c # s) = n then Some (c # s) else strstr s n)"

definition open_tag :: string where "open_tag = ''<GnupgKeyParms ''"
definition close_tag :: string where "close_tag = ''</GnupgKeyParms>''"
definition format_attr :: string where "format_attr = ''format=\"internal\"''"

text \<open>
  The loop over leading line breaks; \<open>n\<close> is \<open>endtag - content\<close>. A carriage return is skipped
  when a line feed follows, which is skipped by the next round.
\<close>

fun skip_newlines :: "nat \<Rightarrow> string \<Rightarrow> nat \<times> string" where
  "skip_newlines 0 s = (0, s)"
| "skip_newlines (Suc n) s =
     (if cchr s 0 = CHR 0x0A \<or> cchr s 0 = CHR 0x0D \<and> cchr s 1 = CHR 0x0A
      then skip_newlines n (drop 1 s) else (Suc n, s))"

text \<open>The bytes that \<open>get_key_parameter\<close> copies into a new data object.\<close>

definition get_key_parameter :: "string \<Rightarrow> string cres" where
  "get_key_parameter parms0 =
     (case strstr parms0 open_tag of
        None \<Rightarrow> Err (gpg_error GPG_ERR_INV_VALUE)
      | Some parms \<Rightarrow>
          (case strchr_split CHR ''>'' parms of
             (_, None) \<Rightarrow> Err (gpg_error GPG_ERR_INV_VALUE)
           | (_, Some content) \<Rightarrow>
               (case strstr parms format_attr of
                  None \<Rightarrow> Err (gpg_error GPG_ERR_INV_VALUE)
                | Some attrib \<Rightarrow>
                    if length attrib \<le> length content then Err (gpg_error GPG_ERR_INV_VALUE)
                    else
                      (let n = (case strstr content close_tag of
                                  None \<Rightarrow> length content
                                | Some endtag \<Rightarrow> length content - length endtag)
                       in case skip_newlines n content of (m, s) \<Rightarrow> Ok (take m s)))))"

section \<open>Status handler\<close>

text \<open>The location as it is left in the arguments and the error code; \<open>None\<close> without a location.\<close>

definition genkey_parse_error :: "op_env \<Rightarrow> string \<Rightarrow> (string \<times> gpgme_error_t) option" where
  "genkey_parse_error env args =
     (case strchr_split CHR '' '' args of
        (_, None) \<Rightarrow> None
      | (loc, Some which) \<Rightarrow> Some (loc, err_of_num env (atoi (fst (strchr_split CHR '' '' which)))))"

definition genkey_created :: "op_env \<Rightarrow> op_genkey \<Rightarrow> string \<Rightarrow> op_genkey \<times> gpgme_error_t" where
  "genkey_created env opd args =
     (if args = [] then (opd, no_error)
      else
        (let c = peek args;
             o1 = (if c = CHR ''B'' \<or> c = CHR ''P'' then opd\<lparr>gk_primary := True, gk_uid := True\<rparr> else opd);
             o2 = (if c = CHR ''B'' \<or> c = CHR ''S'' then o1\<lparr>gk_sub := True\<rparr> else o1)
         in if cchr args 1 \<noteq> CHR '' '' then (o2, no_error)
            else if core env ''genkey.fpr'' then (o2\<lparr>gk_fpr := Some (drop 2 args)\<rparr>, no_error)
            else (o2\<lparr>gk_fpr := None\<rparr>, syserror ENOMEM)))"

definition genkey_switch :: "op_env \<Rightarrow> gpgme_ctx \<Rightarrow> op_genkey \<Rightarrow> int \<Rightarrow> string \<Rightarrow> gpgme_ctx hres" where
  "genkey_switch env ctx opd code args =
     (if code = GPGME_STATUS_KEY_CREATED then
        (case genkey_created env opd args of (opd1, e) \<Rightarrow> Some (put_hook (HGenkey opd1) ctx, args, e))
      else if code = GPGME_STATUS_ERROR then
        (case genkey_parse_error env args of
           None \<Rightarrow> Some (ctx, args, gpg_error GPG_ERR_INV_ENGINE)
         | Some (loc, e) \<Rightarrow>
             Some (if is_err (gk_error_code opd) then ctx
                   else put_hook (HGenkey (opd\<lparr>gk_error_code := e\<rparr>)) ctx, loc, no_error))
      else if code = GPGME_STATUS_FAILURE then
        (case gpgme_parse_failure env args of
           (args1, e) \<Rightarrow> Some (put_hook (HGenkey (opd\<lparr>gk_failure_code := e\<rparr>)) ctx, args1, no_error))
      else if code = GPGME_STATUS_EOF then
        (if is_err (gk_error_code opd) then Some (ctx, args, gk_error_code opd)
         else if gk_uidmode opd = 0 \<and> \<not> gk_primary opd \<and> \<not> gk_sub opd
         then Some (ctx, args, gpg_error GPG_ERR_GENERAL)
         else if is_err (gk_failure_code opd) then Some (ctx, args, gk_failure_code opd)
         else if gk_uidmode opd = 1 then Some (put_hook (HGenkey (opd\<lparr>gk_uid := True\<rparr>)) ctx, args, no_error)
         else Some (ctx, args, no_error))
      else if code = GPGME_STATUS_INQUIRE_MAXLEN then
        (case call_status_cb ctx ''INQUIRE_MAXLEN'' args of (ctx1, e) \<Rightarrow> Some (ctx1, args, e))
      else Some (ctx, args, no_error))"

definition genkey_own_handler :: "op_env \<Rightarrow> gpgme_ctx handler" where
  "genkey_own_handler env ctx code args =
     (case get_hook OPDATA_GENKEY ctx of
        Some (HGenkey opd) \<Rightarrow> genkey_switch env ctx opd code args
      | _ \<Rightarrow> None)"

definition genkey_status_handler :: "op_env \<Rightarrow> gpgme_ctx handler" where
  "genkey_status_handler env =
     then_handler (gpgme_progress_status_handler env) (genkey_own_handler env)"

definition gpgme_op_genkey_result :: "gpgme_ctx \<Rightarrow> op_genkey option" where
  "gpgme_op_genkey_result ctx =
     (case get_hook OPDATA_GENKEY ctx of Some (HGenkey opd) \<Rightarrow> Some opd | _ \<Rightarrow> None)"

section \<open>Refinement\<close>

text \<open>
  What decides about the outcome: the first error code, whether a primary key or a subkey was
  created, the last failure code and the mode.
\<close>

type_synonym genkey_abs = "gpgme_error_t \<times> bool \<times> gpgme_error_t \<times> int"

definition gk_abs :: "op_genkey \<Rightarrow> genkey_abs" where
  "gk_abs d = (gk_error_code d, gk_primary d \<or> gk_sub d, gk_failure_code d, gk_uidmode d)"

definition gk_view :: "gpgme_ctx \<Rightarrow> genkey_abs option" where
  "gk_view ctx = map_option gk_abs (gpgme_op_genkey_result ctx)"

text \<open>A KEY_CREATED line that announces a key.\<close>

definition creates_key :: "int \<Rightarrow> string \<Rightarrow> bool" where
  "creates_key code args \<longleftrightarrow> code = GPGME_STATUS_KEY_CREATED \<and> args \<noteq> [] \<and> hd args \<in> {CHR ''B'', CHR ''P'', CHR ''S''}"

text \<open>The first code of an ERROR line that is an error.\<close>

definition first_error :: "op_env \<Rightarrow> (int \<times> string) list \<Rightarrow> gpgme_error_t \<Rightarrow> gpgme_error_t" where
  "first_error env ls e = fold (\<lambda>(code, args) e.
     if code = GPGME_STATUS_ERROR \<and> \<not> is_err e
     then (case genkey_parse_error env args of None \<Rightarrow> e | Some (_, e1) \<Rightarrow> e1) else e) ls e"

definition gk_step :: "op_env \<Rightarrow> int \<Rightarrow> string \<Rightarrow> genkey_abs \<Rightarrow> genkey_abs" where
  "gk_step env code args = (\<lambda>(ec, created, fc, m).
     (first_error env [(code, args)] ec, created \<or> creates_key code args, failure_after env [(code, args)] fc, m))"

definition gk_verdict :: "genkey_abs \<Rightarrow> gpgme_error_t" where
  "gk_verdict = (\<lambda>(ec, created, fc, m).
     if is_err ec then ec else if m = 0 \<and> \<not> created then gpg_error GPG_ERR_GENERAL else fc)"

lemma gk_view_Some: "gk_view ctx = Some v \<longleftrightarrow> (\<exists>d. get_hook OPDATA_GENKEY ctx = Some (HGenkey d) \<and> v = gk_abs d)"
  by (auto simp: gk_view_def gpgme_op_genkey_result_def split: option.splits op_hook.splits)

lemma genkey_created_abs:
  assumes "genkey_created env d args = (d', e)"
  shows "gk_abs d' = gk_step env GPGME_STATUS_KEY_CREATED args (gk_abs d)"
  using assms unfolding genkey_created_def Let_def
  by (cases args) (auto simp: gk_abs_def gk_step_def first_error_def failure_after_def creates_key_def
      split: if_split_asm)

lemma genkey_switch_step:
  assumes g: "get_hook OPDATA_GENKEY ctx = Some (HGenkey d)"
    and s: "genkey_switch env ctx d code args = Some (ctx', args', no_error)" and "code \<noteq> GPGME_STATUS_EOF"
  shows "gk_view ctx' = Some (gk_step env code args (gk_abs d))"
proof -
  have put: "gk_view (put_hook (HGenkey d') ctx) = Some (gk_abs d')" for d'
    using g by (simp add: gk_view_Some ctx.search_store)
  have same: "gk_view ctx = Some (gk_abs d)" using g by (simp add: gk_view_Some)
  note step = gk_step_def first_error_def failure_after_def creates_key_def
  consider (created) "code = GPGME_STATUS_KEY_CREATED" | (err) "code = GPGME_STATUS_ERROR"
    | (failure) "code = GPGME_STATUS_FAILURE" | (maxlen) "code = GPGME_STATUS_INQUIRE_MAXLEN"
    | (rest) "code \<notin> {GPGME_STATUS_KEY_CREATED, GPGME_STATUS_ERROR, GPGME_STATUS_FAILURE, GPGME_STATUS_INQUIRE_MAXLEN}"
    by blast
  then show ?thesis
  proof cases
    case created
    then show ?thesis using s genkey_created_abs by (auto simp: genkey_switch_def put split: prod.splits)
  next
    case err
    then show ?thesis
      using s same by (auto simp: genkey_switch_def put step split: option.splits prod.splits if_split_asm)
        (simp_all add: gk_abs_def)
  next
    case failure
    then show ?thesis using s by (auto simp: genkey_switch_def put step gk_abs_def split: prod.splits)
  next
    case maxlen
    then have "get_hook OPDATA_GENKEY ctx' = Some (HGenkey d)"
      using s g by (auto simp: genkey_switch_def split: prod.splits dest: call_status_cb_frame [where i = OPDATA_GENKEY])
    then show ?thesis using maxlen by (simp add: gk_view_Some step gk_abs_def)
  next
    case rest
    then show ?thesis using s assms(3) same by (auto simp: genkey_switch_def step gk_abs_def)
  qed
qed

interpretation gk: finished_run "genkey_status_handler env" gk_view "gk_step env" gk_verdict True for env
proof unfold_locales
  fix s code args s' args' v
  assume "genkey_status_handler env s code args = Some (s', args', no_error)"
    and v: "gk_view s = Some v" and code: "code \<noteq> GPGME_STATUS_EOF"
  then obtain s1 where s1: "gpgme_progress_status_handler env s code args = Some (s1, args, no_error)"
      "genkey_own_handler env s1 code args = Some (s', args', no_error)"
    by (auto simp: genkey_status_handler_def then_handler_accepts dest: progress_handler_keeps)
  have k: "ctx_keeps {} s s1" using progress_handler_keeps [OF s1(1)] by simp
  obtain d where d: "get_hook OPDATA_GENKEY s1 = Some (HGenkey d)" "v = gk_abs d"
    using v k by (auto simp: gk_view_Some ctx_keeps_def)
  then show "gk_view s' = Some (gk_step env code args v)"
    using s1(2) genkey_switch_step [OF d(1) _ code] by (simp add: genkey_own_handler_def)
next
  fix s args v
  assume "gk_view s = Some v"
  then show "\<exists>s' args'. genkey_status_handler env s GPGME_STATUS_EOF args = Some (s', args', gk_verdict v)"
    by (auto simp: gk_view_Some genkey_status_handler_def then_handler_def progress_handler_quiet
        genkey_own_handler_def genkey_switch_def gk_verdict_def gk_abs_def)
qed

lemma gk_fold:
  "fold (\<lambda>(code, args). gk_step env code args) ls (ec, created, fc, m)
     = (first_error env ls ec, created \<or> (\<exists>(code, args)\<in>set ls. creates_key code args), failure_after env ls fc, m)"
proof (induction ls arbitrary: ec created fc)
  case (Cons l ls)
  then show ?case by (cases l) (auto simp: gk_step_def first_error_def failure_after_def)
qed (simp add: first_error_def failure_after_def)

section \<open>Properties\<close>

text \<open>
  C29: The outcome of a key generation. For any lines the handler accepted, the end of the
  operation reports the first error code of an ERROR line; without one, a general error if a
  key was to be created and no line announced a primary key or a subkey; otherwise the code
  of the last FAILURE line, which is success if there was none. So a failure does count after
  a key was announced, and when user IDs are edited no announcement is needed.
\<close>

theorem genkey_outcome:
  assumes "feed (genkey_status_handler env) ctx ls = Some (ctx1, no_error)"
    and "get_hook OPDATA_GENKEY ctx = Some (HGenkey (zero_genkey\<lparr>gk_uidmode := m\<rparr>))"
    and "\<forall>l\<in>set ls. fst l \<noteq> GPGME_STATUS_EOF"
  shows "\<exists>ctx2. feed (genkey_status_handler env) ctx (ls @ [(GPGME_STATUS_EOF, a)]) = Some (ctx2,
     if is_err (first_error env ls no_error) then first_error env ls no_error
     else if m = 0 \<and> \<not> (\<exists>(code, args)\<in>set ls. creates_key code args) then gpg_error GPG_ERR_GENERAL
     else failure_after env ls no_error)"
proof -
  have "gk_view ctx = Some (no_error, False, no_error, m)"
    using assms(2) by (simp add: gk_view_Some gk_abs_def zero_genkey_def)
  from gk.outcome [OF assms(1) this assms(3)] show ?thesis by (simp add: gk_fold gk_verdict_def)
qed

theorem genkey_outcome_witness:
  "\<exists>ctx2. feed (genkey_status_handler sample_env) (sample_ctx\<lparr>ctx_op_data := [HGenkey (zero_genkey\<lparr>gk_uidmode := 0\<rparr>)]\<rparr>)
      ([(GPGME_STATUS_KEY_CREATED, ''B ABCD''), (GPGME_STATUS_ERROR, ''genkey 0''), (GPGME_STATUS_FAILURE, ''gpg-exit 2'')]
        @ [(GPGME_STATUS_EOF, [])]) = Some (ctx2, no_error)"
proof -
  let ?c = "sample_ctx\<lparr>ctx_op_data := [HGenkey (zero_genkey\<lparr>gk_uidmode := 0\<rparr>)]\<rparr>"
  let ?ls = "[(GPGME_STATUS_KEY_CREATED, ''B ABCD''), (GPGME_STATUS_ERROR, ''genkey 0''), (GPGME_STATUS_FAILURE, ''gpg-exit 2'')]"
  have "map_option snd (feed (genkey_status_handler sample_env) ?c ?ls) = Some no_error" by code_simp
  then obtain c where c: "feed (genkey_status_handler sample_env) ?c ?ls = Some (c, no_error)" by auto
  have "get_hook OPDATA_GENKEY ?c = Some (HGenkey (zero_genkey\<lparr>gk_uidmode := 0\<rparr>))" by (simp add: op_find_Cons)
  moreover have "first_error sample_env ?ls no_error = no_error" "failure_after sample_env ?ls no_error = no_error"
    by code_simp+
  ultimately show ?thesis using genkey_outcome [OF c, of 0 "[]"] by (simp add: creates_key_def)
qed

text \<open>The parameters the documentation tells applications to pass.\<close>

definition genkey_parms :: "string \<Rightarrow> string \<Rightarrow> string" where
  "genkey_parms body post = open_tag @ format_attr @ ''>'' @ [CHR 0x0A] @ body @ close_tag @ post"

lemma take_prefix_append: "take (length n) (n @ s) = n"
  by simp

lemma strstr_here: "strstr (n @ s) n = Some (n @ s)"
  by (cases "n @ s") (auto simp del: append_eq_Cons_conv, metis take_prefix_append)

text \<open>No occurrence begins before the position where the first character of the tag is.\<close>

lemma strstr_skip:
  assumes "CHR ''<'' \<notin> set pre"
  shows "strstr (pre @ CHR ''<'' # s) (CHR ''<'' # n) = strstr (CHR ''<'' # s) (CHR ''<'' # n)"
  using assms by (induction pre) auto

text \<open>
  The key parameters reach the engine as they are: for a parameter text in the documented
  form the bytes between the line break after the opening tag and the closing tag are
  extracted exactly, whatever follows the closing tag, provided that they hold no angle
  bracket and do not begin with a line break.
\<close>

theorem genkey_parms_roundtrip:
  assumes "CHR ''<'' \<notin> set body" "body \<noteq> []" "hd body \<notin> {CHR 0x0A, CHR 0x0D}"
  shows "get_key_parameter (genkey_parms body post) = Ok body"
proof -
  let ?content = "[CHR 0x0A] @ body @ close_tag @ post"
  let ?p = "open_tag @ format_attr @ ''>'' @ ?content"
  have opn: "strstr ?p open_tag = Some ?p" by (rule strstr_here)
  have gt: "strchr_split CHR ''>'' ?p = (open_tag @ format_attr, Some ?content)"
    by (simp add: strchr_split_Some open_tag_def format_attr_def)
  have fmt: "strstr ?p format_attr = Some (format_attr @ ''>'' @ ?content)"
    by (simp add: open_tag_def format_attr_def)
  have close: "strstr ?content close_tag = Some (close_tag @ post)"
    using assms(1) strstr_skip [of "CHR 0x0A # body" "''/GnupgKeyParms>'' @ post" "''/GnupgKeyParms>''"]
      strstr_here [of close_tag post] by (simp add: close_tag_def)
  have skip: "skip_newlines (length ?content - length (close_tag @ post)) ?content = (length body, body @ close_tag @ post)"
    using assms(2,3) by (cases body) (auto simp: cchr_def)
  have "\<not> length (format_attr @ ''>'' @ ?content) \<le> length ?content" by (simp add: format_attr_def)
  moreover have "genkey_parms body post = ?p" by (simp add: genkey_parms_def)
  ultimately have "get_key_parameter (genkey_parms body post) = Ok (take (length body) (body @ close_tag @ post))"
    unfolding get_key_parameter_def Let_def by (simp only: opn gt fmt close skip option.case prod.case if_False)
  then show ?thesis by simp
qed

theorem genkey_parms_roundtrip_witness:
  "get_key_parameter (genkey_parms ''Key-Type: RSA'' ''trailing'') = Ok ''Key-Type: RSA''"
  by (rule genkey_parms_roundtrip) simp_all

end
