(* ===== verification/Gpgme_Start.thy ===== *)
theory Gpgme_Start
  imports Gpgme_Decrypt Gpgme_Verify Gpgme_Sign Gpgme_Import Gpgme_Genkey
begin

text \<open>
  How operations are started and run: \<open>_gpgme_op_reset\<close> of \<open>op-support.c\<close>, the dispatch functions
  of \<open>engine.c\<close>, and the start functions of the operations with their synchronous and
  asynchronous entry points.

  The engines themselves (\<open>engine-gpg.c\<close>, \<open>engine-gpgsm.c\<close> and so on) are represented by what
  they answer: \<open>engine_api\<close> holds for each entry of \<open>struct engine_ops\<close> whether it is there and
  which error it returns. Of an engine object the model keeps what the core has set in it. In
  a synchronous operation the engine runs to its end; the status lines it emits are an
  argument.
\<close>

section \<open>Engines\<close>

datatype engine_op =
    OpDecrypt | OpVerify | OpSign | OpEncrypt | OpEncryptSign | OpImport | OpGenkey
  | OpKeylist | OpKeylistExt | OpKeylistData | OpDelete | OpPasswd | OpExport | OpExportExt | OpKeysign
  | OpTofuPolicy

record engine_api =
  ea_new :: "gpgme_protocol_t \<Rightarrow> gpgme_error_t"
  ea_reset :: "gpgme_error_t option"
  ea_set_locale :: "(bool \<Rightarrow> gpgme_error_t) option"
  ea_set_pinentry_mode :: "gpgme_error_t option"
  ea_set_protocol :: "(gpgme_protocol_t \<Rightarrow> gpgme_error_t) option"
  ea_set_status_cb :: bool
  ea_set_status_handler :: bool
  ea_set_command_handler :: "gpgme_error_t option"
  ea_set_colon_line_handler :: "gpgme_error_t option"
  ea_op :: "engine_op \<Rightarrow> gpgme_error_t option"

text \<open>The dispatch functions have the same shape.\<close>

definition engine_call :: "gpgme_ctx \<Rightarrow> gpgme_error_t option \<Rightarrow> gpgme_error_t" where
  "engine_call ctx f =
     (if ctx_engine ctx = None then gpg_error GPG_ERR_INV_VALUE
      else case f of None \<Rightarrow> gpg_error GPG_ERR_NOT_IMPLEMENTED | Some e \<Rightarrow> e)"

definition gpgme_engine_reset :: "engine_api \<Rightarrow> gpgme_ctx \<Rightarrow> gpgme_error_t" where
  "gpgme_engine_reset api ctx = engine_call ctx (ea_reset api)"

text \<open>The category is true for \<open>LC_MESSAGES\<close>.\<close>

definition gpgme_engine_set_locale :: "engine_api \<Rightarrow> gpgme_ctx \<Rightarrow> bool \<Rightarrow> gpgme_error_t" where
  "gpgme_engine_set_locale api ctx messages = engine_call ctx (map_option (\<lambda>f. f messages) (ea_set_locale api))"

definition gpgme_engine_set_protocol :: "engine_api \<Rightarrow> gpgme_ctx \<Rightarrow> gpgme_protocol_t \<Rightarrow> gpgme_error_t" where
  "gpgme_engine_set_protocol api ctx p = engine_call ctx (map_option (\<lambda>f. f p) (ea_set_protocol api))"

definition gpgme_engine_set_pinentry_mode :: "engine_api \<Rightarrow> gpgme_ctx \<Rightarrow> gpgme_error_t" where
  "gpgme_engine_set_pinentry_mode api ctx = engine_call ctx (ea_set_pinentry_mode api)"

definition upd_engine :: "(engine_state \<Rightarrow> engine_state) \<Rightarrow> gpgme_ctx \<Rightarrow> gpgme_ctx" where
  "upd_engine f ctx = ctx\<lparr>ctx_engine := map_option f (ctx_engine ctx)\<rparr>"

definition gpgme_engine_set_status_cb :: "engine_api \<Rightarrow> gpgme_ctx \<Rightarrow> gpgme_ctx" where
  "gpgme_engine_set_status_cb api =
     upd_engine (\<lambda>e. if ea_set_status_cb api then e\<lparr>eng_status_cb := True\<rparr> else e)"

definition gpgme_engine_set_status_handler :: "engine_api \<Rightarrow> handler_id \<Rightarrow> gpgme_ctx \<Rightarrow> gpgme_ctx" where
  "gpgme_engine_set_status_handler api h =
     upd_engine (\<lambda>e. if ea_set_status_handler api then e\<lparr>eng_handler := Some h\<rparr> else e)"

definition gpgme_engine_set_io_cbs :: "io_loop \<Rightarrow> gpgme_ctx \<Rightarrow> gpgme_ctx" where
  "gpgme_engine_set_io_cbs l = upd_engine (\<lambda>e. e\<lparr>eng_loop := Some l\<rparr>)"

definition gpgme_engine_set_command_handler :: "engine_api \<Rightarrow> gpgme_ctx \<Rightarrow> gpgme_ctx \<times> gpgme_error_t" where
  "gpgme_engine_set_command_handler api ctx =
     (let e = engine_call ctx (ea_set_command_handler api)
      in if is_err e then (ctx, e) else (upd_engine (\<lambda>e. e\<lparr>eng_command_handler := True\<rparr>) ctx, no_error))"

definition gpgme_engine_set_colon_line_handler :: "engine_api \<Rightarrow> gpgme_ctx \<Rightarrow> gpgme_ctx \<times> gpgme_error_t" where
  "gpgme_engine_set_colon_line_handler api ctx =
     (let e = engine_call ctx (ea_set_colon_line_handler api)
      in if is_err e then (ctx, e) else (upd_engine (\<lambda>e. e\<lparr>eng_colon_handler := True\<rparr>) ctx, no_error))"

definition gpgme_engine_op :: "engine_api \<Rightarrow> engine_op \<Rightarrow> gpgme_ctx \<Rightarrow> gpgme_error_t" where
  "gpgme_engine_op api op ctx = engine_call ctx (ea_op api op)"

section \<open>Reset\<close>

definition new_engine :: engine_state where
  "new_engine = \<lparr>eng_status_cb = False, eng_loop = None, eng_handler = None, eng_command_handler = False,
     eng_colon_handler = False\<rparr>"

definition unless_missing :: "gpgme_error_t \<Rightarrow> gpgme_error_t" where
  "unless_missing e = (if gpg_err_code e = GPG_ERR_NOT_IMPLEMENTED then no_error else e)"

text \<open>
  The parts of \<open>_gpgme_op_reset\<close> in their order: dropping the results, an engine to work with,
  its settings, and the event loop. \<open>ty\<close> is the type without the flag 256, which is
  \<open>no_reset\<close>.
\<close>

definition reset_state :: "gpgme_ctx \<Rightarrow> gpgme_ctx" where
  "reset_state ctx = ctx\<lparr>ctx_op_data := [], ctx_canceled := False, ctx_redraw_suggested := False\<rparr>"

definition reset_engine :: "engine_api \<Rightarrow> gpgme_ctx \<Rightarrow> bool \<Rightarrow> gpgme_ctx \<times> gpgme_error_t" where
  "reset_engine api ctx no_reset =
     (let ctx1 =
            (if ctx_engine ctx \<noteq> None \<and> \<not> no_reset
                \<and> gpg_err_code (gpgme_engine_reset api ctx) = GPG_ERR_NOT_IMPLEMENTED
             then ctx\<lparr>ctx_engine := None\<rparr> else ctx)
      in if ctx_engine ctx1 \<noteq> None then (ctx1, no_error)
         else if ctx_protocol ctx1 \<notin> set (ctx_engine_info ctx1)
         then (ctx1, gpg_error GPG_ERR_UNSUPPORTED_PROTOCOL)
         else if is_err (ea_new api (ctx_protocol ctx1)) then (ctx1, ea_new api (ctx_protocol ctx1))
         else (ctx1\<lparr>ctx_engine := Some new_engine\<rparr>, no_error))"

definition reset_settings :: "engine_api \<Rightarrow> gpgme_ctx \<Rightarrow> gpgme_ctx \<times> gpgme_error_t" where
  "reset_settings api ctx =
     (let e1 = gpgme_engine_set_locale api ctx False;
          e2 = (if is_err e1 then e1 else gpgme_engine_set_locale api ctx True);
          e3 = unless_missing e2;
          e4 = (if is_err e3 then e3 else unless_missing (gpgme_engine_set_pinentry_mode api ctx))
      in if is_err e4 then (ctx\<lparr>ctx_engine := None\<rparr>, e4)
         else (if ctx_status_cb ctx \<noteq> None \<and> ctx_full_status ctx then gpgme_engine_set_status_cb api ctx else ctx,
               no_error))"

definition loop_for :: "nat \<Rightarrow> bool \<Rightarrow> io_loop" where
  "loop_for ty user =
     (if ty = 1 \<or> (ty = 2 \<and> \<not> user) then PrivateLoop else if \<not> user then GlobalLoop else UserLoop)"

definition gpgme_op_reset :: "engine_api \<Rightarrow> gpgme_ctx \<Rightarrow> nat \<Rightarrow> bool \<Rightarrow> gpgme_ctx \<times> gpgme_error_t" where
  "gpgme_op_reset api ctx ty no_reset =
     (let ctx1 = reset_state ctx;
          reuse = (ctx_engine ctx1 \<noteq> None \<and> no_reset)
      in case reset_engine api ctx1 no_reset of
           (ctx2, e2) \<Rightarrow>
             if is_err e2 then (ctx2, e2)
             else case (if reuse then (ctx2, no_error) else reset_settings api ctx2) of
               (ctx3, e3) \<Rightarrow>
                 if is_err e3 then (ctx3, e3)
                 else
                   (let e4 = (if ctx_sub_protocol ctx3 \<noteq> GPGME_PROTOCOL_DEFAULT
                              then gpgme_engine_set_protocol api ctx3 (ctx_sub_protocol ctx3) else no_error)
                    in if is_err e4 then (ctx3, e4)
                       else (gpgme_engine_set_io_cbs (loop_for ty (ctx_user_loop ctx3)) ctx3, no_error)))"

section \<open>Start functions\<close>

type_synonym start_res = "(gpgme_ctx \<times> gpgme_error_t) option"

definition then_start :: "start_res \<Rightarrow> (gpgme_ctx \<Rightarrow> start_res) \<Rightarrow> start_res" where
  "then_start m f = (case m of None \<Rightarrow> None | Some (c, e) \<Rightarrow> if is_err e then Some (c, e) else f c)"

definition fail_start :: "gpgme_ctx \<Rightarrow> gpg_err_code \<Rightarrow> start_res" where
  "fail_start c e = Some (c, gpg_error e)"

text \<open>The passphrase requests go to the application if it gave a callback.\<close>

definition want_passphrase :: "engine_api \<Rightarrow> bool \<Rightarrow> gpgme_ctx \<Rightarrow> start_res" where
  "want_passphrase api needed ctx =
     Some (if needed \<and> ctx_passphrase_cb ctx \<noteq> None then gpgme_engine_set_command_handler api ctx else (ctx, no_error))"

text \<open>The handler is installed and the engine started.\<close>

definition launch :: "engine_api \<Rightarrow> handler_id \<Rightarrow> engine_op \<Rightarrow> gpgme_ctx \<Rightarrow> start_res" where
  "launch api h op ctx =
     (let c = gpgme_engine_set_status_handler api h ctx in Some (c, gpgme_engine_op api op c))"

text \<open>The mode is \<open>None\<close> for a number that is no signature mode; data arguments tell whether they are given.\<close>

definition sign_start ::
    "op_env \<Rightarrow> engine_api \<Rightarrow> gpgme_ctx \<Rightarrow> nat \<Rightarrow> bool \<Rightarrow> bool \<Rightarrow> gpgme_sig_mode_t option \<Rightarrow> start_res" where
  "sign_start env api ctx synchronous plain sig mode =
     then_start (Some (gpgme_op_reset api ctx synchronous False)) (\<lambda>c1.
     then_start (sign_init_result env c1 (ctx_protocol c1 = GPGME_PROTOCOL_CMS)) (\<lambda>c2.
       if mode = None then fail_start c2 GPG_ERR_INV_VALUE
       else if \<not> plain then fail_start c2 GPG_ERR_NO_DATA
       else if \<not> sig then fail_start c2 GPG_ERR_INV_VALUE
       else then_start (want_passphrase api True c2) (launch api SignHandler OpSign)))"

text \<open>\<open>recp\<close> is the number of recipients before the end of the array, \<open>None\<close> without an array.\<close>

definition encrypt_start ::
    "op_env \<Rightarrow> engine_api \<Rightarrow> gpgme_ctx \<Rightarrow> nat \<Rightarrow> nat option \<Rightarrow> bool \<Rightarrow> bool \<Rightarrow> bool \<Rightarrow> bool \<Rightarrow> start_res" where
  "encrypt_start env api ctx synchronous recp recpstring sym_flag plain cipher =
     then_start (Some (gpgme_op_reset api ctx synchronous False)) (\<lambda>c1.
     then_start (Some (gpgme_op_encrypt_init_result env c1)) (\<lambda>c2.
       let symmetric = (recp = None \<and> \<not> recpstring \<or> sym_flag)
       in if \<not> plain then fail_start c2 GPG_ERR_NO_DATA
          else if \<not> cipher then fail_start c2 GPG_ERR_INV_VALUE
          else if recp = Some 0 then fail_start c2 GPG_ERR_INV_VALUE
          else then_start (want_passphrase api symmetric c2)
                 (launch api (if symmetric then EncryptSymHandler else EncryptHandler) OpEncrypt)))"

definition encrypt_sign_start ::
    "op_env \<Rightarrow> engine_api \<Rightarrow> gpgme_ctx \<Rightarrow> nat \<Rightarrow> nat option \<Rightarrow> bool \<Rightarrow> bool \<Rightarrow> bool \<Rightarrow> bool \<Rightarrow> start_res" where
  "encrypt_sign_start env api ctx synchronous recp recpstring sym_flag plain cipher =
     then_start (Some (gpgme_op_reset api ctx synchronous False)) (\<lambda>c1.
       let symmetric = (recp = None \<and> \<not> recpstring \<or> sym_flag)
       in if \<not> plain then fail_start c1 GPG_ERR_NO_DATA
          else if \<not> cipher then fail_start c1 GPG_ERR_INV_VALUE
          else if recp = Some 0 then fail_start c1 GPG_ERR_INV_VALUE
          else then_start (Some (gpgme_op_encrypt_init_result env c1)) (\<lambda>c2.
               then_start (gpgme_op_sign_init_result env c2) (\<lambda>c3.
               then_start (want_passphrase api True c3)
                 (launch api (if symmetric then EncryptSignSymHandler else EncryptSignHandler) OpEncryptSign))))"

text \<open>The plaintext of a decryption is a handle, since the operation remembers its serial number.\<close>

definition gpgme_decrypt_start ::
    "op_env \<Rightarrow> engine_api \<Rightarrow> gpgme_ctx \<Rightarrow> 'u data_state \<Rightarrow> nat \<Rightarrow> bool \<Rightarrow> nat option \<Rightarrow> start_res" where
  "gpgme_decrypt_start env api ctx ds synchronous cipher plain =
     then_start (Some (gpgme_op_reset api ctx synchronous False)) (\<lambda>c1.
     then_start (gpgme_op_decrypt_init_result env c1 ds plain) (\<lambda>c2.
       if \<not> cipher then fail_start c2 GPG_ERR_NO_DATA
       else if plain = None then fail_start c2 GPG_ERR_INV_VALUE
       else then_start (want_passphrase api True c2) (launch api DecryptHandler OpDecrypt)))"

definition decrypt_verify_start ::
    "op_env \<Rightarrow> engine_api \<Rightarrow> gpgme_ctx \<Rightarrow> 'u data_state \<Rightarrow> nat \<Rightarrow> bool \<Rightarrow> nat option \<Rightarrow> start_res" where
  "decrypt_verify_start env api ctx ds synchronous cipher plain =
     then_start (Some (gpgme_op_reset api ctx synchronous False)) (\<lambda>c1.
     then_start (gpgme_op_decrypt_init_result env c1 ds plain) (\<lambda>c2.
     then_start (Some (gpgme_op_verify_init_result env c2)) (\<lambda>c3.
       if \<not> cipher then fail_start c3 GPG_ERR_NO_DATA
       else if plain = None then fail_start c3 GPG_ERR_INV_VALUE
       else then_start (want_passphrase api True c3) (launch api DecryptVerifyHandler OpDecrypt))))"

definition verify_start :: "op_env \<Rightarrow> engine_api \<Rightarrow> gpgme_ctx \<Rightarrow> nat \<Rightarrow> bool \<Rightarrow> start_res" where
  "verify_start env api ctx synchronous sig =
     then_start (Some (gpgme_op_reset api ctx synchronous False)) (\<lambda>c1.
     then_start (Some (gpgme_op_verify_init_result env c1)) (\<lambda>c2.
       let c3 = gpgme_engine_set_status_handler api VerifyHandler c2
       in if \<not> sig then fail_start c3 GPG_ERR_NO_DATA
          else Some (c3, gpgme_engine_op api OpVerify c3)))"

definition import_init :: "op_env \<Rightarrow> gpgme_ctx \<Rightarrow> start_res" where
  "import_init env ctx =
     (case gpgme_op_data_lookup env (Some ctx) OPDATA_IMPORT 1 of
        (Some ctx1, _, e) \<Rightarrow> Some (ctx1, e) | _ \<Rightarrow> None)"

definition gpgme_op_import_start_priv :: "op_env \<Rightarrow> engine_api \<Rightarrow> gpgme_ctx \<Rightarrow> nat \<Rightarrow> bool \<Rightarrow> start_res" where
  "gpgme_op_import_start_priv env api ctx synchronous keydata =
     then_start (Some (gpgme_op_reset api ctx synchronous False)) (\<lambda>c1.
     then_start (import_init env c1) (\<lambda>c2.
       if \<not> keydata then fail_start c2 GPG_ERR_NO_DATA else launch api ImportHandler OpImport c2))"

definition gpgme_op_import_keys_start_priv ::
    "op_env \<Rightarrow> engine_api \<Rightarrow> gpgme_ctx \<Rightarrow> nat \<Rightarrow> (gpgme_protocol_t \<times> 32 word) list option \<Rightarrow> start_res" where
  "gpgme_op_import_keys_start_priv env api ctx synchronous keys =
     then_start (Some (gpgme_op_reset api ctx synchronous False)) (\<lambda>c1.
     then_start (import_init env c1) (\<lambda>c2.
       case keys of
         None \<Rightarrow> fail_start c2 GPG_ERR_NO_DATA
       | Some ks \<Rightarrow>
           (case import_keys_scan (ctx_protocol c2) ks None 0 of
              Ok _ \<Rightarrow> launch api ImportHandler OpImport c2
            | Err e \<Rightarrow> Some (c2, e)
            | UB \<Rightarrow> None)))"

definition genkey_init :: "op_env \<Rightarrow> gpgme_ctx \<Rightarrow> start_res" where
  "genkey_init env ctx =
     (case gpgme_op_data_lookup env (Some ctx) OPDATA_GENKEY 1 of
        (Some ctx1, _, e) \<Rightarrow> Some (ctx1, e) | _ \<Rightarrow> None)"

text \<open>
  The engine is started behind the two settings; the status handler is set first here. A null
  pointer for the parameters is passed on to \<open>strstr\<close>.
\<close>

definition genkey_launch :: "engine_api \<Rightarrow> gpgme_ctx \<Rightarrow> start_res" where
  "genkey_launch api ctx =
     then_start (want_passphrase api True (gpgme_engine_set_status_handler api GenkeyHandler ctx))
       (\<lambda>c. Some (c, gpgme_engine_op api OpGenkey c))"

definition genkey_start :: "op_env \<Rightarrow> engine_api \<Rightarrow> gpgme_ctx \<Rightarrow> nat \<Rightarrow> string option \<Rightarrow> start_res" where
  "genkey_start env api ctx synchronous parms =
     then_start (Some (gpgme_op_reset api ctx synchronous False)) (\<lambda>c1.
     then_start (genkey_init env c1) (\<lambda>c2.
       case parms of
         None \<Rightarrow> None
       | Some p \<Rightarrow>
           (case get_key_parameter p of
              Ok _ \<Rightarrow> if core env ''key_parameter'' then genkey_launch api c2 else Some (c2, syserror ENOMEM)
            | Err e \<Rightarrow> Some (c2, e)
            | UB \<Rightarrow> None)))"

definition createkey_start ::
    "op_env \<Rightarrow> engine_api \<Rightarrow> gpgme_ctx \<Rightarrow> nat \<Rightarrow> bool \<Rightarrow> bool \<Rightarrow> bool \<Rightarrow> start_res" where
  "createkey_start env api ctx synchronous userid reserved anchorkey =
     then_start (Some (gpgme_op_reset api ctx synchronous False)) (\<lambda>c1.
       if reserved \<or> anchorkey \<or> \<not> userid then fail_start c1 GPG_ERR_INV_ARG
       else then_start (genkey_init env c1) (genkey_launch api))"

definition createsubkey_start ::
    "op_env \<Rightarrow> engine_api \<Rightarrow> gpgme_ctx \<Rightarrow> nat \<Rightarrow> bool \<Rightarrow> bool \<Rightarrow> start_res" where
  "createsubkey_start env api ctx synchronous key reserved =
     (if ctx_protocol ctx \<noteq> GPGME_PROTOCOL_OpenPGP then fail_start ctx GPG_ERR_UNSUPPORTED_PROTOCOL
      else then_start (Some (gpgme_op_reset api ctx synchronous False)) (\<lambda>c1.
        if reserved \<or> \<not> key then fail_start c1 GPG_ERR_INV_ARG
        else then_start (genkey_init env c1) (genkey_launch api)))"

definition addrevuid_start ::
    "op_env \<Rightarrow> engine_api \<Rightarrow> gpgme_ctx \<Rightarrow> nat \<Rightarrow> bool \<Rightarrow> bool \<Rightarrow> bool \<Rightarrow> start_res" where
  "addrevuid_start env api ctx synchronous revoke key userid =
     (if ctx_protocol ctx \<noteq> GPGME_PROTOCOL_OpenPGP then fail_start ctx GPG_ERR_UNSUPPORTED_PROTOCOL
      else if \<not> key \<or> \<not> userid then fail_start ctx GPG_ERR_INV_ARG
      else then_start (Some (gpgme_op_reset api ctx synchronous False)) (\<lambda>c1.
           then_start (genkey_init env c1) (\<lambda>c2.
             case get_hook OPDATA_GENKEY c2 of
               Some (HGenkey d) \<Rightarrow> genkey_launch api (put_hook (HGenkey (d\<lparr>gk_uidmode := if revoke then 2 else 1\<rparr>)) c2)
             | _ \<Rightarrow> None)))"

section \<open>Entry points\<close>

text \<open>
  The checks of the context pointer, an asynchronous start, and a synchronous run: the engine
  hands the lines \<open>ls\<close> to the handler and stops at the first error. \<open>bad\<close> is the error for a
  missing context.
\<close>

type_synonym entry_res = "(gpgme_ctx option \<times> gpgme_error_t) option"

definition entry_async :: "gpg_err_code \<Rightarrow> (gpgme_ctx \<Rightarrow> start_res) \<Rightarrow> gpgme_ctx option \<Rightarrow> entry_res" where
  "entry_async bad start c =
     (case c of None \<Rightarrow> Some (None, gpg_error bad) | Some ctx \<Rightarrow> map_option (apfst Some) (start ctx))"

definition entry_sync ::
    "gpg_err_code \<Rightarrow> (gpgme_ctx \<Rightarrow> start_res) \<Rightarrow> gpgme_ctx handler \<Rightarrow> (int \<times> string) list \<Rightarrow>
     gpgme_ctx option \<Rightarrow> entry_res" where
  "entry_sync bad start h ls c =
     (case c of
        None \<Rightarrow> Some (None, gpg_error bad)
      | Some ctx \<Rightarrow> map_option (apfst Some) (then_start (start ctx) (\<lambda>c1. feed h c1 ls)))"

definition gpgme_op_sign_start where
  "gpgme_op_sign_start env api c plain sig mode =
     entry_async GPG_ERR_INV_VALUE (\<lambda>ctx. sign_start env api ctx 0 plain sig mode) c"

definition gpgme_op_sign where
  "gpgme_op_sign env api c plain sig mode ls =
     entry_sync GPG_ERR_INV_VALUE (\<lambda>ctx. sign_start env api ctx 1 plain sig mode) (sign_status_handler env) ls c"

definition gpgme_op_encrypt_ext_start where
  "gpgme_op_encrypt_ext_start env api c recp recpstring sym_flag plain cipher =
     entry_async GPG_ERR_INV_VALUE (\<lambda>ctx. encrypt_start env api ctx 0 recp recpstring sym_flag plain cipher) c"

definition gpgme_op_encrypt_ext where
  "gpgme_op_encrypt_ext env api c recp recpstring sym_flag plain cipher ls =
     entry_sync GPG_ERR_INV_VALUE (\<lambda>ctx. encrypt_start env api ctx 1 recp recpstring sym_flag plain cipher)
       (if recp = None \<and> \<not> recpstring \<or> sym_flag then encrypt_sym_status_handler env else encrypt_status_handler env) ls c"

definition gpgme_op_encrypt_start where
  "gpgme_op_encrypt_start env api c recp sym_flag plain cipher =
     gpgme_op_encrypt_ext_start env api c recp False sym_flag plain cipher"

definition gpgme_op_encrypt where
  "gpgme_op_encrypt env api c recp sym_flag plain cipher ls =
     gpgme_op_encrypt_ext env api c recp False sym_flag plain cipher ls"

definition gpgme_op_encrypt_sign_ext_start where
  "gpgme_op_encrypt_sign_ext_start env api c recp recpstring sym_flag plain cipher =
     entry_async GPG_ERR_INV_VALUE (\<lambda>ctx. encrypt_sign_start env api ctx 0 recp recpstring sym_flag plain cipher) c"

definition gpgme_op_encrypt_sign_ext where
  "gpgme_op_encrypt_sign_ext env api c recp recpstring sym_flag plain cipher ls =
     entry_sync GPG_ERR_INV_VALUE (\<lambda>ctx. encrypt_sign_start env api ctx 1 recp recpstring sym_flag plain cipher)
       (if recp = None \<and> \<not> recpstring \<or> sym_flag then encrypt_sign_sym_status_handler env
        else encrypt_sign_status_handler env) ls c"

definition gpgme_op_encrypt_sign_start where
  "gpgme_op_encrypt_sign_start env api c recp sym_flag plain cipher =
     gpgme_op_encrypt_sign_ext_start env api c recp False sym_flag plain cipher"

definition gpgme_op_encrypt_sign where
  "gpgme_op_encrypt_sign env api c recp sym_flag plain cipher ls =
     gpgme_op_encrypt_sign_ext env api c recp False sym_flag plain cipher ls"

definition gpgme_op_verify_start where
  "gpgme_op_verify_start env api c sig = entry_async GPG_ERR_INV_VALUE (\<lambda>ctx. verify_start env api ctx 0 sig) c"

definition gpgme_op_verify where
  "gpgme_op_verify env api c sig ls =
     entry_sync GPG_ERR_INV_VALUE (\<lambda>ctx. verify_start env api ctx 1 sig) (verify_status_handler env) ls c"

definition gpgme_op_import_start where
  "gpgme_op_import_start env api c keydata =
     entry_async GPG_ERR_INV_VALUE (\<lambda>ctx. gpgme_op_import_start_priv env api ctx 0 keydata) c"

definition gpgme_op_import where
  "gpgme_op_import env api c keydata ls =
     entry_sync GPG_ERR_INV_VALUE (\<lambda>ctx. gpgme_op_import_start_priv env api ctx 1 keydata) (import_status_handler env) ls c"

text \<open>The old interface also returns the number of keys considered when there is no error.\<close>

definition gpgme_op_import_ext where
  "gpgme_op_import_ext env api c keydata ls =
     (case gpgme_op_import env api c keydata ls of
        None \<Rightarrow> None
      | Some (c1, e) \<Rightarrow>
          if is_err e then Some (c1, e, None)
          else (case Option.bind c1 gpgme_op_import_result of
                  None \<Rightarrow> None
                | Some r \<Rightarrow> Some (c1, e, Some (hd (imp_counts r)))))"

definition gpgme_op_import_keys_start where
  "gpgme_op_import_keys_start env api c keys =
     entry_async GPG_ERR_INV_VALUE (\<lambda>ctx. gpgme_op_import_keys_start_priv env api ctx 0 keys) c"

definition gpgme_op_import_keys where
  "gpgme_op_import_keys env api c keys ls =
     entry_sync GPG_ERR_INV_VALUE (\<lambda>ctx. gpgme_op_import_keys_start_priv env api ctx 1 keys) (import_status_handler env) ls c"

text \<open>The asynchronous entry point turns away every parameter text and lets the null pointer pass.\<close>

definition gpgme_op_genkey_start where
  "gpgme_op_genkey_start env api c parms =
     (if parms \<noteq> None then Some (c, gpg_error GPG_ERR_INV_ARG)
      else entry_async GPG_ERR_INV_ARG (\<lambda>ctx. genkey_start env api ctx 0 parms) c)"

definition gpgme_op_genkey where
  "gpgme_op_genkey env api c parms ls =
     entry_sync GPG_ERR_INV_ARG (\<lambda>ctx. genkey_start env api ctx 1 parms) (genkey_status_handler env) ls c"

definition gpgme_op_createkey_start where
  "gpgme_op_createkey_start env api c userid reserved anchorkey =
     entry_async GPG_ERR_INV_ARG (\<lambda>ctx. createkey_start env api ctx 0 userid reserved anchorkey) c"

definition gpgme_op_createkey where
  "gpgme_op_createkey env api c userid reserved anchorkey ls =
     entry_sync GPG_ERR_INV_ARG (\<lambda>ctx. createkey_start env api ctx 1 userid reserved anchorkey)
       (genkey_status_handler env) ls c"

definition gpgme_op_createsubkey_start where
  "gpgme_op_createsubkey_start env api c key reserved =
     entry_async GPG_ERR_INV_ARG (\<lambda>ctx. createsubkey_start env api ctx 0 key reserved) c"

definition gpgme_op_createsubkey where
  "gpgme_op_createsubkey env api c key reserved ls =
     entry_sync GPG_ERR_INV_ARG (\<lambda>ctx. createsubkey_start env api ctx 1 key reserved) (genkey_status_handler env) ls c"

definition gpgme_op_adduid_start where
  "gpgme_op_adduid_start env api c key userid =
     entry_async GPG_ERR_INV_ARG (\<lambda>ctx. addrevuid_start env api ctx 0 False key userid) c"

definition gpgme_op_adduid where
  "gpgme_op_adduid env api c key userid ls =
     entry_sync GPG_ERR_INV_ARG (\<lambda>ctx. addrevuid_start env api ctx 1 False key userid) (genkey_status_handler env) ls c"

definition gpgme_op_revuid_start where
  "gpgme_op_revuid_start env api c key userid =
     entry_async GPG_ERR_INV_ARG (\<lambda>ctx. addrevuid_start env api ctx 0 True key userid) c"

definition gpgme_op_revuid where
  "gpgme_op_revuid env api c key userid ls =
     entry_sync GPG_ERR_INV_ARG (\<lambda>ctx. addrevuid_start env api ctx 1 True key userid) (genkey_status_handler env) ls c"

text \<open>The flag name is \<open>None\<close> for a null pointer; \<open>flag_value\<close> tells whether a value is given.\<close>

definition set_uid_flag where
  "set_uid_flag env api c synchronous key userid nm flag_value ls =
     (if c = None \<or> nm = None \<or> \<not> key \<or> \<not> userid then Some (c, gpg_error GPG_ERR_INV_ARG)
      else if nm \<noteq> Some ''primary'' then Some (c, gpg_error GPG_ERR_UNKNOWN_NAME)
      else if flag_value then Some (c, gpg_error GPG_ERR_INV_ARG)
      else if synchronous
      then entry_sync GPG_ERR_INV_ARG (\<lambda>ctx. addrevuid_start env api ctx 1 True key userid) (genkey_status_handler env) ls c
      else entry_async GPG_ERR_INV_ARG (\<lambda>ctx. addrevuid_start env api ctx 0 True key userid) c)"

definition gpgme_op_set_uid_flag_start where
  "gpgme_op_set_uid_flag_start env api c key userid nm flag_value =
     set_uid_flag env api c False key userid nm flag_value []"

definition gpgme_op_set_uid_flag where
  "gpgme_op_set_uid_flag env api c key userid nm flag_value ls =
     set_uid_flag env api c True key userid nm flag_value ls"

text \<open>
  Decryption works on the context and the data objects. The synchronous entry points clear
  \<open>ignore_mdc_error\<close> at the end.
\<close>

definition decrypt_verify_status_handler :: "op_env \<Rightarrow> 'u dec_state handler" where
  "decrypt_verify_status_handler env =
     then_handler (then_handler (lift_ctx (gpgme_progress_status_handler env)) (gpgme_decrypt_status_handler env))
       (lift_ctx (gpgme_verify_status_handler env))"

definition decrypt_entry ::
    "(gpgme_ctx \<Rightarrow> 'u data_state \<Rightarrow> start_res) \<Rightarrow> 'u dec_state handler \<Rightarrow> (int \<times> string) list \<Rightarrow>
     gpgme_ctx option \<Rightarrow> 'u data_state \<Rightarrow> (gpgme_ctx option \<times> 'u data_state \<times> gpgme_error_t) option" where
  "decrypt_entry start h ls c ds =
     (case c of
        None \<Rightarrow> Some (None, ds, gpg_error GPG_ERR_INV_VALUE)
      | Some ctx \<Rightarrow>
          (case start ctx ds of
             None \<Rightarrow> None
           | Some (c1, e) \<Rightarrow>
               if is_err e then Some (Some (c1\<lparr>ctx_ignore_mdc_error := False\<rparr>), ds, e)
               else case feed h (c1, ds) ls of
                 None \<Rightarrow> None
               | Some ((c2, ds2), e2) \<Rightarrow> Some (Some (c2\<lparr>ctx_ignore_mdc_error := False\<rparr>), ds2, e2)))"

definition gpgme_op_decrypt_start where
  "gpgme_op_decrypt_start env api c ds cipher plain =
     entry_async GPG_ERR_INV_VALUE (\<lambda>ctx. gpgme_decrypt_start env api ctx ds 0 cipher plain) c"

definition gpgme_op_decrypt where
  "gpgme_op_decrypt env api c ds cipher plain ls =
     decrypt_entry (\<lambda>ctx ds. gpgme_decrypt_start env api ctx ds 1 cipher plain) (decrypt_status_handler env) ls c ds"

definition gpgme_op_decrypt_verify_start where
  "gpgme_op_decrypt_verify_start env api c ds cipher plain =
     entry_async GPG_ERR_INV_VALUE (\<lambda>ctx. decrypt_verify_start env api ctx ds 0 cipher plain) c"

definition gpgme_op_decrypt_verify where
  "gpgme_op_decrypt_verify env api c ds cipher plain ls =
     decrypt_entry (\<lambda>ctx ds. decrypt_verify_start env api ctx ds 1 cipher plain) (decrypt_verify_status_handler env) ls c ds"

text \<open>\<open>verify\<close> is the flag \<open>GPGME_DECRYPT_VERIFY\<close>.\<close>

definition gpgme_op_decrypt_ext_start where
  "gpgme_op_decrypt_ext_start env api c ds verify cipher plain =
     entry_async GPG_ERR_INV_VALUE (\<lambda>ctx. if verify then decrypt_verify_start env api ctx ds 0 cipher plain
       else gpgme_decrypt_start env api ctx ds 0 cipher plain) c"

definition gpgme_op_decrypt_ext where
  "gpgme_op_decrypt_ext env api c ds verify cipher plain ls =
     decrypt_entry (\<lambda>ctx ds. if verify then decrypt_verify_start env api ctx ds 1 cipher plain
         else gpgme_decrypt_start env api ctx ds 1 cipher plain)
       (if verify then decrypt_verify_status_handler env else decrypt_status_handler env) ls c ds"

section \<open>Lemmas on starting\<close>

lemma then_start_ok:
  "then_start m f = Some (c, no_error) \<longleftrightarrow> (\<exists>c1. m = Some (c1, no_error) \<and> f c1 = Some (c, no_error))"
  by (auto simp: then_start_def split: option.splits prod.splits)

lemma fail_start_ok [simp]: "fail_start c e \<noteq> Some (c', no_error)"
  by (simp add: fail_start_def)

text \<open>
  What a start function may change of a context: the operation data, the two flags and the
  engine.
\<close>

definition only_op :: "gpgme_ctx \<Rightarrow> gpgme_ctx \<Rightarrow> bool" where
  "only_op a b \<longleftrightarrow> b = a\<lparr>ctx_op_data := ctx_op_data b, ctx_canceled := ctx_canceled b,
     ctx_redraw_suggested := ctx_redraw_suggested b, ctx_engine := ctx_engine b\<rparr>"

lemma only_op_refl [simp]: "only_op a a"
  by (simp add: only_op_def)

lemma only_op_trans: "only_op a b \<Longrightarrow> only_op b c \<Longrightarrow> only_op a c"
  by (cases a; cases b; cases c) (simp add: only_op_def)

lemma only_op_updates [simp]:
  "only_op a (a\<lparr>ctx_engine := x\<rparr>)" "only_op a (a\<lparr>ctx_op_data := hs\<rparr>)" "only_op a (reset_state a)"
  "only_op a (upd_engine f a)"
  by (simp_all add: only_op_def reset_state_def upd_engine_def)

lemma only_op_fields:
  assumes "only_op a b"
  shows "ctx_protocol b = ctx_protocol a" "ctx_passphrase_cb b = ctx_passphrase_cb a" "ctx_user_loop b = ctx_user_loop a"
    "ctx_signers_len b = ctx_signers_len a" "ctx_status_cb b = ctx_status_cb a"
  using assms by (cases a; cases b; simp add: only_op_def)+

text \<open>An engine setting keeps the data and flags of the context.\<close>

definition same_op :: "gpgme_ctx \<Rightarrow> gpgme_ctx \<Rightarrow> bool" where
  "same_op a b \<longleftrightarrow> b = a\<lparr>ctx_engine := ctx_engine b\<rparr>"

lemma same_op_trans: "same_op a b \<Longrightarrow> same_op b c \<Longrightarrow> same_op a c"
  by (cases a; cases b; cases c) (simp add: same_op_def)

lemma same_op_simps [simp]: "same_op a a" "same_op a (a\<lparr>ctx_engine := x\<rparr>)" "same_op a (upd_engine f a)"
  by (simp_all add: same_op_def upd_engine_def)

lemma same_op_fields:
  assumes "same_op a b"
  shows "only_op a b" "ctx_op_data b = ctx_op_data a" "ctx_canceled b = ctx_canceled a"
    "ctx_passphrase_cb b = ctx_passphrase_cb a" "ctx_user_loop b = ctx_user_loop a"
    "ctx_redraw_suggested b = ctx_redraw_suggested a"
  using assms by (cases a; cases b; simp add: same_op_def only_op_def)+

lemma reset_engine_same:
  assumes "reset_engine api ctx nr = (c, e)"
  shows "same_op ctx c" "e = no_error \<Longrightarrow> ctx_engine c \<noteq> None"
  using assms by (auto simp: reset_engine_def Let_def split: if_split_asm)

lemma reset_settings_same:
  assumes "reset_settings api ctx = (c, e)"
  shows "same_op ctx c" "e = no_error \<Longrightarrow> ctx_engine c = None \<longleftrightarrow> ctx_engine ctx = None"
  using assms
  by (auto simp: reset_settings_def Let_def gpgme_engine_set_status_cb_def upd_engine_def split: if_split_asm)

lemma op_reset_same:
  assumes "gpgme_op_reset api ctx ty nr = (c, e)"
  shows "same_op (reset_state ctx) c"
    and "e = no_error \<Longrightarrow> \<exists>g. ctx_engine c = Some g \<and> eng_loop g = Some (loop_for ty (ctx_user_loop ctx))"
proof -
  obtain c2 e2 where r: "reset_engine api (reset_state ctx) nr = (c2, e2)" by fastforce
  note s2 = reset_engine_same [OF r]
  obtain c3 e3 where t: "(if ctx_engine (reset_state ctx) \<noteq> None \<and> nr then (c2, no_error) else reset_settings api c2) = (c3, e3)"
    by fastforce
  have s3: "same_op c2 c3" "e3 = no_error \<Longrightarrow> ctx_engine c3 = None \<longleftrightarrow> ctx_engine c2 = None"
    using t reset_settings_same [of api c2 c3 e3] by (auto split: if_split_asm)
  have s: "same_op (reset_state ctx) c3" using s2(1) s3(1) by (rule same_op_trans)
  have def: "gpgme_op_reset api ctx ty nr = (if is_err e2 then (c2, e2) else if is_err e3 then (c3, e3)
      else let e4 = (if ctx_sub_protocol c3 \<noteq> GPGME_PROTOCOL_DEFAULT
             then gpgme_engine_set_protocol api c3 (ctx_sub_protocol c3) else no_error)
        in if is_err e4 then (c3, e4) else (gpgme_engine_set_io_cbs (loop_for ty (ctx_user_loop c3)) c3, no_error))"
    by (simp only: gpgme_op_reset_def Let_def r prod.case t)
  show "same_op (reset_state ctx) c"
    using assms s s2(1) unfolding def
    by (auto simp: Let_def gpgme_engine_set_io_cbs_def intro: same_op_trans split: if_split_asm)
  show "\<exists>g. ctx_engine c = Some g \<and> eng_loop g = Some (loop_for ty (ctx_user_loop ctx))" if "e = no_error"
  proof -
    have c: "c = gpgme_engine_set_io_cbs (loop_for ty (ctx_user_loop c3)) c3" "e2 = no_error" "e3 = no_error"
      using assms that unfolding def by (auto simp: Let_def split: if_split_asm)
    moreover obtain g where "ctx_engine c3 = Some g" using s2(2) s3(2) c(2,3) by auto
    moreover have "ctx_user_loop c3 = ctx_user_loop ctx" using same_op_fields [OF s] by (simp add: reset_state_def)
    ultimately show ?thesis by (simp add: gpgme_engine_set_io_cbs_def upd_engine_def)
  qed
qed

text \<open>
  An operation under way: only its own fresh data in the context, not cancelled, an engine with
  the handler of the operation, the right event loop, and passphrase requests going to the
  application if it wants them.
\<close>

definition started :: "engine_api \<Rightarrow> handler_id \<Rightarrow> bool \<Rightarrow> nat \<Rightarrow> op_hook list \<Rightarrow> gpgme_ctx \<Rightarrow> gpgme_ctx \<Rightarrow> bool" where
  "started api h wants ty hs ctx c \<longleftrightarrow>
     only_op ctx c \<and> ctx_op_data c = hs \<and> \<not> ctx_canceled c \<and> \<not> ctx_redraw_suggested c \<and>
     (\<exists>g. ctx_engine c = Some g \<and> eng_loop g = Some (loop_for ty (ctx_user_loop ctx))
        \<and> (ea_set_status_handler api \<longrightarrow> eng_handler g = Some h)
        \<and> (wants \<and> ctx_passphrase_cb ctx \<noteq> None \<longrightarrow> eng_command_handler g))"

lemma reset_ok:
  assumes "Some (gpgme_op_reset api ctx ty nr) = Some (c, no_error)"
  shows "only_op ctx c" "ctx_op_data c = []" "\<not> ctx_canceled c" "\<not> ctx_redraw_suggested c"
    "\<exists>g. ctx_engine c = Some g \<and> eng_loop g = Some (loop_for ty (ctx_user_loop ctx))"
proof -
  have r: "gpgme_op_reset api ctx ty nr = (c, no_error)" using assms by simp
  note s = same_op_fields [OF op_reset_same(1) [OF r]]
  show "only_op ctx c" using s(1) by (rule only_op_trans [OF only_op_updates(3)])
  show "ctx_op_data c = []" "\<not> ctx_canceled c" "\<not> ctx_redraw_suggested c" using s by (simp_all add: reset_state_def)
  show "\<exists>g. ctx_engine c = Some g \<and> eng_loop g = Some (loop_for ty (ctx_user_loop ctx))"
    using op_reset_same(2) [OF r] by simp
qed

lemma launch_ok:
  assumes "then_start (want_passphrase api wants c) (launch api h op) = Some (c', no_error)"
    and g: "ctx_engine c = Some g"
  shows "\<exists>g'. c' = c\<lparr>ctx_engine := Some g'\<rparr> \<and> eng_loop g' = eng_loop g
     \<and> (ea_set_status_handler api \<longrightarrow> eng_handler g' = Some h)
     \<and> (wants \<and> ctx_passphrase_cb c \<noteq> None \<longrightarrow> eng_command_handler g')"
  using assms
  by (auto simp: then_start_ok want_passphrase_def gpgme_engine_set_command_handler_def launch_def Let_def
      gpgme_engine_set_status_handler_def upd_engine_def split: if_split_asm)

lemma started_launch:
  assumes "then_start (want_passphrase api wants c) (launch api h op) = Some (c', no_error)"
    and "c = c1\<lparr>ctx_op_data := hs\<rparr>" "Some (gpgme_op_reset api ctx ty nr) = Some (c1, no_error)"
  shows "started api h wants ty hs ctx c'"
proof -
  note r = reset_ok [OF assms(3)]
  obtain g where g: "ctx_engine c1 = Some g" "eng_loop g = Some (loop_for ty (ctx_user_loop ctx))" using r(5) by blast
  obtain g' where g': "c' = c\<lparr>ctx_engine := Some g'\<rparr>" "eng_loop g' = eng_loop g"
      "ea_set_status_handler api \<longrightarrow> eng_handler g' = Some h" "wants \<and> ctx_passphrase_cb c \<noteq> None \<longrightarrow> eng_command_handler g'"
    using launch_ok [OF assms(1), of g] g(1) assms(2) by auto
  have "only_op c1 c'" unfolding g'(1) assms(2) by (simp add: only_op_def)
  then have "only_op ctx c'" using r(1) only_op_trans by blast
  then show ?thesis
    using g' g(2) r assms(2) only_op_fields [OF r(1)] by (simp add: started_def)
qed

lemma lookup_new:
  "get_hook i c = None \<Longrightarrow> gpgme_op_data_lookup env (Some c) i 1 =
     (if core env ''op_data'' then (Some (c\<lparr>ctx_op_data := zero_hook i # ctx_op_data c\<rparr>), Some (zero_hook i), no_error)
      else (Some c, None, syserror ENOMEM))"
  by (simp add: gpgme_op_data_lookup_def get_hook_def)

lemma sign_init_fresh:
  assumes "sign_init_result env c b = Some (c2, no_error)" "get_hook OPDATA_SIGN c = None"
  shows "c2 = c\<lparr>ctx_op_data := HSign (zero_sign\<lparr>sg_ignore_inv_recp := b\<rparr>) # ctx_op_data c\<rparr>"
  using assms(1) unfolding sign_init_result_def lookup_new [OF assms(2)]
  by (auto simp: put_hook_def zero_sign_def split: if_split_asm)

lemma lookup_init_fresh:
  assumes "(case gpgme_op_data_lookup env (Some c) i 1 of (Some c1, _, e) \<Rightarrow> Some (c1, e) | _ \<Rightarrow> None) = Some (c2, no_error)"
    and "get_hook i c = None"
  shows "c2 = c\<lparr>ctx_op_data := zero_hook i # ctx_op_data c\<rparr>"
  using assms(1) unfolding lookup_new [OF assms(2)] by (auto split: if_split_asm)

lemma pair_init_fresh:
  assumes "(case gpgme_op_data_lookup env (Some c) i 1 of (Some c1, _, e) \<Rightarrow> (c1, e) | (None, _, e) \<Rightarrow> (c, e)) = (c2, no_error)"
    and "get_hook i c = None"
  shows "c2 = c\<lparr>ctx_op_data := zero_hook i # ctx_op_data c\<rparr>"
  using assms(1) unfolding lookup_new [OF assms(2)] by (auto split: if_split_asm)

lemma get_key_parameter_err [simp]: "get_key_parameter p \<noteq> Err no_error" "get_key_parameter p \<noteq> UB"
  by (simp_all add: get_key_parameter_def Let_def split: option.split prod.split)

lemma get_hook_fresh: "ctx_op_data c = [] \<Longrightarrow> get_hook i c = None"
  by (simp add: get_hook_def)

lemma sign_started:
  assumes "sign_start env api ctx ty plain sig mode = Some (c, no_error)"
  shows "started api SignHandler True ty [HSign (zero_sign\<lparr>sg_ignore_inv_recp := ctx_protocol ctx = GPGME_PROTOCOL_CMS\<rparr>)] ctx c"
proof -
  obtain c1 c2 where c1: "Some (gpgme_op_reset api ctx ty False) = Some (c1, no_error)"
    and c2: "sign_init_result env c1 (ctx_protocol c1 = GPGME_PROTOCOL_CMS) = Some (c2, no_error)"
    and l: "then_start (want_passphrase api True c2) (launch api SignHandler OpSign) = Some (c, no_error)"
    using assms by (auto simp: sign_start_def then_start_ok split: if_split_asm)
  note r = reset_ok [OF c1]
  have "c2 = c1\<lparr>ctx_op_data := [HSign (zero_sign\<lparr>sg_ignore_inv_recp := ctx_protocol ctx = GPGME_PROTOCOL_CMS\<rparr>)]\<rparr>"
    using sign_init_fresh [OF c2 get_hook_fresh [OF r(2)]] r(2) only_op_fields(1) [OF r(1)] by simp
  from started_launch [OF l this c1] show ?thesis .
qed

lemma encrypt_started:
  assumes "encrypt_start env api ctx ty recp recpstring sf plain cipher = Some (c, no_error)"
  shows "started api (if recp = None \<and> \<not> recpstring \<or> sf then EncryptSymHandler else EncryptHandler)
     (recp = None \<and> \<not> recpstring \<or> sf) ty [HEncrypt zero_encrypt] ctx c"
proof -
  let ?sym = "recp = None \<and> \<not> recpstring \<or> sf"
  obtain c1 c2 where c1: "Some (gpgme_op_reset api ctx ty False) = Some (c1, no_error)"
    and c2: "gpgme_op_encrypt_init_result env c1 = (c2, no_error)"
    and l: "then_start (want_passphrase api ?sym c2)
        (launch api (if ?sym then EncryptSymHandler else EncryptHandler) OpEncrypt) = Some (c, no_error)"
    using assms by (fastforce simp: encrypt_start_def then_start_ok Let_def split: if_split_asm)
  note r = reset_ok [OF c1]
  have "c2 = c1\<lparr>ctx_op_data := [HEncrypt zero_encrypt]\<rparr>"
    using pair_init_fresh [OF c2 [unfolded gpgme_op_encrypt_init_result_def] get_hook_fresh [OF r(2)]] r(2) by simp
  from started_launch [OF l this c1] show ?thesis .
qed

lemma encrypt_sign_started:
  assumes "encrypt_sign_start env api ctx ty recp recpstring sf plain cipher = Some (c, no_error)"
  shows "started api (if recp = None \<and> \<not> recpstring \<or> sf then EncryptSignSymHandler else EncryptSignHandler)
     True ty [HSign zero_sign, HEncrypt zero_encrypt] ctx c"
proof -
  let ?sym = "recp = None \<and> \<not> recpstring \<or> sf"
  obtain c1 c2 c3 where c1: "Some (gpgme_op_reset api ctx ty False) = Some (c1, no_error)"
    and c2: "gpgme_op_encrypt_init_result env c1 = (c2, no_error)"
    and c3: "gpgme_op_sign_init_result env c2 = Some (c3, no_error)"
    and l: "then_start (want_passphrase api True c3)
        (launch api (if ?sym then EncryptSignSymHandler else EncryptSignHandler) OpEncryptSign) = Some (c, no_error)"
    using assms by (fastforce simp: encrypt_sign_start_def then_start_ok Let_def split: if_split_asm)
  note r = reset_ok [OF c1]
  have 2: "c2 = c1\<lparr>ctx_op_data := [HEncrypt zero_encrypt]\<rparr>"
    using pair_init_fresh [OF c2 [unfolded gpgme_op_encrypt_init_result_def] get_hook_fresh [OF r(2)]] r(2) by simp
  then have "get_hook OPDATA_SIGN c2 = None" by (simp add: op_find_Cons)
  from sign_init_fresh [OF c3 [unfolded gpgme_op_sign_init_result_def] this] 2
  have "c3 = c1\<lparr>ctx_op_data := [HSign zero_sign, HEncrypt zero_encrypt]\<rparr>" by (simp add: zero_sign_def)
  from started_launch [OF l this c1] show ?thesis .
qed

text \<open>The operations that set the handler before the engine's other settings.\<close>

lemma started_plain:
  assumes "c = c1\<lparr>ctx_op_data := hs\<rparr>" "Some (gpgme_op_reset api ctx ty nr) = Some (c1, no_error)"
    and "then_start (want_passphrase api wants (gpgme_engine_set_status_handler api h c))
          (\<lambda>c. Some (c, gpgme_engine_op api op c)) = Some (c', no_error)"
  shows "started api h wants ty hs ctx c'"
proof -
  note r = reset_ok [OF assms(2)]
  obtain g where g: "ctx_engine c1 = Some g" "eng_loop g = Some (loop_for ty (ctx_user_loop ctx))" using r(5) by blast
  obtain g' where g': "c' = c\<lparr>ctx_engine := Some g'\<rparr>" "eng_loop g' = eng_loop g"
      "ea_set_status_handler api \<longrightarrow> eng_handler g' = Some h" "wants \<and> ctx_passphrase_cb c \<noteq> None \<longrightarrow> eng_command_handler g'"
    using assms(1,3) g(1)
    by (auto simp: then_start_ok want_passphrase_def gpgme_engine_set_command_handler_def Let_def
        gpgme_engine_set_status_handler_def upd_engine_def split: if_split_asm)
  have "only_op c1 c'" unfolding g'(1) assms(1) by (simp add: only_op_def)
  then have "only_op ctx c'" using r(1) only_op_trans by blast
  then show ?thesis using g' g(2) r assms(1) only_op_fields [OF r(1)] by (simp add: started_def)
qed

lemma no_passphrase: "then_start (want_passphrase api False c) f = f c"
  by (simp add: want_passphrase_def then_start_def)

lemma verify_started:
  assumes "verify_start env api ctx ty sig = Some (c, no_error)"
  shows "started api VerifyHandler False ty [HVerify zero_verify] ctx c"
proof -
  obtain c1 c2 where c1: "Some (gpgme_op_reset api ctx ty False) = Some (c1, no_error)"
    and c2: "gpgme_op_verify_init_result env c1 = (c2, no_error)"
    and l: "then_start (want_passphrase api False (gpgme_engine_set_status_handler api VerifyHandler c2))
        (\<lambda>c. Some (c, gpgme_engine_op api OpVerify c)) = Some (c, no_error)"
    using assms by (auto simp: verify_start_def then_start_ok Let_def no_passphrase split: if_split_asm)
  note r = reset_ok [OF c1]
  have "c2 = c1\<lparr>ctx_op_data := [HVerify zero_verify]\<rparr>"
    using pair_init_fresh [OF c2 [unfolded gpgme_op_verify_init_result_def] get_hook_fresh [OF r(2)]] r(2) by simp
  from started_plain [OF this c1 l] show ?thesis .
qed

lemma import_started:
  assumes "gpgme_op_import_start_priv env api ctx ty keydata = Some (c, no_error)"
  shows "started api ImportHandler False ty [HImport zero_import] ctx c"
proof -
  obtain c1 c2 where c1: "Some (gpgme_op_reset api ctx ty False) = Some (c1, no_error)"
    and c2: "import_init env c1 = Some (c2, no_error)"
    and l: "then_start (want_passphrase api False c2) (launch api ImportHandler OpImport) = Some (c, no_error)"
    using assms by (auto simp: gpgme_op_import_start_priv_def then_start_ok no_passphrase split: if_split_asm)
  note r = reset_ok [OF c1]
  have "c2 = c1\<lparr>ctx_op_data := [HImport zero_import]\<rparr>"
    using lookup_init_fresh [OF c2 [unfolded import_init_def] get_hook_fresh [OF r(2)]] r(2) by simp
  from started_launch [OF l this c1] show ?thesis .
qed

lemma genkey_started:
  assumes "genkey_start env api ctx ty parms = Some (c, no_error)"
  shows "started api GenkeyHandler True ty [HGenkey zero_genkey] ctx c \<and> (\<exists>p t. parms = Some p \<and> get_key_parameter p = Ok t)"
proof -
  let ?f = "\<lambda>c2. case parms of None \<Rightarrow> None | Some p \<Rightarrow> (case get_key_parameter p of
      Ok _ \<Rightarrow> if core env ''key_parameter'' then genkey_launch api c2 else Some (c2, syserror ENOMEM)
    | Err e \<Rightarrow> Some (c2, e) | UB \<Rightarrow> None)"
  obtain c1 c2 where c1: "Some (gpgme_op_reset api ctx ty False) = Some (c1, no_error)"
    and c2: "genkey_init env c1 = Some (c2, no_error)" and f: "?f c2 = Some (c, no_error)"
    using assms unfolding genkey_start_def then_start_ok by blast
  obtain p where p: "parms = Some p" using f by (cases parms) auto
  then have l: "genkey_launch api c2 = Some (c, no_error)" "\<exists>p t. parms = Some p \<and> get_key_parameter p = Ok t"
    using f get_key_parameter_err [of p] by (cases "get_key_parameter p"; simp split: if_split_asm)+
  note r = reset_ok [OF c1]
  have "c2 = c1\<lparr>ctx_op_data := [HGenkey zero_genkey]\<rparr>"
    using lookup_init_fresh [OF c2 [unfolded genkey_init_def] get_hook_fresh [OF r(2)]] r(2) by simp
  from started_plain [OF this c1 l(1) [unfolded genkey_launch_def]] l(2) show ?thesis by blast
qed

section \<open>Well-typed contexts\<close>

definition keeps_ok :: "gpgme_ctx handler \<Rightarrow> bool" where
  "keeps_ok h \<longleftrightarrow> (\<forall>s c a s' a' e. ctx_ok s \<longrightarrow> h s c a = Some (s', a', e) \<longrightarrow> ctx_ok s')"

lemma keeps_okD: "keeps_ok h \<Longrightarrow> ctx_ok s \<Longrightarrow> h s c a = Some (s', a', e) \<Longrightarrow> ctx_ok s'"
  unfolding keeps_ok_def by blast

lemma keeps_ok_then:
  assumes "keeps_ok h1" "keeps_ok h2"
  shows "keeps_ok (then_handler h1 h2)"
proof -
  have "ctx_ok s'" if s: "ctx_ok s" and h: "then_handler h1 h2 s c a = Some (s', a', e)" for s c a s' a' e
  proof -
    obtain s1 a1 e1 where 1: "h1 s c a = Some (s1, a1, e1)"
      using h by (auto simp: then_handler_def split: option.splits)
    then show ?thesis
      using h keeps_okD [OF assms(1) s 1] keeps_okD [OF assms(2), of s1 c a1 s' a' e]
      by (simp add: then_handler_def split: if_split_asm)
  qed
  then show ?thesis unfolding keeps_ok_def by blast
qed

lemma keeps_ok_keeps: "(\<And>s c a s' a' e. h s c a = Some (s', a', e) \<Longrightarrow> \<exists>I. ctx_keeps I s s') \<Longrightarrow> keeps_ok h"
  by (fastforce simp: keeps_ok_def ctx_keeps_def)

lemma own_handlers_keep_ok:
  shows "keeps_ok (gpgme_progress_status_handler env)" "keeps_ok (gpgme_passphrase_status_handler env)"
    "keeps_ok (gpgme_encrypt_status_handler env)" "keeps_ok (gpgme_sign_status_handler env)"
    "keeps_ok (gpgme_verify_status_handler env)" "keeps_ok (import_status_handler env)" "keeps_ok (genkey_own_handler env)"
proof -
  show "keeps_ok (gpgme_progress_status_handler env)" using progress_handler_keeps by (blast intro: keeps_ok_keeps)
  show "keeps_ok (gpgme_passphrase_status_handler env)" using passphrase_handler_keeps by (blast intro: keeps_ok_keeps)
  show "keeps_ok (gpgme_encrypt_status_handler env)" using encrypt_own_keeps by (blast intro: keeps_ok_keeps)
  show "keeps_ok (gpgme_sign_status_handler env)" using sign_handler_keeps by (blast intro: keeps_ok_keeps)
  show "keeps_ok (gpgme_verify_status_handler env)"
    by (auto simp: keeps_ok_def gpgme_verify_status_handler_def ctx_ok_put split: option.splits op_hook.splits)
  show "keeps_ok (import_status_handler env)"
    by (auto simp: keeps_ok_def import_status_handler_def import_switch_def ctx_ok_put
        split: option.splits op_hook.splits if_split_asm prod.splits cres.splits)
  have cb: "ctx_ok c \<Longrightarrow> call_status_cb c k a = (c', e) \<Longrightarrow> ctx_ok c'" for c c' k a e
    using keeps_cb [of c k a c' e "{}"] by (simp add: ctx_keeps_def)
  have "ctx_ok c'" if "ctx_ok c" "genkey_switch env c d code a = Some (c', a', e)" for c c' d code a a' e
    using that unfolding genkey_switch_def
    by (auto simp: ctx_ok_put split: if_split_asm prod.splits option.splits dest: cb)
  then show "keeps_ok (genkey_own_handler env)"
    by (auto simp: keeps_ok_def genkey_own_handler_def split: option.splits op_hook.splits)
qed

definition ctx_handlers :: "op_env \<Rightarrow> handler_id \<Rightarrow> gpgme_ctx handler option" where
  "ctx_handlers env h = (case h of
     VerifyHandler \<Rightarrow> Some (verify_status_handler env) | SignHandler \<Rightarrow> Some (sign_status_handler env)
   | EncryptHandler \<Rightarrow> Some (encrypt_status_handler env) | EncryptSymHandler \<Rightarrow> Some (encrypt_sym_status_handler env)
   | EncryptSignHandler \<Rightarrow> Some (encrypt_sign_status_handler env)
   | EncryptSignSymHandler \<Rightarrow> Some (encrypt_sign_sym_status_handler env)
   | ImportHandler \<Rightarrow> Some (import_status_handler env) | GenkeyHandler \<Rightarrow> Some (genkey_status_handler env)
   | _ \<Rightarrow> None)"

lemma ctx_handlers_keep_ok: "ctx_handlers env i = Some h \<Longrightarrow> keeps_ok h"
  by (cases i) (auto simp: ctx_handlers_def verify_status_handler_def sign_status_handler_def encrypt_status_handler_def
      encrypt_sym_status_handler_def encrypt_sign_status_handler_def encrypt_sign_sym_status_handler_def
      genkey_status_handler_def intro!: keeps_ok_then own_handlers_keep_ok)

section \<open>Properties\<close>



text \<open>
  C10: Starting an operation leaves nothing of earlier ones. When a start function succeeds, from
  any context whatever was done with it before, the context holds the zeroed data of this
  operation and nothing else, is not cancelled, has its settings unchanged, and has an engine
  that reports to the event loop for the kind of call, feeds the status handler of this
  operation, and asks the application for passphrases where the operation needs one and the
  application gave a callback. An encryption gets the symmetric handler exactly if there are no
  recipients or the symmetric flag is set.
\<close>

theorem start_is_fresh:
  "(sign_start env api ctx ty plain sig mode = Some (c, no_error) \<longrightarrow>
      started api SignHandler True ty [HSign (zero_sign\<lparr>sg_ignore_inv_recp := ctx_protocol ctx = GPGME_PROTOCOL_CMS\<rparr>)] ctx c)
   \<and> (encrypt_start env api ctx ty recp recpstring sf plain cipher = Some (c, no_error) \<longrightarrow>
      started api (if recp = None \<and> \<not> recpstring \<or> sf then EncryptSymHandler else EncryptHandler)
        (recp = None \<and> \<not> recpstring \<or> sf) ty [HEncrypt zero_encrypt] ctx c)
   \<and> (encrypt_sign_start env api ctx ty recp recpstring sf plain cipher = Some (c, no_error) \<longrightarrow>
      started api (if recp = None \<and> \<not> recpstring \<or> sf then EncryptSignSymHandler else EncryptSignHandler)
        True ty [HSign zero_sign, HEncrypt zero_encrypt] ctx c)
   \<and> (verify_start env api ctx ty sig = Some (c, no_error) \<longrightarrow>
      started api VerifyHandler False ty [HVerify zero_verify] ctx c)
   \<and> (gpgme_op_import_start_priv env api ctx ty keydata = Some (c, no_error) \<longrightarrow>
      started api ImportHandler False ty [HImport zero_import] ctx c)
   \<and> (genkey_start env api ctx ty parms = Some (c, no_error) \<longrightarrow>
      started api GenkeyHandler True ty [HGenkey zero_genkey] ctx c)"
  by (intro conjI impI; (erule sign_started | erule encrypt_started | erule encrypt_sign_started
      | erule verify_started | erule import_started | erule genkey_started [THEN conjunct1]))

definition sample_api :: engine_api where
  "sample_api = \<lparr>ea_new = (\<lambda>_. no_error), ea_reset = None, ea_set_locale = Some (\<lambda>_. no_error),
     ea_set_pinentry_mode = None, ea_set_protocol = None, ea_set_status_cb = True, ea_set_status_handler = True,
     ea_set_command_handler = Some no_error,
     ea_set_colon_line_handler = Some no_error, ea_op = (\<lambda>_. Some no_error)\<rparr>"

theorem start_is_fresh_witness:
  "\<exists>c. sign_start sample_env sample_api (dec_sample_ctx\<lparr>ctx_canceled := True\<rparr>) 1 True True (Some GPGME_SIG_MODE_CLEAR)
      = Some (c, no_error)
    \<and> started sample_api SignHandler True 1 [HSign (zero_sign\<lparr>sg_ignore_inv_recp := False\<rparr>)]
        (dec_sample_ctx\<lparr>ctx_canceled := True\<rparr>) c"
proof -
  let ?ctx = "dec_sample_ctx\<lparr>ctx_canceled := True\<rparr>"
  have "map_option snd (sign_start sample_env sample_api ?ctx 1 True True (Some GPGME_SIG_MODE_CLEAR)) = Some no_error"
    by code_simp
  then obtain c where c: "sign_start sample_env sample_api ?ctx 1 True True (Some GPGME_SIG_MODE_CLEAR) = Some (c, no_error)"
    by auto
  have "ctx_protocol ?ctx \<noteq> GPGME_PROTOCOL_CMS" by (simp add: dec_sample_ctx_def sample_ctx_def)
  then show ?thesis
    using c start_is_fresh [of sample_env sample_api ?ctx 1 True True "Some GPGME_SIG_MODE_CLEAR" c] by auto
qed

text \<open>
  C4: A whole signing operation, from any context whatever was done with it before: if it
  starts and the handler accepts the lines of the engine up to its end, \<open>gpgme_op_sign\<close> returns,
  in this order: a bad passphrase if the engine's last word on it was a refusal; an unusable
  key if any signer was refused; success if a signature was announced (or the protocol
  announces none); else the code of the last FAILURE line or a general error. So a failure
  that is reported behind the first signature does not show in the return value.
\<close>

theorem sign_operation_outcome:
  assumes "sign_start env api ctx 1 plain sig mode = Some (c1, no_error)"
    and "feed (sign_status_handler env) c1 ls = Some (c2, no_error)"
    and "\<forall>l\<in>set ls. fst l \<noteq> GPGME_STATUS_EOF" "core env ''op_data''"
  shows "\<exists>ctx2. gpgme_op_sign env api (Some ctx) plain sig mode (ls @ [(GPGME_STATUS_EOF, a)]) = Some (Some ctx2,
     if pp_refused ls False then gpg_error GPG_ERR_BAD_PASSPHRASE
     else if GPGME_STATUS_INV_RECP \<in> fst ` set ls \<or> GPGME_STATUS_INV_SGNR \<in> fst ` set ls
     then gpg_error GPG_ERR_UNUSABLE_SECKEY
     else if GPGME_STATUS_SIG_CREATED \<in> fst ` set ls \<or> ctx_protocol ctx = GPGME_PROTOCOL_UISERVER then no_error
     else if is_err (failure_after env ls no_error) then failure_after env ls no_error
     else gpg_error GPG_ERR_GENERAL)"
proof -
  note st = sign_started [OF assms(1)]
  have d: "ctx_op_data c1 = [HSign (zero_sign\<lparr>sg_ignore_inv_recp := ctx_protocol ctx = GPGME_PROTOCOL_CMS\<rparr>)]"
      "ctx_protocol c1 = ctx_protocol ctx"
    using st only_op_fields(1) by (auto simp: started_def)
  then have "get_hook OPDATA_SIGN c1 = Some (HSign (zero_sign\<lparr>sg_ignore_inv_recp := ctx_protocol ctx = GPGME_PROTOCOL_CMS\<rparr>))"
      "get_hook OPDATA_PASSPHRASE c1 = None" "ctx_ok c1"
    by (simp_all add: get_hook_def op_find_Cons ctx_ok_def hooks_ok_def)
  note out = sign_outcome [OF assms(2) this assms(3,4), of a, unfolded d(2)]
  have "gpgme_op_sign env api (Some ctx) plain sig mode ls1 = map_option (apfst Some) (feed (sign_status_handler env) c1 ls1)" for ls1
    using assms(1) by (simp add: gpgme_op_sign_def entry_sync_def then_start_def)
  then show ?thesis using out by (elim exE) (simp only: option.map apfst_conv, blast)
qed

theorem sign_operation_outcome_witness:
  "\<exists>ctx2. gpgme_op_sign sample_env sample_api (Some dec_sample_ctx) True True (Some GPGME_SIG_MODE_DETACH)
      ([(GPGME_STATUS_GOOD_PASSPHRASE, []), (GPGME_STATUS_SIG_CREATED, ''D 1 8 00 1500000000 ABCD''),
        (GPGME_STATUS_FAILURE, ''sign 99'')] @ [(GPGME_STATUS_EOF, [])]) = Some (Some ctx2, no_error)"
proof -
  let ?s = "sign_start sample_env sample_api dec_sample_ctx 1 True True (Some GPGME_SIG_MODE_DETACH)"
  let ?ls = "[(GPGME_STATUS_GOOD_PASSPHRASE, []), (GPGME_STATUS_SIG_CREATED, ''D 1 8 00 1500000000 ABCD''),
        (GPGME_STATUS_FAILURE, ''sign 99'')]"
  have "(case ?s of Some (c, e) \<Rightarrow> e = no_error
      \<and> map_option snd (feed (sign_status_handler sample_env) c ?ls) = Some no_error | None \<Rightarrow> False)" by code_simp
  then obtain c1 c2 where c: "?s = Some (c1, no_error)" "feed (sign_status_handler sample_env) c1 ?ls = Some (c2, no_error)"
    by (auto split: option.splits prod.splits)
  from sign_operation_outcome [OF c, of "[]"] show ?thesis by (simp add: pp_refused_def)
qed

text \<open>The asynchronous key generation can not be used: every parameter text is turned away, and none is needed to crash.\<close>

lemma genkey_start_unusable:
  "gpgme_op_genkey_start env api (Some ctx) (Some p) = Some (Some ctx, gpg_error GPG_ERR_INV_ARG)"
  "genkey_start env api ctx ty None \<noteq> Some (c, no_error)"
  using genkey_started [of env api ctx ty None c] by (auto simp: gpgme_op_genkey_start_def)

end
