(* ===== verification/Gpgme_Context.thy ===== *)
theory Gpgme_Context
  imports Gpgme_Start
begin

text \<open>
  Contexts as the application sees them (\<open>gpgme.c\<close>, \<open>signers.c\<close>): creation, cancellation, the
  settings with their getters, the named flags, the locale, the signature notations and the
  array of signers with the reference counts of its keys, and the names of algorithms and
  protocols.

  \<open>gpgme_ctx\<close> holds the members of the C structure that operations use while they run; the
  record here adds the settings that are only passed on to the engine.
\<close>

section \<open>Contexts\<close>

datatype gpgme_pinentry_mode_t =
    GPGME_PINENTRY_MODE_DEFAULT | GPGME_PINENTRY_MODE_ASK | GPGME_PINENTRY_MODE_CANCEL
  | GPGME_PINENTRY_MODE_ERROR | GPGME_PINENTRY_MODE_LOOPBACK

record gpgme_context =
  cx :: gpgme_ctx
  cx_use_armor :: bool
  cx_use_textmode :: bool
  cx_offline :: bool
  cx_include_certs :: int
  cx_pinentry_mode :: gpgme_pinentry_mode_t
  cx_export_session_keys :: bool
  cx_auto_key_retrieve :: bool
  cx_no_symkey_cache :: bool
  cx_override_session_key :: "string option"
  cx_request_origin :: "string option"
  cx_auto_key_locate :: "string option"
  cx_trust_model :: "string option"
  cx_sender :: "string option"
  cx_lc_ctype :: "string option"
  cx_lc_messages :: "string option"
  cx_sig_notations :: "sig_notation list"
  cx_signers :: "nat option list"

text \<open>The static variables: result of the self-test, known engines and default locale.\<close>

record gpgme_globals =
  g_selftest :: gpgme_error_t
  g_engine_info :: "gpgme_protocol_t list"
  g_lc_ctype :: "string option"
  g_lc_messages :: "string option"

definition gpgme_engine_info_copy :: "op_env \<Rightarrow> gpgme_globals \<Rightarrow> gpgme_protocol_t list cres" where
  "gpgme_engine_info_copy env g =
     (if g_engine_info g \<noteq> [] \<and> \<not> core env ''engine_info'' then Err (syserror ENOMEM) else Ok (g_engine_info g))"

definition new_ctx :: "gpgme_protocol_t list \<Rightarrow> gpgme_ctx" where
  "new_ctx info =
     \<lparr>ctx_protocol = GPGME_PROTOCOL_OpenPGP, ctx_full_status = False, ctx_raw_description = False,
      ctx_ignore_mdc_error = False, ctx_redraw_suggested = False, ctx_status_cb = None,
      ctx_progress_cb = False, ctx_passphrase_cb = None, ctx_signers_len = 0, ctx_canceled = False,
      ctx_engine = None, ctx_engine_info = info, ctx_sub_protocol = GPGME_PROTOCOL_DEFAULT,
      ctx_user_loop = False, ctx_keylist_mode = 1, ctx_op_data = [], ctx_events = []\<rparr>"

abbreviation GPGME_INCLUDE_CERTS_DEFAULT :: int where "GPGME_INCLUDE_CERTS_DEFAULT \<equiv> - 256"

definition gpgme_new :: "op_env \<Rightarrow> gpgme_globals \<Rightarrow> bool \<Rightarrow> gpgme_context cres" where
  "gpgme_new env g r_ctx =
     (if is_err (g_selftest g) then Err (g_selftest g)
      else if \<not> r_ctx then Err (gpg_error GPG_ERR_INV_VALUE)
      else if \<not> core env ''context'' then Err (syserror ENOMEM)
      else case gpgme_engine_info_copy env g of
        UB \<Rightarrow> UB
      | Err e \<Rightarrow> Err e
      | Ok info \<Rightarrow>
          if info = [] then Err (gpg_error GPG_ERR_NO_ENGINE)
          else if g_lc_ctype g \<noteq> None \<and> \<not> core env ''lc_ctype'' then Err (syserror ENOMEM)
          else if g_lc_messages g \<noteq> None \<and> \<not> core env ''lc_messages'' then Err (syserror ENOMEM)
          else Ok \<lparr>cx = new_ctx info, cx_use_armor = False, cx_use_textmode = False, cx_offline = False,
                 cx_include_certs = GPGME_INCLUDE_CERTS_DEFAULT,
                 cx_pinentry_mode = GPGME_PINENTRY_MODE_DEFAULT, cx_export_session_keys = False,
                 cx_auto_key_retrieve = False, cx_no_symkey_cache = False,
                 cx_override_session_key = None, cx_request_origin = None, cx_auto_key_locate = None,
                 cx_trust_model = None, cx_sender = None, cx_lc_ctype = g_lc_ctype g,
                 cx_lc_messages = g_lc_messages g, cx_sig_notations = [], cx_signers = []\<rparr>)"

text \<open>\<open>upd_cx\<close> is a store to a member that \<open>gpgme_ctx\<close> holds.\<close>

definition upd_cx :: "(gpgme_ctx \<Rightarrow> gpgme_ctx) \<Rightarrow> gpgme_context \<Rightarrow> gpgme_context" where
  "upd_cx f c = c\<lparr>cx := f (cx c)\<rparr>"

type_synonym set_res = "gpgme_context option \<times> gpgme_error_t"

text \<open>Setters that report a missing context, and setters that ignore it.\<close>

definition checked_set :: "(gpgme_context \<Rightarrow> gpgme_context) \<Rightarrow> gpgme_context option \<Rightarrow> set_res" where
  "checked_set f c = (case c of None \<Rightarrow> (None, gpg_error GPG_ERR_INV_VALUE) | Some x \<Rightarrow> (Some (f x), no_error))"

definition silent_set :: "(gpgme_context \<Rightarrow> gpgme_context) \<Rightarrow> gpgme_context option \<Rightarrow> gpgme_context option" where
  "silent_set f c = map_option f c"

definition gpgme_cancel_async :: "gpgme_context option \<Rightarrow> set_res" where
  "gpgme_cancel_async = checked_set (upd_cx (\<lambda>x. x\<lparr>ctx_canceled := True\<rparr>))"

section \<open>Settings\<close>

definition gpgme_set_protocol :: "gpgme_context option \<Rightarrow> gpgme_protocol_t \<Rightarrow> set_res" where
  "gpgme_set_protocol c p =
     (if p = GPGME_PROTOCOL_DEFAULT \<or> p = GPGME_PROTOCOL_UNKNOWN then (c, gpg_error GPG_ERR_INV_VALUE)
      else checked_set (upd_cx (\<lambda>x. if ctx_protocol x \<noteq> p
             then x\<lparr>ctx_engine := None, ctx_protocol := p\<rparr> else x)) c)"

definition gpgme_get_protocol :: "gpgme_context \<Rightarrow> gpgme_protocol_t" where
  "gpgme_get_protocol c = ctx_protocol (cx c)"

definition gpgme_set_sub_protocol :: "gpgme_context option \<Rightarrow> gpgme_protocol_t \<Rightarrow> set_res" where
  "gpgme_set_sub_protocol c p = checked_set (upd_cx (\<lambda>x. x\<lparr>ctx_sub_protocol := p\<rparr>)) c"

definition gpgme_get_sub_protocol :: "gpgme_context \<Rightarrow> gpgme_protocol_t" where
  "gpgme_get_sub_protocol c = ctx_sub_protocol (cx c)"

definition gpgme_get_protocol_name :: "gpgme_protocol_t \<Rightarrow> string" where
  "gpgme_get_protocol_name p =
     (case p of
        GPGME_PROTOCOL_OpenPGP \<Rightarrow> ''OpenPGP'' | GPGME_PROTOCOL_CMS \<Rightarrow> ''CMS''
      | GPGME_PROTOCOL_GPGCONF \<Rightarrow> ''GPGCONF'' | GPGME_PROTOCOL_ASSUAN \<Rightarrow> ''Assuan''
      | GPGME_PROTOCOL_G13 \<Rightarrow> ''G13'' | GPGME_PROTOCOL_UISERVER \<Rightarrow> ''UIServer''
      | GPGME_PROTOCOL_SPAWN \<Rightarrow> ''Spawn'' | GPGME_PROTOCOL_DEFAULT \<Rightarrow> ''default''
      | GPGME_PROTOCOL_UNKNOWN \<Rightarrow> ''unknown'')"

definition gpgme_set_sender :: "op_env \<Rightarrow> gpgme_context option \<Rightarrow> string option \<Rightarrow> set_res cres" where
  "gpgme_set_sender env c address =
     (case c of
        None \<Rightarrow> Ok (None, gpg_error GPG_ERR_INV_VALUE)
      | Some x \<Rightarrow>
          (case address of
             None \<Rightarrow> Ok (Some (x\<lparr>cx_sender := None\<rparr>), no_error)
           | Some a \<Rightarrow>
               (case gpgme_mailbox_from_userid (core env ''address'') a of
                  UB \<Rightarrow> UB
                | Err e \<Rightarrow> Ok (Some x, gpg_error GPG_ERR_INV_VALUE)
                | Ok p \<Rightarrow> Ok (Some (x\<lparr>cx_sender := Some p\<rparr>), no_error))))"

definition gpgme_get_sender :: "gpgme_context \<Rightarrow> string option" where
  "gpgme_get_sender c = cx_sender c"

definition gpgme_set_armor :: "gpgme_context option \<Rightarrow> int \<Rightarrow> gpgme_context option" where
  "gpgme_set_armor c v = silent_set (\<lambda>x. x\<lparr>cx_use_armor := (v \<noteq> 0)\<rparr>) c"

definition gpgme_get_armor :: "gpgme_context \<Rightarrow> bool" where
  "gpgme_get_armor c = cx_use_armor c"

definition gpgme_set_textmode :: "gpgme_context option \<Rightarrow> int \<Rightarrow> gpgme_context option" where
  "gpgme_set_textmode c v = silent_set (\<lambda>x. x\<lparr>cx_use_textmode := (v \<noteq> 0)\<rparr>) c"

definition gpgme_get_textmode :: "gpgme_context \<Rightarrow> bool" where
  "gpgme_get_textmode c = cx_use_textmode c"

definition gpgme_set_offline :: "gpgme_context option \<Rightarrow> int \<Rightarrow> gpgme_context option" where
  "gpgme_set_offline c v = silent_set (\<lambda>x. x\<lparr>cx_offline := (v \<noteq> 0)\<rparr>) c"

definition gpgme_get_offline :: "gpgme_context \<Rightarrow> bool" where
  "gpgme_get_offline c = cx_offline c"

definition gpgme_set_include_certs :: "gpgme_context option \<Rightarrow> int \<Rightarrow> gpgme_context option" where
  "gpgme_set_include_certs c nr =
     silent_set (\<lambda>x. x\<lparr>cx_include_certs :=
       (if nr = GPGME_INCLUDE_CERTS_DEFAULT then GPGME_INCLUDE_CERTS_DEFAULT
        else if nr < - 2 then - 2 else nr)\<rparr>) c"

definition gpgme_get_include_certs :: "gpgme_context \<Rightarrow> int" where
  "gpgme_get_include_certs c = cx_include_certs c"

definition gpgme_set_keylist_mode :: "gpgme_context option \<Rightarrow> 32 word \<Rightarrow> set_res" where
  "gpgme_set_keylist_mode c m = checked_set (upd_cx (\<lambda>x. x\<lparr>ctx_keylist_mode := m\<rparr>)) c"

definition gpgme_get_keylist_mode :: "gpgme_context \<Rightarrow> 32 word" where
  "gpgme_get_keylist_mode c = ctx_keylist_mode (cx c)"

text \<open>\<open>None\<close> is a number that is no pinentry mode.\<close>

definition gpgme_set_pinentry_mode :: "gpgme_context option \<Rightarrow> gpgme_pinentry_mode_t option \<Rightarrow> set_res" where
  "gpgme_set_pinentry_mode c mode =
     (if c = None then (c, gpg_error GPG_ERR_INV_VALUE)
      else case mode of
        None \<Rightarrow> (c, gpg_error GPG_ERR_INV_VALUE)
      | Some m \<Rightarrow> checked_set (\<lambda>x. x\<lparr>cx_pinentry_mode := m\<rparr>) c)"

definition gpgme_get_pinentry_mode :: "gpgme_context \<Rightarrow> gpgme_pinentry_mode_t" where
  "gpgme_get_pinentry_mode c = cx_pinentry_mode c"

definition gpgme_set_passphrase_cb ::
    "gpgme_context option \<Rightarrow> (string option \<Rightarrow> string option \<Rightarrow> int \<Rightarrow> gpgme_error_t) option \<Rightarrow> gpgme_context option" where
  "gpgme_set_passphrase_cb c cb = silent_set (upd_cx (\<lambda>x. x\<lparr>ctx_passphrase_cb := cb\<rparr>)) c"

definition gpgme_set_progress_cb :: "gpgme_context option \<Rightarrow> bool \<Rightarrow> gpgme_context option" where
  "gpgme_set_progress_cb c cb = silent_set (upd_cx (\<lambda>x. x\<lparr>ctx_progress_cb := cb\<rparr>)) c"

definition gpgme_set_status_cb ::
    "gpgme_context option \<Rightarrow> (string \<Rightarrow> string \<Rightarrow> gpgme_error_t) option \<Rightarrow> gpgme_context option" where
  "gpgme_set_status_cb c cb = silent_set (upd_cx (\<lambda>x. x\<lparr>ctx_status_cb := cb\<rparr>)) c"

definition gpgme_get_status_cb :: "gpgme_context option \<Rightarrow> (string \<Rightarrow> string \<Rightarrow> gpgme_error_t) option" where
  "gpgme_get_status_cb c = (case c of None \<Rightarrow> None | Some x \<Rightarrow> ctx_status_cb (cx x))"

text \<open>Of the I/O callbacks it matters whether the application gave an \<open>add\<close> function.\<close>

definition gpgme_set_io_cbs :: "gpgme_context option \<Rightarrow> bool option \<Rightarrow> gpgme_context option" where
  "gpgme_set_io_cbs c io_cbs =
     silent_set (upd_cx (\<lambda>x. x\<lparr>ctx_user_loop := (case io_cbs of Some add \<Rightarrow> add | None \<Rightarrow> False)\<rparr>)) c"

section \<open>Named flags\<close>

text \<open>A flag that holds a copy of the value; without memory the old value is gone all the same.\<close>

definition store_copy ::
    "op_env \<Rightarrow> string \<Rightarrow> (string option \<Rightarrow> gpgme_context \<Rightarrow> gpgme_context) \<Rightarrow> string \<Rightarrow> gpgme_context \<Rightarrow>
     gpgme_context \<times> gpgme_error_t" where
  "store_copy env lbl upd v x =
     (if core env lbl then (upd (Some v) x, no_error) else (upd None x, syserror ENOMEM))"

definition set_flag :: "op_env \<Rightarrow> gpgme_context \<Rightarrow> string \<Rightarrow> string \<Rightarrow> gpgme_context \<times> gpgme_error_t" where
  "set_flag env x name v =
     (let abool = (v \<noteq> [] \<and> atoi v \<noteq> 0)
      in if name = ''redraw'' then (upd_cx (\<lambda>y. y\<lparr>ctx_redraw_suggested := abool\<rparr>) x, no_error)
         else if name = ''full-status'' then (upd_cx (\<lambda>y. y\<lparr>ctx_full_status := abool\<rparr>) x, no_error)
         else if name = ''raw-description'' then (upd_cx (\<lambda>y. y\<lparr>ctx_raw_description := abool\<rparr>) x, no_error)
         else if name = ''export-session-key'' then (x\<lparr>cx_export_session_keys := abool\<rparr>, no_error)
         else if name = ''override-session-key''
         then store_copy env ''override_session_key'' (\<lambda>o1 y. y\<lparr>cx_override_session_key := o1\<rparr>) v x
         else if name = ''auto-key-retrieve'' then (x\<lparr>cx_auto_key_retrieve := abool\<rparr>, no_error)
         else if name = ''request-origin''
         then store_copy env ''request_origin'' (\<lambda>o1 y. y\<lparr>cx_request_origin := o1\<rparr>) v x
         else if name = ''no-symkey-cache'' then (x\<lparr>cx_no_symkey_cache := abool\<rparr>, no_error)
         else if name = ''ignore-mdc-error'' then (upd_cx (\<lambda>y. y\<lparr>ctx_ignore_mdc_error := abool\<rparr>) x, no_error)
         else if name = ''auto-key-locate''
         then store_copy env ''auto_key_locate'' (\<lambda>o1 y. y\<lparr>cx_auto_key_locate := o1\<rparr>) v x
         else if name = ''trust-model''
         then store_copy env ''trust_model'' (\<lambda>o1 y. y\<lparr>cx_trust_model := o1\<rparr>) v x
         else (x, gpg_error GPG_ERR_UNKNOWN_NAME))"

definition gpgme_set_ctx_flag ::
    "op_env \<Rightarrow> gpgme_context option \<Rightarrow> string option \<Rightarrow> string option \<Rightarrow> set_res" where
  "gpgme_set_ctx_flag env c name v =
     (case (c, name, v) of
        (Some x, Some n, Some w) \<Rightarrow> apfst Some (set_flag env x n w)
      | _ \<Rightarrow> (c, gpg_error GPG_ERR_INV_VALUE))"

definition bool_flag :: "bool \<Rightarrow> string option" where
  "bool_flag b = Some (if b then ''1'' else [])"

definition text_flag :: "string option \<Rightarrow> string option" where
  "text_flag o1 = Some (case o1 of Some s \<Rightarrow> s | None \<Rightarrow> [])"

definition gpgme_get_ctx_flag :: "gpgme_context option \<Rightarrow> string option \<Rightarrow> string option" where
  "gpgme_get_ctx_flag c name =
     (case (c, name) of
        (Some x, Some n) \<Rightarrow>
          if n = ''redraw'' then bool_flag (ctx_redraw_suggested (cx x))
          else if n = ''full-status'' then bool_flag (ctx_full_status (cx x))
          else if n = ''raw-description'' then bool_flag (ctx_raw_description (cx x))
          else if n = ''export-session-key'' then bool_flag (cx_export_session_keys x)
          else if n = ''override-session-key'' then text_flag (cx_override_session_key x)
          else if n = ''auto-key-retrieve'' then bool_flag (cx_auto_key_retrieve x)
          else if n = ''request-origin'' then text_flag (cx_request_origin x)
          else if n = ''no-symkey-cache'' then bool_flag (cx_no_symkey_cache x)
          else if n = ''ignore-mdc-error'' then bool_flag (ctx_ignore_mdc_error (cx x))
          else if n = ''auto-key-locate'' then text_flag (cx_auto_key_locate x)
          else None
      | _ \<Rightarrow> None)"

section \<open>Locale\<close>

datatype lc_category = LC_ALL | LC_CTYPE | LC_MESSAGES | LC_OTHER

text \<open>Without a context the default locale is set. The copies are made before anything is changed.\<close>

definition gpgme_set_locale ::
    "op_env \<Rightarrow> gpgme_globals \<Rightarrow> gpgme_context option \<Rightarrow> lc_category \<Rightarrow> string option \<Rightarrow>
     gpgme_globals \<times> gpgme_context option \<times> gpgme_error_t" where
  "gpgme_set_locale env g c category v =
     (let ct = (category = LC_ALL \<or> category = LC_CTYPE);
          ms = (category = LC_ALL \<or> category = LC_MESSAGES)
      in if v \<noteq> None \<and> (ct \<and> \<not> core env ''lc_ctype'' \<or> ms \<and> \<not> core env ''lc_messages'')
         then (g, c, syserror ENOMEM)
         else case c of
           Some x \<Rightarrow>
             (g, Some (x\<lparr>cx_lc_ctype := (if ct then v else cx_lc_ctype x),
                         cx_lc_messages := (if ms then v else cx_lc_messages x)\<rparr>), no_error)
         | None \<Rightarrow>
             (g\<lparr>g_lc_ctype := (if ct then v else g_lc_ctype g),
                g_lc_messages := (if ms then v else g_lc_messages g)\<rparr>, None, no_error))"

section \<open>Signature notations\<close>

definition gpgme_sig_notation_clear :: "gpgme_context option \<Rightarrow> gpgme_context option" where
  "gpgme_sig_notation_clear = silent_set (\<lambda>x. x\<lparr>cx_sig_notations := []\<rparr>)"

text \<open>Bit 0 of the flags is \<open>GPGME_SIG_NOTATION_HUMAN_READABLE\<close>; it is forced.\<close>

definition gpgme_sig_notation_add ::
    "op_env \<Rightarrow> gpgme_context option \<Rightarrow> string option \<Rightarrow> string option \<Rightarrow> int \<Rightarrow> set_res cres" where
  "gpgme_sig_notation_add env c name val flags =
     (case c of
        None \<Rightarrow> Ok (None, gpg_error GPG_ERR_INV_VALUE)
      | Some x \<Rightarrow>
          (let fl = (if name \<noteq> None then 2 * (flags div 2) + 1 else 2 * (flags div 2))
           in case gpgme_sig_notation_create env name val fl of
                UB \<Rightarrow> UB
              | Err e \<Rightarrow> Ok (Some x, e)
              | Ok n \<Rightarrow> Ok (Some (x\<lparr>cx_sig_notations := cx_sig_notations x @ [n]\<rparr>), no_error)))"

definition gpgme_sig_notation_get :: "gpgme_context option \<Rightarrow> sig_notation list" where
  "gpgme_sig_notation_get c = (case c of None \<Rightarrow> [] | Some x \<Rightarrow> cx_sig_notations x)"

section \<open>Signers\<close>

text \<open>
  The keys are shared with the application: \<open>key_store\<close> maps the address of a key to the object,
  \<open>None\<close> when it has been released. The array of signers has \<open>signers_size\<close> elements, of which
  the first \<open>signers_len\<close> are used. \<open>None\<close> as a result is an access to a released key or a
  failed assertion.
\<close>

type_synonym key_store = "nat \<Rightarrow> gpgme_key option"

definition store_ref :: "key_store \<Rightarrow> nat \<Rightarrow> key_store option" where
  "store_ref ks a = (case ks a of None \<Rightarrow> None | Some k \<Rightarrow> Some (ks(a := Some (gpgme_key_ref k))))"

definition store_unref :: "key_store \<Rightarrow> nat \<Rightarrow> key_store option" where
  "store_unref ks a =
     (case ks a of
        None \<Rightarrow> None
      | Some k \<Rightarrow> (case gpgme_key_unref (Some k) of Ok k1 \<Rightarrow> Some (ks(a := k1)) | _ \<Rightarrow> None))"

definition upd_signers :: "nat \<Rightarrow> nat option list \<Rightarrow> gpgme_context \<Rightarrow> gpgme_context" where
  "upd_signers n arr x = (upd_cx (\<lambda>y. y\<lparr>ctx_signers_len := n\<rparr>) x)\<lparr>cx_signers := arr\<rparr>"

fun signers_clear_loop :: "key_store \<Rightarrow> nat option list \<Rightarrow> nat list \<Rightarrow> (key_store \<times> nat option list) option" where
  "signers_clear_loop ks arr [] = Some (ks, arr)"
| "signers_clear_loop ks arr (i # js) =
     (if length arr \<le> i then None
      else case arr ! i of
        None \<Rightarrow> None
      | Some a \<Rightarrow>
          (case store_unref ks a of
             None \<Rightarrow> None | Some ks1 \<Rightarrow> signers_clear_loop ks1 (arr[i := None]) js))"

definition gpgme_signers_clear :: "key_store \<Rightarrow> gpgme_context option \<Rightarrow> (key_store \<times> gpgme_context option) option" where
  "gpgme_signers_clear ks c =
     (case c of
        None \<Rightarrow> Some (ks, None)
      | Some x \<Rightarrow>
          if cx_signers x = [] then Some (ks, Some x)
          else (case signers_clear_loop ks (cx_signers x) [0..<ctx_signers_len (cx x)] of
                  None \<Rightarrow> None | Some (ks1, arr) \<Rightarrow> Some (ks1, Some (upd_signers 0 arr x))))"

definition grow_signers :: "op_env \<Rightarrow> gpgme_context \<Rightarrow> nat option list option" where
  "grow_signers env x =
     (if ctx_signers_len (cx x) \<noteq> length (cx_signers x) then Some (cx_signers x)
      else if core env ''signers'' then Some (cx_signers x @ replicate 5 None) else None)"

definition gpgme_signers_add ::
    "op_env \<Rightarrow> key_store \<Rightarrow> gpgme_context option \<Rightarrow> nat option \<Rightarrow>
     (key_store \<times> gpgme_context option \<times> gpgme_error_t) option" where
  "gpgme_signers_add env ks c key =
     (case (c, key) of
        (Some x, Some a) \<Rightarrow>
          (case grow_signers env x of
             None \<Rightarrow> Some (ks, c, syserror ENOMEM)
           | Some arr \<Rightarrow>
               let n = ctx_signers_len (cx x)
               in if length arr \<le> n then None
                  else case store_ref ks a of
                    None \<Rightarrow> None
                  | Some ks1 \<Rightarrow> Some (ks1, Some (upd_signers (n + 1) (arr[n := Some a]) x), no_error))
      | _ \<Rightarrow> Some (ks, c, gpg_error GPG_ERR_INV_VALUE))"

definition gpgme_signers_count :: "gpgme_context option \<Rightarrow> nat" where
  "gpgme_signers_count c = (case c of None \<Rightarrow> 0 | Some x \<Rightarrow> ctx_signers_len (cx x))"

text \<open>A null pointer among the used elements would be dereferenced by nothing: \<open>gpgme_key_ref\<close> would.\<close>

definition gpgme_signers_enum ::
    "key_store \<Rightarrow> gpgme_context option \<Rightarrow> int \<Rightarrow> (key_store \<times> nat option) option" where
  "gpgme_signers_enum ks c seq =
     (case c of
        None \<Rightarrow> Some (ks, None)
      | Some x \<Rightarrow>
          if seq < 0 \<or> int (ctx_signers_len (cx x)) \<le> seq then Some (ks, None)
          else if int (length (cx_signers x)) \<le> seq then None
          else case cx_signers x ! nat seq of
            None \<Rightarrow> None
          | Some a \<Rightarrow> (case store_ref ks a of None \<Rightarrow> None | Some ks1 \<Rightarrow> Some (ks1, Some a)))"

section \<open>Names of algorithms\<close>

definition pk_prefix :: "int \<Rightarrow> string option" where
  "pk_prefix a =
     (if a = 1 \<or> a = 2 \<or> a = 3 then Some ''rsa''
      else if a = 16 then Some ''elg''
      else if a = 17 then Some ''dsa''
      else if a = 20 then Some ''xxx''
      else if a = 18 \<or> a = GPGME_PK_ECDH \<or> a = GPGME_PK_ECDSA \<or> a = GPGME_PK_EDDSA then Some []
      else None)"

definition gpgme_pubkey_algo_string :: "op_env \<Rightarrow> subkey option \<Rightarrow> string cres" where
  "gpgme_pubkey_algo_string env s =
     (case s of
        None \<Rightarrow> Err (syserror EINVAL)
      | Some sk \<Rightarrow>
          if \<not> core env ''algo_string'' then Err (syserror ENOMEM)
          else Ok (case pk_prefix (sk_pubkey_algo sk) of
                     None \<Rightarrow> ''unknown''
                   | Some p \<Rightarrow>
                       if p \<noteq> [] then p @ show_nat (nat (sk_length sk mod 4294967296))
                       else (case sk_curve sk of
                               Some cv \<Rightarrow> if cv \<noteq> [] then cv else ''E_error''
                             | None \<Rightarrow> ''E_error'')))"

definition md_names :: "(int \<times> string) list" where
  "md_names = [(1, ''MD5''), (2, ''SHA1''), (3, ''RIPEMD160''), (5, ''MD2''), (6, ''TIGER192''), (7, ''HAVAL''),
     (8, ''SHA256''), (9, ''SHA384''), (10, ''SHA512''), (11, ''SHA224''), (301, ''MD4''), (302, ''CRC32''),
     (303, ''CRC32RFC1510''), (304, ''CRC24RFC2440'')]"

definition gpgme_hash_algo_name :: "int \<Rightarrow> string option" where
  "gpgme_hash_algo_name a = map_of md_names a"

section \<open>The array of signers is a list\<close>

definition signers_ok :: "gpgme_context \<Rightarrow> bool" where
  "signers_ok x \<longleftrightarrow>
     (let n = ctx_signers_len (cx x); arr = cx_signers x
      in n \<le> length arr \<and> (\<forall>i<n. arr ! i \<noteq> None) \<and> (\<forall>i<length arr. n \<le> i \<longrightarrow> arr ! i = None))"

definition signers_of :: "gpgme_context \<Rightarrow> nat list" where
  "signers_of x = map the (take (ctx_signers_len (cx x)) (cx_signers x))"

definition live_key :: "key_store \<Rightarrow> nat \<Rightarrow> bool" where
  "live_key ks a = (case ks a of None \<Rightarrow> False | Some k \<Rightarrow> 0 < key_refs k)"

text \<open>The store in which the keys of a list have one more reference for each time they occur.\<close>

definition with_refs :: "key_store \<Rightarrow> nat list \<Rightarrow> key_store" where
  "with_refs ks as a = map_option (\<lambda>k. k\<lparr>key_refs := key_refs k + count_list as a\<rparr>) (ks a)"

lemma with_refs_Nil [simp]: "with_refs ks [] = ks"
  by (rule ext) (simp add: with_refs_def map_option.id [unfolded id_def] split: option.splits)

lemma store_ref_with_refs:
  assumes "live_key ks a"
  shows "store_ref (with_refs ks as) a = Some (with_refs ks (as @ [a]))"
  using assms
  by (auto simp: live_key_def store_ref_def with_refs_def gpgme_key_ref_def fun_eq_iff count_list_append split: option.splits)

lemma store_unref_with_refs:
  assumes "live_key ks a"
  shows "store_unref (with_refs ks (a # as)) a = Some (with_refs ks as)"
  using assms
  by (auto simp: live_key_def store_unref_def with_refs_def gpgme_key_unref_def fun_eq_iff split: option.splits)

lemma signers_upd [simp]:
  "ctx_signers_len (cx (upd_signers n arr x)) = n" "cx_signers (upd_signers n arr x) = arr"
  by (simp_all add: upd_signers_def upd_cx_def)

lemma signers_of_upd:
  "signers_of (upd_signers n arr x) = map the (take n arr)"
  by (simp add: signers_of_def)

lemma grow_signers_ok:
  assumes "signers_ok x" and "grow_signers env x = Some arr"
  shows "ctx_signers_len (cx x) < length arr" and "take (ctx_signers_len (cx x)) arr = take (ctx_signers_len (cx x)) (cx_signers x)"
    and "\<forall>i<length arr. ctx_signers_len (cx x) \<le> i \<longrightarrow> arr ! i = None"
  using assms
  by (auto simp: grow_signers_def signers_ok_def Let_def nth_append split: if_split_asm)

lemma length_signers_of: "signers_ok x \<Longrightarrow> length (signers_of x) = ctx_signers_len (cx x)"
  by (simp add: signers_ok_def signers_of_def Let_def)

lemma signers_nth:
  assumes "signers_ok x" and "i < ctx_signers_len (cx x)"
  shows "cx_signers x ! i = Some (signers_of x ! i)"
  using assms by (auto simp: signers_ok_def signers_of_def Let_def)

text \<open>Adding a key appends it and takes one reference.\<close>

lemma signers_add_appends:
  assumes ok: "signers_ok x" and live: "live_key ks a" and mem: "core env ''signers''"
  shows "\<exists>x1. gpgme_signers_add env (with_refs ks as) (Some x) (Some a)
                 = Some (with_refs ks (as @ [a]), Some x1, no_error)
              \<and> signers_ok x1 \<and> signers_of x1 = signers_of x @ [a]"
proof -
  let ?n = "ctx_signers_len (cx x)"
  obtain arr where g: "grow_signers env x = Some arr"
    using mem by (cases "grow_signers env x") (auto simp: grow_signers_def split: if_split_asm)
  note h = grow_signers_ok [OF ok g]
  let ?x = "upd_signers (?n + 1) (arr[?n := Some a]) x"
  have "gpgme_signers_add env (with_refs ks as) (Some x) (Some a) = Some (with_refs ks (as @ [a]), Some ?x, no_error)"
    using g h(1) store_ref_with_refs [OF live, of as] by (simp add: gpgme_signers_add_def Let_def)
  moreover have "signers_ok ?x"
  proof -
    have "arr ! i \<noteq> None" if "i < ?n" for i
      using that ok arg_cong [OF h(2), of "\<lambda>l. l ! i"] by (simp add: signers_ok_def Let_def)
    then show ?thesis using h(1,3) by (auto simp: signers_ok_def Let_def nth_list_update less_Suc_eq)
  qed
  moreover have "signers_of ?x = signers_of x @ [a]"
    using h(1,2) by (simp add: signers_of_upd take_Suc_conv_app_nth) (simp add: signers_of_def)
  ultimately show ?thesis by blast
qed

lemma signers_clear_loop_run:
  assumes "\<forall>a\<in>set as. live_key ks a" and "m + length as \<le> length arr"
    and "\<forall>i<length as. arr ! (m + i) = Some (as ! i)"
  shows "\<exists>arr1. signers_clear_loop (with_refs ks as) arr [m..<m + length as] = Some (ks, arr1)
           \<and> length arr1 = length arr
           \<and> (\<forall>j<length arr. arr1 ! j = (if m \<le> j \<and> j < m + length as then None else arr ! j))"
  using assms
proof (induction as arbitrary: m arr)
  case Nil
  then show ?case by auto
next
  case (Cons a as)
  have hd: "arr ! m = Some a" "m < length arr" using Cons.prems(2,3) by (auto dest: spec [of _ 0])
  have "\<forall>i<length as. arr[m := None] ! (Suc m + i) = Some (as ! i)"
  proof (intro allI impI)
    fix i assume "i < length as"
    then show "arr[m := None] ! (Suc m + i) = Some (as ! i)" using Cons.prems(3)[rule_format, of "Suc i"] by simp
  qed
  then obtain arr1 where r: "signers_clear_loop (with_refs ks as) (arr[m := None]) [Suc m..<Suc m + length as] = Some (ks, arr1)"
    "length arr1 = length arr"
    "\<forall>j<length arr. arr1 ! j = (if Suc m \<le> j \<and> j < Suc m + length as then None else arr[m := None] ! j)"
    using Cons.IH [of "Suc m" "arr[m := None]"] Cons.prems(1,2) by auto
  have "[m..<m + length (a # as)] = m # [Suc m..<Suc m + length as]"
    by (subst upt_conv_Cons) simp_all
  then have "signers_clear_loop (with_refs ks (a # as)) arr [m..<m + length (a # as)] = Some (ks, arr1)"
    using r(1) hd store_unref_with_refs [of ks a as] Cons.prems(1) by simp
  moreover have "arr1 ! j = (if m \<le> j \<and> j < m + length (a # as) then None else arr ! j)" if "j < length arr" for j
    using r(3)[rule_format, OF that] hd(2) that by (auto simp: nth_list_update)
  ultimately show ?case using r(2) by blast
qed

lemma signers_clear_restores:
  assumes ok: "signers_ok x" and live: "\<forall>a\<in>set (signers_of x). live_key ks a"
  shows "\<exists>x1. gpgme_signers_clear (with_refs ks (signers_of x)) (Some x) = Some (ks, Some x1)
              \<and> signers_ok x1 \<and> signers_of x1 = []"
proof (cases "cx_signers x = []")
  case True
  then have "signers_of x = []" by (simp add: signers_of_def)
  then show ?thesis using True ok by (auto simp: gpgme_signers_clear_def)
next
  case False
  let ?n = "ctx_signers_len (cx x)"
  have n: "length (signers_of x) = ?n" "?n \<le> length (cx_signers x)"
    using length_signers_of [OF ok] ok by (simp_all add: signers_ok_def Let_def)
  obtain arr1 where r: "signers_clear_loop (with_refs ks (signers_of x)) (cx_signers x) [0..<?n] = Some (ks, arr1)"
    "length arr1 = length (cx_signers x)"
    "\<forall>j<length (cx_signers x). arr1 ! j = (if j < ?n then None else cx_signers x ! j)"
    using signers_clear_loop_run [OF live, of 0 "cx_signers x"] signers_nth [OF ok] n by auto
  have "gpgme_signers_clear (with_refs ks (signers_of x)) (Some x) = Some (ks, Some (upd_signers 0 arr1 x))"
    using False r(1) by (simp add: gpgme_signers_clear_def)
  moreover have "signers_ok (upd_signers 0 arr1 x)" "signers_of (upd_signers 0 arr1 x) = []"
    using r(2,3) ok by (auto simp: signers_ok_def signers_of_upd Let_def)
  ultimately show ?thesis by blast
qed

text \<open>Several keys added one after the other.\<close>

fun signers_add_all ::
    "op_env \<Rightarrow> key_store \<Rightarrow> gpgme_context \<Rightarrow> nat list \<Rightarrow> (key_store \<times> gpgme_context) option" where
  "signers_add_all env ks x [] = Some (ks, x)"
| "signers_add_all env ks x (a # as) =
     (case gpgme_signers_add env ks (Some x) (Some a) of
        Some (ks1, Some x1, e) \<Rightarrow> if is_err e then None else signers_add_all env ks1 x1 as
      | _ \<Rightarrow> None)"

lemma signers_add_all_run:
  assumes "signers_ok x" and "\<forall>a\<in>set as. live_key ks a" and "core env ''signers''"
  shows "\<exists>x1. signers_add_all env (with_refs ks bs) x as = Some (with_refs ks (bs @ as), x1)
              \<and> signers_ok x1 \<and> signers_of x1 = signers_of x @ as"
  using assms(1,2)
proof (induction as arbitrary: x bs)
  case Nil
  then show ?case by simp
next
  case (Cons a as)
  obtain x1 where x1: "gpgme_signers_add env (with_refs ks bs) (Some x) (Some a)
      = Some (with_refs ks (bs @ [a]), Some x1, no_error)" "signers_ok x1" "signers_of x1 = signers_of x @ [a]"
    using signers_add_appends [OF Cons.prems(1) _ assms(3), of ks a bs] Cons.prems(2) by auto
  obtain x2 where "signers_add_all env (with_refs ks (bs @ [a])) x1 as = Some (with_refs ks ((bs @ [a]) @ as), x2)"
    "signers_ok x2" "signers_of x2 = signers_of x1 @ as"
    using Cons.IH [OF x1(2), of "bs @ [a]"] Cons.prems(2) by auto
  then show ?case using x1 by simp
qed

text \<open>
  C32: the signers of a context are a list that owns references. Adding live keys to a context
  without signers succeeds whatever the size of the array; then the count is their number, the
  enumeration returns the keys in the order they were added, each key has gained exactly one
  reference for each time it was added, and clearing the list gives every reference back: the
  keys are exactly as they were.
\<close>

theorem signers_own_references:
  assumes "signers_ok x" and "signers_of x = []" and "\<forall>a\<in>set as. live_key ks a"
    and "core env ''signers''"
  shows "\<exists>ks1 x1. signers_add_all env ks x as = Some (ks1, x1)
           \<and> gpgme_signers_count (Some x1) = length as
           \<and> (\<forall>i<length as. \<exists>ks2. gpgme_signers_enum ks1 (Some x1) (int i) = Some (ks2, Some (as ! i)))
           \<and> gpgme_signers_enum ks1 (Some x1) (int (length as)) = Some (ks1, None)
           \<and> (\<forall>a k. ks a = Some k \<longrightarrow> map_option key_refs (ks1 a) = Some (key_refs k + count_list as a))
           \<and> (\<exists>x2. gpgme_signers_clear ks1 (Some x1) = Some (ks, Some x2) \<and> gpgme_signers_count (Some x2) = 0)"
proof -
  obtain x1 where r: "signers_add_all env ks x as = Some (with_refs ks as, x1)" "signers_ok x1" "signers_of x1 = as"
    using signers_add_all_run [OF assms(1,3,4), of "[]"] assms(2) by auto
  have n: "ctx_signers_len (cx x1) = length as" using length_signers_of [OF r(2)] r(3) by simp
  have len: "length as \<le> length (cx_signers x1)" using r(2) n by (simp add: signers_ok_def Let_def)
  have en: "\<exists>ks2. gpgme_signers_enum (with_refs ks as) (Some x1) (int i) = Some (ks2, Some (as ! i))" if "i < length as" for i
    using that signers_nth [OF r(2), of i] n len r(3) store_ref_with_refs [of ks "as ! i" as] assms(3)
    by (simp add: gpgme_signers_enum_def)
  obtain x2 where c: "gpgme_signers_clear (with_refs ks as) (Some x1) = Some (ks, Some x2)" "signers_ok x2" "signers_of x2 = []"
    using signers_clear_restores [OF r(2)] r(3) assms(3) by auto
  have "gpgme_signers_count (Some x2) = 0" using length_signers_of [OF c(2)] c(3) by (simp add: gpgme_signers_count_def)
  moreover have "gpgme_signers_enum (with_refs ks as) (Some x1) (int (length as)) = Some (with_refs ks as, None)"
    using n by (simp add: gpgme_signers_enum_def)
  moreover have "\<forall>a k. ks a = Some k \<longrightarrow> map_option key_refs (with_refs ks as a) = Some (key_refs k + count_list as a)"
    by (simp add: with_refs_def)
  ultimately show ?thesis using r(1) n en c(1) by (auto simp: gpgme_signers_count_def)
qed

definition demo_globals :: gpgme_globals where
  "demo_globals = \<lparr>g_selftest = no_error, g_engine_info = [GPGME_PROTOCOL_OpenPGP, GPGME_PROTOCOL_CMS],
     g_lc_ctype = None, g_lc_messages = Some ''C''\<rparr>"

definition demo_context :: gpgme_context where
  "demo_context = (case gpgme_new sample_env demo_globals True of Ok x \<Rightarrow> x)"

definition demo_store :: key_store where
  "demo_store a = (if a < 3 then (case gpgme_key_new True of Ok k \<Rightarrow> Some k | _ \<Rightarrow> None) else None)"

theorem signers_own_references_witness:
  "\<exists>ks1 x1. signers_add_all sample_env demo_store demo_context [0, 2, 0] = Some (ks1, x1)
           \<and> gpgme_signers_count (Some x1) = 3
           \<and> map_option key_refs (ks1 0) = Some 3
           \<and> (\<exists>x2. gpgme_signers_clear ks1 (Some x1) = Some (demo_store, Some x2))"
proof -
  have h: "signers_ok demo_context" "signers_of demo_context = []"
    by (code_simp, code_simp)
  have l: "\<forall>a\<in>set [0, 2, 0 :: nat]. live_key demo_store a" by code_simp
  have m: "core sample_env ''signers''" by code_simp
  obtain k where k: "demo_store 0 = Some k" "key_refs k = 1" by (simp add: demo_store_def gpgme_key_new_def)
  from signers_own_references [OF h l m] obtain ks1 x1 x2 where
    "signers_add_all sample_env demo_store demo_context [0, 2, 0] = Some (ks1, x1)"
    "gpgme_signers_count (Some x1) = length [0, 2, 0 :: nat]"
    "\<forall>a k. demo_store a = Some k \<longrightarrow> map_option key_refs (ks1 a) = Some (key_refs k + count_list [0, 2, 0] a)"
    "gpgme_signers_clear ks1 (Some x1) = Some (demo_store, Some x2)" by blast
  with k show ?thesis by fastforce
qed

section \<open>Flags\<close>

definition bool_names :: "string list" where
  "bool_names = [''redraw'', ''full-status'', ''raw-description'', ''export-session-key'',
     ''auto-key-retrieve'', ''no-symkey-cache'', ''ignore-mdc-error'']"

definition text_names :: "string list" where
  "text_names = [''override-session-key'', ''request-origin'', ''auto-key-locate'']"

lemmas flag_defs = gpgme_set_ctx_flag_def gpgme_get_ctx_flag_def set_flag_def store_copy_def
  bool_flag_def text_flag_def upd_cx_def

lemma get_flag_Some: "gpgme_get_ctx_flag (Some x) (Some n) =
   (if n = ''redraw'' then bool_flag (ctx_redraw_suggested (cx x))
    else if n = ''full-status'' then bool_flag (ctx_full_status (cx x))
    else if n = ''raw-description'' then bool_flag (ctx_raw_description (cx x))
    else if n = ''export-session-key'' then bool_flag (cx_export_session_keys x)
    else if n = ''override-session-key'' then text_flag (cx_override_session_key x)
    else if n = ''auto-key-retrieve'' then bool_flag (cx_auto_key_retrieve x)
    else if n = ''request-origin'' then text_flag (cx_request_origin x)
    else if n = ''no-symkey-cache'' then bool_flag (cx_no_symkey_cache x)
    else if n = ''ignore-mdc-error'' then bool_flag (ctx_ignore_mdc_error (cx x))
    else if n = ''auto-key-locate'' then text_flag (cx_auto_key_locate x)
    else None)"
  by (simp only: gpgme_get_ctx_flag_def prod.case option.case)

lemma set_flag_Some: "gpgme_set_ctx_flag env (Some x) (Some n) (Some v) = apfst Some (set_flag env x n v)"
  by (simp only: gpgme_set_ctx_flag_def prod.case option.case)

lemma unknown_flag:
  assumes "n \<notin> set bool_names \<union> set text_names \<union> {''trust-model''}"
  shows "set_flag env x n v = (x, gpg_error GPG_ERR_UNKNOWN_NAME)" and "gpgme_get_ctx_flag (Some x) (Some n) = None"
  using assms unfolding get_flag_Some set_flag_def Let_def bool_names_def text_names_def
  by (simp_all only: list.set Un_iff insert_iff empty_iff if_False simp_thms de_Morgan_disj)

lemma set_bool_flag:
  assumes "n \<in> set bool_names"
  shows "\<exists>y. set_flag env x n v = (y, no_error)
     \<and> gpgme_get_ctx_flag (Some y) (Some n) = Some (if v \<noteq> [] \<and> atoi v \<noteq> 0 then ''1'' else [])"
  using assms unfolding bool_names_def list.set insert_iff empty_iff simp_thms
  by (elim disjE; hypsubst; simp add: set_flag_def Let_def get_flag_Some bool_flag_def upd_cx_def)

lemma set_text_flag:
  assumes "\<And>l. core env l" and "n \<in> set text_names"
  shows "\<exists>y. set_flag env x n v = (y, no_error) \<and> gpgme_get_ctx_flag (Some y) (Some n) = Some v"
  using assms(2) unfolding text_names_def list.set insert_iff empty_iff simp_thms
  by (elim disjE; hypsubst; simp add: assms(1) set_flag_def Let_def get_flag_Some text_flag_def store_copy_def)

lemma fst_store_copy: "fst (store_copy env lbl upd v x) = upd (if core env lbl then Some v else None) x"
  by (simp add: store_copy_def)

lemma set_flag_others:
  assumes m: "m \<noteq> n"
  shows "gpgme_get_ctx_flag (Some (fst (set_flag env x n v))) (Some m) = gpgme_get_ctx_flag (Some x) (Some m)"
proof (cases "n \<in> set bool_names \<union> set text_names \<union> {''trust-model''}")
  case False
  then show ?thesis using unknown_flag(1) [of n env x v] by simp
next
  case True
  then show ?thesis using m
    unfolding bool_names_def text_names_def list.set Un_iff insert_iff empty_iff simp_thms
    by (elim disjE; hypsubst; simp add: set_flag_def Let_def get_flag_Some fst_store_copy upd_cx_def)
qed

text \<open>
  The named flags of a context are a store. With memory available, a boolean flag that was
  set reads back as \<open>1\<close> or the empty string and a text flag as the text, and setting one flag
  changes no other. The exception is \<open>trust-model\<close>: setting it succeeds, but reading it back
  gives the null pointer of an unknown name.
\<close>

theorem ctx_flags_roundtrip:
  assumes mem: "\<And>l. core env l"
    and set: "gpgme_set_ctx_flag env (Some x) (Some n) (Some v) = (Some y, e)"
  shows "(e = no_error \<longleftrightarrow> n \<in> set bool_names \<union> set text_names \<union> {''trust-model''})
    \<and> gpgme_get_ctx_flag (Some y) (Some n) =
        (if n \<in> set bool_names then Some (if v \<noteq> [] \<and> atoi v \<noteq> 0 then ''1'' else [])
         else if n \<in> set text_names then Some v else None)
    \<and> (\<forall>m. m \<noteq> n \<longrightarrow> gpgme_get_ctx_flag (Some y) (Some m) = gpgme_get_ctx_flag (Some x) (Some m))"
proof (intro conjI allI impI)
  have y: "set_flag env x n v = (y, e)" using set by (simp add: set_flag_Some apfst_def map_prod_def split: prod.splits)
  have disj: "n \<notin> set bool_names" if "n \<in> set text_names"
    using that by (auto simp: bool_names_def text_names_def)
  consider (b) "n \<in> set bool_names" | (t) "n \<in> set text_names" | (m) "n = ''trust-model''"
    | (u) "n \<notin> set bool_names \<union> set text_names \<union> {''trust-model''}" by blast
  then have "(e = no_error \<longleftrightarrow> n \<in> set bool_names \<union> set text_names \<union> {''trust-model''})
    \<and> gpgme_get_ctx_flag (Some y) (Some n) =
        (if n \<in> set bool_names then Some (if v \<noteq> [] \<and> atoi v \<noteq> 0 then ''1'' else [])
         else if n \<in> set text_names then Some v else None)"
  proof cases
    case b
    then show ?thesis using set_bool_flag [OF b, of env x v] y by auto
  next
    case t
    then show ?thesis using set_text_flag [OF mem t, of x v] y disj by auto
  next
    case m
    then show ?thesis using y
      by (auto simp: set_flag_def Let_def get_flag_Some store_copy_def mem bool_names_def text_names_def)
  next
    case u
    then show ?thesis using unknown_flag [OF u] y by auto
  qed
  then show "e = no_error \<longleftrightarrow> n \<in> set bool_names \<union> set text_names \<union> {''trust-model''}"
    "gpgme_get_ctx_flag (Some y) (Some n) =
        (if n \<in> set bool_names then Some (if v \<noteq> [] \<and> atoi v \<noteq> 0 then ''1'' else [])
         else if n \<in> set text_names then Some v else None)" by blast+
  show "gpgme_get_ctx_flag (Some y) (Some m) = gpgme_get_ctx_flag (Some x) (Some m)" if "m \<noteq> n" for m
    using set_flag_others [OF that, of env x v] y by simp
qed

theorem ctx_flags_roundtrip_witness:
  "gpgme_get_ctx_flag (fst (gpgme_set_ctx_flag sample_env (Some demo_context) (Some ''no-symkey-cache'') (Some ''5'')))
     (Some ''no-symkey-cache'') = Some ''1''
   \<and> gpgme_get_ctx_flag (fst (gpgme_set_ctx_flag sample_env (Some demo_context) (Some ''trust-model'') (Some ''tofu'')))
     (Some ''trust-model'') = None"
proof -
  have m: "core sample_env l" for l by (simp add: sample_env_def)
  obtain y1 e1 where y1: "gpgme_set_ctx_flag sample_env (Some demo_context) (Some ''no-symkey-cache'') (Some ''5'') = (Some y1, e1)"
    by (simp add: flag_defs)
  obtain y2 e2 where y2: "gpgme_set_ctx_flag sample_env (Some demo_context) (Some ''trust-model'') (Some ''tofu'') = (Some y2, e2)"
    by (simp add: flag_defs m)
  have a: "atoi ''5'' = 5" "''no-symkey-cache'' \<in> set bool_names" "''trust-model'' \<notin> set bool_names \<union> set text_names"
    by (code_simp, code_simp, code_simp)
  show ?thesis using ctx_flags_roundtrip [OF m y1] ctx_flags_roundtrip [OF m y2] y1 y2 a by simp
qed

end
