(* ===== verification/Gpgme_Keylist.thy ===== *)
theory Gpgme_Keylist
  imports Gpgme_Context
begin

text \<open>
  Key listing (\<open>keylist.c\<close>): the parser of the colon separated lines that list keys, which builds
  one key after the other, the queue of finished keys, and the functions that start a listing,
  return the next key and look up a single key.

  The pointers \<open>tmp_uid\<close> and \<open>tmp_keysig\<close> into the key being read are positions in its list of
  user IDs and in the signatures of its last user ID. \<open>None\<close> as the result of a handler is
  undefined behaviour: a failed assertion or a read of an unset element of the field array.
\<close>

section \<open>Flags of keys\<close>

text \<open>The letters up to the first digit.\<close>

definition letters :: "string \<Rightarrow> string" where
  "letters src = takeWhile (\<lambda>c. \<not> isdigit c) src"

definition subkey_trust_letter :: "char \<Rightarrow> subkey \<Rightarrow> subkey" where
  "subkey_trust_letter c s =
     (if c = CHR ''e'' then s\<lparr>sk_expired := True\<rparr>
      else if c = CHR ''r'' then s\<lparr>sk_revoked := True\<rparr>
      else if c = CHR ''d'' then s\<lparr>sk_disabled := True\<rparr>
      else if c = CHR ''i'' then s\<lparr>sk_invalid := True\<rparr> else s)"

definition set_subkey_trust_info :: "string \<Rightarrow> subkey \<Rightarrow> subkey" where
  "set_subkey_trust_info src s = fold subkey_trust_letter (letters src) s"

text \<open>A store through the pointer to the last subkey and through the pointer to the first one.\<close>

definition upd_last_subkey :: "(subkey \<Rightarrow> subkey) \<Rightarrow> gpgme_key \<Rightarrow> gpgme_key" where
  "upd_last_subkey f k =
     (if key_subkeys k = [] then k
      else k\<lparr>key_subkeys := butlast (key_subkeys k) @ [f (last (key_subkeys k))]\<rparr>)"

definition upd_first_subkey :: "(subkey \<Rightarrow> subkey) \<Rightarrow> gpgme_key \<Rightarrow> gpgme_key" where
  "upd_first_subkey f k =
     (case key_subkeys k of [] \<Rightarrow> k | s # ss \<Rightarrow> k\<lparr>key_subkeys := f s # ss\<rparr>)"

definition key_trust_letter :: "char \<Rightarrow> gpgme_key \<Rightarrow> gpgme_key" where
  "key_trust_letter c k =
     (if c = CHR ''e'' then k\<lparr>key_expired := True\<rparr>
      else if c = CHR ''r'' then k\<lparr>key_revoked := True\<rparr>
      else if c = CHR ''d'' then k\<lparr>key_disabled := True\<rparr>
      else if c = CHR ''i'' then k\<lparr>key_invalid := True\<rparr> else k)"

definition set_mainkey_trust_info :: "string \<Rightarrow> gpgme_key \<Rightarrow> gpgme_key" where
  "set_mainkey_trust_info src k =
     fold key_trust_letter (letters src) (upd_first_subkey (set_subkey_trust_info src) k)"

definition userid_letter :: "char \<Rightarrow> user_id \<Rightarrow> user_id" where
  "userid_letter c u =
     (if c = CHR ''r'' then u\<lparr>uid_revoked := True\<rparr>
      else if c = CHR ''i'' then u\<lparr>uid_invalid := True\<rparr>
      else if c = CHR ''n'' then u\<lparr>uid_validity := GPGME_VALIDITY_NEVER\<rparr>
      else if c = CHR ''m'' then u\<lparr>uid_validity := GPGME_VALIDITY_MARGINAL\<rparr>
      else if c = CHR ''f'' then u\<lparr>uid_validity := GPGME_VALIDITY_FULL\<rparr>
      else if c = CHR ''u'' then u\<lparr>uid_validity := GPGME_VALIDITY_ULTIMATE\<rparr> else u)"

text \<open>A store through the pointer to the last user ID; without one the assertion fails.\<close>

definition upd_last_uid :: "(user_id \<Rightarrow> user_id) \<Rightarrow> gpgme_key \<Rightarrow> gpgme_key option" where
  "upd_last_uid f k =
     (if key_uids k = [] then None
      else Some (k\<lparr>key_uids := butlast (key_uids k) @ [f (last (key_uids k))]\<rparr>))"

definition set_userid_flags :: "string \<Rightarrow> gpgme_key \<Rightarrow> gpgme_key option" where
  "set_userid_flags src k = upd_last_uid (fold userid_letter (letters src)) k"

definition subkey_cap_letter :: "char \<Rightarrow> subkey \<Rightarrow> subkey" where
  "subkey_cap_letter c s =
     (if c = CHR ''e'' then s\<lparr>sk_can_encrypt := True\<rparr>
      else if c = CHR ''s'' then s\<lparr>sk_can_sign := True\<rparr>
      else if c = CHR ''c'' then s\<lparr>sk_can_certify := True\<rparr>
      else if c = CHR ''a'' then s\<lparr>sk_can_authenticate := True\<rparr>
      else if c = CHR ''q'' then s\<lparr>sk_is_qualified := True\<rparr>
      else if c = CHR ''d'' then s\<lparr>sk_disabled := True\<rparr> else s)"

definition set_subkey_capability :: "string \<Rightarrow> subkey \<Rightarrow> subkey" where
  "set_subkey_capability src s = fold subkey_cap_letter src s"

definition key_cap_letter :: "char \<Rightarrow> gpgme_key \<Rightarrow> gpgme_key" where
  "key_cap_letter c k =
     (if c = CHR ''d'' \<or> c = CHR ''D'' then k\<lparr>key_disabled := True\<rparr>
      else if c = CHR ''e'' \<or> c = CHR ''E'' then k\<lparr>key_can_encrypt := True\<rparr>
      else if c = CHR ''s'' \<or> c = CHR ''S'' then k\<lparr>key_can_sign := True\<rparr>
      else if c = CHR ''c'' \<or> c = CHR ''C'' then k\<lparr>key_can_certify := True\<rparr>
      else if c = CHR ''a'' \<or> c = CHR ''A'' then k\<lparr>key_can_authenticate := True\<rparr>
      else if c = CHR ''q'' \<or> c = CHR ''Q'' then k\<lparr>key_is_qualified := True\<rparr> else k)"

definition set_mainkey_capability :: "string \<Rightarrow> gpgme_key \<Rightarrow> gpgme_key" where
  "set_mainkey_capability src k =
     fold key_cap_letter src (upd_first_subkey (set_subkey_capability src) k)"

definition ownertrust_letter :: "char \<Rightarrow> gpgme_key \<Rightarrow> gpgme_key" where
  "ownertrust_letter c k = k\<lparr>key_owner_trust :=
     (if c = CHR ''n'' then GPGME_VALIDITY_NEVER
      else if c = CHR ''m'' then GPGME_VALIDITY_MARGINAL
      else if c = CHR ''f'' then GPGME_VALIDITY_FULL
      else if c = CHR ''u'' then GPGME_VALIDITY_ULTIMATE
      else GPGME_VALIDITY_UNKNOWN)\<rparr>"

definition set_ownertrust :: "string \<Rightarrow> gpgme_key \<Rightarrow> gpgme_key" where
  "set_ownertrust src k = fold ownertrust_letter (letters src) k"

definition parse_keyorg :: "string \<Rightarrow> gpgme_keyorg_t" where
  "parse_keyorg s =
     (let n = atoi s in
      if n = 0 then GPGME_KEYORG_UNKNOWN
      else if n = 1 \<or> n = 2 then GPGME_KEYORG_KS
      else if n = 3 then GPGME_KEYORG_DANE
      else if n = 4 then GPGME_KEYORG_WKD
      else if n = 5 then GPGME_KEYORG_URL
      else if n = 6 then GPGME_KEYORG_FILE
      else if n = 7 then GPGME_KEYORG_SELF
      else GPGME_KEYORG_OTHER)"

section \<open>Parsing of a record in steps\<close>

text \<open>
  A step may change the key and report an error, which ends the line and keeps the changes made
  so far; \<open>None\<close> is undefined behaviour.
\<close>

type_synonym key_step = "gpgme_key \<Rightarrow> (gpgme_key \<times> gpgme_error_t) option"

fun run_steps :: "key_step list \<Rightarrow> key_step" where
  "run_steps [] k = Some (k, no_error)"
| "run_steps (f # fs) k =
     (case f k of
        None \<Rightarrow> None
      | Some (k1, e) \<Rightarrow> if is_err e then Some (k1, e) else run_steps fs k1)"

definition set_step :: "(gpgme_key \<Rightarrow> gpgme_key) \<Rightarrow> key_step" where
  "set_step f k = Some (f k, no_error)"

text \<open>A step on field \<open>n\<close>, counted from 1 as in the comments of the code, if the line has it.\<close>

definition on_field :: "string list \<Rightarrow> nat \<Rightarrow> (string \<Rightarrow> key_step) \<Rightarrow> key_step" where
  "on_field fs n f k = (if n \<le> length fs then f (fs ! (n - 1)) k else Some (k, no_error))"

text \<open>The card number is freed with the key; \<open>strchr\<close> also finds the terminator, but the field is not empty here.\<close>

definition parse_sec_field15 :: "op_env \<Rightarrow> string \<Rightarrow> key_step" where
  "parse_sec_field15 env field k =
     (if field = [] then Some (k, no_error)
      else if hd field = CHR ''#'' then
        Some (upd_last_subkey (\<lambda>s. s\<lparr>sk_secret := False\<rparr>) k\<lparr>key_secret := True\<rparr>, no_error)
      else if hd field \<in> set ''01234567890ABCDEFabcdef'' then
        (let k1 = upd_last_subkey (\<lambda>s. s\<lparr>sk_is_cardkey := True\<rparr>) (k\<lparr>key_secret := True\<rparr>)
         in if core env ''card_number''
            then Some (upd_last_subkey (\<lambda>s. s\<lparr>sk_card_number := Some field\<rparr>) k1, no_error)
            else Some (upd_last_subkey (\<lambda>s. s\<lparr>sk_card_number := None\<rparr>) k1, syserror ENOMEM))
      else if hd field = CHR ''+'' then
        Some (upd_last_subkey (\<lambda>s. s\<lparr>sk_secret := True\<rparr>) (k\<lparr>key_secret := True\<rparr>), no_error)
      else Some (k, no_error))"

definition parse_tfs_record :: "op_env \<Rightarrow> user_id \<Rightarrow> string list \<Rightarrow> user_id \<times> gpgme_error_t" where
  "parse_tfs_record env u field =
     (if uid_tofu u \<noteq> None then (u, no_error)
      else if length field < 8 \<or> atoi (field ! 1) \<noteq> 1 then (u, gpg_error GPG_ERR_INV_ENGINE)
      else if \<not> core env ''tofu'' then (u, syserror ENOMEM)
      else
        (case tofu_store
           [(field ! 2, \<lambda>v t. if v > 7 then None else Some (t\<lparr>ti_validity := v\<rparr>)),
            (field ! 3, \<lambda>v t. Some (t\<lparr>ti_signcount := min v USHRT_MAX\<rparr>)),
            (field ! 4, \<lambda>v t. Some (t\<lparr>ti_encrcount := min v USHRT_MAX\<rparr>))] zero_tofu of
           (t1, e1) \<Rightarrow>
             if is_err e1 then (u, e1)
             else
               (case tofu_store
                  ([(field ! 6, \<lambda>v t. Some (t\<lparr>ti_signfirst := v\<rparr>)),
                    (field ! 7, \<lambda>v t. Some (t\<lparr>ti_signlast := v\<rparr>))] @
                   (if 9 < length field then
                      [(field ! 8, \<lambda>v t. Some (t\<lparr>ti_encrfirst := v\<rparr>)),
                       (field ! 9, \<lambda>v t. Some (t\<lparr>ti_encrlast := v\<rparr>))] else []))
                  (t1\<lparr>ti_policy := tofu_policy_of (field ! 5)\<rparr>) of
                  (t2, e2) \<Rightarrow> if is_err e2 then (u, e2) else (u\<lparr>uid_tofu := Some t2\<rparr>, no_error))))"

text \<open>The steps that records of keys and of subkeys share.\<close>

definition length_step :: "string \<Rightarrow> key_step" where
  "length_step f = set_step (\<lambda>k. if atoi f > 1 then upd_last_subkey (\<lambda>s. s\<lparr>sk_length := atoi f\<rparr>) k else k)"

definition algo_step :: "gpgme_protocol_t \<Rightarrow> string \<Rightarrow> key_step" where
  "algo_step pr f = set_step (\<lambda>k. if 1 \<le> atoi f \<and> atoi f < 128
     then upd_last_subkey (\<lambda>s. s\<lparr>sk_pubkey_algo := gpgme_map_pk_algo (atoi f) pr\<rparr>) k else k)"

definition time_step :: "string \<Rightarrow> key_step" where
  "time_step f = set_step (upd_last_subkey (\<lambda>s. s\<lparr>sk_timestamp := fst (gpgme_parse_timestamp f)\<rparr>))"

definition expires_step :: "string \<Rightarrow> key_step" where
  "expires_step f = set_step (upd_last_subkey (\<lambda>s. s\<lparr>sk_expires := fst (gpgme_parse_timestamp f)\<rparr>))"

text \<open>\<open>GPGME_KEYLIST_MODE_WITH_SECRET\<close> is bit 4.\<close>

definition secret_step :: "op_env \<Rightarrow> 32 word \<Rightarrow> string \<Rightarrow> key_step" where
  "secret_step env mode f k =
     (if key_secret k \<or> bit mode 4 then parse_sec_field15 env f k else Some (k, no_error))"

definition curve_step :: "op_env \<Rightarrow> string \<Rightarrow> key_step" where
  "curve_step env f k =
     (if f = [] then Some (k, no_error)
      else if core env ''curve'' then Some (upd_last_subkey (\<lambda>s. s\<lparr>sk_curve := Some f\<rparr>) k, no_error)
      else Some (upd_last_subkey (\<lambda>s. s\<lparr>sk_curve := None\<rparr>) k, syserror ENOMEM))"

text \<open>
  The compliance flags are in field 18, but the code asks for 17 fields only: with exactly 17
  it reads an element of the field array that was never set.
\<close>

definition compliance_step :: "string list \<Rightarrow> key_step" where
  "compliance_step fs k =
     (if length fs < 17 then Some (k, no_error)
      else if length fs = 17 then None
      else if fs ! 17 \<noteq> [] \<and> compliance_loop (fs ! 17)
      then Some (upd_last_subkey (\<lambda>s. s\<lparr>sk_is_de_vs := True\<rparr>) k, no_error)
      else Some (k, no_error))"

definition update_step :: "string list \<Rightarrow> key_step" where
  "update_step fs k =
     (if length fs < 20 then Some (k, no_error)
      else case gpgme_parse_timestamp_ul (fs ! 18) of
        Ok t \<Rightarrow> Some (k\<lparr>key_last_update := t, key_origin := parse_keyorg (fs ! 19)\<rparr>, no_error)
      | _ \<Rightarrow> None)"

definition serial_step :: "op_env \<Rightarrow> bool \<Rightarrow> string \<Rightarrow> key_step" where
  "serial_step env x509 f k =
     (if \<not> x509 then Some (k, no_error)
      else if core env ''issuer_serial'' then Some (k\<lparr>key_issuer_serial := Some f\<rparr>, no_error)
      else Some (k\<lparr>key_issuer_serial := None\<rparr>, syserror ENOMEM))"

definition issuer_step :: "op_env \<Rightarrow> bool \<Rightarrow> string \<Rightarrow> key_step" where
  "issuer_step env x509 f k =
     (if \<not> x509 then Some (k, no_error)
      else case gpgme_decode_c_string (core env ''issuer_name'') f 0 of
        UB \<Rightarrow> None
      | Err e \<Rightarrow> Some (k, syserror ENOMEM)
      | Ok d \<Rightarrow> Some (k\<lparr>key_issuer_name := Some d\<rparr>, no_error))"

definition keyid_step :: "(nat \<Rightarrow> bool) \<Rightarrow> string \<Rightarrow> key_step" where
  "keyid_step fits f = set_step (\<lambda>k. if fits (length f) then upd_last_subkey (\<lambda>s. s\<lparr>sk_keyid := f\<rparr>) k else k)"

definition pub_steps :: "op_env \<Rightarrow> gpgme_protocol_t \<Rightarrow> 32 word \<Rightarrow> bool \<Rightarrow> string list \<Rightarrow> key_step list" where
  "pub_steps env pr mode x509 fs =
     [on_field fs 2 (\<lambda>f. set_step (set_mainkey_trust_info f)),
      on_field fs 3 length_step,
      on_field fs 4 (algo_step pr),
      on_field fs 5 (keyid_step (\<lambda>n. n \<le> 16)),
      on_field fs 6 time_step,
      on_field fs 7 expires_step,
      on_field fs 8 (serial_step env x509),
      on_field fs 9 (\<lambda>f. set_step (set_ownertrust f)),
      on_field fs 10 (issuer_step env x509),
      on_field fs 12 (\<lambda>f. set_step (set_mainkey_capability f)),
      on_field fs 15 (secret_step env mode),
      on_field fs 17 (curve_step env),
      compliance_step fs,
      update_step fs]"

definition sub_steps :: "op_env \<Rightarrow> gpgme_protocol_t \<Rightarrow> 32 word \<Rightarrow> string list \<Rightarrow> key_step list" where
  "sub_steps env pr mode fs =
     [on_field fs 2 (\<lambda>f. set_step (upd_last_subkey (set_subkey_trust_info f))),
      on_field fs 3 length_step,
      on_field fs 4 (algo_step pr),
      on_field fs 5 (keyid_step (\<lambda>n. n = 16)),
      on_field fs 6 time_step,
      on_field fs 7 expires_step,
      on_field fs 12 (\<lambda>f. set_step (upd_last_subkey (set_subkey_capability f))),
      on_field fs 15 (secret_step env mode),
      on_field fs 17 (curve_step env),
      compliance_step fs]"

section \<open>Records that belong to a key\<close>

text \<open>The fingerprint of a key is that of its first subkey.\<close>

definition fpr_step :: "op_env \<Rightarrow> string \<Rightarrow> key_step" where
  "fpr_step env f k =
     (if f = [] then Some (k, no_error)
      else if key_subkeys k = [] then None
      else if sk_fpr (last (key_subkeys k)) = None \<and> \<not> core env ''fpr'' then Some (k, syserror ENOMEM)
      else
        (let k1 = upd_last_subkey (\<lambda>s. if sk_fpr s = None then s\<lparr>sk_fpr := Some f\<rparr> else s) k;
             fpr = sk_fpr (last (key_subkeys k1))
         in if length (key_subkeys k1) \<noteq> 1 then Some (k1, no_error)
            else if key_fpr k1 \<noteq> None \<and> key_fpr k1 \<noteq> fpr then Some (k1, gpg_error GPG_ERR_INTERNAL)
            else if key_fpr k1 \<noteq> None then Some (k1, no_error)
            else if core env ''key_fpr'' then Some (k1\<lparr>key_fpr := fpr\<rparr>, no_error)
            else Some (k1, syserror ENOMEM)))"

definition chain_step :: "op_env \<Rightarrow> string \<Rightarrow> key_step" where
  "chain_step env f k =
     (if key_chain_id k \<noteq> None \<or> f = [] then Some (k, no_error)
      else if core env ''chain_id'' then Some (k\<lparr>key_chain_id := Some f\<rparr>, no_error)
      else Some (k, syserror ENOMEM))"

definition grp_step :: "op_env \<Rightarrow> string \<Rightarrow> key_step" where
  "grp_step env f k =
     (if f = [] then Some (k, no_error)
      else if key_subkeys k = [] then None
      else if sk_keygrip (last (key_subkeys k)) \<noteq> None then Some (k, no_error)
      else if core env ''keygrip'' then Some (upd_last_subkey (\<lambda>s. s\<lparr>sk_keygrip := Some f\<rparr>) k, no_error)
      else Some (k, syserror ENOMEM))"

text \<open>What a \<open>sig\<close> or \<open>rev\<close> line says about the signature it adds.\<close>

definition keysig_status :: "string \<Rightarrow> gpgme_error_t" where
  "keysig_status f =
     (if peek f = CHR ''-'' then gpg_error GPG_ERR_BAD_SIGNATURE
      else if peek f = CHR ''?'' then gpg_error GPG_ERR_NO_PUBKEY
      else if peek f = CHR ''%'' then gpg_error GPG_ERR_GENERAL
      else no_error)"

definition keysig_class :: "string \<Rightarrow> key_sig \<Rightarrow> key_sig" where
  "keysig_class f s =
     (if cchr f 0 = NUL \<or> cchr f 1 = NUL then s
      else
        (let c = gpgme_hextobyte f;
             s1 = (if 0 \<le> c then s\<lparr>ks_sig_class := c, ks_revoked := (ks_revoked s \<or> c = 0x30)\<rparr> else s)
         in if cchr f 2 = CHR ''x'' then s1\<lparr>ks_exportable := True\<rparr> else s1))"

definition fill_keysig :: "gpgme_protocol_t \<Rightarrow> string list \<Rightarrow> key_sig \<Rightarrow> key_sig" where
  "fill_keysig pr fs s0 =
     (let n = length fs;
          s1 = (if 2 \<le> n then s0\<lparr>ks_status := keysig_status (fs ! 1)\<rparr> else s0);
          s2 = (if 4 \<le> n \<and> 1 \<le> atoi (fs ! 3) \<and> atoi (fs ! 3) < 128
                then s1\<lparr>ks_pubkey_algo := gpgme_map_pk_algo (atoi (fs ! 3)) pr\<rparr> else s1);
          s3 = (if 5 \<le> n \<and> length (fs ! 4) = 16 then s2\<lparr>ks_keyid := fs ! 4\<rparr> else s2);
          s4 = (if 6 \<le> n then s3\<lparr>ks_timestamp := fst (gpgme_parse_timestamp (fs ! 5))\<rparr> else s3);
          s5 = (if 7 \<le> n then s4\<lparr>ks_expires := fst (gpgme_parse_timestamp (fs ! 6))\<rparr> else s4)
      in if 11 \<le> n then keysig_class (fs ! 10) s5 else s5)"

definition upd_last_keysig :: "(key_sig \<Rightarrow> key_sig) \<Rightarrow> gpgme_key \<Rightarrow> gpgme_key option" where
  "upd_last_keysig f k =
     (if key_uids k = [] \<or> uid_signatures (last (key_uids k)) = [] then None
      else upd_last_uid (\<lambda>u. u\<lparr>uid_signatures := butlast (uid_signatures u) @ [f (last (uid_signatures u))]\<rparr>) k)"

section \<open>The colon line handler\<close>

datatype rectype =
    RT_NONE | RT_SIG | RT_UID | RT_TFS | RT_SUB | RT_PUB | RT_FPR | RT_GRP
  | RT_SSB | RT_SEC | RT_CRT | RT_CRS | RT_REV | RT_SPK

function split_colon :: "string \<Rightarrow> string list" where
  "split_colon s = (case strchr_split CHR '':'' s of (a, None) \<Rightarrow> [a] | (a, Some r) \<Rightarrow> a # split_colon r)"
  by pat_completeness auto
termination
  by (relation "measure length") (auto dest: strchr_split_shorter [OF sym])

declare split_colon.simps [simp del]

text \<open>For evaluation: the fields of a line, one character after the other.\<close>

lemma split_colon_code [code]:
  "split_colon [] = [[]]"
  "split_colon (c # s) =
     (if c = CHR '':'' then [] # split_colon s
      else case split_colon s of [] \<Rightarrow> [[c]] | f # fs \<Rightarrow> (c # f) # fs)"
proof -
  show "split_colon [] = [[]]" by (subst split_colon.simps) (simp add: strchr_split_def)
  obtain a r where s: "strchr_split CHR '':'' s = (a, r)" by fastforce
  have t: "split_colon s = (case r of None \<Rightarrow> [a] | Some t \<Rightarrow> a # split_colon t)"
    by (subst split_colon.simps) (simp add: s split: option.splits)
  have "strchr_split CHR '':'' (c # s) = (if c = CHR '':'' then ([], Some s) else (c # a, r))"
    using s by (auto simp: strchr_split_def split: if_split_asm list.splits)
  then show "split_colon (c # s) =
     (if c = CHR '':'' then [] # split_colon s
      else case split_colon s of [] \<Rightarrow> [[c]] | f # fs \<Rightarrow> (c # f) # fs)"
    by (subst split_colon.simps) (simp add: t split: option.splits)
qed

text \<open>At most 20 fields are looked at.\<close>

definition colon_fields :: "string \<Rightarrow> string list" where
  "colon_fields line = take 20 (split_colon line)"

definition rectype_of :: "string \<Rightarrow> bool \<Rightarrow> rectype" where
  "rectype_of f key =
     (if f = ''sig'' then RT_SIG
      else if f = ''rev'' then RT_REV
      else if f = ''pub'' then RT_PUB
      else if f = ''sec'' then RT_SEC
      else if f = ''crt'' then RT_CRT
      else if f = ''crs'' then RT_CRS
      else if \<not> key then RT_NONE
      else if f = ''fpr'' then RT_FPR
      else if f = ''grp'' then RT_GRP
      else if f = ''uid'' then RT_UID
      else if f = ''tfs'' then RT_TFS
      else if f = ''sub'' then RT_SUB
      else if f = ''ssb'' then RT_SSB
      else if f = ''spk'' then RT_SPK
      else RT_NONE)"

text \<open>
  A finished key goes through the event callback of the engine. With the private event loop
  that is \<open>_gpgme_op_keylist_event_cb\<close>, which puts it at the end of the queue; a key is lost when
  there is no memory for the queue item. With an event loop of the application (\<open>user\<close>) the key
  is handed to the application.
\<close>

definition keylist_event_cb :: "op_env \<Rightarrow> gpgme_key \<Rightarrow> op_keylist \<Rightarrow> op_keylist" where
  "keylist_event_cb env key opd =
     (if core env ''queue_item'' then opd\<lparr>kl_queue := kl_queue opd @ [key], kl_key_cond := True\<rparr> else opd)"

definition finish_key :: "op_env \<Rightarrow> bool \<Rightarrow> op_keylist \<Rightarrow> op_keylist" where
  "finish_key env user opd =
     (let opd1 = opd\<lparr>kl_tmp_key := None, kl_tmp_uid := None, kl_tmp_keysig := None\<rparr>
      in case kl_tmp_key opd of
           None \<Rightarrow> opd1
         | Some key \<Rightarrow> if user then opd1 else keylist_event_cb env key opd1)"

type_synonym line_res = "(op_keylist \<times> gpgme_error_t) option"

text \<open>Steps on the key being read.\<close>

definition on_key :: "op_keylist \<Rightarrow> key_step list \<Rightarrow> line_res" where
  "on_key opd steps =
     (case kl_tmp_key opd of
        None \<Rightarrow> None
      | Some k \<Rightarrow>
          (case run_steps steps k of
             None \<Rightarrow> None | Some (k1, e) \<Rightarrow> Some (opd\<lparr>kl_tmp_key := Some k1\<rparr>, e)))"

definition start_key :: "rectype \<Rightarrow> gpgme_key \<Rightarrow> gpgme_key" where
  "start_key rt k =
     (let k1 = (if rt = RT_SEC \<or> rt = RT_CRS
                then upd_last_subkey (\<lambda>s. s\<lparr>sk_secret := True\<rparr>) (k\<lparr>key_secret := True\<rparr>) else k)
      in if rt = RT_CRT \<or> rt = RT_CRS then k1\<lparr>key_protocol := GPGME_PROTOCOL_CMS\<rparr> else k1)"

definition pub_record ::
    "op_env \<Rightarrow> gpgme_protocol_t \<Rightarrow> 32 word \<Rightarrow> bool \<Rightarrow> op_keylist \<Rightarrow> rectype \<Rightarrow> string list \<Rightarrow> line_res" where
  "pub_record env pr mode user opd rt fs =
     (case gpgme_key_new (core env ''key'') of
        UB \<Rightarrow> None
      | Err e \<Rightarrow> Some (opd, e)
      | Ok k0 \<Rightarrow>
          (case gpgme_key_add_subkey (core env ''subkey'') (k0\<lparr>key_keylist_mode := mode\<rparr>) of
             UB \<Rightarrow> None
           | Err e \<Rightarrow> Some (opd, e)
           | Ok k1 \<Rightarrow>
               on_key ((finish_key env user opd)\<lparr>kl_tmp_key := Some (start_key rt k1)\<rparr>)
                 (pub_steps env pr mode (rt = RT_CRT \<or> rt = RT_CRS) fs)))"

definition sub_record ::
    "op_env \<Rightarrow> gpgme_protocol_t \<Rightarrow> 32 word \<Rightarrow> op_keylist \<Rightarrow> gpgme_key \<Rightarrow> rectype \<Rightarrow> string list \<Rightarrow> line_res" where
  "sub_record env pr mode opd key rt fs =
     (case gpgme_key_add_subkey (core env ''subkey'') key of
        UB \<Rightarrow> None
      | Err e \<Rightarrow> Some (opd, e)
      | Ok k1 \<Rightarrow>
          (let k2 = (if rt = RT_SSB then upd_last_subkey (\<lambda>s. s\<lparr>sk_secret := True\<rparr>) k1 else k1)
           in on_key (opd\<lparr>kl_tmp_key := Some k2\<rparr>) (sub_steps env pr mode fs)))"

definition uid_record :: "op_env \<Rightarrow> op_keylist \<Rightarrow> gpgme_key \<Rightarrow> string list \<Rightarrow> line_res" where
  "uid_record env opd key fs =
     (if length fs < 10 then Some (opd, no_error)
      else case gpgme_key_append_name (core env) key (fs ! 9) True of
        UB \<Rightarrow> None
      | Err e \<Rightarrow> Some (opd, syserror ENOMEM)
      | Ok k1 \<Rightarrow>
          (case set_userid_flags (fs ! 1) k1 of
             None \<Rightarrow> None
           | Some k2 \<Rightarrow>
               (let opd1 = opd\<lparr>kl_tmp_key := Some k2, kl_tmp_uid := Some (length (key_uids k2) - 1)\<rparr>
                in if length fs < 20 then Some (opd1, no_error)
                   else case gpgme_parse_timestamp_ul (fs ! 18) of
                     Ok t \<Rightarrow>
                       (case upd_last_uid (\<lambda>u. u\<lparr>uid_last_update := t, uid_origin := parse_keyorg (fs ! 19)\<rparr>) k2 of
                          None \<Rightarrow> None | Some k3 \<Rightarrow> Some (opd1\<lparr>kl_tmp_key := Some k3\<rparr>, no_error))
                   | _ \<Rightarrow> None)))"

definition tfs_line :: "op_env \<Rightarrow> op_keylist \<Rightarrow> gpgme_key \<Rightarrow> string list \<Rightarrow> line_res" where
  "tfs_line env opd key fs =
     (case kl_tmp_uid opd of
        None \<Rightarrow> Some (opd, no_error)
      | Some i \<Rightarrow>
          if length (key_uids key) \<le> i then None
          else (case parse_tfs_record env (key_uids key ! i) fs of
                  (u, e) \<Rightarrow> Some (opd\<lparr>kl_tmp_key := Some (key\<lparr>key_uids := (key_uids key)[i := u]\<rparr>)\<rparr>, e)))"

text \<open>The first assertion says that \<open>tmp_uid\<close> is the last user ID of the key.\<close>

definition sig_record :: "op_env \<Rightarrow> gpgme_protocol_t \<Rightarrow> op_keylist \<Rightarrow> string list \<Rightarrow> line_res" where
  "sig_record env pr opd fs =
     (case kl_tmp_uid opd of
        None \<Rightarrow> Some (opd, no_error)
      | Some i \<Rightarrow>
          (case kl_tmp_key opd of
             None \<Rightarrow> None
           | Some key \<Rightarrow>
               if Suc i \<noteq> length (key_uids key) then None
               else case gpgme_key_add_sig (core env ''keysig'') key (if 10 \<le> length fs then Some (fs ! 9) else None) of
                 UB \<Rightarrow> None
               | Err e \<Rightarrow> Some (opd, syserror ENOMEM)
               | Ok None \<Rightarrow> Some (opd, syserror ENOMEM)
               | Ok (Some k1) \<Rightarrow>
                   (case upd_last_keysig (fill_keysig pr fs) k1 of
                      None \<Rightarrow> None
                    | Some k2 \<Rightarrow>
                        Some (opd\<lparr>kl_tmp_key := Some k2,
                                  kl_tmp_keysig := Some (length (uid_signatures (last (key_uids k2))) - 1)\<rparr>, no_error))))"

text \<open>
  The length check asks for four fields, but the data are in the fifth; with exactly four an
  unset element of the field array is read.
\<close>

definition spk_record :: "op_env \<Rightarrow> op_keylist \<Rightarrow> gpgme_key \<Rightarrow> string list \<Rightarrow> line_res" where
  "spk_record env opd key fs =
     (case kl_tmp_keysig opd of
        None \<Rightarrow> Some (opd, no_error)
      | Some j \<Rightarrow>
          if key_uids key = [] \<or> Suc j \<noteq> length (uid_signatures (last (key_uids key))) then None
          else if length fs < 4 then Some (opd, no_error)
          else if length fs = 4 then None
          else if atoi (fs ! 1) \<noteq> 20 \<and> atoi (fs ! 1) \<noteq> 26 then Some (opd, no_error)
          else case gpgme_parse_notation_packet env (atoi (fs ! 1)) (atoi (fs ! 2)) (atoi (fs ! 3)) (fs ! 4) of
            UB \<Rightarrow> None
          | Err e \<Rightarrow> Some (opd, e)
          | Ok None \<Rightarrow> Some (opd, no_error)
          | Ok (Some n) \<Rightarrow>
              (case upd_last_keysig (\<lambda>s. s\<lparr>ks_notations := ks_notations s @ [n]\<rparr>) key of
                 None \<Rightarrow> None | Some k1 \<Rightarrow> Some (opd\<lparr>kl_tmp_key := Some k1\<rparr>, no_error)))"

definition keylist_record ::
    "op_env \<Rightarrow> gpgme_protocol_t \<Rightarrow> 32 word \<Rightarrow> bool \<Rightarrow> op_keylist \<Rightarrow> rectype \<Rightarrow> string list \<Rightarrow> line_res" where
  "keylist_record env pr mode user opd rt fs =
     (case rt of
        RT_NONE \<Rightarrow> Some (opd, no_error)
      | RT_SIG \<Rightarrow> sig_record env pr opd fs
      | RT_REV \<Rightarrow> sig_record env pr opd fs
      | RT_FPR \<Rightarrow> on_key opd [on_field fs 10 (fpr_step env), on_field fs 13 (chain_step env)]
      | RT_GRP \<Rightarrow> on_key opd [on_field fs 10 (grp_step env)]
      | _ \<Rightarrow>
          if rt = RT_PUB \<or> rt = RT_SEC \<or> rt = RT_CRT \<or> rt = RT_CRS then pub_record env pr mode user opd rt fs
          else case kl_tmp_key opd of
            None \<Rightarrow> None
          | Some key \<Rightarrow>
              if rt = RT_SUB \<or> rt = RT_SSB then sub_record env pr mode opd key rt fs
              else if rt = RT_UID then uid_record env opd key fs
              else if rt = RT_TFS then tfs_line env opd key fs
              else spk_record env opd key fs)"

definition clear_marks :: "rectype \<Rightarrow> op_keylist \<Rightarrow> op_keylist" where
  "clear_marks rt opd =
     opd\<lparr>kl_tmp_uid := (if rt = RT_SIG \<or> rt = RT_REV \<or> rt = RT_TFS then kl_tmp_uid opd else None),
         kl_tmp_keysig := (if rt = RT_SPK then kl_tmp_keysig opd else None)\<rparr>"

text \<open>The handler on its operation data; no line stands for the end of the listing.\<close>

definition keylist_line ::
    "op_env \<Rightarrow> gpgme_protocol_t \<Rightarrow> 32 word \<Rightarrow> bool \<Rightarrow> op_keylist \<Rightarrow> string option \<Rightarrow> line_res" where
  "keylist_line env pr mode user opd line =
     (case line of
        None \<Rightarrow> Some (finish_key env user opd, no_error)
      | Some l \<Rightarrow>
          (let fs = colon_fields l;
               rt = rectype_of (hd fs) (kl_tmp_key opd \<noteq> None)
           in keylist_record env pr mode user (clear_marks rt opd) rt fs))"

definition keylist_colon_handler :: "op_env \<Rightarrow> gpgme_ctx \<Rightarrow> string option \<Rightarrow> (gpgme_ctx \<times> gpgme_error_t) option" where
  "keylist_colon_handler env ctx line =
     (case get_hook OPDATA_KEYLIST ctx of
        Some (HKeylist opd) \<Rightarrow>
          (case keylist_line env (ctx_protocol ctx) (ctx_keylist_mode ctx) (ctx_user_loop ctx) opd line of
             None \<Rightarrow> None | Some (opd1, e) \<Rightarrow> Some (put_hook (HKeylist opd1) ctx, e))
      | _ \<Rightarrow> None)"

section \<open>Status lines and result\<close>

definition keylist_status_handler :: "op_env \<Rightarrow> gpgme_ctx handler" where
  "keylist_status_handler env ctx code args =
     (case get_hook OPDATA_KEYLIST ctx of
        Some (HKeylist opd) \<Rightarrow>
          if code = GPGME_STATUS_TRUNCATED then
            Some (put_hook (HKeylist (opd\<lparr>kl_truncated := True\<rparr>)) ctx, args, no_error)
          else if code = GPGME_STATUS_ERROR then
            (case gpgme_parse_failure env args of
               (args1, e) \<Rightarrow>
                 Some (if kl_search_err opd = no_error \<and> args1 = ''keydb_search''
                       then put_hook (HKeylist (opd\<lparr>kl_search_err := e\<rparr>)) ctx else ctx, args1, no_error))
          else Some (ctx, args, no_error)
      | _ \<Rightarrow> None)"

definition gpgme_op_keylist_result :: "gpgme_ctx \<Rightarrow> bool option" where
  "gpgme_op_keylist_result ctx =
     (case get_hook OPDATA_KEYLIST ctx of Some (HKeylist opd) \<Rightarrow> Some (kl_truncated opd) | _ \<Rightarrow> None)"

section \<open>Starting a listing\<close>

definition keylist_init :: "op_env \<Rightarrow> gpgme_ctx \<Rightarrow> start_res" where
  "keylist_init env ctx =
     (case gpgme_op_data_lookup env (Some ctx) OPDATA_KEYLIST 1 of
        (Some ctx1, _, e) \<Rightarrow> Some (ctx1, e) | _ \<Rightarrow> None)"

definition keylist_launch :: "op_env \<Rightarrow> engine_api \<Rightarrow> engine_op \<Rightarrow> gpgme_ctx \<Rightarrow> start_res" where
  "keylist_launch env api op ctx =
     then_start (Some (gpgme_op_reset api ctx 2 False)) (\<lambda>c1.
     then_start (keylist_init env c1) (\<lambda>c2.
     then_start (Some (gpgme_engine_set_colon_line_handler api
                         (gpgme_engine_set_status_handler api KeylistHandler c2)))
       (\<lambda>c3. Some (c3, gpgme_engine_op api op c3))))"

definition gpgme_op_keylist_start :: "op_env \<Rightarrow> engine_api \<Rightarrow> gpgme_ctx option \<Rightarrow> entry_res" where
  "gpgme_op_keylist_start env api c = entry_async GPG_ERR_INV_VALUE (keylist_launch env api OpKeylist) c"

definition gpgme_op_keylist_ext_start :: "op_env \<Rightarrow> engine_api \<Rightarrow> gpgme_ctx option \<Rightarrow> entry_res" where
  "gpgme_op_keylist_ext_start env api c = entry_async GPG_ERR_INV_VALUE (keylist_launch env api OpKeylistExt) c"

definition gpgme_op_keylist_from_data_start ::
    "op_env \<Rightarrow> engine_api \<Rightarrow> gpgme_ctx option \<Rightarrow> bool \<Rightarrow> bool \<Rightarrow> entry_res" where
  "gpgme_op_keylist_from_data_start env api c data reserved =
     (if c = None \<or> \<not> data \<or> reserved then Some (c, gpg_error GPG_ERR_INV_VALUE)
      else entry_async GPG_ERR_INV_VALUE (keylist_launch env api OpKeylistData) c)"

definition gpgme_op_keylist_end :: "gpgme_ctx option \<Rightarrow> gpgme_error_t" where
  "gpgme_op_keylist_end c = (if c = None then gpg_error GPG_ERR_INV_VALUE else no_error)"

section \<open>Waiting for keys\<close>

text \<open>
  What a callback of the engine delivers: a colon line or the end of the listing, a status line,
  an error of the engine, or nothing yet. A round is what one call of \<open>_gpgme_io_select\<close> makes
  available; the file descriptors are closed after the last round. \<open>strict\<close> tells whether the
  engine passes on an error of the colon line handler: \<open>engine-gpgsm.c\<close> does, \<open>engine-gpg.c\<close>
  ignores it.
\<close>

datatype kl_event = KLine "string option" | KStatus int string | KFail gpgme_error_t | KNone

definition run_event :: "op_env \<Rightarrow> bool \<Rightarrow> gpgme_ctx \<Rightarrow> kl_event \<Rightarrow> (gpgme_ctx \<times> gpgme_error_t) option" where
  "run_event env strict ctx ev =
     (case ev of
        KLine l \<Rightarrow> map_option (\<lambda>(c, e). (c, if strict then e else no_error)) (keylist_colon_handler env ctx l)
      | KStatus code args \<Rightarrow> map_option (\<lambda>(c, a, e). (c, e)) (keylist_status_handler env ctx code args)
      | KFail e \<Rightarrow> Some (ctx, e)
      | KNone \<Rightarrow> Some (ctx, no_error))"

fun run_events :: "op_env \<Rightarrow> bool \<Rightarrow> gpgme_ctx \<Rightarrow> kl_event list \<Rightarrow> (gpgme_ctx \<times> gpgme_error_t) option" where
  "run_events env strict ctx [] = Some (ctx, no_error)"
| "run_events env strict ctx (ev # evs) =
     (case run_event env strict ctx ev of
        None \<Rightarrow> None
      | Some (c, e) \<Rightarrow> if is_err e then Some (c, e) else run_events env strict c evs)"

definition key_cond :: "gpgme_ctx \<Rightarrow> bool" where
  "key_cond ctx = (case get_hook OPDATA_KEYLIST ctx of Some (HKeylist opd) \<Rightarrow> kl_key_cond opd | _ \<Rightarrow> False)"

text \<open>
  \<open>_gpgme_wait_on_condition\<close> with the condition \<open>key_cond\<close>. The results are the context, the
  rounds still to come and the error; on an error the engine is cancelled, which closes its
  file descriptors.
\<close>

fun gpgme_wait_on_condition ::
    "op_env \<Rightarrow> bool \<Rightarrow> gpgme_ctx \<Rightarrow> kl_event list list \<Rightarrow>
     (gpgme_ctx \<times> kl_event list list \<times> gpgme_error_t) option" where
  "gpgme_wait_on_condition env strict ctx [] = Some (ctx, [], no_error)"
| "gpgme_wait_on_condition env strict ctx (r # rs) =
     (if r \<noteq> [] \<and> ctx_canceled ctx then Some (ctx, [], gpg_error GPG_ERR_CANCELED)
      else case run_events env strict ctx r of
        None \<Rightarrow> None
      | Some (c, e) \<Rightarrow>
          if is_err e then Some (c, [], e)
          else if rs = [] \<or> key_cond c then Some (c, rs, no_error)
          else gpgme_wait_on_condition env strict c rs)"

type_synonym next_res = "(gpgme_ctx option \<times> kl_event list list \<times> gpgme_key option \<times> gpgme_error_t) option"

text \<open>Taking the first key out of the queue.\<close>

definition pop_key :: "op_keylist \<Rightarrow> gpgme_ctx \<Rightarrow> kl_event list list \<Rightarrow> next_res" where
  "pop_key opd ctx rs =
     (case kl_queue opd of
        [] \<Rightarrow> None
      | k # ks \<Rightarrow>
          Some (Some (put_hook (HKeylist (opd\<lparr>kl_queue := ks,
                        kl_key_cond := (ks \<noteq> [] \<and> kl_key_cond opd)\<rparr>)) ctx), rs, Some k, no_error))"

definition keylist_next_wait :: "op_env \<Rightarrow> bool \<Rightarrow> gpgme_ctx \<Rightarrow> kl_event list list \<Rightarrow> next_res" where
  "keylist_next_wait env strict ctx rs =
     (case gpgme_wait_on_condition env strict ctx rs of
        None \<Rightarrow> None
      | Some (c, rs1, e) \<Rightarrow>
          if is_err e then Some (Some c, rs1, None, e)
          else case get_hook OPDATA_KEYLIST c of
            Some (HKeylist opd) \<Rightarrow>
              if kl_key_cond opd then pop_key (opd\<lparr>kl_key_cond := False\<rparr>) c rs1
              else Some (Some c, rs1, None,
                         if is_err (kl_search_err opd) then kl_search_err opd else gpg_error GPG_ERR_EOF)
          | _ \<Rightarrow> None)"

definition gpgme_op_keylist_next ::
    "op_env \<Rightarrow> bool \<Rightarrow> gpgme_ctx option \<Rightarrow> bool \<Rightarrow> kl_event list list \<Rightarrow> next_res" where
  "gpgme_op_keylist_next env strict c r_key rs =
     (if c = None \<or> \<not> r_key then Some (c, rs, None, gpg_error GPG_ERR_INV_VALUE)
      else case gpgme_op_data_lookup env c OPDATA_KEYLIST (- 1) of
        (Some ctx, Some (HKeylist opd), e) \<Rightarrow>
          if is_err e then Some (Some ctx, rs, None, e)
          else if kl_queue opd = [] then keylist_next_wait env strict ctx rs
          else pop_key opd ctx rs
      | (c1, None, e) \<Rightarrow> Some (c1, rs, None, if is_err e then e else gpg_error GPG_ERR_INV_VALUE)
      | _ \<Rightarrow> None)"

section \<open>Looking up one key\<close>

text \<open>
  The loop that reads on while the listing repeats the fingerprint of the first key. The key
  found first is kept; the results are the key and the error. Every round but the last yields
  a key, so \<open>fuel\<close> bounds the number of keys that are read.
\<close>

definition first_fpr :: "gpgme_key \<Rightarrow> string option" where
  "first_fpr k = (case key_subkeys k of [] \<Rightarrow> None | s # _ \<Rightarrow> sk_fpr s)"

fun get_key_loop ::
    "op_env \<Rightarrow> bool \<Rightarrow> nat \<Rightarrow> gpgme_key \<Rightarrow> gpgme_ctx option \<Rightarrow> kl_event list list \<Rightarrow> (gpgme_key option \<times> gpgme_error_t) option" where
  "get_key_loop env strict 0 result c rs = None"
| "get_key_loop env strict (Suc fuel) result c rs =
     (case gpgme_op_keylist_next env strict c True rs of
        None \<Rightarrow> None
      | Some (c1, rs1, key, e) \<Rightarrow>
          if gpg_err_code e = GPG_ERR_EOF then Some (Some result, no_error)
          else if is_err e then Some (None, e)
          else (case key of
                  None \<Rightarrow> Some (None, gpg_error GPG_ERR_AMBIGUOUS_NAME)
                | Some k \<Rightarrow>
                    if first_fpr result \<noteq> None \<and> first_fpr k = first_fpr result
                    then get_key_loop env strict fuel result c1 rs1
                    else Some (None, gpg_error GPG_ERR_AMBIGUOUS_NAME)))"

text \<open>The context of the listing: a new one with the protocol and the mode of the given one.\<close>

definition list_context :: "op_env \<Rightarrow> gpgme_globals \<Rightarrow> gpgme_context \<Rightarrow> gpgme_ctx cres" where
  "list_context env g x =
     (case gpgme_new env g True of
        UB \<Rightarrow> UB
      | Err e \<Rightarrow> Err e
      | Ok l0 \<Rightarrow>
          (case gpgme_set_keylist_mode (fst (gpgme_set_protocol (Some l0) (gpgme_get_protocol x))) (gpgme_get_keylist_mode x) of
             (Some l1, _) \<Rightarrow> Ok (cx l1) | _ \<Rightarrow> UB))"

definition gpgme_get_key ::
    "op_env \<Rightarrow> engine_api \<Rightarrow> bool \<Rightarrow> nat \<Rightarrow> gpgme_globals \<Rightarrow> gpgme_context option \<Rightarrow> string option \<Rightarrow> bool \<Rightarrow>
     kl_event list list \<Rightarrow> (gpgme_key option \<times> gpgme_error_t) option" where
  "gpgme_get_key env api strict fuel g c fpr r_key rs =
     (case (c, fpr) of
        (Some x, Some f) \<Rightarrow>
          if \<not> r_key \<or> length f < 8 then Some (None, gpg_error GPG_ERR_INV_VALUE)
          else (case list_context env g x of
                  UB \<Rightarrow> None
                | Err e \<Rightarrow> Some (None, e)
                | Ok l \<Rightarrow>
                    (case gpgme_op_keylist_start env api (Some l) of
                       None \<Rightarrow> None
                     | Some (l1, e1) \<Rightarrow>
                         if is_err e1 then Some (None, e1)
                         else (case gpgme_op_keylist_next env strict l1 True rs of
                                 None \<Rightarrow> None
                               | Some (l2, rs2, key, e2) \<Rightarrow>
                                   if is_err e2 then Some (None, e2)
                                   else (case key of
                                           None \<Rightarrow> None
                                         | Some k \<Rightarrow> get_key_loop env strict fuel k l2 rs2))))
      | _ \<Rightarrow> Some (None, gpg_error GPG_ERR_INV_VALUE))"

end
