(* ===== verification/Gpgme_KeylistProps.thy ===== *)
theory Gpgme_KeylistProps
  imports Gpgme_Keylist
begin

text \<open>
  Properties of key listing. The interface between the line parser and \<open>gpgme_op_keylist_next\<close> is
  the locale \<open>key_producer\<close>: the parser only appends to the queue of finished keys, sets
  \<open>key_cond\<close> when it does, and does not depend on what is in the queue. From these laws alone
  the keys come out of the queue in the order of the listing, however the lines arrive. Then
  come the invariant of the parser and its safety, the lookup of a single key, and their
  witnesses.
\<close>

section \<open>Producers of keys\<close>

type_synonym ('s, 'ev) producer = "'s \<Rightarrow> 'ev \<Rightarrow> ('s \<times> gpgme_error_t) option"

fun produce :: "('s, 'ev) producer \<Rightarrow> 's \<Rightarrow> 'ev list \<Rightarrow> ('s \<times> gpgme_error_t) option" where
  "produce step s [] = Some (s, no_error)"
| "produce step s (ev # evs) =
     (case step s ev of None \<Rightarrow> None | Some (s1, e) \<Rightarrow> if is_err e then Some (s1, e) else produce step s1 evs)"

fun produce_until :: "('s, 'ev) producer \<Rightarrow> ('s \<Rightarrow> bool) \<Rightarrow> 's \<Rightarrow> 'ev list list \<Rightarrow>
    ('s \<times> 'ev list list \<times> gpgme_error_t) option" where
  "produce_until step cond s [] = Some (s, [], no_error)"
| "produce_until step cond s (r # rs) =
     (case produce step s r of
        None \<Rightarrow> None
      | Some (s1, e) \<Rightarrow>
          if is_err e then Some (s1, [], e)
          else if rs = [] \<or> cond s1 then Some (s1, rs, no_error)
          else produce_until step cond s1 rs)"

lemma produce_append:
  "produce step s (xs @ ys) =
     (case produce step s xs of None \<Rightarrow> None | Some (s1, e) \<Rightarrow> if is_err e then Some (s1, e) else produce step s1 ys)"
  by (induction xs arbitrary: s) (auto split: option.splits prod.splits)

locale key_producer =
  fixes step :: "('s, 'ev) producer" and queue :: "'s \<Rightarrow> 'k list" and cond :: "'s \<Rightarrow> bool"
    and frame :: "'k list \<Rightarrow> bool \<Rightarrow> 's \<Rightarrow> 's"
  assumes queue_frame: "queue (frame q b s) = q @ queue s"
    and cond_frame: "cond (frame q b s) \<longleftrightarrow> b \<or> cond s"
    and step_frame: "step (frame q b s) ev = map_option (apfst (frame q b)) (step s ev)"
    and step_grows: "step s ev = Some (s1, e) \<Longrightarrow> \<exists>q. queue s1 = queue s @ q \<and> (cond s1 \<longleftrightarrow> cond s \<or> q \<noteq> [])"
begin

lemma produce_frame:
  "produce step (frame q b s) evs = map_option (apfst (frame q b)) (produce step s evs)"
proof (induction evs arbitrary: s)
  case (Cons ev evs)
  show ?case
  proof (cases "step s ev")
    case (Some r)
    then show ?thesis using Cons.IH by (cases r) (auto simp: step_frame)
  qed (simp add: step_frame)
qed simp

lemma produce_grows:
  "produce step s evs = Some (s1, e) \<Longrightarrow> \<exists>q. queue s1 = queue s @ q \<and> (cond s1 \<longleftrightarrow> cond s \<or> q \<noteq> [])"
proof (induction evs arbitrary: s)
  case (Cons ev evs)
  obtain s2 e2 where st: "step s ev = Some (s2, e2)" using Cons.prems by (auto split: option.splits)
  obtain q2 where q2: "queue s2 = queue s @ q2" "cond s2 \<longleftrightarrow> cond s \<or> q2 \<noteq> []" using step_grows [OF st] by blast
  show ?case
  proof (cases "is_err e2")
    case True
    then show ?thesis using Cons.prems st q2 by auto
  next
    case False
    then obtain q3 where "queue s1 = queue s2 @ q3" "cond s1 \<longleftrightarrow> cond s2 \<or> q3 \<noteq> []"
      using Cons.prems st Cons.IH [of s2] by auto
    then have "queue s1 = queue s @ (q2 @ q3)" "cond s1 \<longleftrightarrow> cond s \<or> q2 @ q3 \<noteq> []" using q2 by auto
    then show ?thesis by blast
  qed
qed auto

text \<open>Waiting stops at a state from which the same final state is reached.\<close>

lemma wait_reaches:
  assumes "produce step s (concat rs) = Some (f, no_error)" and "cond s \<longrightarrow> queue s \<noteq> []"
  shows "\<exists>s1 rs1. produce_until step cond s rs = Some (s1, rs1, no_error)
           \<and> produce step s1 (concat rs1) = Some (f, no_error)
           \<and> (cond s1 \<longrightarrow> queue s1 \<noteq> []) \<and> (\<not> cond s1 \<longrightarrow> s1 = f \<and> rs1 = [])"
  using assms
proof (induction rs arbitrary: s)
  case Nil
  then show ?case by auto
next
  case (Cons r rs)
  obtain s1 where r: "produce step s r = Some (s1, no_error)" "produce step s1 (concat rs) = Some (f, no_error)"
    using Cons.prems(1) by (auto simp: produce_append split: option.splits prod.splits if_splits)
  have c1: "cond s1 \<longrightarrow> queue s1 \<noteq> []" using produce_grows [OF r(1)] Cons.prems(2) by auto
  show ?case
  proof (cases "rs = [] \<or> cond s1")
    case True
    then show ?thesis using r c1 by auto
  next
    case False
    then show ?thesis using Cons.IH [OF r(2) c1] r(1) by simp
  qed
qed

text \<open>Taking the first key away leaves the rest of the stream.\<close>

lemma pop_stream:
  assumes f: "produce step (frame [k] b s) evs = Some (f, no_error)"
  shows "\<exists>f1. produce step s evs = Some (f1, no_error) \<and> f = frame [k] b f1"
  using f by (cases "produce step s evs") (auto simp: produce_frame)

end

section \<open>The parser is a producer\<close>

definition kframe :: "gpgme_key list \<Rightarrow> bool \<Rightarrow> op_keylist \<Rightarrow> op_keylist" where
  "kframe q b opd = opd\<lparr>kl_queue := q @ kl_queue opd, kl_key_cond := (b \<or> kl_key_cond opd)\<rparr>"

lemma kframe_sel [simp]:
  "kl_queue (kframe q b opd) = q @ kl_queue opd" "kl_key_cond (kframe q b opd) \<longleftrightarrow> b \<or> kl_key_cond opd"
  "kl_truncated (kframe q b opd) = kl_truncated opd" "kl_search_err (kframe q b opd) = kl_search_err opd"
  "kl_tmp_key (kframe q b opd) = kl_tmp_key opd" "kl_tmp_uid (kframe q b opd) = kl_tmp_uid opd"
  "kl_tmp_keysig (kframe q b opd) = kl_tmp_keysig opd"
  by (simp_all add: kframe_def)

lemma kframe_upd [simp]:
  "(kframe q b opd)\<lparr>kl_tmp_key := k\<rparr> = kframe q b (opd\<lparr>kl_tmp_key := k\<rparr>)"
  "(kframe q b opd)\<lparr>kl_tmp_uid := i\<rparr> = kframe q b (opd\<lparr>kl_tmp_uid := i\<rparr>)"
  "(kframe q b opd)\<lparr>kl_tmp_keysig := i\<rparr> = kframe q b (opd\<lparr>kl_tmp_keysig := i\<rparr>)"
  "(kframe q b opd)\<lparr>kl_truncated := t\<rparr> = kframe q b (opd\<lparr>kl_truncated := t\<rparr>)"
  "(kframe q b opd)\<lparr>kl_search_err := e\<rparr> = kframe q b (opd\<lparr>kl_search_err := e\<rparr>)"
  by (simp_all add: kframe_def)

abbreviation kf :: "gpgme_key list \<Rightarrow> bool \<Rightarrow> line_res \<Rightarrow> line_res" where
  "kf q b \<equiv> map_option (apfst (kframe q b))"

lemma finish_key_frame: "finish_key env user (kframe q b opd) = kframe q b (finish_key env user opd)"
  by (auto simp: finish_key_def keylist_event_cb_def kframe_def Let_def split: option.splits)

lemma on_key_frame: "on_key (kframe q b opd) steps = kf q b (on_key opd steps)"
  by (auto simp: on_key_def split: option.splits)

lemma pub_record_frame: "pub_record env pr mode user (kframe q b opd) rt fs = kf q b (pub_record env pr mode user opd rt fs)"
  by (simp add: pub_record_def Let_def finish_key_frame on_key_frame split: cres.splits)

lemma sub_record_frame: "sub_record env pr mode (kframe q b opd) key rt fs = kf q b (sub_record env pr mode opd key rt fs)"
  by (simp add: sub_record_def Let_def on_key_frame split: cres.splits)

lemma uid_record_frame: "uid_record env (kframe q b opd) key fs = kf q b (uid_record env opd key fs)"
  by (simp add: uid_record_def Let_def split: cres.splits option.splits)

lemma tfs_line_frame: "tfs_line env (kframe q b opd) key fs = kf q b (tfs_line env opd key fs)"
  by (simp add: tfs_line_def split: option.splits prod.splits)

lemma sig_record_frame: "sig_record env pr (kframe q b opd) fs = kf q b (sig_record env pr opd fs)"
  by (simp add: sig_record_def split: cres.splits option.splits)

lemma spk_record_frame: "spk_record env (kframe q b opd) key fs = kf q b (spk_record env opd key fs)"
  by (simp add: spk_record_def split: cres.splits option.splits)

lemmas record_frames = on_key_frame pub_record_frame sub_record_frame uid_record_frame tfs_line_frame
  sig_record_frame spk_record_frame

lemma clear_marks_frame: "clear_marks rt (kframe q b opd) = kframe q b (clear_marks rt opd)"
  by (simp add: clear_marks_def kframe_def)

lemma keylist_record_frame:
  "keylist_record env pr mode user (kframe q b opd) rt fs = kf q b (keylist_record env pr mode user opd rt fs)"
  by (cases rt) (simp_all add: keylist_record_def record_frames split: option.splits)

lemma keylist_line_frame:
  "keylist_line env pr mode user (kframe q b opd) line = kf q b (keylist_line env pr mode user opd line)"
  by (simp add: keylist_line_def Let_def clear_marks_frame keylist_record_frame finish_key_frame split: option.splits)

text \<open>What a call adds to the queue.\<close>

definition grows :: "op_keylist \<Rightarrow> op_keylist \<Rightarrow> bool" where
  "grows a b \<longleftrightarrow> (\<exists>q. kl_queue b = kl_queue a @ q \<and> (kl_key_cond b \<longleftrightarrow> kl_key_cond a \<or> q \<noteq> []))"

lemma grows_same: "kl_queue b = kl_queue a \<Longrightarrow> kl_key_cond b = kl_key_cond a \<Longrightarrow> grows a b"
  by (simp add: grows_def)

lemma grows_finish: "grows opd (finish_key env user opd)"
  by (auto simp: grows_def finish_key_def keylist_event_cb_def Let_def split: option.splits)

lemma on_key_keeps:
  "on_key opd steps = Some (o1, e) \<Longrightarrow> kl_queue o1 = kl_queue opd \<and> kl_key_cond o1 = kl_key_cond opd"
  by (auto simp: on_key_def split: option.splits)

lemma pub_record_grows: "pub_record env pr mode user opd rt fs = Some (o1, e) \<Longrightarrow> grows opd o1"
  using grows_finish [of opd env user]
  by (auto simp: pub_record_def Let_def grows_def dest!: on_key_keeps split: cres.splits)

lemma sub_record_grows: "sub_record env pr mode opd key rt fs = Some (o1, e) \<Longrightarrow> grows opd o1"
  by (auto simp: sub_record_def Let_def dest!: on_key_keeps intro: grows_same split: cres.splits)

lemma other_records_grow:
  "uid_record env opd key fs = Some (o1, e) \<Longrightarrow> grows opd o1"
  "tfs_line env opd key fs = Some (o1, e) \<Longrightarrow> grows opd o1"
  "sig_record env pr opd fs = Some (o1, e) \<Longrightarrow> grows opd o1"
  "spk_record env opd key fs = Some (o1, e) \<Longrightarrow> grows opd o1"
  "on_key opd steps = Some (o1, e) \<Longrightarrow> grows opd o1"
  by (auto simp: uid_record_def tfs_line_def sig_record_def spk_record_def Let_def
      intro!: grows_same dest!: on_key_keeps split: cres.splits option.splits prod.splits if_split_asm)

lemma keylist_record_grows:
  assumes "keylist_record env pr mode user opd rt fs = Some (o1, e)"
  shows "grows opd o1"
  using assms
  by (cases rt) (auto simp: keylist_record_def intro: other_records_grow pub_record_grows sub_record_grows
      grows_same split: option.splits)

lemma keylist_line_grows:
  assumes "keylist_line env pr mode user opd line = Some (o1, e)"
  shows "grows opd o1"
proof (cases line)
  case None
  then show ?thesis using assms grows_finish by (auto simp: keylist_line_def)
next
  case (Some l)
  then have "grows (clear_marks (rectype_of (hd (colon_fields l)) (kl_tmp_key opd \<noteq> None)) opd) o1"
    using assms keylist_record_grows by (auto simp: keylist_line_def Let_def)
  then show ?thesis by (simp add: grows_def clear_marks_def)
qed

text \<open>The effect of an event on the operation data; \<open>P\<close> is the part of the context that the parser reads.\<close>

definition status_opd :: "op_env \<Rightarrow> int \<Rightarrow> string \<Rightarrow> op_keylist \<Rightarrow> op_keylist" where
  "status_opd env code args opd =
     (if code = GPGME_STATUS_TRUNCATED then opd\<lparr>kl_truncated := True\<rparr>
      else if code = GPGME_STATUS_ERROR \<and> kl_search_err opd = no_error
           \<and> fst (gpgme_parse_failure env args) = ''keydb_search''
      then opd\<lparr>kl_search_err := snd (gpgme_parse_failure env args)\<rparr> else opd)"

definition opd_event :: "op_env \<Rightarrow> gpgme_ctx \<Rightarrow> bool \<Rightarrow> (op_keylist, kl_event) producer" where
  "opd_event env P strict opd ev =
     (case ev of
        KLine l \<Rightarrow> map_option (\<lambda>(o1, e). (o1, if strict then e else no_error))
                     (keylist_line env (ctx_protocol P) (ctx_keylist_mode P) (ctx_user_loop P) opd l)
      | KStatus code args \<Rightarrow> Some (status_opd env code args opd, no_error)
      | KFail e \<Rightarrow> Some (opd, e)
      | KNone \<Rightarrow> Some (opd, no_error))"

lemma status_opd_frame: "status_opd env code args (kframe q b opd) = kframe q b (status_opd env code args opd)"
  by (simp add: status_opd_def)

lemma opd_event_frame:
  "opd_event env P strict (kframe q b opd) ev = kf q b (opd_event env P strict opd ev)"
  by (cases ev) (auto simp: opd_event_def keylist_line_frame status_opd_frame option.map_comp comp_def
      case_prod_beta apfst_def map_prod_def intro!: option.map_cong)

lemma opd_event_grows:
  assumes "opd_event env P strict opd ev = Some (o1, e)"
  shows "\<exists>q. kl_queue o1 = kl_queue opd @ q \<and> (kl_key_cond o1 \<longleftrightarrow> kl_key_cond opd \<or> q \<noteq> [])"
  using assms keylist_line_grows
  by (cases ev) (force simp: opd_event_def status_opd_def grows_def split: if_split_asm)+

interpretation kp: key_producer "opd_event env P strict" kl_queue kl_key_cond kframe
  for env P strict
  by unfold_locales (auto simp: opd_event_frame intro: opd_event_grows)

section \<open>From the operation data to the context\<close>

definition kl_hook :: "gpgme_ctx \<Rightarrow> op_keylist \<Rightarrow> bool" where
  "kl_hook c opd \<longleftrightarrow> get_hook OPDATA_KEYLIST c = Some (HKeylist opd)"

abbreviation kput :: "gpgme_ctx \<Rightarrow> op_keylist \<Rightarrow> gpgme_ctx" where
  "kput c opd \<equiv> put_hook (HKeylist opd) c"

lemma op_write_write: "hook_id a = hook_id b \<Longrightarrow> op_write a (op_write b hs) = op_write a hs"
  by (induction hs) auto

lemma op_write_same: "op_find i hs = Some h \<Longrightarrow> op_write h hs = hs"
  by (induction hs) (auto simp: op_find_Cons dest: op_find_ident split: if_split_asm)

lemma kput_kput [simp]: "kput (kput c a) b = kput c b"
  by (simp add: put_hook_def op_write_write)

lemma kput_same: "kl_hook c opd \<Longrightarrow> kput c opd = c"
  by (simp add: kl_hook_def get_hook_def put_hook_def op_write_same)

lemma kl_hook_kput [simp]: "kl_hook c opd \<Longrightarrow> kl_hook (kput c o1) o1"
  by (auto simp: kl_hook_def get_hook_def put_hook_def op_find_write)

lemma kput_frame [simp]:
  "ctx_keylist_mode (kput c opd) = ctx_keylist_mode c" "ctx_user_loop (kput c opd) = ctx_user_loop c"
  "ctx_protocol (kput c opd) = ctx_protocol c" "ctx_canceled (kput c opd) = ctx_canceled c"
  by (simp_all add: put_hook_def)

lemma opd_event_context [simp]: "opd_event env (kput c opd) = opd_event env c"
  by (intro ext) (simp add: opd_event_def split: kl_event.splits)

lemma run_event_lift:
  assumes "kl_hook c opd"
  shows "run_event env strict c ev = map_option (apfst (kput c)) (opd_event env c strict opd ev)"
  using assms kput_same [OF assms]
  by (cases ev) (auto simp: run_event_def opd_event_def keylist_colon_handler_def keylist_status_handler_def
      kl_hook_def status_opd_def option.map_comp comp_def case_prod_beta split: option.splits)

lemma run_events_lift:
  assumes "kl_hook c opd"
  shows "run_events env strict c evs = map_option (apfst (kput c)) (produce (opd_event env c strict) opd evs)"
  using assms
proof (induction evs arbitrary: c opd)
  case Nil
  then show ?case by (simp add: kput_same)
next
  case (Cons ev evs)
  show ?case
  proof (cases "opd_event env c strict opd ev")
    case (Some r)
    obtain o1 e where r: "r = (o1, e)" by fastforce
    then show ?thesis using Some Cons.IH [of "kput c o1" o1] Cons.prems
      by (simp add: run_event_lift comp_def)
  qed (simp add: run_event_lift [OF Cons.prems])
qed

lemma key_cond_lift: "kl_hook c opd \<Longrightarrow> key_cond c = kl_key_cond opd"
  by (simp add: key_cond_def kl_hook_def)

lemma wait_lift:
  assumes "kl_hook c opd" and "\<not> ctx_canceled c"
  shows "gpgme_wait_on_condition env strict c rs =
           map_option (apfst (kput c)) (produce_until (opd_event env c strict) kl_key_cond opd rs)"
  using assms
proof (induction rs arbitrary: c opd)
  case Nil
  then show ?case by (simp add: kput_same)
next
  case (Cons r rs)
  show ?case
  proof (cases "produce (opd_event env c strict) opd r")
    case (Some x)
    obtain o1 e where x: "x = (o1, e)" by fastforce
    then show ?thesis using Some Cons.IH [of "kput c o1" o1] Cons.prems
      by (simp add: run_events_lift key_cond_lift [of "kput c o1" o1] comp_def)
  qed (simp add: run_events_lift [OF Cons.prems(1)] Cons.prems(2))
qed

section \<open>Keys arrive in order\<close>

text \<open>The keys a listing still has to deliver: those in the queue and those the remaining lines will make.\<close>

definition keys_left :: "op_env \<Rightarrow> bool \<Rightarrow> gpgme_ctx \<Rightarrow> kl_event list list \<Rightarrow> gpgme_key list option" where
  "keys_left env strict c rs =
     (case run_events env strict c (concat rs) of
        Some (c1, e) \<Rightarrow>
          if is_err e then None
          else (case get_hook OPDATA_KEYLIST c1 of Some (HKeylist opd) \<Rightarrow> Some (kl_queue opd) | _ \<Rightarrow> None)
      | None \<Rightarrow> None)"

text \<open>A listing that can be read: its operation data are there, and it was not cancelled.\<close>

definition listing_ok :: "gpgme_ctx \<Rightarrow> bool" where
  "listing_ok c \<longleftrightarrow> (\<exists>opd. kl_hook c opd \<and> (kl_key_cond opd \<longrightarrow> kl_queue opd \<noteq> [])) \<and> \<not> ctx_canceled c"

text \<open>What \<open>gpgme_op_keylist_next\<close> reports when there are no more keys.\<close>

definition end_error :: "op_env \<Rightarrow> bool \<Rightarrow> gpgme_ctx \<Rightarrow> kl_event list list \<Rightarrow> gpgme_error_t" where
  "end_error env strict c rs =
     (case run_events env strict c (concat rs) of
        Some (c1, _) \<Rightarrow>
          (case get_hook OPDATA_KEYLIST c1 of
             Some (HKeylist opd) \<Rightarrow> if is_err (kl_search_err opd) then kl_search_err opd else gpg_error GPG_ERR_EOF
           | _ \<Rightarrow> gpg_error GPG_ERR_EOF)
      | None \<Rightarrow> gpg_error GPG_ERR_EOF)"

lemma keys_left_lift:
  assumes "kl_hook c opd"
  shows "keys_left env strict c rs = Some ks \<longleftrightarrow>
           (\<exists>f. produce (opd_event env c strict) opd (concat rs) = Some (f, no_error) \<and> kl_queue f = ks)"
proof -
  have "get_hook OPDATA_KEYLIST (kput c f) = Some (HKeylist f)" for f
    using kl_hook_kput [OF assms, of f] by (simp add: kl_hook_def)
  then show ?thesis by (auto simp: keys_left_def run_events_lift [OF assms] split: option.splits)
qed

lemma end_error_lift:
  assumes "kl_hook c opd" and "produce (opd_event env c strict) opd (concat rs) = Some (f, no_error)"
  shows "end_error env strict c rs = (if is_err (kl_search_err f) then kl_search_err f else gpg_error GPG_ERR_EOF)"
  using assms(2) kl_hook_kput [OF assms(1), of f]
  by (simp add: end_error_def run_events_lift [OF assms(1)] kl_hook_def)

lemma next_lookup:
  assumes "kl_hook c opd"
  shows "gpgme_op_keylist_next env strict (Some c) True rs =
     (if kl_queue opd = [] then keylist_next_wait env strict c rs else pop_key opd c rs)"
  using assms by (simp add: gpgme_op_keylist_next_def gpgme_op_data_lookup_def kl_hook_def get_hook_def)

text \<open>Taking a key out of a queue that is not empty.\<close>

lemma pop_key_stream:
  assumes h: "kl_hook c opd" and nc: "\<not> ctx_canceled c"
    and f: "produce (opd_event env c strict) (opd\<lparr>kl_key_cond := b\<rparr>) (concat rs) = Some (f, no_error)"
    and q: "kl_queue opd = k # q" and b: "kl_key_cond opd1 = b" "opd1 = opd\<lparr>kl_key_cond := b\<rparr>"
  shows "\<exists>c1. pop_key opd1 c rs = Some (Some c1, rs, Some k, no_error) \<and> listing_ok c1
           \<and> keys_left env strict c1 rs = Some (tl (kl_queue f)) \<and> hd (kl_queue f) = k \<and> kl_queue f \<noteq> []
           \<and> end_error env strict c1 rs = (if is_err (kl_search_err f) then kl_search_err f else gpg_error GPG_ERR_EOF)"
proof -
  let ?o = "opd1\<lparr>kl_queue := q, kl_key_cond := (q \<noteq> [] \<and> kl_key_cond opd1)\<rparr>"
  have fr: "opd\<lparr>kl_key_cond := b\<rparr> = kframe [k] b ?o" using q b by (cases opd) (auto simp: kframe_def)
  obtain g where g: "produce (opd_event env c strict) ?o (concat rs) = Some (g, no_error)" "f = kframe [k] b g"
    using kp.pop_stream [OF f [unfolded fr]] by blast
  have hk: "kl_hook (kput c ?o) ?o" using h by simp
  have "keys_left env strict (kput c ?o) rs = Some (kl_queue g)" using keys_left_lift [OF hk] g(1) by simp
  moreover have "end_error env strict (kput c ?o) rs
      = (if is_err (kl_search_err f) then kl_search_err f else gpg_error GPG_ERR_EOF)"
    using end_error_lift [OF hk, of env strict rs g] g by simp
  moreover have "listing_ok (kput c ?o)" using hk nc by (auto simp: listing_ok_def)
  moreover have "pop_key opd1 c rs = Some (Some (kput c ?o), rs, Some k, no_error)"
    using q b by (simp add: pop_key_def)
  ultimately show ?thesis using g(2) by auto
qed

lemma next_delivers:
  assumes ok: "listing_ok c" and left: "keys_left env strict c rs = Some (k # ks)"
  shows "\<exists>c1 rs1. gpgme_op_keylist_next env strict (Some c) True rs = Some (Some c1, rs1, Some k, no_error)
           \<and> listing_ok c1 \<and> keys_left env strict c1 rs1 = Some ks \<and> end_error env strict c1 rs1 = end_error env strict c rs"
proof -
  obtain opd where h: "kl_hook c opd" "kl_key_cond opd \<longrightarrow> kl_queue opd \<noteq> []" and nc: "\<not> ctx_canceled c"
    using ok by (auto simp: listing_ok_def)
  obtain f where f: "produce (opd_event env c strict) opd (concat rs) = Some (f, no_error)" "kl_queue f = k # ks"
    using left keys_left_lift [OF h(1)] by auto
  note ee = end_error_lift [OF h(1) f(1)]
  show ?thesis
  proof (cases "kl_queue opd")
    case (Cons k1 q)
    have "opd\<lparr>kl_key_cond := kl_key_cond opd\<rparr> = opd" by simp
    then show ?thesis
      using pop_key_stream [OF h(1) nc _ Cons, of env strict "kl_key_cond opd" rs f opd] f ee Cons
      by (auto simp: next_lookup [OF h(1)])
  next
    case Nil
    obtain s1 rs1 where w: "produce_until (opd_event env c strict) kl_key_cond opd rs = Some (s1, rs1, no_error)"
      "produce (opd_event env c strict) s1 (concat rs1) = Some (f, no_error)"
      "kl_key_cond s1 \<longrightarrow> kl_queue s1 \<noteq> []" "\<not> kl_key_cond s1 \<longrightarrow> s1 = f \<and> rs1 = []"
      using kp.wait_reaches [OF f(1) h(2)] by blast
    have gr: "\<exists>q. kl_queue f = kl_queue s1 @ q \<and> (kl_key_cond f \<longleftrightarrow> kl_key_cond s1 \<or> q \<noteq> [])"
      by (rule kp.produce_grows [OF w(2)])
    have "\<exists>q. kl_queue f = kl_queue opd @ q \<and> (kl_key_cond f \<longleftrightarrow> kl_key_cond opd \<or> q \<noteq> [])"
      by (rule kp.produce_grows [OF f(1)])
    then have cf: "kl_key_cond f" using f(2) Nil by auto
    have c1: "kl_key_cond s1" using w(4) cf by auto
    then obtain k1 q where q1: "kl_queue s1 = k1 # q" using w(3) by (cases "kl_queue s1") auto
    have fr: "s1 = kframe [] True (s1\<lparr>kl_key_cond := False\<rparr>)" using c1 by (cases s1) (simp add: kframe_def)
    obtain g where g: "produce (opd_event env c strict) (s1\<lparr>kl_key_cond := False\<rparr>) (concat rs1) = Some (g, no_error)"
      "f = kframe [] True g"
    proof -
      have "produce (opd_event env c strict) (kframe [] True (s1\<lparr>kl_key_cond := False\<rparr>)) (concat rs1) = Some (f, no_error)"
        using w(2) fr by simp
      then show ?thesis using that
        by (cases "produce (opd_event env c strict) (s1\<lparr>kl_key_cond := False\<rparr>) (concat rs1)")
           (auto simp: kp.produce_frame)
    qed
    have hk: "kl_hook (kput c s1) s1" "\<not> ctx_canceled (kput c s1)" using h nc by simp_all
    have "keylist_next_wait env strict c rs = pop_key (s1\<lparr>kl_key_cond := False\<rparr>) (kput c s1) rs1"
      using w(1) c1 hk(1) by (simp add: keylist_next_wait_def wait_lift [OF h(1) nc] kl_hook_def)
    then show ?thesis
      using pop_key_stream [OF hk, of env strict False rs1 g k1 q "s1\<lparr>kl_key_cond := False\<rparr>"] g q1 f(2) ee Nil
      by (auto simp: next_lookup [OF h(1)])
  qed
qed

lemma next_at_end:
  assumes ok: "listing_ok c" and left: "keys_left env strict c rs = Some []"
  shows "\<exists>c1. gpgme_op_keylist_next env strict (Some c) True rs = Some (Some c1, [], None, end_error env strict c rs)"
proof -
  obtain opd where h: "kl_hook c opd" "kl_key_cond opd \<longrightarrow> kl_queue opd \<noteq> []" and nc: "\<not> ctx_canceled c"
    using ok by (auto simp: listing_ok_def)
  obtain f where f: "produce (opd_event env c strict) opd (concat rs) = Some (f, no_error)" "kl_queue f = []"
    using left keys_left_lift [OF h(1)] by auto
  have "\<exists>q. kl_queue f = kl_queue opd @ q \<and> (kl_key_cond f \<longleftrightarrow> kl_key_cond opd \<or> q \<noteq> [])"
    by (rule kp.produce_grows [OF f(1)])
  then have e: "kl_queue opd = []" "\<not> kl_key_cond f" using f(2) h(2) by auto
  obtain s1 rs1 where w: "produce_until (opd_event env c strict) kl_key_cond opd rs = Some (s1, rs1, no_error)"
    "produce (opd_event env c strict) s1 (concat rs1) = Some (f, no_error)"
    "\<not> kl_key_cond s1 \<longrightarrow> s1 = f \<and> rs1 = []"
    using kp.wait_reaches [OF f(1) h(2)] by blast
  have "\<exists>q. kl_queue f = kl_queue s1 @ q \<and> (kl_key_cond f \<longleftrightarrow> kl_key_cond s1 \<or> q \<noteq> [])"
    by (rule kp.produce_grows [OF w(2)])
  then have s1: "s1 = f" "rs1 = []" using e(2) w(3) by auto
  have "keylist_next_wait env strict c rs = Some (Some (kput c f), [], None, end_error env strict c rs)"
    using w(1) s1 e(2) kl_hook_kput [OF h(1), of f] end_error_lift [OF h(1) f(1)]
    by (simp add: keylist_next_wait_def wait_lift [OF h(1) nc] kl_hook_def)
  then show ?thesis using e(1) by (simp add: next_lookup [OF h(1)])
qed

text \<open>An application that reads the whole listing.\<close>

fun read_keys ::
    "op_env \<Rightarrow> bool \<Rightarrow> nat \<Rightarrow> gpgme_ctx option \<Rightarrow> kl_event list list \<Rightarrow> (gpgme_key list \<times> gpgme_error_t) option" where
  "read_keys env strict 0 c rs = None"
| "read_keys env strict (Suc n) c rs =
     (case gpgme_op_keylist_next env strict c True rs of
        None \<Rightarrow> None
      | Some (c1, rs1, key, e) \<Rightarrow>
          if is_err e then Some ([], e)
          else (case key of
                  None \<Rightarrow> None
                | Some k \<Rightarrow> map_option (apfst (Cons k)) (read_keys env strict n c1 rs1)))"

lemma end_error_is_err: "is_err (end_error env strict c rs)"
  by (simp add: end_error_def split: option.splits op_hook.splits prod.splits)

lemma read_keys_all:
  assumes "listing_ok c" and "keys_left env strict c rs = Some ks" and "length ks < n"
  shows "read_keys env strict n (Some c) rs = Some (ks, end_error env strict c rs)"
  using assms
proof (induction ks arbitrary: n c rs)
  case Nil
  then obtain m where "n = Suc m" by (cases n) auto
  with next_at_end [OF Nil.prems(1,2)] show ?case using end_error_is_err [of env strict c rs] by auto
next
  case (Cons k ks)
  obtain m where n: "n = Suc m" "length ks < m" using Cons.prems(3) by (cases n) auto
  obtain c1 rs1 where d: "gpgme_op_keylist_next env strict (Some c) True rs = Some (Some c1, rs1, Some k, no_error)"
    "listing_ok c1" "keys_left env strict c1 rs1 = Some ks" "end_error env strict c1 rs1 = end_error env strict c rs"
    using next_delivers [OF Cons.prems(1,2)] by blast
  from Cons.IH [OF d(2,3) n(2)] d(1,4) n(1) show ?case by simp
qed

lemma get_key_loop_run:
  assumes "listing_ok c" and "keys_left env strict c rs = Some ks" and "length ks < n"
  shows "get_key_loop env strict n result (Some c) rs = Some
     (if \<exists>k\<in>set ks. first_fpr result = None \<or> first_fpr k \<noteq> first_fpr result
      then (None, gpg_error GPG_ERR_AMBIGUOUS_NAME)
      else if gpg_err_code (end_error env strict c rs) = GPG_ERR_EOF then (Some result, no_error)
      else (None, end_error env strict c rs))"
  using assms
proof (induction ks arbitrary: n c rs)
  case Nil
  then obtain m where "n = Suc m" by (cases n) auto
  with next_at_end [OF Nil.prems(1,2)] show ?case using end_error_is_err [of env strict c rs] by auto
next
  case (Cons k ks)
  obtain m where n: "n = Suc m" "length ks < m" using Cons.prems(3) by (cases n) auto
  obtain c1 rs1 where d: "gpgme_op_keylist_next env strict (Some c) True rs = Some (Some c1, rs1, Some k, no_error)"
    "listing_ok c1" "keys_left env strict c1 rs1 = Some ks" "end_error env strict c1 rs1 = end_error env strict c rs"
    using next_delivers [OF Cons.prems(1,2)] by blast
  from Cons.IH [OF d(2,3) n(2)] d(1,4) n(1) show ?case by simp
qed

section \<open>The start of a listing\<close>

lemma keylist_init_fresh:
  assumes "ctx_op_data c = []" and "keylist_init env c = Some (c1, no_error)"
  shows "c1 = c\<lparr>ctx_op_data := [HKeylist zero_keylist]\<rparr>"
  using assms by (auto simp: keylist_init_def gpgme_op_data_lookup_def split: if_split_asm)

lemma colon_handler_same: "gpgme_engine_set_colon_line_handler api c = (c1, e) \<Longrightarrow> same_op c c1"
  by (auto simp: gpgme_engine_set_colon_line_handler_def Let_def split: if_split_asm)

lemma same_op_keylist:
  assumes "same_op a b"
  shows "ctx_op_data b = ctx_op_data a" "ctx_canceled b = ctx_canceled a" "ctx_protocol b = ctx_protocol a"
    "ctx_keylist_mode b = ctx_keylist_mode a" "ctx_user_loop b = ctx_user_loop a"
  using assms by (cases a; cases b; simp add: same_op_def)+

lemma keylist_start_ready:
  assumes "gpgme_op_keylist_start env api (Some c) = Some (Some c1, no_error)"
  shows "listing_ok c1" "get_hook OPDATA_KEYLIST c1 = Some (HKeylist zero_keylist)"
    "ctx_protocol c1 = ctx_protocol c" "ctx_keylist_mode c1 = ctx_keylist_mode c" "ctx_user_loop c1 = ctx_user_loop c"
proof -
  have l: "keylist_launch env api OpKeylist c = Some (c1, no_error)"
    using assms by (auto simp: gpgme_op_keylist_start_def entry_async_def)
  obtain c2 where c2: "gpgme_op_reset api c 2 False = (c2, no_error)"
    and l2: "then_start (keylist_init env c2) (\<lambda>c2. then_start (Some (gpgme_engine_set_colon_line_handler api
         (gpgme_engine_set_status_handler api KeylistHandler c2))) (\<lambda>c3. Some (c3, gpgme_engine_op api OpKeylist c3)))
       = Some (c1, no_error)"
    using l unfolding keylist_launch_def then_start_ok by auto
  obtain c3 where c3: "keylist_init env c2 = Some (c3, no_error)"
    and l3: "gpgme_engine_set_colon_line_handler api (gpgme_engine_set_status_handler api KeylistHandler c3) = (c1, no_error)"
    using l2 unfolding then_start_ok by auto
  note s2 = same_op_keylist [OF op_reset_same(1) [OF c2]]
  have i: "c3 = c2\<lparr>ctx_op_data := [HKeylist zero_keylist]\<rparr>"
    by (rule keylist_init_fresh [OF _ c3]) (simp add: s2 reset_state_def)
  have "same_op c3 (gpgme_engine_set_status_handler api KeylistHandler c3)" by (simp add: gpgme_engine_set_status_handler_def)
  note s3 = same_op_keylist [OF same_op_trans [OF this colon_handler_same [OF l3]]]
  show h: "get_hook OPDATA_KEYLIST c1 = Some (HKeylist zero_keylist)"
    using s3 i by (simp add: get_hook_def op_find_Cons)
  show "ctx_protocol c1 = ctx_protocol c" "ctx_keylist_mode c1 = ctx_keylist_mode c" "ctx_user_loop c1 = ctx_user_loop c"
    using s3 s2 i by (simp_all add: reset_state_def)
  have "\<not> ctx_canceled c1" using s3 s2 i by (simp add: reset_state_def)
  with h show "listing_ok c1" by (auto simp: listing_ok_def kl_hook_def zero_keylist_def)
qed

section \<open>Invariant of the parser\<close>

text \<open>
  While a key is being read it has at least one subkey; \<open>tmp_uid\<close> is its last user ID and
  \<open>tmp_keysig\<close> the last signature of that user ID. Keys in the queue have a subkey too.
\<close>

definition tmp_ok :: "gpgme_key \<Rightarrow> nat option \<Rightarrow> nat option \<Rightarrow> bool" where
  "tmp_ok k u s \<longleftrightarrow> key_subkeys k \<noteq> []
     \<and> (\<forall>i. u = Some i \<longrightarrow> Suc i = length (key_uids k))
     \<and> (\<forall>j. s = Some j \<longrightarrow> key_uids k \<noteq> [] \<and> Suc j = length (uid_signatures (last (key_uids k))))"

definition kl_ok :: "op_keylist \<Rightarrow> bool" where
  "kl_ok opd \<longleftrightarrow>
     (case kl_tmp_key opd of
        None \<Rightarrow> kl_tmp_uid opd = None \<and> kl_tmp_keysig opd = None
      | Some k \<Rightarrow> tmp_ok k (kl_tmp_uid opd) (kl_tmp_keysig opd))
     \<and> (\<forall>k\<in>set (kl_queue opd). key_subkeys k \<noteq> [])"

definition keeps_shape :: "key_step \<Rightarrow> bool" where
  "keeps_shape f \<longleftrightarrow> (\<forall>k k1 e. f k = Some (k1, e) \<longrightarrow>
     key_uids k1 = key_uids k \<and> (key_subkeys k1 = [] \<longleftrightarrow> key_subkeys k = []))"

lemma upd_last_subkey_shape [simp]:
  "key_uids (upd_last_subkey f k) = key_uids k" "key_subkeys (upd_last_subkey f k) = [] \<longleftrightarrow> key_subkeys k = []"
  by (simp_all add: upd_last_subkey_def)

lemma upd_first_subkey_shape [simp]:
  "key_uids (upd_first_subkey f k) = key_uids k" "key_subkeys (upd_first_subkey f k) = [] \<longleftrightarrow> key_subkeys k = []"
  by (simp_all add: upd_first_subkey_def split: list.splits)

lemma fold_keeps: "(\<And>c k. g (f c k) = g k) \<Longrightarrow> g (fold f cs k) = g k"
  by (induction cs arbitrary: k) simp_all

lemma key_letters_shape [simp]:
  "key_uids (fold key_trust_letter cs k) = key_uids k" "key_subkeys (fold key_trust_letter cs k) = key_subkeys k"
  "key_uids (fold key_cap_letter cs k) = key_uids k" "key_subkeys (fold key_cap_letter cs k) = key_subkeys k"
  "key_uids (fold ownertrust_letter cs k) = key_uids k" "key_subkeys (fold ownertrust_letter cs k) = key_subkeys k"
  by (rule fold_keeps, simp add: key_trust_letter_def key_cap_letter_def ownertrust_letter_def)+

lemma keeps_shape_set: "(\<And>k. key_uids (f k) = key_uids k) \<Longrightarrow> (\<And>k. key_subkeys (f k) = [] \<longleftrightarrow> key_subkeys k = []) \<Longrightarrow>
   keeps_shape (set_step f)"
  by (simp add: keeps_shape_def set_step_def)

lemma keeps_shape_field: "(\<And>x. keeps_shape (f x)) \<Longrightarrow> keeps_shape (on_field fs n f)"
  by (auto simp: keeps_shape_def on_field_def split: if_split_asm)

lemma field_steps_shape [simp]:
  "keeps_shape (length_step f)" "keeps_shape (algo_step pr f)" "keeps_shape (time_step f)"
  "keeps_shape (expires_step f)" "keeps_shape (keyid_step p f)"
  unfolding length_step_def algo_step_def time_step_def expires_step_def keyid_step_def
  by (rule keeps_shape_set; simp)+

lemma other_steps_shape [simp]:
  "keeps_shape (serial_step env x f)" "keeps_shape (issuer_step env x f)" "keeps_shape (secret_step env mode f)"
  "keeps_shape (curve_step env f)" "keeps_shape (compliance_step fs)" "keeps_shape (update_step fs)"
  by (auto simp: keeps_shape_def serial_step_def issuer_step_def secret_step_def parse_sec_field15_def Let_def
      curve_step_def compliance_step_def update_step_def split: if_split_asm cres.splits)

lemma key_steps_shape [simp]:
  "keeps_shape (fpr_step env f)" "keeps_shape (chain_step env f)" "keeps_shape (grp_step env f)"
  by (auto simp: keeps_shape_def fpr_step_def chain_step_def grp_step_def Let_def split: if_split_asm)

lemma keeps_shapeD:
  "keeps_shape f \<Longrightarrow> f k = Some (k1, e) \<Longrightarrow> key_uids k1 = key_uids k \<and> (key_subkeys k1 = [] \<longleftrightarrow> key_subkeys k = [])"
  by (auto simp: keeps_shape_def)

lemma run_steps_shape: "\<forall>f\<in>set steps. keeps_shape f \<Longrightarrow> keeps_shape (run_steps steps)"
proof (induction steps)
  case (Cons f steps)
  show ?case unfolding keeps_shape_def
  proof (intro allI impI)
    fix k k1 e assume r: "run_steps (f # steps) k = Some (k1, e)"
    obtain k2 e2 where f: "f k = Some (k2, e2)" using r by (auto split: option.splits)
    note s2 = keeps_shapeD [where f = f, OF _ f]
    show "key_uids k1 = key_uids k \<and> (key_subkeys k1 = [] \<longleftrightarrow> key_subkeys k = [])"
    proof (cases "is_err e2")
      case True
      then show ?thesis using r f s2 Cons.prems by simp
    next
      case False
      then have "run_steps steps k2 = Some (k1, e)" using r f by simp
      with keeps_shapeD [OF Cons.IH, of k2 k1 e] Cons.prems s2 show ?thesis by simp
    qed
  qed
qed (simp add: keeps_shape_def)

lemma pub_steps_shape: "\<forall>f\<in>set (pub_steps env pr mode x509 fs). keeps_shape f"
  by (simp add: pub_steps_def keeps_shape_field keeps_shape_set set_mainkey_trust_info_def set_ownertrust_def
      set_mainkey_capability_def)

lemma sub_steps_shape: "\<forall>f\<in>set (sub_steps env pr mode fs). keeps_shape f"
  by (simp add: sub_steps_def keeps_shape_field keeps_shape_set)

lemma on_key_ok:
  assumes k: "kl_tmp_key opd = Some k" and ok: "kl_ok opd" and st: "\<forall>f\<in>set steps. keeps_shape f"
    and r: "on_key opd steps = Some (o1, e)"
  shows "kl_ok o1"
proof -
  obtain k1 where s: "run_steps steps k = Some (k1, e)" and o1: "o1 = opd\<lparr>kl_tmp_key := Some k1\<rparr>"
    using r k by (auto simp: on_key_def split: option.splits)
  have "key_uids k1 = key_uids k \<and> (key_subkeys k1 = [] \<longleftrightarrow> key_subkeys k = [])"
    by (rule keeps_shapeD [OF run_steps_shape [OF st] s])
  then show ?thesis using ok k o1 by (simp add: kl_ok_def tmp_ok_def)
qed

lemma finish_key_ok: "kl_ok opd \<Longrightarrow> kl_ok (finish_key env user opd) \<and> kl_tmp_key (finish_key env user opd) = None"
  by (auto simp: kl_ok_def tmp_ok_def finish_key_def keylist_event_cb_def Let_def split: option.splits)

lemma marks_gone: "kl_ok opd \<Longrightarrow> kl_tmp_key opd = None \<Longrightarrow> kl_tmp_uid opd = None \<and> kl_tmp_keysig opd = None"
  by (simp add: kl_ok_def)

lemma kl_ok_new_key: "kl_ok opd \<Longrightarrow> kl_tmp_key opd = None \<Longrightarrow> key_subkeys k \<noteq> [] \<Longrightarrow> kl_ok (opd\<lparr>kl_tmp_key := Some k\<rparr>)"
  by (simp add: kl_ok_def tmp_ok_def)

lemma start_key_shape [simp]: "key_uids (start_key rt k) = key_uids k" "key_subkeys (start_key rt k) = [] \<longleftrightarrow> key_subkeys k = []"
  by (simp_all add: start_key_def Let_def)

lemma pub_record_ok:
  assumes ok: "kl_ok opd" and r: "pub_record env pr mode user opd rt fs = Some (o1, e)"
  shows "kl_ok o1"
proof (cases "core env ''key'' \<and> core env ''subkey''")
  case True
  obtain k0 where k0: "gpgme_key_new (core env ''key'') = Ok k0" using True by (simp add: gpgme_key_new_def)
  define k1 where "k1 = k0\<lparr>key_keylist_mode := mode, key_subkeys := key_subkeys k0 @ [zero_subkey]\<rparr>"
  have k1: "key_subkeys k1 \<noteq> []"
    "on_key ((finish_key env user opd)\<lparr>kl_tmp_key := Some (start_key rt k1)\<rparr>)
       (pub_steps env pr mode (rt = RT_CRT \<or> rt = RT_CRS) fs) = Some (o1, e)"
    using r k0 True by (simp_all add: pub_record_def gpgme_key_add_subkey_def k1_def)
  have "kl_ok ((finish_key env user opd)\<lparr>kl_tmp_key := Some (start_key rt k1)\<rparr>)"
    using kl_ok_new_key finish_key_ok [OF ok] k1(1) by simp
  then show ?thesis using on_key_ok [OF _ _ pub_steps_shape k1(2)] by simp
qed (use r ok in \<open>auto simp: pub_record_def gpgme_key_new_def gpgme_key_add_subkey_def split: if_split_asm\<close>)

lemma sub_record_ok:
  assumes ok: "kl_ok opd" and key: "kl_tmp_key opd = Some key" and r: "sub_record env pr mode opd key rt fs = Some (o1, e)"
  shows "kl_ok o1"
proof (cases "gpgme_key_add_subkey (core env ''subkey'') key")
  case (Ok k1)
  let ?k2 = "if rt = RT_SSB then upd_last_subkey (\<lambda>s. s\<lparr>sk_secret := True\<rparr>) k1 else k1"
  have "key_subkeys k1 \<noteq> []" "key_uids k1 = key_uids key"
    using Ok by (auto simp: gpgme_key_add_subkey_def split: if_split_asm)
  then have "kl_ok (opd\<lparr>kl_tmp_key := Some ?k2\<rparr>)" using ok key by (auto simp: kl_ok_def tmp_ok_def)
  moreover have "on_key (opd\<lparr>kl_tmp_key := Some ?k2\<rparr>) (sub_steps env pr mode fs) = Some (o1, e)"
    using r Ok by (simp add: sub_record_def Let_def)
  ultimately show ?thesis using on_key_ok [OF _ _ sub_steps_shape, of "opd\<lparr>kl_tmp_key := Some ?k2\<rparr>" ?k2] by simp
qed (use r ok in \<open>simp_all add: sub_record_def\<close>)

lemma append_name_shape:
  assumes "gpgme_key_append_name co key s b = Ok k1"
  shows "\<exists>u. key_uids k1 = key_uids key @ [u]" "key_subkeys k1 = key_subkeys key"
  using assms by (auto simp: gpgme_key_append_name_def Let_def split: if_split_asm cres.splits prod.splits)

lemma upd_last_uid_shape:
  assumes "upd_last_uid f k = Some k1"
  shows "length (key_uids k1) = length (key_uids k)" "key_subkeys k1 = key_subkeys k" "key_uids k \<noteq> []"
    "last (key_uids k1) = f (last (key_uids k))"
  using assms by (auto simp: upd_last_uid_def split: if_split_asm)

lemma uid_record_ok:
  assumes ok: "kl_ok opd" and key: "kl_tmp_key opd = Some key" and nos: "kl_tmp_keysig opd = None"
    and r: "uid_record env opd key fs = Some (o1, e)"
  shows "kl_ok o1"
proof (cases "10 \<le> length fs")
  case True
  have sub: "key_subkeys key \<noteq> []" using ok key by (simp add: kl_ok_def tmp_ok_def)
  show ?thesis
  proof (cases "gpgme_key_append_name (core env) key (fs ! 9) True")
    case (Ok k1)
    then obtain k2 where k2: "set_userid_flags (fs ! 1) k1 = Some k2"
      using r True by (auto simp: uid_record_def Let_def split: option.splits)
    note a = append_name_shape [OF Ok] and b = upd_last_uid_shape [OF k2 [unfolded set_userid_flags_def]]
    have base: "kl_ok (opd\<lparr>kl_tmp_key := Some k3, kl_tmp_uid := Some (length (key_uids k2) - 1)\<rparr>)"
      if "length (key_uids k3) = length (key_uids k2)" "key_subkeys k3 = key_subkeys k2" for k3
      using that a b sub nos ok key by (auto simp: kl_ok_def tmp_ok_def)
    let ?k3 = "the (kl_tmp_key o1)"
    have "o1 = opd\<lparr>kl_tmp_key := Some ?k3, kl_tmp_uid := Some (length (key_uids k2) - 1)\<rparr>
        \<and> length (key_uids ?k3) = length (key_uids k2) \<and> key_subkeys ?k3 = key_subkeys k2"
      using r True Ok k2
      by (auto simp: uid_record_def Let_def dest: upd_last_uid_shape(1,2) split: if_split_asm cres.splits option.splits)
    then show ?thesis using base [of ?k3] by metis
  qed (use r ok True in \<open>simp_all add: uid_record_def\<close>)
qed (use r ok in \<open>simp add: uid_record_def\<close>)

lemma add_sig_shape:
  assumes "gpgme_key_add_sig co key s = Ok (Some k1)"
  shows "length (key_uids k1) = length (key_uids key)" "key_subkeys k1 = key_subkeys key" "key_uids k1 \<noteq> []"
    "uid_signatures (last (key_uids k1)) \<noteq> []"
  using assms by (auto simp: gpgme_key_add_sig_def Let_def split: if_split_asm cres.splits option.splits prod.splits)

lemma upd_last_keysig_shape:
  assumes "upd_last_keysig f k = Some k1"
  shows "length (key_uids k1) = length (key_uids k)" "key_subkeys k1 = key_subkeys k" "key_uids k1 \<noteq> []"
    "length (uid_signatures (last (key_uids k1))) = length (uid_signatures (last (key_uids k)))"
    "uid_signatures (last (key_uids k)) \<noteq> []"
  using assms by (auto simp: upd_last_keysig_def upd_last_uid_def split: if_split_asm)

lemma tfs_line_ok:
  assumes "kl_ok opd" and "kl_tmp_key opd = Some key" and "kl_tmp_keysig opd = None"
    and "tfs_line env opd key fs = Some (o1, e)"
  shows "kl_ok o1"
  using assms by (auto simp: tfs_line_def kl_ok_def tmp_ok_def split: option.splits prod.splits if_split_asm)

lemma sig_record_ok:
  assumes ok: "kl_ok opd" and r: "sig_record env pr opd fs = Some (o1, e)"
  shows "kl_ok o1"
proof (cases "o1 = opd")
  case False
  obtain i key where k: "kl_tmp_uid opd = Some i" "kl_tmp_key opd = Some key" "Suc i = length (key_uids key)"
    using r False by (auto simp: sig_record_def split: option.splits if_split_asm)
  obtain k1 k2 where a: "gpgme_key_add_sig (core env ''keysig'') key (if 10 \<le> length fs then Some (fs ! 9) else None) = Ok (Some k1)"
    and b: "upd_last_keysig (fill_keysig pr fs) k1 = Some k2"
    and o1: "o1 = opd\<lparr>kl_tmp_key := Some k2, kl_tmp_keysig := Some (length (uid_signatures (last (key_uids k2))) - 1)\<rparr>"
    using r k False by (auto simp: sig_record_def split: option.splits if_split_asm cres.splits)
  have "uid_signatures (last (key_uids k2)) \<noteq> []" using upd_last_keysig_shape(4,5) [OF b] by force
  then show ?thesis using ok k add_sig_shape [OF a] upd_last_keysig_shape [OF b]
    by (auto simp: o1 kl_ok_def tmp_ok_def)
qed (use ok in simp)

lemma spk_record_ok:
  assumes ok: "kl_ok opd" and key: "kl_tmp_key opd = Some key" and r: "spk_record env opd key fs = Some (o1, e)"
  shows "kl_ok o1"
proof (cases "o1 = opd")
  case False
  obtain f k1 where b: "upd_last_keysig f key = Some k1" and o1: "o1 = opd\<lparr>kl_tmp_key := Some k1\<rparr>"
    using r False by (auto simp: spk_record_def split: option.splits if_split_asm cres.splits)
  show ?thesis using ok key upd_last_keysig_shape [OF b] by (auto simp: o1 kl_ok_def tmp_ok_def)
qed (use ok in simp)

lemma clear_marks_ok: "kl_ok opd \<Longrightarrow> kl_ok (clear_marks rt opd)"
  by (auto simp: kl_ok_def tmp_ok_def clear_marks_def split: option.splits)

lemma clear_marks_sel [simp]:
  "kl_tmp_key (clear_marks rt opd) = kl_tmp_key opd"
  "rt \<noteq> RT_SPK \<Longrightarrow> kl_tmp_keysig (clear_marks rt opd) = None"
  by (simp_all add: clear_marks_def)

lemma rectype_key: "rectype_of f False \<noteq> RT_UID \<and> rectype_of f False \<noteq> RT_TFS \<and> rectype_of f False \<noteq> RT_SUB
   \<and> rectype_of f False \<noteq> RT_SSB \<and> rectype_of f False \<noteq> RT_SPK \<and> rectype_of f False \<noteq> RT_FPR \<and> rectype_of f False \<noteq> RT_GRP"
  by (simp add: rectype_of_def)

lemma keylist_record_ok:
  assumes ok: "kl_ok opd" and nos: "rt \<noteq> RT_SPK \<longrightarrow> kl_tmp_keysig opd = None"
    and r: "keylist_record env pr mode user opd rt fs = Some (o1, e)"
  shows "kl_ok o1"
proof -
  consider "rt = RT_NONE" | "rt = RT_SIG \<or> rt = RT_REV" | "rt = RT_PUB \<or> rt = RT_SEC \<or> rt = RT_CRT \<or> rt = RT_CRS"
    | "rt = RT_FPR \<or> rt = RT_GRP" | "rt = RT_SUB \<or> rt = RT_SSB" | "rt = RT_UID" | "rt = RT_TFS" | "rt = RT_SPK"
    by (cases rt) auto
  then show ?thesis
  proof cases
    case 1 then show ?thesis using r ok by (simp add: keylist_record_def)
  next
    case 2 then show ?thesis using r sig_record_ok [OF ok] by (auto simp: keylist_record_def)
  next
    case 3 then show ?thesis using r pub_record_ok [OF ok] by (auto simp: keylist_record_def)
  next
    case 4
    obtain k where k: "kl_tmp_key opd = Some k" using 4 r by (auto simp: keylist_record_def on_key_def split: option.splits)
    show ?thesis
      using 4 r on_key_ok [OF k ok, of "[on_field fs 10 (fpr_step env), on_field fs 13 (chain_step env)]" o1 e]
        on_key_ok [OF k ok, of "[on_field fs 10 (grp_step env)]" o1 e]
      by (auto simp: keylist_record_def keeps_shape_field)
  next
    case 5 then show ?thesis using r sub_record_ok [OF ok] by (auto simp: keylist_record_def split: option.splits)
  next
    case 6 then show ?thesis using r uid_record_ok [OF ok] nos by (auto simp: keylist_record_def split: option.splits)
  next
    case 7 then show ?thesis using r tfs_line_ok [OF ok] nos by (auto simp: keylist_record_def split: option.splits)
  next
    case 8 then show ?thesis using r spk_record_ok [OF ok] by (auto simp: keylist_record_def split: option.splits)
  qed
qed

lemma keylist_line_ok:
  assumes ok: "kl_ok opd" and r: "keylist_line env pr mode user opd line = Some (o1, e)"
  shows "kl_ok o1"
proof (cases line)
  case None
  then show ?thesis using r finish_key_ok [OF ok] by (auto simp: keylist_line_def)
next
  case (Some l)
  let ?rt = "rectype_of (hd (colon_fields l)) (kl_tmp_key opd \<noteq> None)"
  have "keylist_record env pr mode user (clear_marks ?rt opd) ?rt (colon_fields l) = Some (o1, e)"
    using r Some by (simp add: keylist_line_def Let_def)
  from keylist_record_ok [OF clear_marks_ok [OF ok] _ this] show ?thesis by simp
qed

section \<open>Safety of the parser\<close>

definition text_ok :: "string \<Rightarrow> bool" where
  "text_ok s \<longleftrightarrow> s = [] \<or> last s \<noteq> CHR 0x5C"

definition stamp_ok :: "string \<Rightarrow> bool" where
  "stamp_ok s \<longleftrightarrow> s = [] \<or> skip_spaces s \<noteq> []"

text \<open>
  The lines the parser can read: a line of a key or subkey does not have exactly 17 fields, a
  subpacket line not exactly 4 and its data are as long as it says, names do not end in a
  backslash, and the time of the last update is not made of blanks.
\<close>

definition line_ok :: "string \<Rightarrow> bool" where
  "line_ok l \<longleftrightarrow> cstring_ok l \<and>
     (let fs = colon_fields l; f = hd fs; n = length fs
      in (f \<in> {''pub'', ''sec'', ''crt'', ''crs'', ''sub'', ''ssb''} \<longrightarrow> n \<noteq> 17)
       \<and> (f \<in> {''crt'', ''crs'', ''uid'', ''sig'', ''rev''} \<and> 10 \<le> n \<longrightarrow> text_ok (fs ! 9))
       \<and> (f \<in> {''pub'', ''sec'', ''crt'', ''crs'', ''uid''} \<and> 20 \<le> n \<longrightarrow> stamp_ok (fs ! 18))
       \<and> (f = ''spk'' \<longrightarrow> n \<noteq> 4
            \<and> (5 \<le> n \<and> atoi (fs ! 1) = 20 \<longrightarrow> atoi (fs ! 3) \<le> int (length (decode_percent_loop True (fs ! 4))))))"

lemma split_colon_set: "x \<in> set (split_colon l) \<Longrightarrow> set x \<subseteq> set l"
proof (induction l rule: split_colon.induct)
  case (1 s)
  obtain a r where s: "strchr_split CHR '':'' s = (a, r)" by fastforce
  show ?case
  proof (cases r)
    case None
    then show ?thesis using "1.prems" s by (auto simp: split_colon.simps [of s] strchr_split_None)
  next
    case (Some t)
    then have "s = a @ CHR '':'' # t" using s by (simp add: strchr_split_Some)
    have "split_colon s = a # split_colon t" using s Some by (subst split_colon.simps) simp
    then show ?thesis using "1.prems" "1.IH" [OF s [symmetric] Some] \<open>s = a @ CHR '':'' # t\<close> by auto
  qed
qed

lemma split_colon_nonempty [simp]: "split_colon s \<noteq> []"
  by (subst split_colon.simps) (simp split: prod.splits option.splits)

lemma colon_fields_nonempty [simp]: "colon_fields l \<noteq> []"
  by (simp add: colon_fields_def)

lemma field_cstring: "cstring_ok l \<Longrightarrow> i < length (colon_fields l) \<Longrightarrow> cstring_ok (colon_fields l ! i)"
  using split_colon_set [of "colon_fields l ! i" l] by (fastforce simp: cstring_ok_def colon_fields_def)

lemma decode_c_ok:
  assumes "cstring_ok s" and "text_ok s"
  shows "\<exists>d. decode_c_loop s = Some d \<and> cstring_ok d"
  using assms decode_c_loop_safe [of s] decode_c_loop_cstring [of s] by (auto simp: text_ok_def)

lemma append_name_safe:
  assumes "cstring_ok s" and "text_ok s"
  shows "gpgme_key_append_name co k s True \<noteq> UB"
proof -
  obtain d where d: "decode_c_loop s = Some d" "cstring_ok d" using decode_c_ok [OF assms] by blast
  then show ?thesis using mailbox_result_cases [OF d(2), of "co ''address''"]
    by (auto simp: gpgme_key_append_name_def gpgme_decode_c_string_def split: prod.splits)
qed

lemma add_sig_safe:
  assumes "key_uids k \<noteq> []" and "\<forall>x. s = Some x \<longrightarrow> cstring_ok x \<and> text_ok x"
  shows "gpgme_key_add_sig co k s \<noteq> UB"
proof (cases s)
  case None
  then show ?thesis using assms(1) by (simp add: gpgme_key_add_sig_def Let_def)
next
  case (Some x)
  then obtain d where "decode_c_loop x = Some d" using assms(2) decode_c_ok by blast
  then show ?thesis using assms(1) Some
    by (simp add: gpgme_key_add_sig_def gpgme_decode_c_string_def Let_def split: prod.splits)
qed

lemma stamp_safe:
  assumes "stamp_ok s"
  shows "\<exists>t. gpgme_parse_timestamp_ul s = Ok t"
  using assms
  by (auto simp: stamp_ok_def gpgme_parse_timestamp_ul_def gpgme_parse_timestamp_def Let_def split: prod.splits option.splits)

lemma if_not_UB: "(c \<Longrightarrow> a \<noteq> UB) \<Longrightarrow> (\<not> c \<Longrightarrow> b \<noteq> UB) \<Longrightarrow> (if c then a else b) \<noteq> UB"
  by simp

lemma map_not_UB: "r \<noteq> UB \<Longrightarrow> (case r of UB \<Rightarrow> UB | Err e \<Rightarrow> Err e | Ok n \<Rightarrow> Ok (g n)) \<noteq> UB"
  by (cases r) simp_all

lemma notation_safe:
  assumes "ty = 20 \<longrightarrow> len \<le> int (length (decode_percent_loop True d))"
  shows "gpgme_parse_notation_packet env ty fl len d \<noteq> UB"
proof (cases "core env ''decoded_data''")
  case True
  have c: "gpgme_sig_notation_create env a b g \<noteq> UB" for a b g by (simp add: gpgme_sig_notation_create_def)
  have dec: "gpgme_decode_percent_string (core env ''decoded_data'') d 0 True = Ok (decode_percent_loop True d)"
    using True by (simp add: gpgme_decode_percent_string_def)
  show ?thesis
    unfolding gpgme_parse_notation_packet_def dec cres.case Let_def
    apply (rule if_not_UB, simp)
    apply (rule if_not_UB, simp)
    apply (rule if_not_UB, simp)
    apply (rule if_not_UB)
     apply (rule if_not_UB)
    subgoal using assms by simp
     apply (rule if_not_UB, simp)
     apply (rule if_not_UB)
    subgoal using assms by simp
     apply (rule map_not_UB [OF c])
    apply (rule map_not_UB [OF c])
    done
qed (simp add: gpgme_parse_notation_packet_def gpgme_decode_percent_string_def)

definition safe_step :: "key_step \<Rightarrow> bool" where
  "safe_step f \<longleftrightarrow> keeps_shape f \<and> (\<forall>k. key_subkeys k \<noteq> [] \<longrightarrow> f k \<noteq> None)"

lemma run_steps_safe: "\<forall>f\<in>set steps. safe_step f \<Longrightarrow> key_subkeys k \<noteq> [] \<Longrightarrow> run_steps steps k \<noteq> None"
proof (induction steps arbitrary: k)
  case (Cons f steps)
  then obtain k1 e where f: "f k = Some (k1, e)" unfolding safe_step_def by fastforce
  have "key_subkeys k1 \<noteq> []" using keeps_shapeD [where f = f, OF _ f] Cons.prems by (simp add: safe_step_def)
  then show ?case using Cons.IH [of k1] Cons.prems f by simp
qed simp

lemma safe_set: "keeps_shape (set_step f) \<Longrightarrow> safe_step (set_step f)"
  by (simp add: safe_step_def set_step_def)

lemma safe_field: "(\<And>x. n \<le> length fs \<Longrightarrow> x = fs ! (n - 1) \<Longrightarrow> safe_step (f x)) \<Longrightarrow> safe_step (on_field fs n f)"
  by (auto simp: safe_step_def keeps_shape_def on_field_def)

lemma field_steps_safe [simp]:
  "safe_step (length_step f)" "safe_step (algo_step pr f)" "safe_step (time_step f)" "safe_step (expires_step f)"
  "safe_step (keyid_step p f)"
  by (simp_all add: safe_step_def) (simp_all add: length_step_def algo_step_def time_step_def expires_step_def
      keyid_step_def set_step_def)

lemma other_steps_safe [simp]:
  "safe_step (serial_step env x f)" "safe_step (secret_step env mode f)" "safe_step (curve_step env f)"
  "safe_step (fpr_step env f)" "safe_step (chain_step env f)" "safe_step (grp_step env f)"
  by (simp_all add: safe_step_def)
     (simp_all add: serial_step_def secret_step_def parse_sec_field15_def curve_step_def fpr_step_def chain_step_def
       grp_step_def Let_def)

lemma issuer_step_safe: "(x \<Longrightarrow> cstring_ok f \<and> text_ok f) \<Longrightarrow> safe_step (issuer_step env x f)"
  using decode_c_ok [of f]
  by (auto simp: safe_step_def issuer_step_def gpgme_decode_c_string_def split: option.splits)

lemma compliance_step_safe: "length fs \<noteq> 17 \<Longrightarrow> safe_step (compliance_step fs)"
  by (simp add: safe_step_def) (simp add: compliance_step_def)

lemma update_step_safe: "(20 \<le> length fs \<Longrightarrow> stamp_ok (fs ! 18)) \<Longrightarrow> safe_step (update_step fs)"
  using stamp_safe [of "fs ! 18"] by (auto simp: safe_step_def update_step_def)

lemma pub_steps_safe:
  assumes "length fs \<noteq> 17" and "20 \<le> length fs \<Longrightarrow> stamp_ok (fs ! 18)"
    and "x509 \<Longrightarrow> 10 \<le> length fs \<Longrightarrow> cstring_ok (fs ! 9) \<and> text_ok (fs ! 9)"
  shows "\<forall>f\<in>set (pub_steps env pr mode x509 fs). safe_step f"
proof -
  have a: "safe_step (set_step (set_mainkey_trust_info x))" "safe_step (set_step (set_ownertrust x))"
    "safe_step (set_step (set_mainkey_capability x))" for x
    by (simp_all add: safe_set keeps_shape_set set_mainkey_trust_info_def set_ownertrust_def set_mainkey_capability_def)
  have b: "safe_step (on_field fs 10 (issuer_step env x509))"
    by (rule safe_field) (simp add: issuer_step_safe assms(3))
  show ?thesis
    using b by (simp add: pub_steps_def safe_field a compliance_step_safe update_step_safe assms(1,2))
qed

lemma sub_steps_safe: "length fs \<noteq> 17 \<Longrightarrow> \<forall>f\<in>set (sub_steps env pr mode fs). safe_step f"
  by (simp add: sub_steps_def safe_field safe_set keeps_shape_set compliance_step_safe)

lemma on_key_safe:
  assumes "\<forall>f\<in>set steps. safe_step f" and "kl_tmp_key opd = Some k" and "key_subkeys k \<noteq> []"
  shows "on_key opd steps \<noteq> None"
  using run_steps_safe [OF assms(1,3)] assms(2) by (auto simp: on_key_def)

lemma pub_record_safe:
  assumes "\<forall>f\<in>set (pub_steps env pr mode (rt = RT_CRT \<or> rt = RT_CRS) fs). safe_step f"
  shows "pub_record env pr mode user opd rt fs \<noteq> None"
proof -
  have "on_key ((finish_key env user opd)\<lparr>kl_tmp_key := Some (start_key rt k)\<rparr>)
      (pub_steps env pr mode (rt = RT_CRT \<or> rt = RT_CRS) fs) \<noteq> None" if "key_subkeys k \<noteq> []" for k
    by (rule on_key_safe [OF assms, where k = "start_key rt k"]) (simp_all add: that)
  then show ?thesis by (simp add: pub_record_def gpgme_key_new_def gpgme_key_add_subkey_def)
qed

lemma sub_record_safe:
  assumes "length fs \<noteq> 17"
  shows "sub_record env pr mode opd key rt fs \<noteq> None"
proof -
  have "on_key (opd\<lparr>kl_tmp_key := Some k\<rparr>) (sub_steps env pr mode fs) \<noteq> None" if "key_subkeys k \<noteq> []" for k
    by (rule on_key_safe [OF sub_steps_safe [OF assms], where k = k]) (simp_all add: that)
  then show ?thesis by (simp add: sub_record_def gpgme_key_add_subkey_def Let_def)
qed

lemma uid_record_safe:
  assumes "10 \<le> length fs \<Longrightarrow> cstring_ok (fs ! 9) \<and> text_ok (fs ! 9)" and "20 \<le> length fs \<Longrightarrow> stamp_ok (fs ! 18)"
  shows "uid_record env opd key fs \<noteq> None"
proof (cases "10 \<le> length fs")
  case True
  show ?thesis
  proof (cases "gpgme_key_append_name (core env) key (fs ! 9) True")
    case UB
    then show ?thesis using append_name_safe assms(1) [OF True] by blast
  next
    case (Ok k1)
    obtain k2 where k2: "set_userid_flags (fs ! 1) k1 = Some k2"
      using append_name_shape(1) [OF Ok] by (auto simp: set_userid_flags_def upd_last_uid_def)
    have ne: "key_uids k2 \<noteq> []" using upd_last_uid_shape [OF k2 [unfolded set_userid_flags_def]] by force
    then have "upd_last_uid g k2 \<noteq> None" for g by (simp add: upd_last_uid_def)
    then show ?thesis using True Ok k2 stamp_safe [of "fs ! 18"] assms(2)
      by (cases "20 \<le> length fs") (auto simp: uid_record_def Let_def split: option.splits)
  qed (use True in \<open>simp add: uid_record_def\<close>)
qed (simp add: uid_record_def)

lemma tfs_line_safe:
  assumes "kl_ok opd" and "kl_tmp_key opd = Some key"
  shows "tfs_line env opd key fs \<noteq> None"
  using assms by (auto simp: tfs_line_def kl_ok_def tmp_ok_def split: option.splits prod.splits)

lemma sig_record_safe:
  assumes ok: "kl_ok opd" and t: "10 \<le> length fs \<Longrightarrow> cstring_ok (fs ! 9) \<and> text_ok (fs ! 9)"
  shows "sig_record env pr opd fs \<noteq> None"
proof (cases "kl_tmp_uid opd")
  case (Some i)
  then obtain key where k: "kl_tmp_key opd = Some key" "Suc i = length (key_uids key)"
    using ok by (auto simp: kl_ok_def tmp_ok_def split: option.splits)
  let ?r = "gpgme_key_add_sig (core env ''keysig'') key (if 10 \<le> length fs then Some (fs ! 9) else None)"
  have "?r \<noteq> UB" using k t by (intro add_sig_safe) auto
  moreover have "upd_last_keysig f k1 \<noteq> None" if "?r = Ok (Some k1)" for f k1
    using add_sig_shape [OF that] by (simp add: upd_last_keysig_def upd_last_uid_def)
  ultimately show ?thesis using Some k
    by (cases ?r; cases "case ?r of Ok x \<Rightarrow> x | _ \<Rightarrow> None") (simp_all add: sig_record_def split: option.splits)
qed (simp add: sig_record_def)

lemma spk_record_safe:
  assumes ok: "kl_ok opd" and k: "kl_tmp_key opd = Some key" and n: "length fs \<noteq> 4"
    and d: "5 \<le> length fs \<Longrightarrow> atoi (fs ! 1) = 20 \<Longrightarrow> atoi (fs ! 3) \<le> int (length (decode_percent_loop True (fs ! 4)))"
  shows "spk_record env opd key fs \<noteq> None"
proof (cases "kl_tmp_keysig opd")
  case (Some j)
  then have u: "key_uids key \<noteq> []" "Suc j = length (uid_signatures (last (key_uids key)))"
    using ok k by (auto simp: kl_ok_def tmp_ok_def)
  then have "upd_last_keysig f key \<noteq> None" for f by (auto simp: upd_last_keysig_def upd_last_uid_def)
  then have u2: "\<exists>k1. upd_last_keysig f key = Some k1" for f by blast
  let ?r = "gpgme_parse_notation_packet env (atoi (fs ! 1)) (atoi (fs ! 2)) (atoi (fs ! 3)) (fs ! 4)"
  show ?thesis
  proof (cases "5 \<le> length fs \<and> (atoi (fs ! 1) = 20 \<or> atoi (fs ! 1) = 26)")
    case True
    have "?r \<noteq> UB" using d True by (intro notation_safe) blast
    moreover have "\<not> length fs < 4" "length fs \<noteq> 4" using True by auto
    ultimately have "spk_record env opd key fs =
        (case ?r of UB \<Rightarrow> None | Err e \<Rightarrow> Some (opd, e) | Ok None \<Rightarrow> Some (opd, no_error)
         | Ok (Some n) \<Rightarrow> (case upd_last_keysig (\<lambda>s. s\<lparr>ks_notations := ks_notations s @ [n]\<rparr>) key of
              None \<Rightarrow> None | Some k1 \<Rightarrow> Some (opd\<lparr>kl_tmp_key := Some k1\<rparr>, no_error)))"
      using Some u True by (simp only: spk_record_def option.case) auto
    then show ?thesis using \<open>?r \<noteq> UB\<close> u2
      by (cases ?r; cases "case ?r of Ok x \<Rightarrow> x | _ \<Rightarrow> None") (auto split: option.splits)
  qed (use Some u n in \<open>auto simp: spk_record_def\<close>)
qed (simp add: spk_record_def)

lemma rectype_names:
  "rectype_of f b = RT_PUB \<Longrightarrow> f = ''pub''" "rectype_of f b = RT_SEC \<Longrightarrow> f = ''sec''"
  "rectype_of f b = RT_CRT \<Longrightarrow> f = ''crt''" "rectype_of f b = RT_CRS \<Longrightarrow> f = ''crs''"
  "rectype_of f b = RT_SUB \<Longrightarrow> f = ''sub''" "rectype_of f b = RT_SSB \<Longrightarrow> f = ''ssb''"
  "rectype_of f b = RT_UID \<Longrightarrow> f = ''uid''" "rectype_of f b = RT_SPK \<Longrightarrow> f = ''spk''"
  "rectype_of f b = RT_SIG \<Longrightarrow> f = ''sig''" "rectype_of f b = RT_REV \<Longrightarrow> f = ''rev''"
  by (simp_all add: rectype_of_def split: if_split_asm)

lemma rectype_needs_key:
  "rectype_of f b \<in> {RT_FPR, RT_GRP, RT_UID, RT_TFS, RT_SUB, RT_SSB, RT_SPK} \<Longrightarrow> b"
  by (simp add: rectype_of_def split: if_split_asm)

lemma keylist_record_safe:
  assumes ok: "kl_ok opd"
    and key: "rt \<in> {RT_FPR, RT_GRP, RT_UID, RT_TFS, RT_SUB, RT_SSB, RT_SPK} \<Longrightarrow> kl_tmp_key opd \<noteq> None"
    and h17: "rt \<in> {RT_PUB, RT_SEC, RT_CRT, RT_CRS, RT_SUB, RT_SSB} \<Longrightarrow> length fs \<noteq> 17"
    and h10: "rt \<in> {RT_CRT, RT_CRS, RT_UID, RT_SIG, RT_REV} \<Longrightarrow> 10 \<le> length fs \<Longrightarrow> cstring_ok (fs ! 9) \<and> text_ok (fs ! 9)"
    and h19: "rt \<in> {RT_PUB, RT_SEC, RT_CRT, RT_CRS, RT_UID} \<Longrightarrow> 20 \<le> length fs \<Longrightarrow> stamp_ok (fs ! 18)"
    and hsp: "rt = RT_SPK \<Longrightarrow> length fs \<noteq> 4 \<and> (5 \<le> length fs \<and> atoi (fs ! 1) = 20 \<longrightarrow>
        atoi (fs ! 3) \<le> int (length (decode_percent_loop True (fs ! 4))))"
  shows "keylist_record env pr mode user opd rt fs \<noteq> None"
proof -
  have k: "\<exists>k. kl_tmp_key opd = Some k \<and> key_subkeys k \<noteq> []"
    if "rt \<in> {RT_FPR, RT_GRP, RT_UID, RT_TFS, RT_SUB, RT_SSB, RT_SPK}"
    using key [OF that] ok by (auto simp: kl_ok_def tmp_ok_def)
  consider "rt = RT_NONE" | "rt = RT_SIG \<or> rt = RT_REV" | "rt = RT_PUB \<or> rt = RT_SEC \<or> rt = RT_CRT \<or> rt = RT_CRS"
    | "rt = RT_FPR \<or> rt = RT_GRP" | "rt = RT_SUB \<or> rt = RT_SSB" | "rt = RT_UID" | "rt = RT_TFS" | "rt = RT_SPK"
    by (cases rt) auto
  then show ?thesis
  proof cases
    case 1 then show ?thesis by (simp add: keylist_record_def)
  next
    case 2
    then have "sig_record env pr opd fs \<noteq> None" using h10 by (intro sig_record_safe [OF ok]) blast
    then show ?thesis using 2 by (auto simp: keylist_record_def)
  next
    case 3
    have "\<forall>f\<in>set (pub_steps env pr mode (rt = RT_CRT \<or> rt = RT_CRS) fs). safe_step f"
      using 3 h17 h10 h19 by (intro pub_steps_safe) blast+
    from pub_record_safe [OF this] show ?thesis using 3 by (auto simp: keylist_record_def)
  next
    case 4
    then obtain x where x: "kl_tmp_key opd = Some x" "key_subkeys x \<noteq> []" using k by blast
    have "on_key opd [on_field fs 10 (fpr_step env), on_field fs 13 (chain_step env)] \<noteq> None"
      "on_key opd [on_field fs 10 (grp_step env)] \<noteq> None"
      by (rule on_key_safe [OF _ x]; simp add: safe_field)+
    then show ?thesis using 4 by (auto simp: keylist_record_def)
  next
    case 5 then show ?thesis using k sub_record_safe h17 by (fastforce simp: keylist_record_def)
  next
    case 6
    then have "uid_record env opd x fs \<noteq> None" for x using h10 h19 by (intro uid_record_safe) blast+
    then show ?thesis using 6 k by (auto simp: keylist_record_def)
  next
    case 7 then show ?thesis using k tfs_line_safe [OF ok] by (auto simp: keylist_record_def)
  next
    case 8 then show ?thesis using k spk_record_safe [OF ok] hsp by (fastforce simp: keylist_record_def)
  qed
qed

lemma keylist_line_safe:
  assumes ok: "kl_ok opd" and l: "\<forall>x. line = Some x \<longrightarrow> line_ok x"
  shows "keylist_line env pr mode user opd line \<noteq> None"
proof (cases line)
  case (Some x)
  define fs where "fs = colon_fields x"
  define rt where "rt = rectype_of (hd fs) (kl_tmp_key opd \<noteq> None)"
  have lo: "line_ok x" using l Some by simp
  then have c: "cstring_ok x" by (simp add: line_ok_def)
  have cs: "cstring_ok (fs ! 9)" if "10 \<le> length fs" using field_cstring [OF c, of 9] that by (simp add: fs_def)
  note names = rectype_names [of "hd fs" "kl_tmp_key opd \<noteq> None", folded rt_def]
  have h: "hd fs \<in> {''pub'', ''sec'', ''crt'', ''crs'', ''sub'', ''ssb''} \<longrightarrow> length fs \<noteq> 17"
    "hd fs \<in> {''crt'', ''crs'', ''uid'', ''sig'', ''rev''} \<and> 10 \<le> length fs \<longrightarrow> text_ok (fs ! 9)"
    "hd fs \<in> {''pub'', ''sec'', ''crt'', ''crs'', ''uid''} \<and> 20 \<le> length fs \<longrightarrow> stamp_ok (fs ! 18)"
    "hd fs = ''spk'' \<longrightarrow> length fs \<noteq> 4 \<and> (5 \<le> length fs \<and> atoi (fs ! 1) = 20 \<longrightarrow>
        atoi (fs ! 3) \<le> int (length (decode_percent_loop True (fs ! 4))))"
    using lo unfolding line_ok_def Let_def fs_def [symmetric] by blast+
  have "keylist_record env pr mode user (clear_marks rt opd) rt fs \<noteq> None"
  proof (rule keylist_record_safe [OF clear_marks_ok [OF ok]])
    show "kl_tmp_key (clear_marks rt opd) \<noteq> None" if "rt \<in> {RT_FPR, RT_GRP, RT_UID, RT_TFS, RT_SUB, RT_SSB, RT_SPK}"
      using rectype_needs_key [OF that [unfolded rt_def]] by simp
    show "length fs \<noteq> 17" if "rt \<in> {RT_PUB, RT_SEC, RT_CRT, RT_CRS, RT_SUB, RT_SSB}" using that names h(1) by blast
    show "cstring_ok (fs ! 9) \<and> text_ok (fs ! 9)" if "rt \<in> {RT_CRT, RT_CRS, RT_UID, RT_SIG, RT_REV}" "10 \<le> length fs"
      using that names h(2) cs by blast
    show "stamp_ok (fs ! 18)" if "rt \<in> {RT_PUB, RT_SEC, RT_CRT, RT_CRS, RT_UID}" "20 \<le> length fs"
      using that names h(3) by blast
    show "length fs \<noteq> 4 \<and> (5 \<le> length fs \<and> atoi (fs ! 1) = 20 \<longrightarrow>
        atoi (fs ! 3) \<le> int (length (decode_percent_loop True (fs ! 4))))" if "rt = RT_SPK" using that names h(4) by blast
  qed
  then show ?thesis using Some by (simp add: keylist_line_def Let_def rt_def fs_def)
qed (simp add: keylist_line_def)

lemma kl_ok_zero: "kl_ok zero_keylist"
  by (simp add: kl_ok_def zero_keylist_def)

definition events_ok :: "kl_event list \<Rightarrow> bool" where
  "events_ok evs \<longleftrightarrow> (\<forall>l. KLine (Some l) \<in> set evs \<longrightarrow> line_ok l)"

lemma status_opd_ok: "kl_ok opd \<Longrightarrow> kl_ok (status_opd env code args opd)"
  by (simp add: status_opd_def kl_ok_def split: option.splits)

lemma opd_event_ok:
  assumes "kl_ok opd" and "events_ok [ev]"
  shows "\<exists>o1 e. opd_event env P strict opd ev = Some (o1, e) \<and> kl_ok o1"
proof (cases ev)
  case (KLine l)
  obtain o1 e where r: "keylist_line env (ctx_protocol P) (ctx_keylist_mode P) (ctx_user_loop P) opd l = Some (o1, e)"
    using keylist_line_safe [OF assms(1), of l] assms(2) KLine by (fastforce simp: events_ok_def)
  then show ?thesis using keylist_line_ok [OF assms(1) r] KLine by (simp add: opd_event_def)
qed (use assms(1) in \<open>simp_all add: opd_event_def status_opd_ok\<close>)

lemma produce_ok:
  assumes "kl_ok opd" and "events_ok evs"
  shows "\<exists>o1 e. produce (opd_event env P strict) opd evs = Some (o1, e) \<and> kl_ok o1"
  using assms
proof (induction evs arbitrary: opd)
  case (Cons ev evs)
  obtain o1 e where r: "opd_event env P strict opd ev = Some (o1, e)" "kl_ok o1"
    using opd_event_ok [OF Cons.prems(1), of ev] Cons.prems(2) by (fastforce simp: events_ok_def)
  then show ?case using Cons.IH [OF r(2)] Cons.prems(2) by (auto simp: events_ok_def)
qed simp

text \<open>
  C18: reading the output of an engine never runs into undefined behaviour. Whatever lines arrive
  after a listing was started, in whatever order and interleaved with status lines, if each of
  them is a line the parser can read, no assertion on \<open>tmp_uid\<close> or \<open>tmp_keysig\<close> fails, nothing
  behind the end of a string or an unset field is read, and afterwards the position of the
  parser is consistent with the key it is building.
\<close>

theorem keylist_listing_safe:
  assumes "gpgme_op_keylist_start env api (Some c) = Some (Some c1, no_error)"
    and "\<forall>l. KLine (Some l) \<in> set evs \<longrightarrow> line_ok l"
  shows "\<exists>c2 e opd. run_events env strict c1 evs = Some (c2, e)
           \<and> get_hook OPDATA_KEYLIST c2 = Some (HKeylist opd) \<and> kl_ok opd"
proof -
  have h: "kl_hook c1 zero_keylist" using keylist_start_ready(2) [OF assms(1)] by (simp add: kl_hook_def)
  obtain o1 e where r: "produce (opd_event env c1 strict) zero_keylist evs = Some (o1, e)" "kl_ok o1"
    using produce_ok [OF kl_ok_zero] assms(2) unfolding events_ok_def by blast
  then have "run_events env strict c1 evs = Some (kput c1 o1, e)" by (simp add: run_events_lift [OF h])
  moreover have "get_hook OPDATA_KEYLIST (kput c1 o1) = Some (HKeylist o1)"
    using kl_hook_kput [OF h, of o1] by (simp add: kl_hook_def)
  ultimately show ?thesis using r(2) by blast
qed

section \<open>One key for each key block\<close>

definition key_line :: "string \<Rightarrow> bool" where
  "key_line l \<longleftrightarrow> hd (colon_fields l) \<in> {''pub'', ''sec'', ''crt'', ''crs''}"

definition key_events :: "kl_event list \<Rightarrow> nat" where
  "key_events evs = length (filter (\<lambda>ev. case ev of KLine (Some l) \<Rightarrow> key_line l | _ \<Rightarrow> False) evs)"

definition pending :: "op_keylist \<Rightarrow> nat" where
  "pending opd = length (kl_queue opd) + (if kl_tmp_key opd = None then 0 else 1)"

lemma pending_clear [simp]: "pending (clear_marks rt opd) = pending opd"
  by (simp add: pending_def clear_marks_def)

lemma pending_on_key: "on_key opd steps = Some (o1, e) \<Longrightarrow> pending o1 = pending opd"
  by (auto simp: on_key_def pending_def split: option.splits)

lemma pending_finish:
  "core env ''queue_item'' \<Longrightarrow> pending (finish_key env False opd) = pending opd \<and> kl_tmp_key (finish_key env False opd) = None"
  by (simp add: finish_key_def keylist_event_cb_def pending_def Let_def split: option.splits)

lemma pending_pub:
  assumes "core env ''queue_item''" "core env ''key''" "core env ''subkey''"
    and "pub_record env pr mode False opd rt fs = Some (o1, e)"
  shows "pending o1 = pending opd + 1"
proof -
  obtain k where "on_key ((finish_key env False opd)\<lparr>kl_tmp_key := Some k\<rparr>)
      (pub_steps env pr mode (rt = RT_CRT \<or> rt = RT_CRS) fs) = Some (o1, e)"
    using assms(2-4) by (simp add: pub_record_def gpgme_key_new_def gpgme_key_add_subkey_def)
  then show ?thesis using pending_on_key pending_finish [OF assms(1), of opd] by (fastforce simp: pending_def)
qed

lemma pending_other:
  assumes "kl_tmp_key opd = Some key"
  shows "sub_record env pr mode opd key rt fs = Some (o1, e) \<Longrightarrow> pending o1 = pending opd"
    "uid_record env opd key fs = Some (o1, e) \<Longrightarrow> pending o1 = pending opd"
    "tfs_line env opd key fs = Some (o1, e) \<Longrightarrow> pending o1 = pending opd"
    "spk_record env opd key fs = Some (o1, e) \<Longrightarrow> pending o1 = pending opd"
  using assms
  by (auto simp: sub_record_def uid_record_def tfs_line_def spk_record_def pending_def Let_def on_key_def
      split: cres.splits option.splits prod.splits if_split_asm)

lemma pending_sig: "sig_record env pr opd fs = Some (o1, e) \<Longrightarrow> pending o1 = pending opd"
  by (auto simp: sig_record_def pending_def split: cres.splits option.splits if_split_asm)

lemma pending_record:
  assumes "core env ''queue_item''" "core env ''key''" "core env ''subkey''"
    and "keylist_record env pr mode False opd rt fs = Some (o1, e)"
  shows "pending o1 = pending opd + (if rt \<in> {RT_PUB, RT_SEC, RT_CRT, RT_CRS} then 1 else 0)"
  using assms(4) pending_pub [OF assms(1-3)]
  by (cases rt) (auto simp: keylist_record_def dest: pending_other pending_sig pending_on_key split: option.splits)

lemma rectype_key_line: "rectype_of f b \<in> {RT_PUB, RT_SEC, RT_CRT, RT_CRS} \<longleftrightarrow> f \<in> {''pub'', ''sec'', ''crt'', ''crs''}"
proof
  assume "rectype_of f b \<in> {RT_PUB, RT_SEC, RT_CRT, RT_CRS}"
  then show "f \<in> {''pub'', ''sec'', ''crt'', ''crs''}" using rectype_names(1-4) by blast
next
  assume "f \<in> {''pub'', ''sec'', ''crt'', ''crs''}"
  then show "rectype_of f b \<in> {RT_PUB, RT_SEC, RT_CRT, RT_CRS}"
    unfolding insert_iff empty_iff simp_thms by (elim disjE) (simp_all add: rectype_of_def)
qed

lemma pending_status [simp]: "pending (status_opd env code args opd) = pending opd"
  by (simp add: pending_def status_opd_def)

lemma pending_event:
  assumes m: "\<And>l. core env l" and u: "\<not> ctx_user_loop P" and r: "opd_event env P strict opd ev = Some (o1, e)"
  shows "pending o1 = pending opd + key_events [ev]"
proof (cases ev)
  case (KLine line)
  obtain e1 where k: "keylist_line env (ctx_protocol P) (ctx_keylist_mode P) False opd line = Some (o1, e1)"
    using r KLine u by (auto simp: opd_event_def)
  show ?thesis
  proof (cases line)
    case None
    then show ?thesis using k KLine pending_finish [OF m, of opd] by (auto simp: keylist_line_def key_events_def)
  next
    case (Some l)
    let ?rt = "rectype_of (hd (colon_fields l)) (kl_tmp_key opd \<noteq> None)"
    have "keylist_record env (ctx_protocol P) (ctx_keylist_mode P) False (clear_marks ?rt opd) ?rt (colon_fields l) = Some (o1, e1)"
      using k Some by (simp add: keylist_line_def Let_def)
    from pending_record [OF m m m this] show ?thesis
      unfolding rectype_key_line KLine Some by (simp add: key_events_def key_line_def)
  qed
qed (use r in \<open>auto simp: opd_event_def key_events_def\<close>)

lemma key_events_Cons: "key_events (ev # evs) = key_events [ev] + key_events evs"
  by (simp add: key_events_def)

lemma pending_produce:
  assumes m: "\<And>l. core env l" and u: "\<not> ctx_user_loop P"
    and r: "produce (opd_event env P strict) opd evs = Some (o1, no_error)"
  shows "pending o1 = pending opd + key_events evs"
  using r
proof (induction evs arbitrary: opd)
  case (Cons ev evs)
  then obtain o2 where o2: "opd_event env P strict opd ev = Some (o2, no_error)"
    "produce (opd_event env P strict) o2 evs = Some (o1, no_error)"
    by (auto split: option.splits prod.splits if_split_asm)
  then show ?case using pending_event [OF m u o2(1)] Cons.IH [OF o2(2)] key_events_Cons [of ev evs] by simp
qed (simp add: key_events_def)

text \<open>
  C11: a listing delivers every key, once, in order, however its output arrives. Suppose a listing
  was started on a context without an event loop of the application, memory suffices, and the
  lines end with the end of the listing. Then the application that calls \<open>gpgme_op_keylist_next\<close>
  until it reports an error gets the same keys whatever rounds of the event loop the lines
  arrive in, as many as there are key lines, and then the error of the search or end of file;
  no call fails before or blocks.
\<close>

theorem keylist_delivers_all_keys:
  assumes start: "gpgme_op_keylist_start env api (Some c) = Some (Some c1, no_error)"
    and mem: "\<And>l. core env l" and loop: "\<not> ctx_user_loop c"
    and run: "run_events env strict c1 (evs @ [KLine None]) = Some (c2, no_error)"
    and rounds: "concat rs = evs @ [KLine None]"
    and opd: "get_hook OPDATA_KEYLIST c2 = Some (HKeylist opd)"
    and n: "length (kl_queue opd) < n"
  shows "read_keys env strict n (Some c1) rs =
           Some (kl_queue opd, if is_err (kl_search_err opd) then kl_search_err opd else gpg_error GPG_ERR_EOF)
         \<and> length (kl_queue opd) = key_events evs"
proof
  note st = keylist_start_ready [OF start]
  have h: "kl_hook c1 zero_keylist" using st(2) by (simp add: kl_hook_def)
  have left: "keys_left env strict c1 rs = Some (kl_queue opd)" using run opd rounds by (simp add: keys_left_def)
  have "end_error env strict c1 rs = (if is_err (kl_search_err opd) then kl_search_err opd else gpg_error GPG_ERR_EOF)"
    using run opd rounds by (simp add: end_error_def)
  then show "read_keys env strict n (Some c1) rs =
      Some (kl_queue opd, if is_err (kl_search_err opd) then kl_search_err opd else gpg_error GPG_ERR_EOF)"
    using read_keys_all [OF st(1) left n] by simp
  obtain f where f: "produce (opd_event env c1 strict) zero_keylist (evs @ [KLine None]) = Some (f, no_error)"
    "c2 = kput c1 f"
    using run by (auto simp: run_events_lift [OF h])
  have "f = opd" using opd f(2) kl_hook_kput [OF h, of f] by (simp add: kl_hook_def)
  obtain g where g: "produce (opd_event env c1 strict) zero_keylist evs = Some (g, no_error)" "f = finish_key env False g"
    using f(1) loop st(5)
    by (auto simp: produce_append opd_event_def keylist_line_def split: option.splits prod.splits if_split_asm)
  have "pending g = key_events evs"
    using pending_produce [OF mem _ g(1)] loop st(5) by (simp add: pending_def zero_keylist_def)
  then show "length (kl_queue opd) = key_events evs"
    using g(2) \<open>f = opd\<close> pending_finish [OF mem, of g] by (auto simp: pending_def)
qed

section \<open>A single key\<close>

text \<open>
  C20: \<open>gpgme_get_key\<close> returns the one key that matches. For a listing that runs through, the
  call ends with the first key listed if all further keys have the same fingerprint as it has,
  with an ambiguous name if one of them has not, and with the error of the listing, end of file
  among them, if there is no key at all; an error of the search at the end replaces the key.
  The loop reads one key in each turn, so it ends after as many turns as there are keys.
\<close>

theorem get_key_outcome:
  assumes ctx: "list_context env g x = Ok l"
    and start: "gpgme_op_keylist_start env api (Some l) = Some (Some l1, no_error)"
    and left: "keys_left env strict l1 rs = Some ks" and fuel: "length ks \<le> fuel"
    and fpr: "8 \<le> length f"
  shows "gpgme_get_key env api strict fuel g (Some x) (Some f) True rs = Some
     (case ks of
        [] \<Rightarrow> (None, end_error env strict l1 rs)
      | k # ks' \<Rightarrow>
          if \<exists>j\<in>set ks'. first_fpr k = None \<or> first_fpr j \<noteq> first_fpr k
          then (None, gpg_error GPG_ERR_AMBIGUOUS_NAME)
          else if gpg_err_code (end_error env strict l1 rs) = GPG_ERR_EOF then (Some k, no_error)
          else (None, end_error env strict l1 rs))"
proof -
  note ok = keylist_start_ready(1) [OF start]
  show ?thesis
  proof (cases ks)
    case Nil
    then show ?thesis using ctx start fpr next_at_end [OF ok, of env strict rs] left end_error_is_err [of env strict l1 rs]
      by (auto simp: gpgme_get_key_def)
  next
    case (Cons k ks')
    obtain c2 rs2 where d: "gpgme_op_keylist_next env strict (Some l1) True rs = Some (Some c2, rs2, Some k, no_error)"
      "listing_ok c2" "keys_left env strict c2 rs2 = Some ks'" "end_error env strict c2 rs2 = end_error env strict l1 rs"
      using next_delivers [OF ok] left Cons by blast
    have "length ks' < fuel" using fuel Cons by simp
    from get_key_loop_run [OF d(2,3) this, of k] show ?thesis
      using ctx start fpr d(1,4) Cons by (simp add: gpgme_get_key_def)
  qed
qed

section \<open>Examples\<close>

definition demo_listing :: gpgme_ctx where
  "demo_listing = (case gpgme_op_keylist_start sample_env sample_api (Some (cx demo_context)) of Some (Some c, e) \<Rightarrow> c)"

definition demo_evs :: "kl_event list" where
  "demo_evs =
     [KLine (Some ''pub:u:2048:1:0123456789ABCDEF:1000:::u:::scESC:''),
      KLine (Some ''fpr:::::::::AB12CD34:''),
      KLine (Some ''uid:u::::1000::X::Alice <a@b.cc>:''),
      KStatus GPGME_STATUS_TRUNCATED [], KNone,
      KLine (Some ''pub:f:1024:17:0123456789ABCDEF:900::::::''),
      KLine (Some ''fpr:::::::::AB12CD34:'')]"

lemma demo_start: "gpgme_op_keylist_start sample_env sample_api (Some (cx demo_context)) = Some (Some demo_listing, no_error)"
proof -
  let ?r = "gpgme_op_keylist_start sample_env sample_api (Some (cx demo_context))"
  have "(case ?r of Some (Some c, e) \<Rightarrow> e = no_error | _ \<Rightarrow> False)" by code_simp
  then show ?thesis by (auto simp: demo_listing_def split: option.splits)
qed

theorem keylist_listing_safe_witness:
  "\<exists>c2 e opd. run_events sample_env True demo_listing demo_evs = Some (c2, e)
     \<and> get_hook OPDATA_KEYLIST c2 = Some (HKeylist opd) \<and> kl_ok opd"
proof (rule keylist_listing_safe [OF demo_start])
  have "list_all (\<lambda>ev. case ev of KLine (Some l) \<Rightarrow> line_ok l | _ \<Rightarrow> True) demo_evs" by code_simp
  then show "\<forall>l. KLine (Some l) \<in> set demo_evs \<longrightarrow> line_ok l" by (fastforce simp: list_all_iff)
qed

theorem keylist_delivers_all_keys_witness:
  "\<exists>k1 k2. read_keys sample_env True 3 (Some demo_listing) [take 3 demo_evs, drop 3 demo_evs, [KLine None]]
     = Some ([k1, k2], gpg_error GPG_ERR_EOF)"
proof -
  let ?r = "run_events sample_env True demo_listing (demo_evs @ [KLine None])"
  have "(case ?r of Some (c, e) \<Rightarrow> e = no_error \<and>
      (case get_hook OPDATA_KEYLIST c of
         Some (HKeylist opd) \<Rightarrow> length (kl_queue opd) = 2 \<and> kl_search_err opd = no_error | _ \<Rightarrow> False) | _ \<Rightarrow> False)"
    by code_simp
  then obtain c2 where c2: "?r = Some (c2, no_error)" "(case get_hook OPDATA_KEYLIST c2 of
      Some (HKeylist opd) \<Rightarrow> length (kl_queue opd) = 2 \<and> kl_search_err opd = no_error | _ \<Rightarrow> False)"
    by (cases ?r) auto
  then obtain opd where r: "?r = Some (c2, no_error)" "get_hook OPDATA_KEYLIST c2 = Some (HKeylist opd)"
    "length (kl_queue opd) = 2" "kl_search_err opd = no_error"
    by (cases "get_hook OPDATA_KEYLIST c2"; cases "the (get_hook OPDATA_KEYLIST c2)") auto
  have u: "\<not> ctx_user_loop (cx demo_context)" by code_simp
  have "read_keys sample_env True 3 (Some demo_listing) [take 3 demo_evs, drop 3 demo_evs, [KLine None]]
      = Some (kl_queue opd, gpg_error GPG_ERR_EOF)"
    using keylist_delivers_all_keys [OF demo_start _ u r(1) _ r(2), of "[take 3 demo_evs, drop 3 demo_evs, [KLine None]]" 3] r(3,4)
    by simp
  then show ?thesis using r(3) by (auto simp: length_Suc_conv numeral_2_eq_2)
qed

theorem get_key_outcome_witness:
  "\<exists>k. gpgme_get_key sample_env sample_api True 2 demo_globals (Some demo_context) (Some ''AB12CD34'') True
         [demo_evs @ [KLine None]] = Some (Some k, no_error)"
proof -
  have l: "list_context sample_env demo_globals demo_context = Ok (cx demo_context)"
    by (simp add: list_context_def demo_context_def demo_globals_def gpgme_new_def gpgme_engine_info_copy_def
        gpgme_set_protocol_def gpgme_set_keylist_mode_def gpgme_get_protocol_def gpgme_get_keylist_mode_def
        checked_set_def upd_cx_def new_ctx_def)
  let ?ks = "keys_left sample_env True demo_listing [demo_evs @ [KLine None]]"
  have "(case ?ks of Some [k1, k2] \<Rightarrow> first_fpr k1 \<noteq> None \<and> first_fpr k2 = first_fpr k1 | _ \<Rightarrow> False)" by code_simp
  then obtain k1 k2 where ks: "?ks = Some [k1, k2]" "first_fpr k1 \<noteq> None" "first_fpr k2 = first_fpr k1"
    by (auto split: option.splits list.splits)
  have e: "end_error sample_env True demo_listing [demo_evs @ [KLine None]] = gpg_error GPG_ERR_EOF" by code_simp
  show ?thesis
    using get_key_outcome [OF l demo_start ks(1), of 2 "''AB12CD34''"] ks(2,3) e by simp
qed

end
