(* ===== verification/Gpgme_Version.thy ===== *)
theory Gpgme_Version
  imports Gpgme_Prelude "HOL-Library.Product_Lexorder"
begin

text \<open>
  Version strings (\<open>version.c\<close>): the parser of numbers of the form \<open>2.1.15\<close> with a patch level, and
  the comparison by which the engine decides which options a version of gpg understands.
\<close>

section \<open>Parsing\<close>

text \<open>\<open>(INT_MAX - 10) / 10\<close>\<close>

abbreviation MAXVAL :: nat where "MAXVAL \<equiv> 214748363"

fun version_digits :: "nat \<Rightarrow> string \<Rightarrow> nat \<times> string" where
  "version_digits val [] = (val, [])"
| "version_digits val (c # s) =
     (if isdigit c \<and> val \<le> MAXVAL then version_digits (val * 10 + (uchar c - 48)) s else (val, c # s))"

definition parse_version_number :: "string \<Rightarrow> (nat \<times> string) option" where
  "parse_version_number str =
     (if cchr str 0 = CHR ''0'' \<and> isdigit (cchr str 1) then None
      else case version_digits 0 str of (val, rest) \<Rightarrow> if val > MAXVAL then None else Some (val, rest))"

text \<open>The bound as an integer, whose numerals are evaluated in binary.\<close>

lemma version_number_code [code]:
  "version_digits val [] = (val, [])"
  "version_digits val (c # s) =
     (if isdigit c \<and> int val \<le> 214748363 then version_digits (val * 10 + (uchar c - 48)) s else (val, c # s))"
  "parse_version_number str =
     (if cchr str 0 = CHR ''0'' \<and> isdigit (cchr str 1) then None
      else case version_digits 0 str of (val, rest) \<Rightarrow> if int val > 214748363 then None else Some (val, rest))"
  by (simp_all add: parse_version_number_def split: prod.split)

text \<open>A number that a dot has to follow.\<close>

definition version_part :: "string \<Rightarrow> (nat \<times> string) option" where
  "version_part str =
     (case parse_version_number str of
        None \<Rightarrow> None
      | Some (n, rest) \<Rightarrow> if peek rest \<noteq> CHR ''.'' then None else Some (n, tl rest))"

definition parse_version_string :: "string \<Rightarrow> ((nat \<times> nat \<times> nat) \<times> string) option" where
  "parse_version_string str =
     (case version_part str of
        None \<Rightarrow> None
      | Some (major, s1) \<Rightarrow>
          (case version_part s1 of
             None \<Rightarrow> None
           | Some (minor, s2) \<Rightarrow>
               (case parse_version_number s2 of
                  None \<Rightarrow> None
                | Some (micro, s3) \<Rightarrow> Some ((major, minor, micro), s3))))"

section \<open>Comparison\<close>

text \<open>\<open>strcmp (a, b) >= 0\<close>\<close>

fun strcmp_ge :: "string \<Rightarrow> string \<Rightarrow> bool" where
  "strcmp_ge a [] = True"
| "strcmp_ge [] (y # b) = False"
| "strcmp_ge (x # a) (y # b) = (uchar y < uchar x \<or> x = y \<and> strcmp_ge a b)"

definition gpgme_compare_versions :: "string option \<Rightarrow> string option \<Rightarrow> bool" where
  "gpgme_compare_versions my rq =
     (case rq of
        None \<Rightarrow> True
      | Some r \<Rightarrow>
          (case my of
             None \<Rightarrow> False
           | Some m \<Rightarrow>
               (case parse_version_string m of
                  None \<Rightarrow> False
                | Some ((my_major, my_minor, my_micro), my_plvl) \<Rightarrow>
                    (case parse_version_string r of
                       None \<Rightarrow> False
                     | Some ((rq_major, rq_minor, rq_micro), rq_plvl) \<Rightarrow>
                         my_major > rq_major
                         \<or> my_major = rq_major \<and> my_minor > rq_minor
                         \<or> my_major = rq_major \<and> my_minor = rq_minor \<and> my_micro > rq_micro
                         \<or> my_major = rq_major \<and> my_minor = rq_minor \<and> my_micro = rq_micro
                            \<and> strcmp_ge my_plvl rq_plvl))))"

section \<open>The comparison is the order of the numbers\<close>

definition digits_nat :: "nat \<Rightarrow> string \<Rightarrow> nat" where
  "digits_nat v ds = foldl (\<lambda>v c. v * 10 + (uchar c - 48)) v ds"

lemma digits_nat_mono: "v \<le> digits_nat v ds"
proof (induction ds arbitrary: v)
  case (Cons c ds)
  have "v \<le> v * 10 + (uchar c - 48)" by simp
  also have "\<dots> \<le> digits_nat v (c # ds)" using Cons [of "v * 10 + (uchar c - 48)"] by (simp add: digits_nat_def)
  finally show ?case .
qed (simp add: digits_nat_def)

lemma version_digits_run:
  "\<forall>c\<in>set ds. isdigit c \<Longrightarrow> digits_nat v ds \<le> MAXVAL \<Longrightarrow> version_digits v (ds @ r) = version_digits (digits_nat v ds) r"
proof (induction ds arbitrary: v)
  case (Cons c ds)
  have "v \<le> MAXVAL" using digits_nat_mono [of v "c # ds"] Cons.prems(2) by simp
  then show ?case using Cons.prems Cons.IH [of "v * 10 + (uchar c - 48)"] by (simp add: digits_nat_def)
qed (simp add: digits_nat_def)

lemma digits_nat_show: "digits_nat 0 (show_nat n) = n"
proof (induction n rule: show_nat.induct)
  case (1 n)
  have d: "uchar (char_of (48 + m :: nat)) - 48 = m" if "m < 10" for m
    using that by (simp add: uchar_def)
  show ?case
  proof (cases "n < 10")
    case True
    then show ?thesis using d by (simp add: show_nat.simps [of n] digits_nat_def)
  next
    case False
    then show ?thesis using 1 d [of "n mod 10"] by (simp add: show_nat.simps [of n] digits_nat_def)
  qed
qed

lemma show_nat_head: "0 < n \<Longrightarrow> peek (show_nat n) \<noteq> CHR ''0''"
proof (induction n rule: show_nat.induct)
  case (1 n)
  show ?case
  proof (cases "n < 10")
    case True
    have "uchar (char_of (48 + n)) \<noteq> uchar CHR ''0''" using True 1 by (simp add: uchar_def)
    then have "char_of (48 + n) \<noteq> CHR ''0''" by metis
    then show ?thesis using True by (simp add: show_nat.simps [of n])
  next
    case False
    then have "peek (show_nat (n div 10)) \<noteq> CHR ''0''" using 1 by auto
    then show ?thesis using False by (cases "show_nat (n div 10)") (simp_all add: show_nat.simps [of n])
  qed
qed

lemma parse_version_number_show:
  assumes "n \<le> MAXVAL" and "\<not> isdigit (peek r)"
  shows "parse_version_number (show_nat n @ r) = Some (n, r)"
proof -
  have dg: "\<forall>c\<in>set (show_nat n). isdigit c" using show_nat_digits [of n] by (simp add: digit_ok_10)
  have "version_digits 0 (show_nat n @ r) = version_digits n r"
    using version_digits_run [OF dg, of 0 r] assms(1) by (simp add: digits_nat_show)
  moreover have "version_digits n r = (n, r)" using assms(2) by (cases r) simp_all
  moreover have "\<not> (cchr (show_nat n @ r) 0 = CHR ''0'' \<and> isdigit (cchr (show_nat n @ r) 1))"
  proof (cases "n = 0")
    case True
    then show ?thesis using assms(2) by (cases r) (auto simp: show_nat.simps [of 0] cchr_def)
  next
    case False
    then show ?thesis using show_nat_head [of n] by (cases "show_nat n") (auto simp: cchr_def)
  qed
  ultimately show ?thesis using assms(1) by (simp add: parse_version_number_def)
qed

text \<open>A version with its three numbers.\<close>

definition show_version :: "nat \<Rightarrow> nat \<Rightarrow> nat \<Rightarrow> string" where
  "show_version a b c = show_nat a @ CHR ''.'' # show_nat b @ CHR ''.'' # show_nat c"

lemma parse_version_string_show:
  assumes "a \<le> MAXVAL" "b \<le> MAXVAL" "c \<le> MAXVAL" "\<not> isdigit (peek r)"
  shows "parse_version_string (show_version a b c @ r) = Some ((a, b, c), r)"
proof -
  have dot: "\<not> isdigit CHR ''.''" "\<not> isdigit NUL" by (simp_all add: isdigit_def uchar_def)
  have "version_part (show_nat n @ CHR ''.'' # t) = Some (n, t)" if "n \<le> MAXVAL" for n t
    using parse_version_number_show [OF that, of "CHR ''.'' # t"] dot by (simp add: version_part_def)
  then show ?thesis
    using parse_version_number_show [OF assms(3,4)] assms by (simp add: parse_version_string_def show_version_def)
qed

lemma strcmp_ge_refl [simp]: "strcmp_ge a a"
  by (induction a) simp_all

text \<open>
  C40: the version check is the order of versions. For version numbers in the range the parser
  accepts, \<open>_gpgme_compare_versions\<close> says whether the triple of the installed version is at least
  the required one, in lexicographic order; equal numbers are decided by the patch level.
\<close>

theorem compare_versions_order:
  assumes "a \<le> MAXVAL" "b \<le> MAXVAL" "c \<le> MAXVAL" "d \<le> MAXVAL" "e \<le> MAXVAL" "f \<le> MAXVAL"
    and "\<not> isdigit (peek p)" "\<not> isdigit (peek q)"
  shows "gpgme_compare_versions (Some (show_version a b c @ p)) (Some (show_version d e f @ q)) \<longleftrightarrow>
     (d, e, f) < (a, b, c) \<or> (d, e, f) = (a, b, c) \<and> strcmp_ge p q"
  using parse_version_string_show [OF assms(1-3,7)] parse_version_string_show [OF assms(4-6,8)]
  by (auto simp: gpgme_compare_versions_def)

theorem compare_versions_order_witness:
  "gpgme_compare_versions (Some (show_version 2 2 10 @ ''-beta'')) (Some (show_version 2 2 9 @ []))
   \<and> \<not> gpgme_compare_versions (Some (show_version 2 1 9 @ [])) (Some (show_version 2 1 15 @ []))"
proof -
  have n: "\<not> isdigit (peek ''-beta'')" "\<not> isdigit (peek [])" by (simp_all add: isdigit_def uchar_def)
  show ?thesis
    using compare_versions_order [of 2 2 10 2 2 9 "''-beta''" "[]"] compare_versions_order [of 2 1 9 2 1 15 "[]" "[]"] n
    by simp
qed

end
