(* ===== verification/Gpgme_EngineGpg.thy ===== *)
theory Gpgme_EngineGpg
  imports Gpgme_Keylist Gpgme_Version
begin

text \<open>
  The command lines of the gpg engine (\<open>engine-gpg.c\<close>): the list of arguments that the operations
  build, its conversion into the argument vector of the process, and the preprocessor for the
  listings of key servers.

  An operation of the engine is a sequence of steps that append to the list and stop at the
  first error. A step acts on the engine object and the value of the variable \<open>err\<close>, since a few
  places of the code overwrite an error. Pipes, the version of gpg and the success of
  allocations are parameters.
\<close>

section \<open>The engine object\<close>

text \<open>
  Elements of the argument list: text, the text of the status descriptor, whose position is
  remembered, and data objects. A data object is the handle of the application, or one that the
  engine uses itself.
\<close>

datatype arg_data = DHandle nat | DCmd | DDiagnostics | DSessionKey

datatype arg_and_data =
    AArg string
  | AStatusFd string
  | AData (ad_data: arg_data) (ad_print_fd: bool) (ad_dup_to: int) (ad_inbound: bool)

record engine_gpg =
  gg_version :: "string option"
  gg_lc_messages :: "string option"
  gg_lc_ctype :: "string option"
  gg_arglist :: "arg_and_data list"
  gg_preprocess :: bool
  gg_cmd_used :: bool
  gg_cmd_idx :: "nat option"
  gg_pinentry_mode :: gpgme_pinentry_mode_t
  gg_request_origin :: string
  gg_auto_key_locate :: "string option"
  gg_trust_model :: "string option"
  gg_no_symkey_cache :: bool
  gg_offline :: bool
  gg_ignore_mdc_error :: bool
  gg_argv :: "string list option"
  gg_ub :: bool

text \<open>
  The surroundings: which allocations succeed (\<open>gh_mem n a\<close> for the element \<open>a\<close> of the argument
  list when it has \<open>n\<close> elements, \<open>gh_core\<close> for the others) and the error code of a failed system
  call, the descriptors that the pipes get, whether an agent of GnuPG 1 is in use, the path of the
  program, and the environment that a new engine looks at.
\<close>

record gpg_host =
  gh_mem :: "nat \<Rightarrow> arg_and_data \<Rightarrow> bool"
  gh_core :: "string \<Rightarrow> bool"
  gh_errno :: errno
  gh_peer_fd :: "nat \<Rightarrow> nat"
  gh_status_fd :: nat
  gh_use_agent :: bool
  gh_pgmname :: "string option"
  gh_display :: "string option"
  gh_ttyname :: "string option"
  gh_term :: "string option"

definition have_gpg_version :: "engine_gpg \<Rightarrow> string \<Rightarrow> bool" where
  "have_gpg_version g v = gpgme_compare_versions (gg_version g) (Some v)"

section \<open>Adding arguments\<close>

type_synonym gpg_res = "engine_gpg \<times> gpgme_error_t"

definition append_arg :: "gpg_host \<Rightarrow> arg_and_data \<Rightarrow> engine_gpg \<Rightarrow> gpg_res" where
  "append_arg hh a g =
     (if gh_mem hh (length (gg_arglist g)) a then (g\<lparr>gg_arglist := gg_arglist g @ [a]\<rparr>, no_error)
      else (g, syserror ENOMEM))"

definition add_arg :: "gpg_host \<Rightarrow> string \<Rightarrow> engine_gpg \<Rightarrow> gpg_res" where
  "add_arg hh s = append_arg hh (AArg s)"

definition add_arg_front :: "gpg_host \<Rightarrow> string \<Rightarrow> engine_gpg \<Rightarrow> gpg_res" where
  "add_arg_front hh s g =
     (if gh_mem hh (length (gg_arglist g)) (AArg s) then (g\<lparr>gg_arglist := AArg s # gg_arglist g\<rparr>, no_error)
      else (g, syserror ENOMEM))"

text \<open>A \<open>dup_to\<close> of -2 asks for the number of the descriptor.\<close>

definition add_data :: "gpg_host \<Rightarrow> arg_data \<Rightarrow> int \<Rightarrow> bool \<Rightarrow> engine_gpg \<Rightarrow> gpg_res" where
  "add_data hh d dup_to inbound =
     append_arg hh (if dup_to = - 2 then AData d True (- 1) inbound else AData d False dup_to inbound)"

text \<open>Steps: only without an error so far, in any case, and under a condition.\<close>

type_synonym gpg_step = "gpg_res \<Rightarrow> gpg_res"

definition unless_err :: "(engine_gpg \<Rightarrow> gpg_res) \<Rightarrow> gpg_step" where
  "unless_err f r = (if is_err (snd r) then r else f (fst r))"

definition in_any_case :: "(engine_gpg \<Rightarrow> gpg_res) \<Rightarrow> gpg_step" where
  "in_any_case f r = f (fst r)"

definition only_if :: "bool \<Rightarrow> gpg_step \<Rightarrow> gpg_step" where
  "only_if b s r = (if b then s r else r)"

definition steps :: "gpg_step list \<Rightarrow> engine_gpg \<Rightarrow> gpg_res" where
  "steps ss g = fold (\<lambda>s r. s r) ss (g, no_error)"

abbreviation arg :: "gpg_host \<Rightarrow> string \<Rightarrow> gpg_step" where
  "arg hh s \<equiv> unless_err (add_arg hh s)"

abbreviation data_arg :: "gpg_host \<Rightarrow> arg_data \<Rightarrow> int \<Rightarrow> bool \<Rightarrow> gpg_step" where
  "data_arg hh d dup inb \<equiv> unless_err (add_data hh d dup inb)"

abbreviation fail_with :: "gpg_err_code \<Rightarrow> gpg_step" where
  "fail_with c \<equiv> unless_err (\<lambda>g. (g, gpg_error c))"

section \<open>The argument vector\<close>

definition needs_special :: "arg_and_data list \<Rightarrow> bool" where
  "needs_special as = list_ex (\<lambda>a. case a of AData d pf dup inb \<Rightarrow> dup = - 1 \<and> \<not> pf | _ \<Rightarrow> False) as"

text \<open>The number of elements of \<open>argv\<close> that the code reserves, without the one for the terminator.\<close>

definition argv_reserved :: "gpg_host \<Rightarrow> engine_gpg \<Rightarrow> nat" where
  "argv_reserved hh g =
     1 + length (gg_arglist g) + (if needs_special (gg_arglist g) then 1 else 0)
     + (if gh_use_agent hh then 1 else 0)
     + (if gg_pinentry_mode g \<noteq> GPGME_PINENTRY_MODE_DEFAULT then 1 else 0)
     + (if gg_cmd_used g then 0 else 1) + 4"

definition pinentry_option :: "gpgme_pinentry_mode_t \<Rightarrow> string list" where
  "pinentry_option m =
     (case m of
        GPGME_PINENTRY_MODE_DEFAULT \<Rightarrow> []
      | GPGME_PINENTRY_MODE_ASK \<Rightarrow> [''--pinentry-mode=ask'']
      | GPGME_PINENTRY_MODE_CANCEL \<Rightarrow> [''--pinentry-mode=cancel'']
      | GPGME_PINENTRY_MODE_ERROR \<Rightarrow> [''--pinentry-mode=error'']
      | GPGME_PINENTRY_MODE_LOOPBACK \<Rightarrow> [''--pinentry-mode=loopback''])"

definition opt_list :: "'a option \<Rightarrow> 'a list" where
  "opt_list x = (case x of None \<Rightarrow> [] | Some a \<Rightarrow> [a])"

definition get_basename :: "string \<Rightarrow> string" where
  "get_basename name = rev (takeWhile (\<lambda>c. c \<noteq> CHR ''/'') (rev name))"

definition argv_prefix :: "gpg_host \<Rightarrow> string \<Rightarrow> engine_gpg \<Rightarrow> string list" where
  "argv_prefix hh pgmname g =
     [get_basename pgmname]
     @ (if needs_special (gg_arglist g) then [''--enable-special-filenames''] else [])
     @ (if gh_use_agent hh then [''--use-agent''] else [])
     @ (if gg_request_origin g \<noteq> [] then [''--request-origin='' @ gg_request_origin g] else [])
     @ opt_list (gg_auto_key_locate g)
     @ opt_list (gg_trust_model g)
     @ (if gg_no_symkey_cache g then [''--no-symkey-cache''] else [])
     @ (if gg_ignore_mdc_error g then [''--ignore-mdc-error''] else [])
     @ (if gg_offline g then [''--disable-dirmngr''] else [])
     @ (if have_gpg_version g ''2.1.0'' then pinentry_option (gg_pinentry_mode g) else [])
     @ (if gg_cmd_used g then [] else [''--batch''])
     @ [''--no-sk-comments'']"

text \<open>The arguments proper; \<open>n\<close> counts the data objects. A data object that is given a fixed descriptor has no argument.\<close>

fun argv_args :: "gpg_host \<Rightarrow> nat \<Rightarrow> arg_and_data list \<Rightarrow> string list" where
  "argv_args hh n [] = []"
| "argv_args hh n (AArg s # as) = s # argv_args hh n as"
| "argv_args hh n (AStatusFd s # as) = s # argv_args hh n as"
| "argv_args hh n (AData d pf dup inb # as) =
     (if dup = - 1 then [(if pf then [] else ''-&'') @ show_nat (gh_peer_fd hh n)] else []) @ argv_args hh (n + 1) as"

fun find_cmd :: "nat \<Rightarrow> arg_and_data list \<Rightarrow> nat list" where
  "find_cmd n [] = []"
| "find_cmd n (AData d pf dup inb # as) = (if d = DCmd then [n] else []) @ find_cmd (n + 1) as"
| "find_cmd n (AArg s # as) = find_cmd n as"
| "find_cmd n (AStatusFd s # as) = find_cmd n as"

text \<open>
  \<open>build_argv\<close>. The vector is allocated with room for \<open>argv_reserved\<close> elements and a terminator.
  \<open>gg_ub\<close> marks undefined behaviour: here, when the vector is written behind its end or filled
  up so that the process is spawned with a vector without terminator, or when the assertion on
  \<open>cmd.idx\<close> fails.
\<close>

definition build_argv :: "gpg_host \<Rightarrow> string \<Rightarrow> engine_gpg \<Rightarrow> gpg_res" where
  "build_argv hh pgmname g =
     (if \<not> gh_core hh ''argv'' \<or> \<not> gh_core hh ''fd_data_map'' \<or> \<not> gh_core hh ''argv_string''
      then (g\<lparr>gg_argv := None\<rparr>, syserror ENOMEM)
      else if \<not> gh_core hh ''pipe'' \<and> list_ex (\<lambda>a. case a of AData d pf dup inb \<Rightarrow> True | _ \<Rightarrow> False) (gg_arglist g)
      then (g\<lparr>gg_argv := None\<rparr>, syserror (gh_errno hh))
      else
        (let argv = argv_prefix hh pgmname g @ argv_args hh 0 (gg_arglist g);
             cmds = (if gg_cmd_used g then find_cmd 0 (gg_arglist g) else [])
         in if argv_reserved hh g < length argv \<or> length cmds > 1 \<or> cmds \<noteq> [] \<and> gg_cmd_idx g \<noteq> None
            then (g\<lparr>gg_ub := True\<rparr>, no_error)
            else (g\<lparr>gg_argv := Some argv,
                     gg_cmd_idx := (if cmds = [] then gg_cmd_idx g else Some (hd cmds))\<rparr>, no_error)))"

text \<open>\<open>start\<close>: the locale options go to the front. The process is spawned with the vector.\<close>

definition front_option :: "gpg_host \<Rightarrow> string \<Rightarrow> string option \<Rightarrow> gpg_step" where
  "front_option hh name v r =
     (case v of
        None \<Rightarrow> r
      | Some s \<Rightarrow> unless_err (add_arg_front hh name) (unless_err (add_arg_front hh s) r))"

definition start :: "gpg_host \<Rightarrow> engine_gpg \<Rightarrow> gpg_res" where
  "start hh g =
     (case gh_pgmname hh of
        None \<Rightarrow> (g, gpg_error GPG_ERR_INV_ENGINE)
      | Some pgmname \<Rightarrow>
          steps [front_option hh ''--lc-ctype'' (gg_lc_ctype g),
                 front_option hh ''--lc-messages'' (gg_lc_messages g),
                 unless_err (build_argv hh pgmname),
                 unless_err (\<lambda>g1. (g1, if \<not> gh_core hh ''fd_list'' then syserror ENOMEM
                                        else if \<not> gh_core hh ''spawn'' then syserror (gh_errno hh)
                                        else if \<not> gh_core hh ''io_cb'' then syserror ENOMEM else no_error))] g)"

section \<open>New engine and its settings\<close>

definition zero_gpg :: "string option \<Rightarrow> engine_gpg" where
  "zero_gpg version =
     \<lparr>gg_version = version, gg_lc_messages = None, gg_lc_ctype = None, gg_arglist = [], gg_preprocess = False,
      gg_cmd_used = False, gg_cmd_idx = None, gg_pinentry_mode = GPGME_PINENTRY_MODE_DEFAULT,
      gg_request_origin = [], gg_auto_key_locate = None, gg_trust_model = None, gg_no_symkey_cache = False,
      gg_offline = False, gg_ignore_mdc_error = False, gg_argv = None, gg_ub = False\<rparr>"

definition opt_arg :: "gpg_host \<Rightarrow> string \<Rightarrow> string option \<Rightarrow> gpg_step" where
  "opt_arg hh name v r = (case v of None \<Rightarrow> r | Some s \<Rightarrow> arg hh s (arg hh name r))"

text \<open>
  The environment gives the display, and, when there is a terminal, its name (cut to the buffer of
  64 bytes) and type. A failed allocation or pipe releases the engine.
\<close>

definition gpg_new :: "gpg_host \<Rightarrow> string option \<Rightarrow> string option \<Rightarrow> engine_gpg option \<times> gpgme_error_t" where
  "gpg_new hh home_dir version =
     (if \<not> gh_core hh ''engine'' \<or> \<not> gh_core hh ''status_buffer'' then (None, syserror ENOMEM)
      else if \<not> gh_core hh ''status_pipe'' then (None, syserror (gh_errno hh))
      else
        (case steps
           [opt_arg hh ''--homedir'' home_dir,
            arg hh ''--status-fd'',
            unless_err (append_arg hh (AStatusFd (show_nat (gh_status_fd hh)))),
            arg hh ''--no-tty'', arg hh ''--charset'', arg hh ''utf8'', arg hh ''--enable-progress-filter'',
            (\<lambda>r. only_if (have_gpg_version (fst r) ''2.1.11'') (arg hh ''--exit-on-status-write-error'') r),
            opt_arg hh ''--display'' (gh_display hh),
            (case gh_ttyname hh of
               None \<Rightarrow> (\<lambda>r. r)
             | Some tty \<Rightarrow>
                 (\<lambda>r. opt_arg hh ''--ttytype'' (gh_term hh)
                   (only_if (tty \<noteq> []) (opt_arg hh ''--ttyname'' (Some (take 63 tty))) r))),
            unless_err (\<lambda>g. (g, if gh_core hh ''diagnostics'' then no_error else syserror ENOMEM)),
            arg hh ''--logger-fd'', data_arg hh DDiagnostics (- 2) True] (zero_gpg version) of
           (g, e) \<Rightarrow> if is_err e then (None, e) else (Some g, no_error)))"

text \<open>The buffer for the request origin has ten bytes.\<close>

definition gpg_set_engine_flags :: "gpg_host \<Rightarrow> gpgme_context \<Rightarrow> engine_gpg \<Rightarrow> engine_gpg" where
  "gpg_set_engine_flags hh x g =
     g\<lparr>gg_request_origin :=
         (case cx_request_origin x of
            Some s \<Rightarrow> if have_gpg_version g ''2.2.6'' then (if length s + 1 > 10 then ''xxx'' else s) else []
          | None \<Rightarrow> []),
       gg_auto_key_locate :=
         (case cx_auto_key_locate x of
            Some s \<Rightarrow> if have_gpg_version g ''2.1.18''
                      then (if gh_core hh ''auto_key_locate'' then Some (''--auto-key-locate='' @ s) else None)
                      else gg_auto_key_locate g
          | None \<Rightarrow> gg_auto_key_locate g),
       gg_trust_model :=
         (case cx_trust_model x of
            Some s \<Rightarrow> if s \<noteq> [] then (if gh_core hh ''trust_model'' then Some (''--trust-model='' @ s) else None)
                      else gg_trust_model g
          | None \<Rightarrow> gg_trust_model g),
       gg_no_symkey_cache := (cx_no_symkey_cache x \<and> have_gpg_version g ''2.2.7''),
       gg_offline := (cx_offline x \<and> have_gpg_version g ''2.1.23''),
       gg_ignore_mdc_error := ctx_ignore_mdc_error (cx x)\<rparr>"

definition gpg_set_locale :: "gpg_host \<Rightarrow> lc_category \<Rightarrow> string option \<Rightarrow> engine_gpg \<Rightarrow> gpg_res" where
  "gpg_set_locale hh category v g =
     (let kept = (if v \<noteq> None \<and> \<not> gh_core hh ''locale'' then None else v);
          e = (if v \<noteq> None \<and> \<not> gh_core hh ''locale'' then syserror ENOMEM else no_error)
      in case category of
           LC_CTYPE \<Rightarrow> (g\<lparr>gg_lc_ctype := kept\<rparr>, e)
         | LC_MESSAGES \<Rightarrow> (g\<lparr>gg_lc_messages := kept\<rparr>, e)
         | _ \<Rightarrow> (g, gpg_error GPG_ERR_INV_VALUE))"

definition gpg_set_command_handler :: "gpg_host \<Rightarrow> engine_gpg \<Rightarrow> gpg_res" where
  "gpg_set_command_handler hh =
     steps [arg hh ''--command-fd'', data_arg hh DCmd (- 2) False,
            unless_err (\<lambda>g. (g\<lparr>gg_cmd_used := True\<rparr>, no_error))]"

definition gpg_set_pinentry_mode :: "gpgme_pinentry_mode_t \<Rightarrow> engine_gpg \<Rightarrow> gpg_res" where
  "gpg_set_pinentry_mode m g = (g\<lparr>gg_pinentry_mode := m\<rparr>, no_error)"

section \<open>Operations\<close>

text \<open>
  A data object of the application as the engine sees it. The result of the reads is only needed
  for lists of URLs: the content that is left, and how many bytes (at least one) the reads return
  at most, \<open>None\<close> for a read that fails.
\<close>

record data_in =
  di_handle :: nat
  di_encoding :: int
  di_file_name :: "string option"
  di_size_hint :: nat
  di_rest :: string
  di_reads :: "nat option list"

abbreviation GPGME_DATA_ENCODING_URL :: int where "GPGME_DATA_ENCODING_URL \<equiv> 4"
abbreviation GPGME_DATA_ENCODING_URLESC :: int where "GPGME_DATA_ENCODING_URLESC \<equiv> 5"
abbreviation GPGME_DATA_ENCODING_URL0 :: int where "GPGME_DATA_ENCODING_URL0 \<equiv> 6"

definition in_encoding :: "data_in option \<Rightarrow> int" where
  "in_encoding d = (case d of None \<Rightarrow> 0 | Some x \<Rightarrow> di_encoding x)"

definition add_input_size_hint :: "gpg_host \<Rightarrow> data_in option \<Rightarrow> engine_gpg \<Rightarrow> gpg_res" where
  "add_input_size_hint hh d g =
     (let value = (case d of None \<Rightarrow> 0 | Some x \<Rightarrow> di_size_hint x)
      in if value = 0 \<or> \<not> have_gpg_version g ''2.1.15'' then (g, no_error)
         else steps [arg hh ''--input-size-hint'', arg hh (show_nat value)] g)"

text \<open>A step whose guard asks for the version of gpg.\<close>

definition with_version :: "string \<Rightarrow> (bool \<Rightarrow> gpg_step) \<Rightarrow> gpg_step" where
  "with_version v f r = f (have_gpg_version (fst r) v) r"

definition gpg_decrypt :: "gpg_host \<Rightarrow> 32 word \<Rightarrow> data_in \<Rightarrow> data_in \<Rightarrow> bool \<Rightarrow> string option \<Rightarrow> bool \<Rightarrow> engine_gpg \<Rightarrow> gpg_res" where
  "gpg_decrypt hh flags ciph plain export_session_key override_session_key auto_key_retrieve =
     steps
       [arg hh ''--decrypt'',
        only_if (bit flags 7) (with_version ''2.1.12''
          (\<lambda>ok. if \<not> ok then fail_with GPG_ERR_NOT_SUPPORTED else arg hh ''--unwrap'')),
        only_if export_session_key (arg hh ''--show-session-key''),
        only_if auto_key_retrieve (arg hh ''--auto-key-retrieve''),
        (case override_session_key of
           None \<Rightarrow> (\<lambda>r. r)
         | Some k \<Rightarrow>
             only_if (k \<noteq> []) (with_version ''2.1.16''
               (\<lambda>ok. if ok
                     then unless_err (steps
                       [unless_err (\<lambda>g. (g, if gh_core hh ''session_key'' then no_error else syserror ENOMEM)),
                        arg hh ''--no-keyring'', arg hh ''--override-session-key-fd'', data_arg hh DSessionKey (- 2) False])
                     else unless_err (steps [arg hh ''--override-session-key'', arg hh k])))),
        arg hh ''--output'', arg hh ''-'', data_arg hh (DHandle (di_handle plain)) 1 True,
        unless_err (add_input_size_hint hh (Some ciph)),
        arg hh ''--'', data_arg hh (DHandle (di_handle ciph)) (- 1) False,
        unless_err (start hh)]"

definition gpg_delete :: "gpg_host \<Rightarrow> gpgme_key \<Rightarrow> 32 word \<Rightarrow> engine_gpg \<Rightarrow> gpg_res" where
  "gpg_delete hh key flags =
     steps
       [only_if (bit flags 1) (arg hh ''--yes''),
        arg hh (if bit flags 0 then ''--delete-secret-and-public-key'' else ''--delete-key''),
        arg hh ''--'',
        (case first_fpr key of None \<Rightarrow> fail_with GPG_ERR_INV_VALUE | Some fpr \<Rightarrow> arg hh fpr),
        unless_err (start hh)]"

definition gpg_passwd :: "gpg_host \<Rightarrow> gpgme_key option \<Rightarrow> engine_gpg \<Rightarrow> gpg_res" where
  "gpg_passwd hh key =
     (case key of
        None \<Rightarrow> steps [fail_with GPG_ERR_INV_CERT_OBJ]
      | Some k \<Rightarrow>
          (case first_fpr k of
             None \<Rightarrow> steps [fail_with GPG_ERR_INV_CERT_OBJ]
           | Some fpr \<Rightarrow> steps [arg hh ''--passwd'', arg hh fpr, unless_err (start hh)]))"

text \<open>
  The keys that \<open>gpgme_signers_enum\<close> returns one after the other; the reference that it takes for
  the caller is given back within the round.
\<close>

definition ctx_signer_keys :: "key_store \<Rightarrow> gpgme_context \<Rightarrow> gpgme_key list" where
  "ctx_signer_keys ks x =
     List.map_filter
       (\<lambda>i. case gpgme_signers_enum ks (Some x) (int i) of Some (ks1, Some a) \<Rightarrow> ks1 a | _ \<Rightarrow> None)
       [0..<ctx_signers_len (cx x)]"

fun append_args_from_signers :: "gpg_host \<Rightarrow> gpgme_key list \<Rightarrow> engine_gpg \<Rightarrow> gpg_res" where
  "append_args_from_signers hh [] g = (g, no_error)"
| "append_args_from_signers hh (key # keys) g =
     (let r = (case key_subkeys key of
                 [] \<Rightarrow> (g, no_error)
               | sk # _ \<Rightarrow> steps [arg hh ''-u'', arg hh (sk_keyid sk)] g)
      in unless_err (append_args_from_signers hh keys) r)"

definition append_args_from_sender :: "gpg_host \<Rightarrow> gpgme_context \<Rightarrow> engine_gpg \<Rightarrow> gpg_res" where
  "append_args_from_sender hh x g =
     (case cx_sender x of
        Some s \<Rightarrow> if have_gpg_version g ''2.1.15'' then steps [arg hh ''--sender'', arg hh s] g else (g, no_error)
      | None \<Rightarrow> (g, no_error))"

text \<open>
  The buffer for a notation is sized by the members that hold the lengths; a value that is missing
  or longer than its length is undefined behaviour.
\<close>

definition append_arg_from_sig_notation :: "gpg_host \<Rightarrow> sig_notation \<Rightarrow> engine_gpg \<Rightarrow> gpg_res" where
  "append_arg_from_sig_notation hh n g =
     (let bang = (if nota_critical n then ''!'' else [])
      in case nota_name n of
           Some name \<Rightarrow>
             (if \<not> odd (nota_flags n) then (g, gpg_error GPG_ERR_INV_VALUE)
              else if \<not> gh_core hh ''notation'' then (g, syserror ENOMEM)
              else case nota_value n of
                None \<Rightarrow> (g\<lparr>gg_ub := True\<rparr>, no_error)
              | Some v \<Rightarrow>
                  if int (length name) < nota_name_len n \<or> nota_value_len n + 1 < int (length bang + length v)
                  then (g\<lparr>gg_ub := True\<rparr>, no_error)
                  else steps [arg hh ''--sig-notation'', arg hh (bang @ take (nat (nota_name_len n)) name @ ''='' @ v)] g)
         | None \<Rightarrow>
             (if nota_critical n \<and> \<not> gh_core hh ''notation'' then (g, syserror ENOMEM)
              else case nota_value n of
                None \<Rightarrow> (g\<lparr>gg_ub := True\<rparr>, no_error)
              | Some v \<Rightarrow>
                  if nota_critical n \<and> nota_value_len n < int (length v) then (g\<lparr>gg_ub := True\<rparr>, no_error)
                  else steps [arg hh ''--sig-policy-url'', arg hh (bang @ v)] g))"

fun append_args_from_sig_notations :: "gpg_host \<Rightarrow> sig_notation list \<Rightarrow> engine_gpg \<Rightarrow> gpg_res" where
  "append_args_from_sig_notations hh [] g = (g, no_error)"
| "append_args_from_sig_notations hh (n # ns) g =
     unless_err (append_args_from_sig_notations hh ns) (append_arg_from_sig_notation hh n g)"

definition gpg_edit :: "gpg_host \<Rightarrow> key_store \<Rightarrow> int \<Rightarrow> gpgme_key \<Rightarrow> data_in \<Rightarrow> gpgme_context \<Rightarrow> engine_gpg \<Rightarrow> gpg_res" where
  "gpg_edit hh ks type key outp x =
     steps
       [arg hh ''--with-colons'',
        unless_err (append_args_from_signers hh (ctx_signer_keys ks x)),
        arg hh (if type = 0 then ''--edit-key'' else ''--card-edit''),
        data_arg hh (DHandle (di_handle outp)) 1 True,
        arg hh ''--'',
        only_if (type = 0)
          (case first_fpr key of None \<Rightarrow> fail_with GPG_ERR_INV_VALUE | Some s \<Rightarrow> arg hh s),
        unless_err (start hh)]"

subsection \<open>Recipients\<close>

definition add_arg_recipient :: "gpg_host \<Rightarrow> 32 word \<Rightarrow> string \<Rightarrow> engine_gpg \<Rightarrow> gpg_res" where
  "add_arg_recipient hh flags fpr g =
     (if bit flags 8 then (g, gpg_error GPG_ERR_INV_USER_ID) else add_arg hh fpr g)"

definition add_arg_recipient_string :: "gpg_host \<Rightarrow> 32 word \<Rightarrow> string \<Rightarrow> engine_gpg \<Rightarrow> gpg_res" where
  "add_arg_recipient_string hh flags userid g =
     (if bit flags 8 then
        (if \<not> gh_core hh ''userid'' then (g, syserror ENOMEM)
         else case gpgme_mailbox_from_userid (gh_core hh ''mbox'') userid of
           UB \<Rightarrow> (g\<lparr>gg_ub := True\<rparr>, no_error)
         | Err e \<Rightarrow> (g, if e = syserror EINVAL then gpg_error GPG_ERR_INV_USER_ID else e)
         | Ok mbox \<Rightarrow> add_arg hh mbox g)
      else add_arg hh userid g)"

fun append_args_from_recipients :: "gpg_host \<Rightarrow> 32 word \<Rightarrow> gpgme_key list \<Rightarrow> engine_gpg \<Rightarrow> gpg_res" where
  "append_args_from_recipients hh flags [] g = (g, no_error)"
| "append_args_from_recipients hh flags (key # keys) g =
     (case first_fpr key of
        None \<Rightarrow> (g, gpg_error GPG_ERR_INV_VALUE)
      | Some fpr \<Rightarrow>
          unless_err (append_args_from_recipients hh flags keys)
            (steps [arg hh ''-r'', unless_err (add_arg_recipient hh flags fpr)] g))"

text \<open>The variables of the loop over the lines of a recipient string.\<close>

record recp_st =
  rs_flags :: "32 word"
  rs_any :: bool
  rs_ignore :: bool
  rs_hidden :: bool
  rs_file :: bool

definition is_sp_tab :: "char \<Rightarrow> bool" where
  "is_sp_tab c \<longleftrightarrow> c = CHR '' '' \<or> c = CHR 0x09"

definition trim_end :: "string \<Rightarrow> string" where
  "trim_end s = rev (dropWhile is_sp_tab (rev s))"

text \<open>The body of the loop for the trimmed line \<open>w\<close>.\<close>

definition recipient_line :: "gpg_host \<Rightarrow> 32 word \<Rightarrow> string \<Rightarrow> recp_st \<Rightarrow> engine_gpg \<Rightarrow> recp_st \<times> gpg_res" where
  "recipient_line hh orig_flags w st g =
     (if \<not> rs_ignore st \<and> w = ''--'' then (st\<lparr>rs_ignore := True\<rparr>, g, no_error)
      else if \<not> rs_ignore st \<and> w = ''--hidden'' then (st\<lparr>rs_hidden := True\<rparr>, g, no_error)
      else if \<not> rs_ignore st \<and> w = ''--no-hidden'' then (st\<lparr>rs_hidden := False\<rparr>, g, no_error)
      else if \<not> rs_ignore st \<and> w = ''--file''
      then (st\<lparr>rs_file := True, rs_flags := unset_bit 8 (rs_flags st)\<rparr>, g, no_error)
      else if \<not> rs_ignore st \<and> w = ''--no-file''
      then (st\<lparr>rs_file := False, rs_flags := orig_flags\<rparr>, g, no_error)
      else if w \<noteq> [] then
        (let r = steps
               [arg hh (if rs_file st then (if rs_hidden st then ''-F'' else ''-f'')
                        else (if rs_hidden st then ''-R'' else ''-r'')),
                unless_err (add_arg_recipient_string hh (rs_flags st) w)] g
         in (if is_err (snd r) then st else st\<lparr>rs_any := True\<rparr>, r))
      else (st, g, no_error))"

lemma length_trim_end: "length (trim_end s) \<le> length s"
  using length_dropWhile_le [of is_sp_tab "rev s"] by (simp add: trim_end_def)

lemma trim_end_not_empty: "s \<noteq> [] \<Longrightarrow> \<not> is_sp_tab (hd s) \<Longrightarrow> trim_end s \<noteq> []"
  by (cases s) (auto simp: trim_end_def)

text \<open>Every round of the loop makes the string shorter.\<close>

lemma recipients_loop_shorter:
  assumes "dropWhile is_sp_tab str \<noteq> []" and "strchr_split c (dropWhile is_sp_tab str) = (l, lf)"
  shows "length (drop (length (trim_end l) + (if lf = None then 0 else 1)) (dropWhile is_sp_tab str)) < length str"
proof -
  let ?s1 = "dropWhile is_sp_tab str"
  have "0 < length (trim_end l) + (if lf = None then 0 else 1)"
    using assms strchr_split_None [of c ?s1 l] trim_end_not_empty [of ?s1] hd_dropWhile [OF assms(1)] by auto
  moreover have "0 < length ?s1" using assms(1) by simp
  ultimately have "length (drop (length (trim_end l) + (if lf = None then 0 else 1)) ?s1) < length ?s1"
    unfolding length_drop by linarith
  then show ?thesis using length_dropWhile_le [of is_sp_tab str] by linarith
qed

function recipients_loop :: "gpg_host \<Rightarrow> 32 word \<Rightarrow> string \<Rightarrow> recp_st \<Rightarrow> engine_gpg \<Rightarrow> recp_st \<times> gpg_res" where
  "recipients_loop hh orig_flags str st g =
     (let s1 = dropWhile is_sp_tab str
      in if s1 = [] then (st, g, no_error)
         else case strchr_split (CHR 0x0A) s1 of
           (l, lf) \<Rightarrow>
             (let n = length (trim_end l);
                  (st1, r1) = recipient_line hh orig_flags (take n s1) st g
              in if is_err (snd r1) then (st1, r1)
                 else recipients_loop hh orig_flags (drop (n + (if lf = None then 0 else 1)) s1) st1 (fst r1)))"
  by pat_completeness auto
termination
proof (relation "measure (\<lambda>(hh, orig_flags, str, st, g). length str)", goal_cases)
  case (2 hh orig_flags str st g s1 l lf n st1 r1)
  then show ?case using recipients_loop_shorter [of str "CHR 0x0A" l lf] by simp
qed simp

declare recipients_loop.simps [simp del]

definition append_args_from_recipients_string :: "gpg_host \<Rightarrow> 32 word \<Rightarrow> string \<Rightarrow> engine_gpg \<Rightarrow> gpg_res" where
  "append_args_from_recipients_string hh flags str g =
     (case recipients_loop hh flags str \<lparr>rs_flags = flags, rs_any = False, rs_ignore = False, rs_hidden = False, rs_file = False\<rparr> g of
        (st, r) \<Rightarrow> if \<not> is_err (snd r) \<and> \<not> rs_any st then (fst r, gpg_error GPG_ERR_MISSING_KEY) else r)"


subsection \<open>Encrypt, export, generate\<close>

text \<open>
  \<open>recp\<close> is the array of keys and \<open>recpstring\<close> the string that may replace it. The step for
  \<open>--mimemode\<close> does not look at \<open>err\<close>.
\<close>

definition mimemode_step :: "gpg_host \<Rightarrow> data_in \<Rightarrow> gpg_step" where
  "mimemode_step hh plain =
     with_version ''2.1.14'' (\<lambda>ok. only_if (di_encoding plain = GPGME_DATA_ENCODING_MIME \<and> ok) (in_any_case (add_arg hh ''--mimemode'')))"

definition recipient_steps :: "gpg_host \<Rightarrow> gpgme_key list option \<Rightarrow> string option \<Rightarrow> 32 word \<Rightarrow> gpg_step list" where
  "recipient_steps hh recp recpstring flags =
     (if recp = None \<and> recpstring = None then []
      else
        [only_if (bit flags 0) (arg hh ''--always-trust''),
         only_if (bit flags 1) (arg hh ''--no-encrypt-to''),
         (case recp of
            Some keys \<Rightarrow> unless_err (append_args_from_recipients hh flags keys)
          | None \<Rightarrow> unless_err (append_args_from_recipients_string hh flags (the recpstring)))])"

definition output_steps :: "gpg_host \<Rightarrow> data_in \<Rightarrow> data_in \<Rightarrow> gpg_step list" where
  "output_steps hh plain ciph =
     [arg hh ''--output'', arg hh ''-'', data_arg hh (DHandle (di_handle ciph)) 1 True,
      opt_arg hh ''--set-filename'' (di_file_name plain),
      unless_err (add_input_size_hint hh (Some plain)),
      arg hh ''--'', data_arg hh (DHandle (di_handle plain)) (- 1) False,
      unless_err (start hh)]"

definition gpg_encrypt ::
    "gpg_host \<Rightarrow> gpgme_key list option \<Rightarrow> string option \<Rightarrow> 32 word \<Rightarrow> data_in \<Rightarrow> data_in \<Rightarrow> bool \<Rightarrow> engine_gpg \<Rightarrow> gpg_res" where
  "gpg_encrypt hh recp recpstring flags plain ciph use_armor =
     (let some_recp = (recp \<noteq> None \<or> recpstring \<noteq> None);
          flags1 = (if bit flags 7 then set_bit 4 flags else flags)
      in steps
        ([only_if some_recp (arg hh ''--encrypt''),
          only_if (bit flags 5 \<or> \<not> some_recp) (arg hh ''--symmetric''),
          only_if use_armor (arg hh ''--armor''),
          only_if (bit flags 7) (arg hh ''--no-literal''),
          only_if (bit flags1 4) (arg hh ''--compress-algo=none''),
          only_if (bit flags1 6) (arg hh ''--throw-keyids''),
          mimemode_step hh plain]
         @ recipient_steps hh recp recpstring flags1
         @ output_steps hh plain ciph))"

definition gpg_encrypt_sign ::
    "gpg_host \<Rightarrow> key_store \<Rightarrow> gpgme_key list option \<Rightarrow> string option \<Rightarrow> 32 word \<Rightarrow> data_in \<Rightarrow> data_in \<Rightarrow> bool
     \<Rightarrow> gpgme_context \<Rightarrow> engine_gpg \<Rightarrow> gpg_res" where
  "gpg_encrypt_sign hh ks recp recpstring flags plain ciph use_armor x =
     (let some_recp = (recp \<noteq> None \<or> recpstring \<noteq> None)
      in steps
        ([only_if some_recp (arg hh ''--encrypt''),
          only_if (bit flags 5 \<or> \<not> some_recp) (arg hh ''--symmetric''),
          arg hh ''--sign'',
          only_if use_armor (arg hh ''--armor''),
          only_if (bit flags 4) (arg hh ''--compress-algo=none''),
          only_if (bit flags 6) (arg hh ''--throw-keyids''),
          mimemode_step hh plain]
         @ recipient_steps hh recp recpstring flags
         @ [unless_err (append_args_from_signers hh (ctx_signer_keys ks x)),
            unless_err (append_args_from_sender hh x),
            unless_err (append_args_from_sig_notations hh (gpgme_sig_notation_get (Some x)))]
         @ output_steps hh plain ciph))"

text \<open>\<open>22\<close> is \<open>EXTERN | MINIMAL | SECRET\<close>.\<close>

definition export_common :: "gpg_host \<Rightarrow> 32 word \<Rightarrow> data_in \<Rightarrow> bool \<Rightarrow> engine_gpg \<Rightarrow> gpg_res" where
  "export_common hh mode keydata use_armor g =
     (if and mode (not 22) \<noteq> 0 then (g, gpg_error GPG_ERR_NOT_SUPPORTED)
      else steps
        ([if bit mode 2 then
            (if bit mode 7 then arg hh ''--export-options=export-minimal,export-drop-uids''
             else arg hh ''--export-options=export-minimal'')
          else only_if (bit mode 7) (arg hh ''--export-options=export-drop-uids'')]
         @ (if bit mode 1 then
              [arg hh ''--send-keys'', only_if (bit mode 7) (arg hh ''--keyserver-options=export-drop-uids'')]
            else
              [if bit mode 4 then arg hh ''--export-secret-keys'' else arg hh ''--export'',
               only_if use_armor (arg hh ''--armor''),
               data_arg hh (DHandle (di_handle keydata)) 1 True])
         @ [arg hh ''--'']) g)"

definition pattern_step :: "gpg_host \<Rightarrow> string option \<Rightarrow> gpg_step" where
  "pattern_step hh pattern = (case pattern of None \<Rightarrow> (\<lambda>r. r) | Some p \<Rightarrow> only_if (p \<noteq> []) (arg hh p))"

text \<open>An array of patterns ends with its terminator or an empty string.\<close>

definition patterns_steps :: "gpg_host \<Rightarrow> string list option \<Rightarrow> gpg_step list" where
  "patterns_steps hh pattern =
     (case pattern of None \<Rightarrow> [] | Some ps \<Rightarrow> map (\<lambda>p. arg hh p) (takeWhile (\<lambda>p. p \<noteq> []) ps))"

definition gpg_export :: "gpg_host \<Rightarrow> string option \<Rightarrow> 32 word \<Rightarrow> data_in \<Rightarrow> bool \<Rightarrow> engine_gpg \<Rightarrow> gpg_res" where
  "gpg_export hh pattern mode keydata use_armor =
     steps [unless_err (export_common hh mode keydata use_armor), pattern_step hh pattern, unless_err (start hh)]"

definition gpg_export_ext :: "gpg_host \<Rightarrow> string list option \<Rightarrow> 32 word \<Rightarrow> data_in \<Rightarrow> bool \<Rightarrow> engine_gpg \<Rightarrow> gpg_res" where
  "gpg_export_ext hh pattern mode keydata use_armor =
     steps ([unless_err (export_common hh mode keydata use_armor)] @ patterns_steps hh pattern @ [unless_err (start hh)])"

text \<open>The buffer for the expiration time has 28 bytes.\<close>

definition seconds_string :: "nat \<Rightarrow> string" where
  "seconds_string expires = take 27 (''seconds='' @ show_nat expires)"

definition usage_string :: "32 word \<Rightarrow> string" where
  "usage_string flags =
     (let s = (if bit flags 0 then '' sign'' else []) @ (if bit flags 1 then '' encr'' else [])
              @ (if bit flags 2 then '' cert'' else []) @ (if bit flags 3 then '' auth'' else [])
      in if s = [] then ''default'' else s)"

definition gpg_add_algo_usage_expire :: "gpg_host \<Rightarrow> string option \<Rightarrow> nat \<Rightarrow> 32 word \<Rightarrow> engine_gpg \<Rightarrow> gpg_res" where
  "gpg_add_algo_usage_expire hh algo expires flags g =
     (if algo \<noteq> None \<or> bit flags 0 \<or> bit flags 1 \<or> bit flags 2 \<or> bit flags 3 \<or> bit flags 13 \<or> expires \<noteq> 0
      then steps
        [arg hh (case algo of Some a \<Rightarrow> a | None \<Rightarrow> ''default''),
         arg hh (usage_string flags),
         arg hh (if bit flags 13 then ''never'' else if expires = 0 then ''-'' else seconds_string expires)] g
      else (g, no_error))"

definition gpg_createkey_from_param :: "gpg_host \<Rightarrow> data_in \<Rightarrow> 32 word \<Rightarrow> engine_gpg \<Rightarrow> gpg_res" where
  "gpg_createkey_from_param hh help_data extraflags =
     steps
       [arg hh ''--gen-key'', only_if (bit extraflags 0) (arg hh ''--armor''),
        arg hh ''--'', data_arg hh (DHandle (di_handle help_data)) (- 1) False,
        unless_err (start hh)]"

definition nopasswd_steps :: "gpg_host \<Rightarrow> 32 word \<Rightarrow> gpg_step" where
  "nopasswd_steps hh flags =
     only_if (bit flags 7) (unless_err (steps [arg hh ''--passphrase'', arg hh [], arg hh ''--batch'']))"

definition gpg_createkey ::
    "gpg_host \<Rightarrow> string \<Rightarrow> string option \<Rightarrow> nat \<Rightarrow> 32 word \<Rightarrow> 32 word \<Rightarrow> engine_gpg \<Rightarrow> gpg_res" where
  "gpg_createkey hh userid algo expires flags extraflags =
     steps
       [arg hh ''--quick-gen-key'', only_if (bit extraflags 0) (arg hh ''--armor''),
        nopasswd_steps hh flags,
        only_if (bit flags 12) (arg hh ''--yes''),
        arg hh ''--'', arg hh userid,
        unless_err (gpg_add_algo_usage_expire hh algo expires flags),
        unless_err (start hh)]"

definition gpg_addkey ::
    "gpg_host \<Rightarrow> string option \<Rightarrow> nat \<Rightarrow> gpgme_key \<Rightarrow> 32 word \<Rightarrow> 32 word \<Rightarrow> engine_gpg \<Rightarrow> gpg_res" where
  "gpg_addkey hh algo expires key flags extraflags =
     (case key_fpr key of
        None \<Rightarrow> steps [fail_with GPG_ERR_INV_ARG]
      | Some fpr \<Rightarrow> steps
         [arg hh ''--quick-addkey'', only_if (bit extraflags 0) (arg hh ''--armor''),
          nopasswd_steps hh flags,
          arg hh ''--'', arg hh fpr,
          unless_err (gpg_add_algo_usage_expire hh algo expires flags),
          unless_err (start hh)])"

definition gpg_adduid :: "gpg_host \<Rightarrow> gpgme_key \<Rightarrow> string \<Rightarrow> 32 word \<Rightarrow> engine_gpg \<Rightarrow> gpg_res" where
  "gpg_adduid hh key userid extraflags =
     (case key_fpr key of
        None \<Rightarrow> steps [fail_with GPG_ERR_INV_ARG]
      | Some fpr \<Rightarrow> steps
         [(if bit extraflags 2 then
             with_version ''2.1.20'' (\<lambda>ok. if \<not> ok then fail_with GPG_ERR_NOT_SUPPORTED else arg hh ''--quick-set-primary-uid'')
           else if bit extraflags 1 then arg hh ''--quick-revuid''
           else arg hh ''--quick-adduid''),
          arg hh ''--'', arg hh fpr, arg hh userid,
          unless_err (start hh)])"

definition gpg_genkey ::
    "gpg_host \<Rightarrow> string option \<Rightarrow> string option \<Rightarrow> nat \<Rightarrow> gpgme_key option \<Rightarrow> 32 word \<Rightarrow> data_in option \<Rightarrow> 32 word
     \<Rightarrow> bool \<Rightarrow> bool \<Rightarrow> engine_gpg \<Rightarrow> gpg_res" where
  "gpg_genkey hh userid algo expires key flags help_data extraflags pubkey seckey g =
     (case help_data of
        Some d \<Rightarrow>
          (if pubkey \<or> seckey then (g, gpg_error GPG_ERR_NOT_IMPLEMENTED)
           else gpg_createkey_from_param hh d extraflags g)
      | None \<Rightarrow>
          (if \<not> have_gpg_version g ''2.1.13'' then (g, gpg_error GPG_ERR_NOT_SUPPORTED)
           else case (userid, key) of
             (Some u, None) \<Rightarrow> gpg_createkey hh u algo expires flags extraflags g
           | (None, Some k) \<Rightarrow> gpg_addkey hh algo expires k flags extraflags g
           | (Some u, Some k) \<Rightarrow>
               (if algo = None then gpg_adduid hh k u extraflags g else (g, gpg_error GPG_ERR_INV_VALUE))
           | (None, None) \<Rightarrow> (g, gpg_error GPG_ERR_INV_VALUE)))"

subsection \<open>Import\<close>

text \<open>A read from the data object, of at most \<open>n\<close> bytes; \<open>None\<close> is an error.\<close>

definition data_in_read :: "data_in \<Rightarrow> nat \<Rightarrow> data_in \<times> string option" where
  "data_in_read d n =
     (case di_reads d of
        [] \<Rightarrow> (d\<lparr>di_rest := drop n (di_rest d)\<rparr>, Some (take n (di_rest d)))
      | None # rs \<Rightarrow> (d\<lparr>di_reads := rs\<rparr>, None)
      | Some k # rs \<Rightarrow>
          (let m = min n (max 1 k)
           in (d\<lparr>di_rest := drop m (di_rest d), di_reads := rs\<rparr>, Some (take m (di_rest d)))))"

text \<open>The state behind \<open>helpptr\<close>; \<open>sf_buf\<close> is the valid part of the buffer of 2000 bytes.\<close>

record sfd_state =
  sf_eof_seen :: bool
  sf_nbytes :: nat
  sf_buf :: string

lemma data_in_read_rest: "data_in_read d n = (d1, Some c) \<Longrightarrow> di_rest d = c @ di_rest d1"
  by (auto simp: data_in_read_def Let_def split: list.splits option.splits)

function sfd_loop :: "gpg_host \<Rightarrow> char \<Rightarrow> sfd_state \<Rightarrow> data_in \<Rightarrow> sfd_state \<times> data_in \<times> (gpgme_error_t + string option)" where
  "sfd_loop hh delim self d =
     (if delim \<in> set (sf_buf self)
      then (let w = takeWhile (\<lambda>c. c \<noteq> delim) (sf_buf self)
            in (self\<lparr>sf_nbytes := length w + 1\<rparr>, d, Inr (Some w)))
      else if 2000 \<le> length (sf_buf self) then (self, d, Inl (gpg_error GPG_ERR_TOO_LARGE))
      else case data_in_read d (2000 - length (sf_buf self)) of
        (d1, None) \<Rightarrow> (self, d1, Inl (syserror (gh_errno hh)))
      | (d1, Some c) \<Rightarrow>
          if c = [] then (self\<lparr>sf_eof_seen := True\<rparr>, d1, Inr (if sf_buf self = [] then None else Some (sf_buf self)))
          else sfd_loop hh delim (self\<lparr>sf_buf := sf_buf self @ c\<rparr>) d1)"
  by pat_completeness auto
termination
  by (relation "measure (\<lambda>(hh, delim, self, d). length (di_rest d))") (auto dest!: data_in_read_rest [OF sym])

declare sfd_loop.simps [simp del]

definition string_from_data ::
    "gpg_host \<Rightarrow> char \<Rightarrow> sfd_state option \<Rightarrow> data_in \<Rightarrow> sfd_state option \<times> data_in \<times> (gpgme_error_t + string option)" where
  "string_from_data hh delim helpptr d =
     (case helpptr of
        None \<Rightarrow>
          if \<not> gh_core hh ''sfd'' then (None, d, Inl (syserror ENOMEM))
          else (case sfd_loop hh delim \<lparr>sf_eof_seen = False, sf_nbytes = 0, sf_buf = []\<rparr> d of (s, d1, r) \<Rightarrow> (Some s, d1, r))
      | Some self \<Rightarrow>
          if sf_eof_seen self then (helpptr, d, Inr None)
          else (case sfd_loop hh delim (self\<lparr>sf_buf := drop (sf_nbytes self) (sf_buf self), sf_nbytes := 0\<rparr>) d of
                  (s, d1, r) \<Rightarrow> (Some s, d1, r)))"

text \<open>What is left to read, and whether the end has been seen: it decreases with every string.\<close>

definition sfd_left :: "sfd_state option \<Rightarrow> data_in \<Rightarrow> nat" where
  "sfd_left h d =
     (case h of
        None \<Rightarrow> 1 + length (di_rest d)
      | Some s \<Rightarrow> if sf_eof_seen s then 0 else 1 + length (drop (sf_nbytes s) (sf_buf s)) + length (di_rest d))"

lemma sfd_loop_left:
  "sfd_loop hh delim self d = (s1, d1, Inr (Some w)) \<Longrightarrow>
     sfd_left (Some s1) d1 < 1 + length (sf_buf self) + length (di_rest d)"
proof (induction hh delim self d rule: sfd_loop.induct)
  case (1 hh delim self d)
  consider (found) "delim \<in> set (sf_buf self)"
    | (read) d2 c where "delim \<notin> set (sf_buf self)" "\<not> 2000 \<le> length (sf_buf self)"
        "data_in_read d (2000 - length (sf_buf self)) = (d2, Some c)"
    using 1(2) by (subst (asm) sfd_loop.simps) (auto split: if_splits option.splits prod.splits)
  then show ?case
  proof cases
    case found
    then show ?thesis using 1(2) by (subst (asm) sfd_loop.simps) (cases "sf_buf self", auto simp: sfd_left_def Let_def)
  next
    case read
    show ?thesis
    proof (cases "c = []")
      case True
      then show ?thesis using 1(2) read by (subst (asm) sfd_loop.simps) (auto simp: sfd_left_def)
    next
      case False
      have "sfd_loop hh delim (self\<lparr>sf_buf := sf_buf self @ c\<rparr>) d2 = (s1, d1, Inr (Some w))"
        using 1(2) read False by (subst (asm) sfd_loop.simps) simp
      from 1(1) [OF read(1,2) read(3) [symmetric] refl False this] show ?thesis
        using data_in_read_rest [OF read(3)] by simp
    qed
  qed
qed

lemma string_from_data_left:
  assumes "string_from_data hh delim h d = (h1, d1, Inr (Some w))"
  shows "sfd_left h1 d1 < sfd_left h d"
proof (cases h)
  case None
  then show ?thesis using assms sfd_loop_left [of hh delim "\<lparr>sf_eof_seen = False, sf_nbytes = 0, sf_buf = []\<rparr>" d]
    by (auto simp: string_from_data_def sfd_left_def split: if_splits prod.splits)
next
  case (Some s)
  then show ?thesis
    using assms sfd_loop_left [of hh delim "s\<lparr>sf_buf := drop (sf_nbytes s) (sf_buf s), sf_nbytes := 0\<rparr>" d]
    by (auto simp: string_from_data_def sfd_left_def split: if_splits prod.splits)
qed

text \<open>The loop of \<open>gpg_import\<close> over the strings; an argument ends at the first NUL.\<close>

function fetch_loop :: "gpg_host \<Rightarrow> char \<Rightarrow> sfd_state option \<Rightarrow> data_in \<Rightarrow> engine_gpg \<Rightarrow> gpg_res" where
  "fetch_loop hh delim helpptr keydata g =
     (case string_from_data hh delim helpptr keydata of
        (h1, d1, Inl xerr) \<Rightarrow> (g, xerr)
      | (h1, d1, Inr None) \<Rightarrow> (g, no_error)
      | (h1, d1, Inr (Some s)) \<Rightarrow>
          (let r = add_arg hh (takeWhile (\<lambda>c. c \<noteq> NUL) s) g
           in if is_err (snd r) then r else fetch_loop hh delim h1 d1 (fst r)))"
  by pat_completeness auto
termination
  by (relation "measure (\<lambda>(hh, delim, h, d, g). sfd_left h d)") (auto dest!: string_from_data_left [OF sym])

declare fetch_loop.simps [simp del]

definition import_key_step :: "gpg_host \<Rightarrow> gpgme_key \<Rightarrow> gpg_step" where
  "import_key_step hh key =
     (if key_protocol key \<noteq> GPGME_PROTOCOL_OpenPGP then (\<lambda>r. r)
      else case key_subkeys key of
        [] \<Rightarrow> (\<lambda>r. r)
      | sk # _ \<Rightarrow>
          (case sk_fpr sk of
             Some fpr \<Rightarrow> if fpr \<noteq> [] then arg hh fpr else only_if (sk_keyid sk \<noteq> []) (arg hh (sk_keyid sk))
           | None \<Rightarrow> only_if (sk_keyid sk \<noteq> []) (arg hh (sk_keyid sk))))"

text \<open>Without key data and without keys the assertion in \<open>add_data\<close> fails.\<close>

definition gpg_import :: "gpg_host \<Rightarrow> data_in option \<Rightarrow> gpgme_key list option \<Rightarrow> engine_gpg \<Rightarrow> gpg_res" where
  "gpg_import hh keydata keyarray g =
     (if keydata \<noteq> None \<and> keyarray \<noteq> None then (g, gpg_error GPG_ERR_INV_VALUE)
      else case keyarray of
        Some keys \<Rightarrow>
          steps ([arg hh ''--recv-keys'', arg hh ''--''] @ map (import_key_step hh) keys @ [unless_err (start hh)]) g
      | None \<Rightarrow>
          (let dataenc = in_encoding keydata
           in if dataenc = GPGME_DATA_ENCODING_URL \<or> dataenc = GPGME_DATA_ENCODING_URL0 then
                steps
                  [arg hh ''--fetch-keys'', arg hh ''--'',
                   unless_err (fetch_loop hh (if dataenc = GPGME_DATA_ENCODING_URL then CHR 0x0A else NUL) None (the keydata)),
                   unless_err (start hh)] g
              else if dataenc = GPGME_DATA_ENCODING_URLESC then (g, gpg_error GPG_ERR_NOT_IMPLEMENTED)
              else
                steps
                  [arg hh ''--import'', arg hh ''--'',
                   (case keydata of
                      None \<Rightarrow> unless_err (\<lambda>g. (g\<lparr>gg_ub := True\<rparr>, no_error))
                    | Some d \<Rightarrow> data_arg hh (DHandle (di_handle d)) (- 1) False),
                   unless_err (start hh)] g))"

subsection \<open>Key listing\<close>

text \<open>The fields of a line, at most 16; a field ends at the next colon.\<close>

fun preprocess_fields :: "nat \<Rightarrow> string \<Rightarrow> string list" where
  "preprocess_fields 0 line = []"
| "preprocess_fields (Suc k) line =
     (case strchr_split (CHR '':'') line of
        (f, None) \<Rightarrow> [f]
      | (f, Some rest) \<Rightarrow> f # preprocess_fields k rest)"

text \<open>Percent escapes into C escapes; the two bytes behind a percent sign are copied as they are.\<close>

fun uid_c_coded :: "string \<Rightarrow> string" where
  "uid_c_coded [] = []"
| "uid_c_coded [c] = (if c = CHR ''%'' then [CHR 0x5C, CHR ''x''] else if c = CHR 0x5C then [CHR 0x5C, CHR 0x5C] else [c])"
| "uid_c_coded [c, a] =
     (if c = CHR ''%'' then [CHR 0x5C, CHR ''x'', a]
      else if c = CHR 0x5C then CHR 0x5C # CHR 0x5C # uid_c_coded [a]
      else c # uid_c_coded [a])"
| "uid_c_coded (c # a # b # s) =
     (if c = CHR ''%'' then CHR 0x5C # CHR ''x'' # a # b # uid_c_coded s
      else if c = CHR 0x5C then CHR 0x5C # CHR 0x5C # uid_c_coded (a # b # s)
      else c # uid_c_coded (a # b # s))"

text \<open>
  \<open>Ok None\<close> drops the line. \<open>UB\<close> is the use of an array element that has not been set: \<open>field[1]\<close>
  of a line \<open>uid\<close> without a colon, \<open>field[4]\<close> when there are exactly four fields.
\<close>

definition gpg_keylist_preprocess :: "gpg_host \<Rightarrow> string \<Rightarrow> string option cres" where
  "gpg_keylist_preprocess hh line =
     (let field = preprocess_fields 16 line
      in if field ! 0 = ''info'' then Ok None
         else if field ! 0 = ''pub'' then
           (if length field < 7 then Ok None
            else if \<not> gh_core hh ''asprintf'' then Err (syserror ENOMEM)
            else
              (let n = length (field ! 1);
                   pub = (\<lambda>keyid. ''pub:o'' @ field ! 6 @ '':'' @ field ! 3 @ '':'' @ field ! 2 @ '':'' @ keyid
                            @ '':'' @ field ! 4 @ '':'' @ field ! 5 @ ''::::::::'')
               in Ok (Some (if n > 16
                            then pub (drop (n - 16) (field ! 1)) @ [CHR 0x0A] @ ''fpr:::::::::'' @ field ! 1 @ '':''
                            else pub (field ! 1)))))
         else if field ! 0 = ''uid'' then
           (if length field < 2 then UB
            else if \<not> gh_core hh ''uid'' then Err (syserror ENOMEM)
            else if length field < 4 then
              (if \<not> gh_core hh ''asprintf'' then Err (syserror ENOMEM)
               else Ok (Some (''uid:o::::::::'' @ uid_c_coded (field ! 1) @ '':'')))
            else if length field = 4 then UB
            else if \<not> gh_core hh ''asprintf'' then Err (syserror ENOMEM)
            else Ok (Some (''uid:o'' @ field ! 4 @ ''::::'' @ field ! 2 @ '':'' @ field ! 3 @ '':::''
                           @ uid_c_coded (field ! 1) @ '':'')))
         else Ok None)"

text \<open>The step for \<open>--with-sig-check\<close> does not look at the error of \<open>--locate-keys\<close>.\<close>

definition gpg_keylist_build_options :: "gpg_host \<Rightarrow> bool \<Rightarrow> 32 word \<Rightarrow> engine_gpg \<Rightarrow> gpg_res" where
  "gpg_keylist_build_options hh secret_only mode g =
     steps
       [arg hh ''--with-colons'',
        only_if (\<not> have_gpg_version g ''2.1.15'')
          (unless_err (steps [arg hh ''--fixed-list-mode'', arg hh ''--with-fingerprint'', arg hh ''--with-fingerprint''])),
        only_if (bit mode 5 \<and> have_gpg_version g ''2.1.16'') (arg hh ''--with-tofu-info''),
        only_if (bit mode 4) (arg hh ''--with-secret''),
        only_if (bit mode 2 \<and> bit mode 3)
          (unless_err (steps [arg hh ''--list-options'',
                              arg hh (''show-sig-subpackets='' @ [CHR 0x22] @ ''20,26'' @ [CHR 0x22])])),
        (if bit mode 1 then
           (if secret_only then fail_with GPG_ERR_NOT_SUPPORTED
            else if bit mode 0 then
              unless_err (\<lambda>g1. only_if (bit mode 2) (in_any_case (add_arg hh ''--with-sig-check'')) (add_arg hh ''--locate-keys'' g1))
            else unless_err (\<lambda>g1. case add_arg hh ''--search-keys'' g1 of (g2, e) \<Rightarrow> (g2\<lparr>gg_preprocess := True\<rparr>, e)))
         else arg hh (if secret_only then ''--list-secret-keys''
                      else if bit mode 2 then ''--check-sigs'' else ''--list-keys'')),
        arg hh ''--''] g"

definition gpg_keylist :: "gpg_host \<Rightarrow> string option \<Rightarrow> bool \<Rightarrow> 32 word \<Rightarrow> engine_gpg \<Rightarrow> gpg_res" where
  "gpg_keylist hh pattern secret_only mode =
     steps [unless_err (gpg_keylist_build_options hh secret_only mode), pattern_step hh pattern, unless_err (start hh)]"

definition gpg_keylist_ext :: "gpg_host \<Rightarrow> string list option \<Rightarrow> bool \<Rightarrow> bool \<Rightarrow> 32 word \<Rightarrow> engine_gpg \<Rightarrow> gpg_res" where
  "gpg_keylist_ext hh pattern secret_only reserved mode =
     (if reserved then steps [fail_with GPG_ERR_INV_VALUE]
      else steps ([unless_err (gpg_keylist_build_options hh secret_only mode)]
                  @ patterns_steps hh pattern @ [unless_err (start hh)]))"

definition gpg_keylist_data :: "gpg_host \<Rightarrow> data_in \<Rightarrow> engine_gpg \<Rightarrow> gpg_res" where
  "gpg_keylist_data hh d g =
     (if \<not> have_gpg_version g ''2.1.14'' then (g, gpg_error GPG_ERR_NOT_SUPPORTED)
      else steps
        [arg hh ''--with-colons'', arg hh ''--with-fingerprint'', arg hh ''--import-options'', arg hh ''import-show'',
         arg hh ''--dry-run'', arg hh ''--import'', arg hh ''--'',
         data_arg hh (DHandle (di_handle d)) (- 1) False, unless_err (start hh)] g)"

subsection \<open>Signatures\<close>

text \<open>The user ids of a list that is separated by line feeds; empty ones are skipped.\<close>

function lf_parts :: "string \<Rightarrow> string list" where
  "lf_parts userid =
     (case strchr_split (CHR 0x0A) userid of
        (f, Some s) \<Rightarrow> (if f \<noteq> [] then [f] else []) @ lf_parts s
      | (f, None) \<Rightarrow> if userid \<noteq> [] then [userid] else [])"
  by pat_completeness auto
termination
  by (relation "measure length") (auto dest: strchr_split_shorter [OF sym])

declare lf_parts.simps [simp del]

definition gpg_keysign ::
    "gpg_host \<Rightarrow> key_store \<Rightarrow> gpgme_key option \<Rightarrow> string option \<Rightarrow> nat \<Rightarrow> 32 word \<Rightarrow> gpgme_context \<Rightarrow> engine_gpg \<Rightarrow> gpg_res" where
  "gpg_keysign hh ks key userid expire flags x g =
     (case Option.bind key key_fpr of
        None \<Rightarrow> (g, gpg_error GPG_ERR_INV_ARG)
      | Some fpr \<Rightarrow>
          if \<not> have_gpg_version g ''2.1.12'' then (g, gpg_error GPG_ERR_NOT_SUPPORTED)
          else steps
            ([arg hh (if bit flags 7 then ''--quick-lsign-key'' else ''--quick-sign-key''),
              unless_err (append_args_from_signers hh (ctx_signer_keys ks x)),
              only_if (expire \<noteq> 0 \<or> bit flags 9)
                (unless_err (steps [arg hh ''--default-cert-expire'', arg hh (seconds_string (if bit flags 9 then 0 else expire))])),
              arg hh ''--'', arg hh fpr]
             @ (case userid of
                  None \<Rightarrow> []
                | Some u \<Rightarrow> map (\<lambda>p. arg hh (''='' @ p)) (if bit flags 8 then lf_parts u else [u]))
             @ [unless_err (start hh)]) g)"

definition tofu_policy_string :: "gpgme_tofu_policy_t \<Rightarrow> string option" where
  "tofu_policy_string policy =
     (case policy of
        GPGME_TOFU_POLICY_NONE \<Rightarrow> None
      | GPGME_TOFU_POLICY_AUTO \<Rightarrow> Some ''auto''
      | GPGME_TOFU_POLICY_GOOD \<Rightarrow> Some ''good''
      | GPGME_TOFU_POLICY_BAD \<Rightarrow> Some ''bad''
      | GPGME_TOFU_POLICY_ASK \<Rightarrow> Some ''ask''
      | GPGME_TOFU_POLICY_UNKNOWN \<Rightarrow> Some ''unknown'')"

definition gpg_tofu_policy :: "gpg_host \<Rightarrow> gpgme_key option \<Rightarrow> gpgme_tofu_policy_t \<Rightarrow> engine_gpg \<Rightarrow> gpg_res" where
  "gpg_tofu_policy hh key policy g =
     (case (Option.bind key key_fpr, tofu_policy_string policy) of
        (None, _) \<Rightarrow> (g, gpg_error GPG_ERR_INV_ARG)
      | (Some fpr, None) \<Rightarrow> (g, gpg_error GPG_ERR_INV_VALUE)
      | (Some fpr, Some policystr) \<Rightarrow>
          if \<not> have_gpg_version g ''2.1.10'' then (g, gpg_error GPG_ERR_NOT_SUPPORTED)
          else steps [arg hh ''--tofu-policy'', arg hh ''--'', arg hh policystr, arg hh fpr, unless_err (start hh)] g)"

definition gpg_sign ::
    "gpg_host \<Rightarrow> key_store \<Rightarrow> data_in \<Rightarrow> data_in \<Rightarrow> gpgme_sig_mode_t \<Rightarrow> bool \<Rightarrow> bool \<Rightarrow> gpgme_context \<Rightarrow> engine_gpg \<Rightarrow> gpg_res" where
  "gpg_sign hh ks inp outp mode use_armor use_textmode x =
     steps
       ((if mode = GPGME_SIG_MODE_CLEAR then [arg hh ''--clearsign'']
         else
           [arg hh ''--sign'',
            only_if (mode = GPGME_SIG_MODE_DETACH) (arg hh ''--detach''),
            only_if use_armor (arg hh ''--armor''),
            with_version ''2.1.14'' (\<lambda>ok. if di_encoding inp = GPGME_DATA_ENCODING_MIME \<and> ok then arg hh ''--mimemode''
                                          else only_if use_textmode (arg hh ''--textmode''))])
        @ [unless_err (append_args_from_signers hh (ctx_signer_keys ks x)),
           unless_err (append_args_from_sender hh x),
           unless_err (append_args_from_sig_notations hh (gpgme_sig_notation_get (Some x))),
           opt_arg hh ''--set-filename'' (di_file_name inp),
           unless_err (add_input_size_hint hh (Some inp)),
           arg hh ''--'', data_arg hh (DHandle (di_handle inp)) (- 1) False,
           data_arg hh (DHandle (di_handle outp)) 1 True,
           unless_err (start hh)])"

definition gpg_trustlist :: "gpg_host \<Rightarrow> string \<Rightarrow> engine_gpg \<Rightarrow> gpg_res" where
  "gpg_trustlist hh pattern =
     steps [arg hh ''--with-colons'', arg hh ''--list-trust-path'', arg hh ''--'', arg hh pattern, unless_err (start hh)]"

definition gpg_verify ::
    "gpg_host \<Rightarrow> data_in \<Rightarrow> data_in option \<Rightarrow> data_in option \<Rightarrow> gpgme_context \<Rightarrow> engine_gpg \<Rightarrow> gpg_res" where
  "gpg_verify hh sig signed_text plaintext x =
     steps
       ([unless_err (append_args_from_sender hh x),
         only_if (cx_auto_key_retrieve x) (arg hh ''--auto-key-retrieve'')]
        @ (case plaintext of
             Some p \<Rightarrow>
               [arg hh ''--output'', arg hh ''-'',
                unless_err (add_input_size_hint hh (Some sig)),
                arg hh ''--'', data_arg hh (DHandle (di_handle sig)) (- 1) False,
                data_arg hh (DHandle (di_handle p)) 1 True]
           | None \<Rightarrow>
               [arg hh ''--verify'',
                unless_err (add_input_size_hint hh signed_text),
                arg hh ''--'', data_arg hh (DHandle (di_handle sig)) (- 1) False,
                (case signed_text of None \<Rightarrow> (\<lambda>r. r) | Some t \<Rightarrow> data_arg hh (DHandle (di_handle t)) (- 1) False)])
        @ [unless_err (start hh)])"

text \<open>The operations of the table \<open>_gpgme_engine_ops_gpg\<close> that run gpg.\<close>

datatype gpg_op =
    GpgOpDecrypt "32 word" data_in data_in bool "string option" bool
  | GpgOpDelete gpgme_key "32 word"
  | GpgOpEdit int gpgme_key data_in
  | GpgOpEncrypt "gpgme_key list option" "string option" "32 word" data_in data_in bool
  | GpgOpEncryptSign "gpgme_key list option" "string option" "32 word" data_in data_in bool
  | GpgOpExport "string option" "32 word" data_in bool
  | GpgOpExportExt "string list option" "32 word" data_in bool
  | GpgOpGenkey "string option" "string option" nat "gpgme_key option" "32 word" "data_in option" "32 word" bool bool
  | GpgOpImport "data_in option" "gpgme_key list option"
  | GpgOpKeylist "string option" bool "32 word"
  | GpgOpKeylistExt "string list option" bool bool "32 word"
  | GpgOpKeylistData data_in
  | GpgOpKeysign "gpgme_key option" "string option" nat "32 word"
  | GpgOpTofuPolicy "gpgme_key option" gpgme_tofu_policy_t
  | GpgOpSign data_in data_in gpgme_sig_mode_t bool bool
  | GpgOpTrustlist string
  | GpgOpVerify data_in "data_in option" "data_in option"
  | GpgOpPasswd "gpgme_key option"

definition gpg_run_op :: "gpg_host \<Rightarrow> key_store \<Rightarrow> gpgme_context \<Rightarrow> gpg_op \<Rightarrow> engine_gpg \<Rightarrow> gpg_res" where
  "gpg_run_op hh ks x opn =
     (case opn of
        GpgOpDecrypt fl c p e k a \<Rightarrow> gpg_decrypt hh fl c p e k a
      | GpgOpDelete k fl \<Rightarrow> gpg_delete hh k fl
      | GpgOpEdit t k d \<Rightarrow> gpg_edit hh ks t k d x
      | GpgOpEncrypt k s fl p c ar \<Rightarrow> gpg_encrypt hh k s fl p c ar
      | GpgOpEncryptSign k s fl p c ar \<Rightarrow> gpg_encrypt_sign hh ks k s fl p c ar x
      | GpgOpExport p m d ar \<Rightarrow> gpg_export hh p m d ar
      | GpgOpExportExt p m d ar \<Rightarrow> gpg_export_ext hh p m d ar
      | GpgOpGenkey u al ex k fl h ef pk sk \<Rightarrow> gpg_genkey hh u al ex k fl h ef pk sk
      | GpgOpImport d k \<Rightarrow> gpg_import hh d k
      | GpgOpKeylist p s m \<Rightarrow> gpg_keylist hh p s m
      | GpgOpKeylistExt p s r m \<Rightarrow> gpg_keylist_ext hh p s r m
      | GpgOpKeylistData d \<Rightarrow> gpg_keylist_data hh d
      | GpgOpKeysign k u ex fl \<Rightarrow> gpg_keysign hh ks k u ex fl x
      | GpgOpTofuPolicy k pol \<Rightarrow> gpg_tofu_policy hh k pol
      | GpgOpSign i o1 m ar tx \<Rightarrow> gpg_sign hh ks i o1 m ar tx x
      | GpgOpTrustlist p \<Rightarrow> gpg_trustlist hh p
      | GpgOpVerify s t p \<Rightarrow> gpg_verify hh s t p x
      | GpgOpPasswd k \<Rightarrow> gpg_passwd hh k)"

end
