(* ===== verification/Gpgme_EngineGpgProps.thy ===== *)
theory Gpgme_EngineGpgProps
  imports Gpgme_EngineGpg
begin

text \<open>
  Properties of the command lines of the gpg engine: the options that gpg sees are those the engine
  means to give, whatever names, user ids, patterns and file names the application passes; the size
  of the argument vector; the recipient strings and URL lists; the lines of key servers.
\<close>

section \<open>Options and their values\<close>

text \<open>The options that the engine uses, with a value in the next argument and without.\<close>

definition value_options :: "string list" where
  "value_options =
    [''--homedir'', ''--status-fd'', ''--charset'', ''--display'', ''--ttyname'', ''--ttytype'',
     ''--logger-fd'', ''--command-fd'', ''--lc-ctype'', ''--lc-messages'',
     ''--override-session-key-fd'', ''--override-session-key'', ''--output'', ''--input-size-hint'',
     ''--set-filename'', ''-u'', ''--sender'', ''--sig-notation'', ''--sig-policy-url'', ''-r'',
     ''-R'', ''-f'', ''-F'', ''--passphrase'', ''--list-options'', ''--import-options'',
     ''--default-cert-expire'']"

definition flag_options :: "string list" where
  "flag_options =
    [''--enable-special-filenames'', ''--use-agent'', ''--no-symkey-cache'', ''--ignore-mdc-error'',
     ''--disable-dirmngr'', ''--pinentry-mode=ask'', ''--pinentry-mode=cancel'',
     ''--pinentry-mode=error'', ''--pinentry-mode=loopback'', ''--batch'', ''--no-sk-comments'',
     ''--no-tty'', ''--enable-progress-filter'', ''--exit-on-status-write-error'', ''--decrypt'',
     ''--unwrap'', ''--show-session-key'', ''--auto-key-retrieve'', ''--no-keyring'', ''--yes'',
     ''--delete-secret-and-public-key'', ''--delete-key'', ''--passwd'', ''--with-colons'',
     ''--edit-key'', ''--card-edit'', ''--encrypt'', ''--symmetric'', ''--armor'', ''--no-literal'',
     ''--compress-algo=none'', ''--throw-keyids'', ''--mimemode'', ''--always-trust'',
     ''--no-encrypt-to'', ''--sign'', ''--export-options=export-minimal,export-drop-uids'',
     ''--export-options=export-minimal'', ''--export-options=export-drop-uids'', ''--send-keys'',
     ''--keyserver-options=export-drop-uids'', ''--export-secret-keys'', ''--export'',
     ''--gen-key'', ''--quick-gen-key'', ''--quick-addkey'', ''--quick-set-primary-uid'',
     ''--quick-revuid'', ''--quick-adduid'', ''--recv-keys'', ''--fetch-keys'', ''--import'',
     ''--fixed-list-mode'', ''--with-fingerprint'', ''--with-tofu-info'', ''--with-secret'',
     ''--locate-keys'', ''--with-sig-check'', ''--search-keys'', ''--list-secret-keys'',
     ''--check-sigs'', ''--list-keys'', ''--dry-run'', ''--quick-lsign-key'', ''--quick-sign-key'',
     ''--tofu-policy'', ''--clearsign'', ''--detach'', ''--textmode'', ''--list-trust-path'',
     ''--verify'']"

definition assign_options :: "string list" where
  "assign_options = [''--request-origin='', ''--auto-key-locate='', ''--trust-model='']"

lemma value_options_members [simp]:
  "''--homedir'' \<in> set value_options"
  "''--status-fd'' \<in> set value_options"
  "''--charset'' \<in> set value_options"
  "''--display'' \<in> set value_options"
  "''--ttyname'' \<in> set value_options"
  "''--ttytype'' \<in> set value_options"
  "''--logger-fd'' \<in> set value_options"
  "''--command-fd'' \<in> set value_options"
  "''--lc-ctype'' \<in> set value_options"
  "''--lc-messages'' \<in> set value_options"
  "''--override-session-key-fd'' \<in> set value_options"
  "''--override-session-key'' \<in> set value_options"
  "''--output'' \<in> set value_options"
  "''--input-size-hint'' \<in> set value_options"
  "''--set-filename'' \<in> set value_options"
  "''-u'' \<in> set value_options"
  "''--sender'' \<in> set value_options"
  "''--sig-notation'' \<in> set value_options"
  "''--sig-policy-url'' \<in> set value_options"
  "''-r'' \<in> set value_options"
  "''-R'' \<in> set value_options"
  "''-f'' \<in> set value_options"
  "''-F'' \<in> set value_options"
  "''--passphrase'' \<in> set value_options"
  "''--list-options'' \<in> set value_options"
  "''--import-options'' \<in> set value_options"
  "''--default-cert-expire'' \<in> set value_options"
  by (simp_all add: value_options_def)

lemma flag_options_members [simp]:
  "''--enable-special-filenames'' \<in> set flag_options"
  "''--use-agent'' \<in> set flag_options"
  "''--no-symkey-cache'' \<in> set flag_options"
  "''--ignore-mdc-error'' \<in> set flag_options"
  "''--disable-dirmngr'' \<in> set flag_options"
  "''--pinentry-mode=ask'' \<in> set flag_options"
  "''--pinentry-mode=cancel'' \<in> set flag_options"
  "''--pinentry-mode=error'' \<in> set flag_options"
  "''--pinentry-mode=loopback'' \<in> set flag_options"
  "''--batch'' \<in> set flag_options"
  "''--no-sk-comments'' \<in> set flag_options"
  "''--no-tty'' \<in> set flag_options"
  "''--enable-progress-filter'' \<in> set flag_options"
  "''--exit-on-status-write-error'' \<in> set flag_options"
  "''--decrypt'' \<in> set flag_options"
  "''--unwrap'' \<in> set flag_options"
  "''--show-session-key'' \<in> set flag_options"
  "''--auto-key-retrieve'' \<in> set flag_options"
  "''--no-keyring'' \<in> set flag_options"
  "''--yes'' \<in> set flag_options"
  "''--delete-secret-and-public-key'' \<in> set flag_options"
  "''--delete-key'' \<in> set flag_options"
  "''--passwd'' \<in> set flag_options"
  "''--with-colons'' \<in> set flag_options"
  "''--edit-key'' \<in> set flag_options"
  "''--card-edit'' \<in> set flag_options"
  "''--encrypt'' \<in> set flag_options"
  "''--symmetric'' \<in> set flag_options"
  "''--armor'' \<in> set flag_options"
  "''--no-literal'' \<in> set flag_options"
  "''--compress-algo=none'' \<in> set flag_options"
  "''--throw-keyids'' \<in> set flag_options"
  "''--mimemode'' \<in> set flag_options"
  "''--always-trust'' \<in> set flag_options"
  "''--no-encrypt-to'' \<in> set flag_options"
  "''--sign'' \<in> set flag_options"
  "''--export-options=export-minimal,export-drop-uids'' \<in> set flag_options"
  "''--export-options=export-minimal'' \<in> set flag_options"
  "''--export-options=export-drop-uids'' \<in> set flag_options"
  "''--send-keys'' \<in> set flag_options"
  "''--keyserver-options=export-drop-uids'' \<in> set flag_options"
  "''--export-secret-keys'' \<in> set flag_options"
  "''--export'' \<in> set flag_options"
  "''--gen-key'' \<in> set flag_options"
  "''--quick-gen-key'' \<in> set flag_options"
  "''--quick-addkey'' \<in> set flag_options"
  "''--quick-set-primary-uid'' \<in> set flag_options"
  "''--quick-revuid'' \<in> set flag_options"
  "''--quick-adduid'' \<in> set flag_options"
  "''--recv-keys'' \<in> set flag_options"
  "''--fetch-keys'' \<in> set flag_options"
  "''--import'' \<in> set flag_options"
  "''--fixed-list-mode'' \<in> set flag_options"
  "''--with-fingerprint'' \<in> set flag_options"
  "''--with-tofu-info'' \<in> set flag_options"
  "''--with-secret'' \<in> set flag_options"
  "''--locate-keys'' \<in> set flag_options"
  "''--with-sig-check'' \<in> set flag_options"
  "''--search-keys'' \<in> set flag_options"
  "''--list-secret-keys'' \<in> set flag_options"
  "''--check-sigs'' \<in> set flag_options"
  "''--list-keys'' \<in> set flag_options"
  "''--dry-run'' \<in> set flag_options"
  "''--quick-lsign-key'' \<in> set flag_options"
  "''--quick-sign-key'' \<in> set flag_options"
  "''--tofu-policy'' \<in> set flag_options"
  "''--clearsign'' \<in> set flag_options"
  "''--detach'' \<in> set flag_options"
  "''--textmode'' \<in> set flag_options"
  "''--list-trust-path'' \<in> set flag_options"
  "''--verify'' \<in> set flag_options"
  by (simp_all add: flag_options_def)

definition fixed_option :: "string \<Rightarrow> bool" where
  "fixed_option a \<longleftrightarrow> a \<in> set value_options \<or> a \<in> set flag_options \<or> list_ex (\<lambda>p. prefix p a) assign_options"

text \<open>
  What is assumed of gpg: which options take the next argument as their value. An argument that
  does not start with a dash, and a dash alone, are no options.
\<close>

definition gpg_syntax :: "(string \<Rightarrow> bool) \<Rightarrow> bool" where
  "gpg_syntax takes \<longleftrightarrow>
     (\<forall>a\<in>set value_options. takes a) \<and> (\<forall>a\<in>set flag_options. \<not> takes a)
     \<and> (\<forall>p\<in>set assign_options. \<forall>s. \<not> takes (p @ s))
     \<and> (\<forall>a. peek a \<noteq> CHR ''-'' \<longrightarrow> \<not> takes a) \<and> \<not> takes ''-''"

text \<open>How gpg goes through its arguments: options up to \<open>--\<close>, some of them with a value.\<close>

datatype scan = InOptions | InValue | AfterOptions

fun scan_arg :: "(string \<Rightarrow> bool) \<Rightarrow> scan \<Rightarrow> string \<Rightarrow> scan" where
  "scan_arg takes AfterOptions a = AfterOptions"
| "scan_arg takes InValue a = InOptions"
| "scan_arg takes InOptions a = (if a = ''--'' then AfterOptions else if takes a then InValue else InOptions)"

fun seen_options :: "(string \<Rightarrow> bool) \<Rightarrow> scan \<Rightarrow> string list \<Rightarrow> string list" where
  "seen_options takes sc [] = []"
| "seen_options takes sc (a # as) =
     (if sc = InOptions \<and> peek a = CHR ''-'' \<and> a \<noteq> ''-'' \<and> a \<noteq> ''--'' then [a] else [])
     @ seen_options takes (scan_arg takes sc a) as"

lemma seen_options_append:
  "seen_options takes sc (xs @ ys) = seen_options takes sc xs @ seen_options takes (foldl (scan_arg takes) sc xs) ys"
  by (induction xs arbitrary: sc) simp_all

lemma argv_args_append:
  "argv_args hh n (xs @ ys) = argv_args hh n xs @ argv_args hh (n + length (filter (\<lambda>a. case a of AData d pf dup inb \<Rightarrow> True | _ \<Rightarrow> False) xs)) ys"
  by (induction hh n xs rule: argv_args.induct) simp_all

section \<open>Engines whose list is in order\<close>

definition settings_ok :: "engine_gpg \<Rightarrow> bool" where
  "settings_ok g \<longleftrightarrow>
     (\<forall>s. gg_auto_key_locate g = Some s \<longrightarrow> prefix ''--auto-key-locate='' s)
     \<and> (\<forall>s. gg_trust_model g = Some s \<longrightarrow> prefix ''--trust-model='' s)"

text \<open>The state in which gpg is after the arguments so far, and that it has seen fixed options only.\<close>

definition scanned :: "(string \<Rightarrow> bool) \<Rightarrow> gpg_host \<Rightarrow> scan \<Rightarrow> engine_gpg \<Rightarrow> bool" where
  "scanned takes hh sc g \<longleftrightarrow>
     foldl (scan_arg takes) InOptions (argv_args hh 0 (gg_arglist g)) = sc
     \<and> (\<forall>a\<in>set (seen_options takes InOptions (argv_args hh 0 (gg_arglist g))). fixed_option a)
     \<and> settings_ok g"

definition moves :: "(string \<Rightarrow> bool) \<Rightarrow> gpg_host \<Rightarrow> scan \<Rightarrow> (engine_gpg \<Rightarrow> gpg_res) \<Rightarrow> scan \<Rightarrow> bool" where
  "moves takes hh sc f sc' \<longleftrightarrow>
     (\<forall>g. scanned takes hh sc g \<longrightarrow> \<not> is_err (snd (f g)) \<longrightarrow> scanned takes hh sc' (fst (f g)))"

definition step_moves :: "(string \<Rightarrow> bool) \<Rightarrow> gpg_host \<Rightarrow> scan \<Rightarrow> gpg_step \<Rightarrow> scan \<Rightarrow> bool" where
  "step_moves takes hh sc s sc' \<longleftrightarrow>
     (\<forall>r. (\<not> is_err (snd r) \<longrightarrow> scanned takes hh sc (fst r)) \<longrightarrow> \<not> is_err (snd (s r)) \<longrightarrow> scanned takes hh sc' (fst (s r)))"

lemma value_options_opt: "a \<in> set value_options \<Longrightarrow> peek a = CHR ''-'' \<and> a \<noteq> ''-'' \<and> a \<noteq> ''--''"
  by (auto simp: value_options_def)

lemma flag_options_opt: "a \<in> set flag_options \<Longrightarrow> a \<noteq> ''--''"
  by (auto simp: flag_options_def)

lemma append_arg_result:
  "append_arg hh a g = (g', e) \<Longrightarrow> \<not> is_err e \<Longrightarrow> g' = g\<lparr>gg_arglist := gg_arglist g @ [a]\<rparr>"
  by (auto simp: append_arg_def split: if_splits)

lemma scanned_append_arg:
  assumes "scanned takes hh sc g" and "\<not> is_err (snd (append_arg hh a g))"
    and "\<And>n. foldl (scan_arg takes) sc (argv_args hh n [a]) = sc'"
    and "\<And>n. \<forall>b\<in>set (seen_options takes sc (argv_args hh n [a])). fixed_option b"
  shows "scanned takes hh sc' (fst (append_arg hh a g))"
proof -
  have "fst (append_arg hh a g) = g\<lparr>gg_arglist := gg_arglist g @ [a]\<rparr>"
    using append_arg_result [of hh a g "fst (append_arg hh a g)" "snd (append_arg hh a g)"] assms(2) by simp
  then show ?thesis using assms(1,3,4)
    by (auto simp: scanned_def argv_args_append seen_options_append settings_ok_def)
qed

lemma moves_value_option:
  assumes "gpg_syntax takes" and "s \<in> set value_options"
  shows "moves takes hh InOptions (add_arg hh s) InValue"
  unfolding moves_def add_arg_def
  using assms value_options_opt [OF assms(2)]
  by (intro allI impI scanned_append_arg [where sc = InOptions]) (auto simp: gpg_syntax_def fixed_option_def)

lemma moves_flag_option:
  assumes "gpg_syntax takes" and "s \<in> set flag_options"
  shows "moves takes hh InOptions (add_arg hh s) InOptions"
  unfolding moves_def add_arg_def
  using assms flag_options_opt [OF assms(2)]
  by (intro allI impI scanned_append_arg [where sc = InOptions]) (auto simp: gpg_syntax_def fixed_option_def)

lemma moves_value: "moves takes hh InValue (add_arg hh s) InOptions"
  unfolding moves_def add_arg_def
  by (intro allI impI scanned_append_arg [where sc = InValue]) auto

lemma moves_status_value: "moves takes hh InValue (append_arg hh (AStatusFd s)) InOptions"
  unfolding moves_def
  by (intro allI impI scanned_append_arg [where sc = InValue]) auto

lemma moves_end_of_options: "moves takes hh InOptions (add_arg hh ''--'') AfterOptions"
  unfolding moves_def add_arg_def
  by (intro allI impI scanned_append_arg [where sc = InOptions]) auto

lemma moves_operand: "moves takes hh AfterOptions (add_arg hh s) AfterOptions"
  unfolding moves_def add_arg_def
  by (intro allI impI scanned_append_arg [where sc = AfterOptions]) auto

lemma moves_data_operand: "moves takes hh AfterOptions (add_data hh d dup inb) AfterOptions"
  unfolding moves_def add_data_def
  by (intro allI impI scanned_append_arg [where sc = AfterOptions]) auto

lemma moves_data_value: "moves takes hh InValue (add_data hh d (- 2) inb) InOptions"
  unfolding moves_def add_data_def
  by (intro allI impI scanned_append_arg [where sc = InValue]) auto

lemma moves_data_fixed: "moves takes hh sc (add_data hh d 1 inb) sc"
  unfolding moves_def add_data_def
  by (intro allI impI scanned_append_arg [where sc = sc]) auto

lemma moves_no_dash:
  assumes "gpg_syntax takes" and "peek s \<noteq> CHR ''-''"
  shows "moves takes hh InOptions (add_arg hh s) InOptions"
  unfolding moves_def add_arg_def
  using assms
  by (intro allI impI scanned_append_arg [where sc = InOptions]) (auto simp: gpg_syntax_def)

section \<open>Sequences of steps\<close>

definition chain :: "(string \<Rightarrow> bool) \<Rightarrow> gpg_host \<Rightarrow> scan \<Rightarrow> gpg_step list \<Rightarrow> (engine_gpg \<Rightarrow> bool) \<Rightarrow> bool" where
  "chain takes hh sc ss Q \<longleftrightarrow>
     (\<forall>r. (\<not> is_err (snd r) \<longrightarrow> scanned takes hh sc (fst r)) \<longrightarrow> \<not> is_err (snd (fold (\<lambda>s. s) ss r))
          \<longrightarrow> Q (fst (fold (\<lambda>s. s) ss r)))"

lemma chain_Nil: "(\<And>g. scanned takes hh sc g \<Longrightarrow> Q g) \<Longrightarrow> chain takes hh sc [] Q"
  by (simp add: chain_def)

lemma chain_done: "chain takes hh sc [] (scanned takes hh sc)"
  by (rule chain_Nil)

lemma chain_Cons: "step_moves takes hh sc s sc1 \<Longrightarrow> chain takes hh sc1 ss Q \<Longrightarrow> chain takes hh sc (s # ss) Q"
  unfolding chain_def step_moves_def fold_simps o_apply by (metis (no_types, lifting))

lemma chain_map:
  assumes "\<And>p. p \<in> set ps \<Longrightarrow> step_moves takes hh sc (f p) sc" and "chain takes hh sc ss Q"
  shows "chain takes hh sc (map f ps @ ss) Q"
  using assms by (induction ps) (auto intro: chain_Cons)

lemma steps_chain: "chain takes hh sc ss (scanned takes hh sc1) \<Longrightarrow> moves takes hh sc (steps ss) sc1"
  by (auto simp: moves_def steps_def chain_def)

lemma step_unless: "moves takes hh sc f sc1 \<Longrightarrow> step_moves takes hh sc (unless_err f) sc1"
  by (auto simp: step_moves_def moves_def unless_err_def)

lemma step_id: "step_moves takes hh sc (\<lambda>r. r) sc"
  by (simp add: step_moves_def)

lemma step_only_if: "step_moves takes hh sc s sc \<Longrightarrow> step_moves takes hh sc (only_if b s) sc"
  by (simp add: step_moves_def only_if_def)

lemma step_with_version: "(\<And>b. step_moves takes hh sc (f b) sc1) \<Longrightarrow> step_moves takes hh sc (with_version v f) sc1"
  by (simp add: step_moves_def with_version_def)

lemma step_if: "step_moves takes hh sc s sc1 \<Longrightarrow> step_moves takes hh sc t sc1 \<Longrightarrow> step_moves takes hh sc (if b then s else t) sc1"
  by simp

lemma step_fail: "is_err (gpg_error c) \<Longrightarrow> step_moves takes hh sc (fail_with c) sc1"
  by (simp add: step_moves_def unless_err_def)

lemma moves_result: "moves takes hh sc (\<lambda>g. (g, e)) sc"
  by (simp add: moves_def)

lemma moves_ub: "moves takes hh sc (\<lambda>g. (g\<lparr>gg_ub := True\<rparr>, e)) sc"
  by (simp add: moves_def scanned_def settings_ok_def)

lemma moves_if: "moves takes hh sc f sc1 \<Longrightarrow> moves takes hh sc g sc1 \<Longrightarrow> moves takes hh sc (\<lambda>x. if P x then f x else g x) sc1"
  by (simp add: moves_def)

lemma step_comp: "step_moves takes hh sc s sc1 \<Longrightarrow> step_moves takes hh sc1 t sc2 \<Longrightarrow> step_moves takes hh sc (\<lambda>r. t (s r)) sc2"
  unfolding step_moves_def by blast

lemma step_opt_arg:
  assumes "gpg_syntax takes" and "name \<in> set value_options"
  shows "step_moves takes hh InOptions (opt_arg hh name v) InOptions"
proof (cases v)
  case None
  then show ?thesis by (simp add: step_moves_def opt_arg_def)
next
  case (Some s)
  then have "opt_arg hh name v = (\<lambda>r. arg hh s (arg hh name r))" by (simp add: opt_arg_def fun_eq_iff)
  then show ?thesis
    using step_comp [OF step_unless [OF moves_value_option [OF assms]] step_unless [OF moves_value], of hh s] by simp
qed

text \<open>The rules by which the lists of the operations are gone through, one for each kind of step.\<close>

lemma chain_value_option:
  "gpg_syntax takes \<Longrightarrow> s \<in> set value_options \<Longrightarrow> chain takes hh InValue ss Q \<Longrightarrow> chain takes hh InOptions (arg hh s # ss) Q"
  by (rule chain_Cons [OF step_unless [OF moves_value_option]])

lemma chain_flag_option:
  "gpg_syntax takes \<Longrightarrow> s \<in> set flag_options \<Longrightarrow> chain takes hh InOptions ss Q \<Longrightarrow> chain takes hh InOptions (arg hh s # ss) Q"
  by (rule chain_Cons [OF step_unless [OF moves_flag_option]])

lemma chain_maybe_flag_option:
  "gpg_syntax takes \<Longrightarrow> s \<in> set flag_options \<Longrightarrow> chain takes hh InOptions ss Q \<Longrightarrow> chain takes hh InOptions (only_if b (arg hh s) # ss) Q"
  by (rule chain_Cons [OF step_only_if [OF step_unless [OF moves_flag_option]]])

lemma chain_opt_arg:
  "gpg_syntax takes \<Longrightarrow> s \<in> set value_options \<Longrightarrow> chain takes hh InOptions ss Q \<Longrightarrow> chain takes hh InOptions (opt_arg hh s v # ss) Q"
  by (rule chain_Cons [OF step_opt_arg])

lemmas chain_value = chain_Cons [OF step_unless [OF moves_value]]
  and chain_end_of_options = chain_Cons [OF step_unless [OF moves_end_of_options]]
  and chain_operand = chain_Cons [OF step_unless [OF moves_operand]]
  and chain_data_operand = chain_Cons [OF step_unless [OF moves_data_operand]]
  and chain_data_value = chain_Cons [OF step_unless [OF moves_data_value]]
  and chain_data_fixed = chain_Cons [OF step_unless [OF moves_data_fixed]]
  and chain_check = chain_Cons [OF step_unless [OF moves_result]]
  and chain_moves = chain_Cons [OF step_unless]

lemmas chain_plain = chain_end_of_options chain_value chain_operand chain_data_fixed chain_data_value chain_data_operand chain_done

section \<open>Starting gpg\<close>

definition launched :: "(string \<Rightarrow> bool) \<Rightarrow> engine_gpg \<Rightarrow> bool" where
  "launched takes g \<longleftrightarrow>
     gg_ub g \<or> (case gg_argv g of None \<Rightarrow> False | Some argv \<Rightarrow> list_all fixed_option (seen_options takes InOptions (tl argv)))"

lemma step_front_option:
  assumes "gpg_syntax takes" and "name \<in> set value_options"
  shows "step_moves takes hh sc (front_option hh name v) sc"
proof (cases v)
  case None
  then show ?thesis by (simp add: step_moves_def front_option_def)
next
  case (Some s)
  have "scanned takes hh sc (g\<lparr>gg_arglist := AArg name # AArg s # gg_arglist g\<rparr>)" if "scanned takes hh sc g" for g
    using that assms value_options_opt [OF assms(2)] by (auto simp: scanned_def gpg_syntax_def fixed_option_def settings_ok_def)
  then show ?thesis
    using Some by (simp add: step_moves_def front_option_def unless_err_def add_arg_front_def)
qed

lemma pinentry_option_flag: "a \<in> set (pinentry_option m) \<Longrightarrow> a \<in> set flag_options"
  by (cases m) (auto simp: pinentry_option_def)

lemma opt_list_mem: "a \<in> set (opt_list x) \<longleftrightarrow> x = Some a"
  by (cases x) (auto simp: opt_list_def)

lemma set_if_list: "a \<in> set (if b then xs else []) \<longleftrightarrow> b \<and> a \<in> set xs"
  by simp

lemma argv_prefix_options:
  assumes "gpg_syntax takes" and "settings_ok g" and "a \<in> set (tl (argv_prefix hh pgm g))"
  shows "fixed_option a \<and> \<not> takes a \<and> a \<noteq> ''--''"
proof -
  have pr: "\<exists>p\<in>set assign_options. \<exists>t. s = p @ t" if "prefix q s" "q \<in> set assign_options" for q s
    using that by (auto simp: prefix_def)
  have "a \<in> set flag_options \<or> prefix ''--request-origin='' a \<or> gg_auto_key_locate g = Some a \<or> gg_trust_model g = Some a"
    using assms(3)
    unfolding argv_prefix_def append_Cons append_Nil list.sel(3) set_append Un_iff set_if_list opt_list_mem
    using pinentry_option_flag [of a "gg_pinentry_mode g"] by (elim disjE) (simp_all split: if_splits, blast?)
  then have "a \<in> set flag_options \<or> (\<exists>p\<in>set assign_options. \<exists>s. a = p @ s)"
    using assms(2) pr [of _ a] by (auto simp: settings_ok_def assign_options_def)
  then show ?thesis
  proof
    assume "a \<in> set flag_options"
    then show ?thesis using assms(1) flag_options_opt by (auto simp: gpg_syntax_def fixed_option_def)
  next
    assume "\<exists>p\<in>set assign_options. \<exists>s. a = p @ s"
    then show ?thesis using assms(1) by (auto simp: gpg_syntax_def fixed_option_def list_ex_iff assign_options_def)
  qed
qed

lemma scan_flags:
  "\<forall>a\<in>set as. fixed_option a \<and> \<not> takes a \<and> a \<noteq> ''--'' \<Longrightarrow>
     foldl (scan_arg takes) InOptions as = InOptions \<and> (\<forall>a\<in>set (seen_options takes InOptions as). fixed_option a)"
  by (induction as) auto

lemma build_argv_launched:
  assumes "gpg_syntax takes" and "scanned takes hh sc g" and "\<not> is_err (snd (build_argv hh pgm g))"
  shows "launched takes (fst (build_argv hh pgm g))"
proof -
  let ?pre = "tl (argv_prefix hh pgm g)" and ?args = "argv_args hh 0 (gg_arglist g)"
  have "foldl (scan_arg takes) InOptions ?pre = InOptions \<and> (\<forall>a\<in>set (seen_options takes InOptions ?pre). fixed_option a)"
    using argv_prefix_options [OF assms(1), of g _ hh pgm] assms(2) by (intro scan_flags) (auto simp: scanned_def)
  moreover have "tl (argv_prefix hh pgm g @ ?args) = ?pre @ ?args" by (simp add: argv_prefix_def)
  ultimately have "list_all fixed_option (seen_options takes InOptions (tl (argv_prefix hh pgm g @ ?args)))"
    using assms(2) by (auto simp: seen_options_append scanned_def list_all_iff)
  then show ?thesis using assms(3) by (auto simp: build_argv_def launched_def Let_def split: if_splits)
qed

lemma start_launched:
  assumes "gpg_syntax takes"
  shows "scanned takes hh sc g \<Longrightarrow> \<not> is_err (snd (start hh g)) \<Longrightarrow> launched takes (fst (start hh g))"
proof -
  have build: "chain takes hh sc [unless_err (build_argv hh pgm), unless_err (\<lambda>g. (g, f g))] (launched takes)" for pgm f
    using build_argv_launched [OF assms] by (auto simp: chain_def unless_err_def)
  have "chain takes hh sc [front_option hh ''--lc-ctype'' a, front_option hh ''--lc-messages'' b,
          unless_err (build_argv hh pgm), unless_err (\<lambda>g. (g, f g))] (launched takes)" for a b pgm f
    by (rule chain_Cons [OF step_front_option [OF assms]], simp)+ (rule build)
  then show "scanned takes hh sc g \<Longrightarrow> \<not> is_err (snd (start hh g)) \<Longrightarrow> launched takes (fst (start hh g))"
    by (auto simp: start_def steps_def chain_def split: option.splits)
qed

lemma chain_start:
  assumes "gpg_syntax takes"
  shows "chain takes hh sc [unless_err (start hh)] (launched takes)"
  using start_launched [OF assms] by (simp add: chain_def unless_err_def)

section \<open>Every operation\<close>

text \<open>The rules as conditional rewrite rules: the simplifier goes through the list of an operation.\<close>

lemma chain_keep: "step_moves takes hh sc s sc \<Longrightarrow> chain takes hh sc ss Q \<Longrightarrow> chain takes hh sc (s # ss) Q"
  by (rule chain_Cons)

lemma step_option:
  "step_moves takes hh sc s sc1 \<Longrightarrow> (\<And>x. v = Some x \<Longrightarrow> step_moves takes hh sc (t x) sc1) \<Longrightarrow>
     step_moves takes hh sc (case v of None \<Rightarrow> s | Some x \<Rightarrow> t x) sc1"
  by (simp split: option.split)

lemmas chain_rules = chain_flag_option chain_value_option chain_opt_arg chain_plain chain_start chain_keep chain_map
  step_only_if step_unless step_if step_with_version step_fail step_id step_option
  moves_flag_option moves_value moves_operand moves_data_operand moves_data_fixed moves_result moves_ub moves_if

lemma moves_steps_rule: "chain takes hh sc ss (scanned takes hh sc) \<Longrightarrow> moves takes hh sc (steps ss) sc"
  by (rule steps_chain)

lemma moves_option:
  "moves takes hh sc f sc1 \<Longrightarrow> (\<And>x. v = Some x \<Longrightarrow> moves takes hh sc (h x) sc1) \<Longrightarrow>
     moves takes hh sc (\<lambda>g. case v of None \<Rightarrow> f g | Some x \<Rightarrow> h x g) sc1"
  by (cases v) simp_all

lemma moves_input_size_hint: "gpg_syntax takes \<Longrightarrow> moves takes hh InOptions (add_input_size_hint hh d) InOptions"
  unfolding add_input_size_hint_def Let_def
  by (intro moves_if moves_result moves_steps_rule) (simp add: chain_rules)

lemma moves_signers: "gpg_syntax takes \<Longrightarrow> moves takes hh InOptions (append_args_from_signers hh keys) InOptions"
proof (induction keys)
  case Nil
  then show ?case by (simp add: moves_result append_args_from_signers.simps [abs_def])
next
  case (Cons key keys)
  have "moves takes hh InOptions (\<lambda>g. case key_subkeys key of [] \<Rightarrow> (g, no_error)
          | sk # _ \<Rightarrow> steps [arg hh ''-u'', arg hh (sk_keyid sk)] g) InOptions"
    using Cons.prems by (cases "key_subkeys key") (simp_all add: moves_result moves_steps_rule chain_rules)
  then show ?case using Cons by (simp add: moves_def Let_def unless_err_def)
qed

lemma moves_sender: "gpg_syntax takes \<Longrightarrow> moves takes hh InOptions (append_args_from_sender hh x) InOptions"
  unfolding append_args_from_sender_def
  by (intro moves_option moves_if moves_result moves_steps_rule) (simp add: chain_rules)

lemma moves_sig_notation: "gpg_syntax takes \<Longrightarrow> moves takes hh InOptions (append_arg_from_sig_notation hh n) InOptions"
  unfolding append_arg_from_sig_notation_def Let_def
  by (intro moves_option moves_if moves_result moves_ub moves_steps_rule) (simp_all add: chain_rules)

lemma moves_sig_notations: "gpg_syntax takes \<Longrightarrow> moves takes hh InOptions (append_args_from_sig_notations hh ns) InOptions"
proof (induction ns)
  case Nil
  then show ?case by (simp add: moves_def)
next
  case (Cons n ns)
  then show ?case using moves_sig_notation [OF Cons.prems, of hh n] by (simp add: moves_def unless_err_def)
qed

lemma moves_recipient: "moves takes hh InValue (add_arg_recipient hh flags fpr) InOptions"
  using moves_value [of takes hh fpr] by (simp add: moves_def add_arg_recipient_def)

lemma moves_recipient_string:
  assumes "cstring_ok w"
  shows "moves takes hh InValue (add_arg_recipient_string hh flags w) InOptions"
  using mailbox_result_cases [OF assms, of "gh_core hh ''mbox''"] moves_value [of takes hh]
  by (auto simp: moves_def add_arg_recipient_string_def)

lemma moves_recipients: "gpg_syntax takes \<Longrightarrow> moves takes hh InOptions (append_args_from_recipients hh flags keys) InOptions"
proof (induction keys)
  case Nil
  then show ?case by (simp add: moves_def)
next
  case (Cons key keys)
  have "moves takes hh InOptions (steps [arg hh ''-r'', unless_err (add_arg_recipient hh flags fpr)]) InOptions" for fpr
    by (rule moves_steps_rule, rule chain_value_option [OF Cons.prems], simp)
       (rule chain_moves [OF moves_recipient chain_done])
  then show ?case using Cons by (auto simp: moves_def unless_err_def split: option.split)
qed

lemma recipient_line_scanned:
  assumes "gpg_syntax takes" and "cstring_ok w" and "scanned takes hh InOptions g"
    and "\<not> is_err (snd (snd (recipient_line hh orig_flags w st g)))"
  shows "scanned takes hh InOptions (fst (snd (recipient_line hh orig_flags w st g)))"
proof -
  have "moves takes hh InOptions (steps [arg hh a, unless_err (add_arg_recipient_string hh (rs_flags st) w)]) InOptions"
    if "a \<in> set value_options" for a
    using that by (intro moves_steps_rule chain_value_option [OF assms(1)] chain_moves [OF moves_recipient_string [OF assms(2)] chain_done])
  then show ?thesis using assms(3,4) by (auto simp: recipient_line_def moves_def Let_def)
qed

lemma recipients_loop_scanned:
  assumes "gpg_syntax takes"
  shows "cstring_ok str \<Longrightarrow> scanned takes hh InOptions g \<Longrightarrow> \<not> is_err (snd (snd (recipients_loop hh orig_flags str st g))) \<Longrightarrow>
     scanned takes hh InOptions (fst (snd (recipients_loop hh orig_flags str st g)))"
proof (induction hh orig_flags str st g rule: recipients_loop.induct)
  case (1 hh orig_flags str st g)
  define s1 where "s1 = dropWhile is_sp_tab str"
  have ok: "cstring_ok (take n s1)" "cstring_ok (drop n s1)" for n
    using 1(2) by (auto simp: s1_def cstring_ok_def dest!: in_set_takeD in_set_dropD set_dropWhileD)
  show ?case
  proof (cases "s1 = []")
    case True
    then show ?thesis using 1(3) by (subst recipients_loop.simps) (simp add: s1_def)
  next
    case False
    obtain l lf where sp: "strchr_split (CHR 0x0A) s1 = (l, lf)" by (cases "strchr_split (CHR 0x0A) s1")
    define n where "n = length (trim_end l)"
    obtain st1 r1 where rl: "recipient_line hh orig_flags (take n s1) st g = (st1, r1)"
      by (cases "recipient_line hh orig_flags (take n s1) st g")
    have unf: "recipients_loop hh orig_flags str st g = (if is_err (snd r1) then (st1, r1)
        else recipients_loop hh orig_flags (drop (n + (if lf = None then 0 else 1)) s1) st1 (fst r1))"
      using False sp rl by (subst recipients_loop.simps) (simp add: s1_def [symmetric] n_def [symmetric])
    show ?thesis
    proof (cases "is_err (snd r1)")
      case True
      then show ?thesis using 1(4) unf by simp
    next
      case noerr: False
      have "scanned takes hh InOptions (fst r1)"
        using recipient_line_scanned [OF assms ok(1) 1(3), of orig_flags n st] rl noerr by simp
      then show ?thesis
        using 1(1) [OF s1_def False sp [symmetric] n_def refl rl [symmetric] noerr ok(2)] 1(4) unf noerr by simp
    qed
  qed
qed

lemma moves_recipients_string:
  assumes "gpg_syntax takes" and "cstring_ok str"
  shows "moves takes hh InOptions (append_args_from_recipients_string hh flags str) InOptions"
proof -
  let ?st = "\<lparr>rs_flags = flags, rs_any = False, rs_ignore = False, rs_hidden = False, rs_file = False\<rparr>"
  have "scanned takes hh InOptions (fst (append_args_from_recipients_string hh flags str g))"
    if "scanned takes hh InOptions g" "\<not> is_err (snd (append_args_from_recipients_string hh flags str g))" for g
    using that recipients_loop_scanned [OF assms that(1), of flags ?st]
    by (cases "recipients_loop hh flags str ?st g") (auto simp: append_args_from_recipients_string_def split: if_splits)
  then show ?thesis by (simp add: moves_def)
qed

text \<open>Steps that leave the list in order even when they fail; the prefix of the encryption commands consists of them.\<close>

definition flag_step :: "(string \<Rightarrow> bool) \<Rightarrow> gpg_host \<Rightarrow> gpg_step \<Rightarrow> bool" where
  "flag_step takes hh s \<longleftrightarrow> (\<forall>r. scanned takes hh InOptions (fst r) \<longrightarrow> scanned takes hh InOptions (fst (s r)))"

lemma flag_step_add_arg:
  assumes "gpg_syntax takes" and "a \<in> set flag_options"
  shows "flag_step takes hh (in_any_case (add_arg hh a))" and "flag_step takes hh (arg hh a)"
  using moves_flag_option [OF assms, of hh]
  by (auto simp: flag_step_def in_any_case_def unless_err_def moves_def add_arg_def append_arg_def)

lemma flag_step_only_if: "flag_step takes hh s \<Longrightarrow> flag_step takes hh (only_if b s)"
  by (simp add: flag_step_def only_if_def)

lemma flag_step_mimemode: "gpg_syntax takes \<Longrightarrow> flag_step takes hh (mimemode_step hh d)"
  using flag_step_add_arg(1) [of takes "''--mimemode''" hh]
  by (simp add: flag_step_def mimemode_step_def with_version_def only_if_def)

lemma fold_flag_steps:
  "\<forall>s\<in>set ss. flag_step takes hh s \<Longrightarrow> scanned takes hh InOptions (fst r) \<Longrightarrow> scanned takes hh InOptions (fst (fold (\<lambda>s. s) ss r))"
  by (induction ss arbitrary: r) (simp_all add: flag_step_def del: split_paired_All)

text \<open>An operation that starts gpg.\<close>

definition launches :: "(string \<Rightarrow> bool) \<Rightarrow> gpg_host \<Rightarrow> (engine_gpg \<Rightarrow> gpg_res) \<Rightarrow> bool" where
  "launches takes hh f \<longleftrightarrow>
     (\<forall>g. scanned takes hh InOptions g \<longrightarrow> \<not> is_err (snd (f g)) \<longrightarrow> launched takes (fst (f g)))"

lemma launches_steps: "chain takes hh InOptions ss (launched takes) \<Longrightarrow> launches takes hh (steps ss)"
  by (simp add: launches_def steps_def chain_def)

lemma launches_prefix:
  assumes "\<forall>s\<in>set pre. flag_step takes hh s" and "chain takes hh InOptions ss (launched takes)"
  shows "launches takes hh (steps (pre @ ss))"
  unfolding launches_def steps_def fold_append o_apply
proof (intro allI impI)
  fix g
  let ?r = "fold (\<lambda>s. s) pre (g, no_error)"
  assume "scanned takes hh InOptions g" and "\<not> is_err (snd (fold (\<lambda>s. s) ss ?r))"
  moreover from this have "scanned takes hh InOptions (fst ?r)" using fold_flag_steps [OF assms(1), of "(g, no_error)"] by simp
  ultimately show "launched takes (fst (fold (\<lambda>s. s) ss ?r))" using assms(2) unfolding chain_def by blast
qed

lemma launches_fail: "is_err e \<Longrightarrow> launches takes hh (\<lambda>g. (g, e))"
  by (simp add: launches_def)

lemma launches_fail_steps: "is_err (gpg_error c) \<Longrightarrow> launches takes hh (steps [fail_with c])"
  by (simp add: launches_def steps_def unless_err_def)

lemma launches_if: "launches takes hh f \<Longrightarrow> launches takes hh h \<Longrightarrow> launches takes hh (\<lambda>g. if P g then f g else h g)"
  by (simp add: launches_def)

lemma launches_option:
  "launches takes hh f \<Longrightarrow> (\<And>x. v = Some x \<Longrightarrow> launches takes hh (h x)) \<Longrightarrow>
     launches takes hh (\<lambda>g. case v of None \<Rightarrow> f g | Some x \<Rightarrow> h x g)"
  by (cases v) simp_all

lemma moves_param: "(\<And>p. moves takes hh sc (f p) sc1) \<Longrightarrow> moves takes hh sc (\<lambda>g. f g g) sc1"
  by (simp add: moves_def)

lemma step_data_fixed: "step_moves takes hh sc (data_arg hh d 1 inb) sc"
  by (rule step_unless [OF moves_data_fixed])

lemmas chain_more = chain_rules moves_input_size_hint moves_signers moves_sender moves_sig_notations moves_recipients
  moves_recipients_string moves_steps_rule

lemma launches_decrypt: "gpg_syntax takes \<Longrightarrow> launches takes hh (gpg_decrypt hh flags ciph plain esk osk akr)"
  unfolding gpg_decrypt_def by (rule launches_steps) (simp add: chain_more)

lemma launches_delete: "gpg_syntax takes \<Longrightarrow> launches takes hh (gpg_delete hh key flags)"
  unfolding gpg_delete_def by (rule launches_steps) (simp add: chain_more)

lemma launches_edit: "gpg_syntax takes \<Longrightarrow> launches takes hh (gpg_edit hh ks type key outp x)"
  unfolding gpg_edit_def by (rule launches_steps) (simp add: chain_more)

lemma launches_trustlist: "gpg_syntax takes \<Longrightarrow> launches takes hh (gpg_trustlist hh pattern)"
  unfolding gpg_trustlist_def by (rule launches_steps) (simp add: chain_more)

lemma launches_sign: "gpg_syntax takes \<Longrightarrow> launches takes hh (gpg_sign hh ks inp outp mode use_armor use_textmode x)"
  unfolding gpg_sign_def by (rule launches_steps) (simp add: chain_more)

lemma launches_verify: "gpg_syntax takes \<Longrightarrow> launches takes hh (gpg_verify hh sig signed_text plaintext x)"
  unfolding gpg_verify_def by (rule launches_steps) (simp add: chain_more split: option.split)

lemma flag_steps_encrypt:
  "gpg_syntax takes \<Longrightarrow> \<forall>s\<in>set [only_if a (arg hh ''--encrypt''), only_if b (arg hh ''--symmetric''),
     only_if c (arg hh ''--armor''), only_if d (arg hh ''--no-literal''), only_if e (arg hh ''--compress-algo=none''),
     only_if f (arg hh ''--throw-keyids''), mimemode_step hh plain]. flag_step takes hh s"
  by (simp add: flag_step_only_if flag_step_add_arg flag_step_mimemode)

lemma flag_steps_encrypt_sign:
  "gpg_syntax takes \<Longrightarrow> \<forall>s\<in>set [only_if a (arg hh ''--encrypt''), only_if b (arg hh ''--symmetric''), arg hh ''--sign'',
     only_if c (arg hh ''--armor''), only_if e (arg hh ''--compress-algo=none''),
     only_if f (arg hh ''--throw-keyids''), mimemode_step hh plain]. flag_step takes hh s"
  by (simp add: flag_step_only_if flag_step_add_arg flag_step_mimemode)

lemma chain_recipients:
  assumes "gpg_syntax takes" and "\<forall>s. recpstring = Some s \<longrightarrow> cstring_ok s" and "chain takes hh InOptions ss Q"
  shows "chain takes hh InOptions (recipient_steps hh recp recpstring flags @ ss) Q"
  using assms by (cases recpstring) (simp_all add: recipient_steps_def chain_more split: option.split)

lemma chain_output: "gpg_syntax takes \<Longrightarrow> chain takes hh InOptions (output_steps hh plain ciph) (launched takes)"
  by (simp add: output_steps_def chain_more)

lemma launches_encrypt:
  assumes "gpg_syntax takes" and "\<forall>s. recpstring = Some s \<longrightarrow> cstring_ok s"
  shows "launches takes hh (gpg_encrypt hh recp recpstring flags plain ciph use_armor)"
  unfolding gpg_encrypt_def Let_def
  by (rule launches_prefix [OF flag_steps_encrypt [OF assms(1)] chain_recipients [OF assms chain_output [OF assms(1)]]])

lemma launches_encrypt_sign:
  assumes "gpg_syntax takes" and "\<forall>s. recpstring = Some s \<longrightarrow> cstring_ok s"
  shows "launches takes hh (gpg_encrypt_sign hh ks recp recpstring flags plain ciph use_armor x)"
proof -
  have "chain takes hh InOptions
     ([unless_err (append_args_from_signers hh (ctx_signer_keys ks x)), unless_err (append_args_from_sender hh x),
       unless_err (append_args_from_sig_notations hh (gpgme_sig_notation_get (Some x)))] @ output_steps hh plain ciph) (launched takes)"
    using assms(1) chain_output [OF assms(1)] by (simp add: chain_more)
  then show ?thesis
    unfolding gpg_encrypt_sign_def Let_def
    by (intro launches_prefix [OF flag_steps_encrypt_sign [OF assms(1)] chain_recipients [OF assms]])
qed

lemma moves_reject: "is_err e \<Longrightarrow> moves takes hh sc (\<lambda>g. (g, e)) sc1"
  by (simp add: moves_def)

lemma moves_export_common: "gpg_syntax takes \<Longrightarrow> moves takes hh InOptions (export_common hh mode keydata use_armor) AfterOptions"
  unfolding export_common_def by (intro moves_if moves_reject steps_chain) (simp_all add: chain_more)

lemma step_pattern: "step_moves takes hh AfterOptions (pattern_step hh pattern) AfterOptions"
  by (simp add: pattern_step_def chain_more)

lemma chain_patterns:
  "gpg_syntax takes \<Longrightarrow> chain takes hh AfterOptions (patterns_steps hh pattern @ [unless_err (start hh)]) (launched takes)"
  by (cases pattern) (simp_all add: patterns_steps_def chain_more)

lemma launches_export: "gpg_syntax takes \<Longrightarrow> launches takes hh (gpg_export hh pattern mode keydata use_armor)"
  unfolding gpg_export_def
  by (intro launches_steps chain_moves [OF moves_export_common] chain_Cons [OF step_pattern] chain_start)

lemma launches_export_ext: "gpg_syntax takes \<Longrightarrow> launches takes hh (gpg_export_ext hh pattern mode keydata use_armor)"
  unfolding gpg_export_ext_def append_Cons append_Nil
  by (intro launches_steps chain_moves [OF moves_export_common] chain_patterns)

lemma moves_algo_usage_expire: "moves takes hh AfterOptions (gpg_add_algo_usage_expire hh algo expires flags) AfterOptions"
  unfolding gpg_add_algo_usage_expire_def by (intro moves_if moves_result moves_steps_rule) (simp add: chain_more)

lemma step_nopasswd: "gpg_syntax takes \<Longrightarrow> step_moves takes hh InOptions (nopasswd_steps hh flags) InOptions"
  unfolding nopasswd_steps_def by (intro step_only_if step_unless moves_steps_rule) (simp add: chain_more)

lemma launches_genkey: 
  assumes "gpg_syntax takes"
  shows "launches takes hh (gpg_genkey hh userid algo expires key flags help_data extraflags pubkey seckey)"
proof -
  have "launches takes hh (gpg_createkey_from_param hh d extraflags)" for d
    unfolding gpg_createkey_from_param_def using assms by (intro launches_steps) (simp add: chain_more)
  moreover have "launches takes hh (gpg_createkey hh u algo expires flags extraflags)" for u
    unfolding gpg_createkey_def using assms
    by (intro launches_steps) (simp add: chain_more step_nopasswd moves_algo_usage_expire)
  moreover have "launches takes hh (gpg_addkey hh algo expires k flags extraflags)" for k
    unfolding gpg_addkey_def using assms
    by (cases "key_fpr k") (simp_all add: launches_fail_steps launches_steps chain_more step_nopasswd moves_algo_usage_expire)
  moreover have "launches takes hh (gpg_adduid hh k u extraflags)" for k u
    unfolding gpg_adduid_def using assms
    by (cases "key_fpr k") (simp_all add: launches_fail_steps launches_steps chain_more)
  ultimately show ?thesis
    unfolding launches_def gpg_genkey_def by (auto split: option.splits)
qed

lemma moves_fetch_loop: "moves takes hh AfterOptions (fetch_loop hh delim h d) AfterOptions"
proof -
  have "scanned takes hh AfterOptions (fst (fetch_loop hh delim h d g))"
    if "scanned takes hh AfterOptions g" "\<not> is_err (snd (fetch_loop hh delim h d g))" for g
    using that
  proof (induction hh delim h d g rule: fetch_loop.induct)
    case (1 hh delim h d g)
    obtain h1 d1 res where sf: "string_from_data hh delim h d = (h1, d1, res)" by (cases "string_from_data hh delim h d") auto
    show ?case
    proof (cases "\<exists>s. res = Inr (Some s)")
      case False
      then show ?thesis using 1(2) sf
        by (subst fetch_loop.simps) (auto split: sum.splits option.splits)
    next
      case True
      then obtain s where s: "res = Inr (Some s)" by blast
      define r where "r = add_arg hh (takeWhile (\<lambda>c. c \<noteq> NUL) s) g"
      have unf: "fetch_loop hh delim h d g = (if is_err (snd r) then r else fetch_loop hh delim h1 d1 (fst r))"
        using sf s by (subst fetch_loop.simps) (simp add: r_def Let_def)
      show ?thesis
      proof (cases "is_err (snd r)")
        case True
        then show ?thesis using 1(3) unf by simp
      next
        case noerr: False
        have "scanned takes hh AfterOptions (fst r)" using moves_operand 1(2) noerr by (auto simp: r_def moves_def)
        then show ?thesis using 1(1) [OF sf [symmetric] refl s refl r_def noerr] 1(3) unf noerr by simp
      qed
    qed
  qed
  then show ?thesis by (simp add: moves_def)
qed

lemma launches_import:
  assumes "gpg_syntax takes"
  shows "launches takes hh (gpg_import hh keydata keyarray)"
proof -
  have key: "step_moves takes hh AfterOptions (import_key_step hh k) AfterOptions" for k
    by (simp add: import_key_step_def chain_more split: list.split)
  have "launches takes hh (steps ([arg hh ''--recv-keys'', arg hh ''--''] @ map (import_key_step hh) keys @ [unless_err (start hh)]))" for keys
    using assms by (intro launches_steps) (simp add: chain_more key)
  moreover have "launches takes hh (steps [arg hh ''--fetch-keys'', arg hh ''--'', unless_err (fetch_loop hh delim None d), unless_err (start hh)])"
    for delim d using assms by (intro launches_steps) (simp add: chain_more moves_fetch_loop)
  moreover have "launches takes hh (steps [arg hh ''--import'', arg hh ''--'',
       (case keydata of None \<Rightarrow> unless_err (\<lambda>g. (g\<lparr>gg_ub := True\<rparr>, no_error))
        | Some d \<Rightarrow> data_arg hh (DHandle (di_handle d)) (- 1) False), unless_err (start hh)])"
    using assms by (intro launches_steps) (simp add: chain_more)
  ultimately show ?thesis
    unfolding gpg_import_def Let_def by (intro launches_if launches_option launches_fail) simp_all
qed

lemma scanned_preprocess: "scanned takes hh sc (g\<lparr>gg_preprocess := b\<rparr>) = scanned takes hh sc g"
  by (simp add: scanned_def settings_ok_def)

lemma moves_keylist_options:
  assumes "gpg_syntax takes"
  shows "moves takes hh InOptions (gpg_keylist_build_options hh secret_only mode) AfterOptions"
proof -
  have loc: "moves takes hh InOptions (\<lambda>g. only_if b (in_any_case (add_arg hh ''--with-sig-check'')) (add_arg hh ''--locate-keys'' g)) InOptions" for b
    using flag_step_add_arg(1) [OF assms, of "''--with-sig-check''" hh] flag_step_add_arg(1) [OF assms, of "''--locate-keys''" hh]
    by (simp add: moves_def flag_step_def only_if_def in_any_case_def)
  have srch: "moves takes hh InOptions (\<lambda>g. case add_arg hh ''--search-keys'' g of (g2, e) \<Rightarrow> (g2\<lparr>gg_preprocess := True\<rparr>, e)) InOptions"
    using moves_flag_option [OF assms, of "''--search-keys''" hh]
    by (simp add: moves_def case_prod_beta scanned_preprocess)
  show ?thesis
    unfolding gpg_keylist_build_options_def
    by (rule moves_param, rule steps_chain) (use assms loc srch in \<open>simp add: chain_more\<close>)
qed

lemma launches_keylist: "gpg_syntax takes \<Longrightarrow> launches takes hh (gpg_keylist hh pattern secret_only mode)"
  unfolding gpg_keylist_def
  by (intro launches_steps chain_moves [OF moves_keylist_options] chain_Cons [OF step_pattern] chain_start)

lemma launches_keylist_ext: "gpg_syntax takes \<Longrightarrow> launches takes hh (gpg_keylist_ext hh pattern secret_only reserved mode)"
  unfolding gpg_keylist_ext_def append_Cons append_Nil
  by (cases reserved)
    (simp_all add: launches_fail_steps launches_steps chain_moves [OF moves_keylist_options] chain_patterns)

lemma launches_keylist_data: "gpg_syntax takes \<Longrightarrow> launches takes hh (gpg_keylist_data hh d)"
  unfolding gpg_keylist_data_def by (intro launches_if launches_fail launches_steps) (simp_all add: chain_more)

lemma launches_keysign: "gpg_syntax takes \<Longrightarrow> launches takes hh (gpg_keysign hh ks key userid expire flags x)"
  unfolding gpg_keysign_def
  by (intro launches_option launches_if launches_fail launches_steps) (simp_all add: chain_more split: option.split)

lemma launches_tofu_policy: "gpg_syntax takes \<Longrightarrow> launches takes hh (gpg_tofu_policy hh key policy)"
  unfolding gpg_tofu_policy_def
  by (cases "Option.bind key key_fpr"; cases "tofu_policy_string policy")
    (simp_all add: launches_fail launches_if launches_steps chain_more)

lemma launches_option_fun:
  "launches takes hh f \<Longrightarrow> (\<And>x. v = Some x \<Longrightarrow> launches takes hh (h x)) \<Longrightarrow> launches takes hh (case v of None \<Rightarrow> f | Some x \<Rightarrow> h x)"
  by (cases v) simp_all

lemma launches_passwd:
  assumes "gpg_syntax takes" and "\<forall>k fpr. key = Some k \<longrightarrow> first_fpr k = Some fpr \<longrightarrow> peek fpr \<noteq> CHR ''-''"
  shows "launches takes hh (gpg_passwd hh key)"
  unfolding gpg_passwd_def
  using assms
  by (intro launches_option_fun launches_fail_steps launches_steps) (simp_all add: chain_more moves_no_dash)

text \<open>
  What the operations need of their arguments: recipient strings are C strings, and the fingerprint
  for \<open>gpg_passwd\<close>, which is not preceded by \<open>--\<close>, does not start with a dash.
\<close>

definition op_args_ok :: "gpg_op \<Rightarrow> bool" where
  "op_args_ok opn =
     (case opn of
        GpgOpEncrypt k s fl p c ar \<Rightarrow> (case s of None \<Rightarrow> True | Some str \<Rightarrow> cstring_ok str)
      | GpgOpEncryptSign k s fl p c ar \<Rightarrow> (case s of None \<Rightarrow> True | Some str \<Rightarrow> cstring_ok str)
      | GpgOpPasswd (Some k) \<Rightarrow> (case first_fpr k of None \<Rightarrow> True | Some fpr \<Rightarrow> peek fpr \<noteq> CHR ''-'')
      | _ \<Rightarrow> True)"

lemma launches_op:
  assumes "gpg_syntax takes" and "op_args_ok opn"
  shows "launches takes hh (gpg_run_op hh ks x opn)"
proof (cases opn)
  case (GpgOpPasswd key)
  then show ?thesis using assms launches_passwd [OF assms(1), of key hh]
    by (auto simp: gpg_run_op_def op_args_ok_def split: option.splits)
qed (use assms in \<open>auto simp: gpg_run_op_def op_args_ok_def launches_decrypt launches_delete launches_edit launches_encrypt
   launches_encrypt_sign launches_export launches_export_ext launches_genkey launches_import launches_keylist
   launches_keylist_ext launches_keylist_data launches_keysign launches_tofu_policy launches_sign launches_trustlist
   launches_verify split: option.splits\<close>)

section \<open>Engines before an operation\<close>

text \<open>A new engine, and one after the settings that \<open>_gpgme_op_reset\<close> and the operations make.\<close>

inductive gpg_ready :: "gpg_host \<Rightarrow> engine_gpg \<Rightarrow> bool" for hh where
  ready_new: "gpg_new hh home_dir version = (Some g, e) \<Longrightarrow> gpg_ready hh g"
| ready_flags: "gpg_ready hh g \<Longrightarrow> gpg_ready hh (gpg_set_engine_flags hh x g)"
| ready_locale: "gpg_ready hh g \<Longrightarrow> gpg_ready hh (fst (gpg_set_locale hh category v g))"
| ready_pinentry: "gpg_ready hh g \<Longrightarrow> gpg_ready hh (fst (gpg_set_pinentry_mode m g))"
| ready_command: "gpg_ready hh g \<Longrightarrow> gpg_set_command_handler hh g = (g1, no_error) \<Longrightarrow> gpg_ready hh g1"

lemma scanned_new:
  assumes "gpg_syntax takes" and "gpg_new hh home_dir version = (Some g, e)"
  shows "scanned takes hh InOptions g"
proof -
  define tty where "tty = (case gh_ttyname hh of None \<Rightarrow> (\<lambda>r. r)
      | Some tty \<Rightarrow> (\<lambda>r. opt_arg hh ''--ttytype'' (gh_term hh) (only_if (tty \<noteq> []) (opt_arg hh ''--ttyname'' (Some (take 63 tty))) r)))"
  define ver where "ver = (\<lambda>r. only_if (have_gpg_version (fst r) ''2.1.11'') (arg hh ''--exit-on-status-write-error'') r)"
  have t: "step_moves takes hh InOptions tty InOptions"
    unfolding tty_def
    by (cases "gh_ttyname hh")
      (simp_all add: step_id step_comp [OF step_only_if [OF step_opt_arg [OF assms(1)]] step_opt_arg [OF assms(1)]])
  have v: "step_moves takes hh InOptions ver InOptions"
    using step_unless [OF moves_flag_option [OF assms(1), of "''--exit-on-status-write-error''" hh]]
    by (simp add: ver_def step_moves_def only_if_def)
  define ss where "ss =
     [opt_arg hh ''--homedir'' home_dir, arg hh ''--status-fd'', unless_err (append_arg hh (AStatusFd (show_nat (gh_status_fd hh)))),
      arg hh ''--no-tty'', arg hh ''--charset'', arg hh ''utf8'', arg hh ''--enable-progress-filter'', ver,
      opt_arg hh ''--display'' (gh_display hh), tty,
      unless_err (\<lambda>g. (g, if gh_core hh ''diagnostics'' then no_error else syserror ENOMEM)),
      arg hh ''--logger-fd'', data_arg hh DDiagnostics (- 2) True]"
  have "moves takes hh InOptions (steps ss) InOptions"
    unfolding ss_def by (rule steps_chain) (use assms(1) t v in \<open>simp add: chain_rules chain_moves [OF moves_status_value]\<close>)
  moreover have "scanned takes hh InOptions (zero_gpg version)" by (simp add: scanned_def zero_gpg_def settings_ok_def)
  moreover have "gpg_new hh home_dir version =
     (if \<not> gh_core hh ''engine'' \<or> \<not> gh_core hh ''status_buffer'' then (None, syserror ENOMEM)
      else if \<not> gh_core hh ''status_pipe'' then (None, syserror (gh_errno hh))
      else case steps ss (zero_gpg version) of (g, e) \<Rightarrow> if is_err e then (None, e) else (Some g, no_error))"
    unfolding gpg_new_def ss_def ver_def tty_def by (rule refl)
  ultimately show ?thesis
    using assms(2) by (auto simp: moves_def split: if_splits prod.splits)
qed

lemma scanned_ready:
  assumes "gpg_syntax takes"
  shows "gpg_ready hh g \<Longrightarrow> scanned takes hh InOptions g"
proof (induction rule: gpg_ready.induct)
  case (ready_new home_dir version g e)
  then show ?case by (rule scanned_new [OF assms])
next
  case (ready_flags g x)
  then show ?case by (auto simp: scanned_def settings_ok_def gpg_set_engine_flags_def split: option.splits if_splits)
next
  case (ready_locale g category v)
  then show ?case by (cases category) (auto simp: scanned_def settings_ok_def gpg_set_locale_def Let_def)
next
  case (ready_pinentry g m)
  then show ?case by (simp add: scanned_def settings_ok_def gpg_set_pinentry_mode_def)
next
  case (ready_command g g1)
  have "moves takes hh InOptions (\<lambda>g. (g\<lparr>gg_cmd_used := True\<rparr>, no_error)) InOptions"
    by (simp add: moves_def scanned_def settings_ok_def)
  then have "moves takes hh InOptions (gpg_set_command_handler hh) InOptions"
    unfolding gpg_set_command_handler_def using assms by (intro steps_chain) (simp add: chain_rules)
  then show ?case using ready_command by (auto simp: moves_def)
qed

lemma launchesD:
  assumes "launches takes hh f" and "scanned takes hh InOptions g" and "f g = (g1, no_error)"
  shows "launched takes g1"
  using assms(1) [unfolded launches_def, rule_format, OF assms(2)] assms(3) by simp

section \<open>Properties\<close>

text \<open>
  C5: whatever the application passes - patterns, user ids, recipients, file names, key ids, notations,
  session keys, locales - it cannot give gpg an option. For every operation of the engine, on an engine
  that has been set up in any way, when gpg is started then all arguments that gpg takes as options
  are options the engine itself uses; everything else comes as the value of an option or behind
  \<open>--\<close>. Recipient strings have to be C strings, and a fingerprint for \<open>gpg_passwd\<close> must not start
  with a dash. \<open>takes\<close> is the option table of gpg.
\<close>

theorem no_option_injection:
  assumes "gpg_syntax takes" and "gpg_ready hh g" and "op_args_ok opn"
    and "gpg_run_op hh ks x opn g = (g1, no_error)" and "\<not> gg_ub g1"
  shows "case gg_argv g1 of
           None \<Rightarrow> False
         | Some argv \<Rightarrow> list_all fixed_option (seen_options takes InOptions (tl argv))"
proof -
  have "launched takes g1"
    by (rule launchesD [OF launches_op [OF assms(1,3)] scanned_ready [OF assms(1,2)] assms(4)])
  then show ?thesis using assms(5) by (simp add: launched_def)
qed

definition demo_gpg_host :: gpg_host where
  "demo_gpg_host = \<lparr>gh_mem = (\<lambda>n a. True), gh_core = (\<lambda>s. True), gh_errno = EIO, gh_peer_fd = (\<lambda>n. n + 7), gh_status_fd = 5,
     gh_use_agent = False, gh_pgmname = Some ''/usr/bin/gpg'', gh_display = Some '':0'', gh_ttyname = None, gh_term = None\<rparr>"

definition demo_gpg_context :: gpgme_context where
  "demo_gpg_context =
     \<lparr>cx = new_ctx [GPGME_PROTOCOL_OpenPGP], cx_use_armor = False, cx_use_textmode = False, cx_offline = False,
      cx_include_certs = 0, cx_pinentry_mode = GPGME_PINENTRY_MODE_DEFAULT, cx_export_session_keys = False,
      cx_auto_key_retrieve = False, cx_no_symkey_cache = True, cx_override_session_key = None,
      cx_request_origin = Some ''browser'', cx_auto_key_locate = Some ''wkd'', cx_trust_model = Some ''tofu'',
      cx_sender = Some ''--sender'', cx_lc_ctype = None, cx_lc_messages = None, cx_sig_notations = [], cx_signers = []\<rparr>"

definition demo_data_in :: data_in where
  "demo_data_in = \<lparr>di_handle = 3, di_encoding = 0, di_file_name = Some ''--output'', di_size_hint = 0, di_rest = [], di_reads = []\<rparr>"

definition demo_engine :: engine_gpg where
  "demo_engine = (case gpg_new demo_gpg_host None (Some ''2.2.8'') of (Some g, e) \<Rightarrow> g | (None, e) \<Rightarrow> zero_gpg None)"

definition demo_table :: "string \<Rightarrow> bool" where
  "demo_table a = List.member value_options a"

definition demo_encrypt :: gpg_op where
  "demo_encrypt = GpgOpEncrypt None (Some ''--delete-key'') 0 demo_data_in demo_data_in True"

lemma demo_engine_ready: "gpg_ready demo_gpg_host demo_engine"
proof (rule ready_new)
  have "(case gpg_new demo_gpg_host None (Some ''2.2.8'') of (Some g, e) \<Rightarrow> e = no_error | (None, e) \<Rightarrow> False)" by code_simp
  then show "gpg_new demo_gpg_host None (Some ''2.2.8'') = (Some demo_engine, no_error)"
    by (cases "gpg_new demo_gpg_host None (Some ''2.2.8'')") (simp add: demo_engine_def split: option.splits)
qed

lemma demo_table_syntax: "gpg_syntax demo_table"
proof -
  have "\<forall>a\<in>set flag_options. \<not> demo_table a"
    by code_simp
  moreover have "peek a = CHR ''-'' \<and> a \<noteq> ''-''" if "demo_table a" for a
    using that value_options_opt [of a] by (simp add: demo_table_def)
  moreover have "\<not> demo_table (p @ s)" if "p \<in> set assign_options" for p s
    using that by (auto simp: demo_table_def assign_options_def value_options_def)
  ultimately show ?thesis by (auto simp: gpg_syntax_def demo_table_def)
qed

theorem no_option_injection_witness:
  "case gpg_run_op demo_gpg_host (\<lambda>a. None) demo_gpg_context demo_encrypt demo_engine of
     (g1, e) \<Rightarrow> e = no_error \<and> List.member (the (gg_argv g1)) ''--delete-key''
       \<and> list_all fixed_option (seen_options demo_table InOptions (tl (the (gg_argv g1))))"
proof -
  obtain g1 e where r: "gpg_run_op demo_gpg_host (\<lambda>a. None) demo_gpg_context demo_encrypt demo_engine = (g1, e)"
    by (cases "gpg_run_op demo_gpg_host (\<lambda>a. None) demo_gpg_context demo_encrypt demo_engine")
  have "case gpg_run_op demo_gpg_host (\<lambda>a. None) demo_gpg_context demo_encrypt demo_engine of
     (g1, e) \<Rightarrow> e = no_error \<and> \<not> gg_ub g1 \<and> List.member (the (gg_argv g1)) ''--delete-key''"
    by code_simp
  then have c: "e = no_error" "\<not> gg_ub g1" "List.member (the (gg_argv g1)) ''--delete-key''" using r by simp_all
  have "op_args_ok demo_encrypt" by code_simp
  from no_option_injection [OF demo_table_syntax demo_engine_ready this, of "\<lambda>a. None" demo_gpg_context g1] r c
  show ?thesis by (auto split: option.splits)
qed

text \<open>
  The settings that add an option for which the code reserves no element of its own: request origin,
  key location, trust model, symmetric key cache, MDC errors and offline mode.
\<close>

definition extra_options :: "engine_gpg \<Rightarrow> nat" where
  "extra_options g =
     length (filter (\<lambda>b. b)
       [gg_request_origin g \<noteq> [], gg_auto_key_locate g \<noteq> None, gg_trust_model g \<noteq> None,
        gg_no_symkey_cache g, gg_ignore_mdc_error g, gg_offline g])"

text \<open>Elements of the list that use no element of the vector: data with a fixed descriptor.\<close>

definition silent_data :: "arg_and_data list \<Rightarrow> nat" where
  "silent_data as = length (filter (\<lambda>a. case a of AData d pf dup inb \<Rightarrow> dup \<noteq> - 1 | _ \<Rightarrow> False) as)"

lemma length_argv_args: "length (argv_args hh n as) + silent_data as = length as"
  by (induction hh n as rule: argv_args.induct) (simp_all add: silent_data_def)

lemma argv_overrun_iff:
  "argv_reserved hh g < length (argv_prefix hh pgm g @ argv_args hh 0 (gg_arglist g)) \<longleftrightarrow>
     3 + silent_data (gg_arglist g) + (if gg_pinentry_mode g \<noteq> GPGME_PINENTRY_MODE_DEFAULT \<and> \<not> have_gpg_version g ''2.1.0'' then 1 else 0)
       < extra_options g"
proof -
  have one: "length (if b then [x :: string] else []) = of_bool b" "length (if b then [] else [x :: string]) = of_bool (\<not> b)" for b x
    by simp_all
  have opt: "length (opt_list v) = of_bool (v \<noteq> None)" for v :: "string option"
    by (cases v) (simp_all add: opt_list_def)
  have pin: "length (if hv then pinentry_option m else [])
      + (if m \<noteq> GPGME_PINENTRY_MODE_DEFAULT \<and> \<not> hv then 1 else 0) = of_bool (m \<noteq> GPGME_PINENTRY_MODE_DEFAULT)" for hv m
    by (cases hv; cases m) (simp_all add: pinentry_option_def)
  have extra: "extra_options g = of_bool (gg_request_origin g \<noteq> []) + of_bool (gg_auto_key_locate g \<noteq> None)
      + of_bool (gg_trust_model g \<noteq> None) + of_bool (gg_no_symkey_cache g) + of_bool (gg_ignore_mdc_error g) + of_bool (gg_offline g)"
    by (simp add: extra_options_def)
  have cond: "(if b then 1 else (0 :: nat)) = of_bool b" "(if b then 0 else (1 :: nat)) = of_bool (\<not> b)" for b by simp_all
  show ?thesis
    using length_argv_args [of hh 0 "gg_arglist g"] pin [of "have_gpg_version g ''2.1.0''" "gg_pinentry_mode g"]
    unfolding argv_prefix_def argv_reserved_def length_append one opt extra cond list.size by linarith
qed

text \<open>
  C12: the argument vector has room for three of the six settings that add an option of their own, and
  for one more with each data object that is passed at a fixed descriptor (or with a pinentry mode
  that gpg is too old for). The vector is overrun, or left without its terminator, exactly when more
  of the settings are in use: four are enough for a key listing.
\<close>

theorem argument_vector_bound:
  assumes "\<And>s. gh_core hh s" and "\<not> gg_ub g" and "\<not> gg_cmd_used g"
  shows "gg_ub (fst (build_argv hh pgmname g)) \<longleftrightarrow>
           3 + silent_data (gg_arglist g)
             + (if gg_pinentry_mode g \<noteq> GPGME_PINENTRY_MODE_DEFAULT \<and> \<not> have_gpg_version g ''2.1.0'' then 1 else 0)
           < extra_options g"
  using assms argv_overrun_iff [of hh g pgmname] by (auto simp: build_argv_def Let_def)

theorem argument_vector_bound_witness:
  "extra_options (gpg_set_engine_flags demo_gpg_host demo_gpg_context demo_engine) = 4
   \<and> gg_ub (fst (build_argv demo_gpg_host ''gpg'' (gpg_set_engine_flags demo_gpg_host demo_gpg_context demo_engine)))"
proof -
  let ?g = "gpg_set_engine_flags demo_gpg_host demo_gpg_context demo_engine"
  have c: "extra_options ?g = 4 \<and> silent_data (gg_arglist ?g) = 0 \<and> gg_pinentry_mode ?g = GPGME_PINENTRY_MODE_DEFAULT
      \<and> \<not> gg_ub ?g \<and> \<not> gg_cmd_used ?g"
    by code_simp
  have "gh_core demo_gpg_host s" for s by (simp add: demo_gpg_host_def)
  from argument_vector_bound [OF this, of ?g "''gpg''"] c show ?thesis by simp
qed

section \<open>Lists of URLs\<close>

text \<open>The strings of a list: every delimiter ends one, and so does the end of the data behind a rest.\<close>

function url_pieces :: "char \<Rightarrow> string \<Rightarrow> string list" where
  "url_pieces delim [] = []"
| "url_pieces delim (c # s) =
     (case strchr_split delim (c # s) of (w, None) \<Rightarrow> [w] | (w, Some t) \<Rightarrow> w # url_pieces delim t)"
  by pat_completeness auto
termination
  by (relation "measure (\<lambda>(delim, s). length s)") (auto dest!: strchr_split_shorter [OF sym])

lemma url_pieces_delim:
  assumes "delim \<notin> set w"
  shows "url_pieces delim (w @ delim # t) = w # url_pieces delim t"
proof -
  have "strchr_split delim (w @ delim # t) = (w, Some t)" using assms by (simp add: strchr_split_Some)
  then show ?thesis by (cases w) simp_all
qed

lemma url_pieces_last:
  assumes "delim \<notin> set w" and "w \<noteq> []"
  shows "url_pieces delim w = [w]"
proof -
  have "strchr_split delim w = (w, None)" using assms by (simp add: strchr_split_None)
  then show ?thesis using assms(2) by (cases w) simp_all
qed

lemma url_pieces_short:
  assumes "\<forall>w\<in>set (url_pieces delim (b @ s)). length w < k" and "delim \<notin> set b" and "b \<noteq> []"
  shows "length b < k"
proof (cases "delim \<in> set s")
  case True
  then obtain u v where "s = u @ delim # v" "delim \<notin> set u" by (metis split_list_first)
  then show ?thesis using assms url_pieces_delim [of delim "b @ u" v] by simp
next
  case False
  then show ?thesis using assms url_pieces_last [of delim "b @ s"] by simp
qed

definition all_reads_ok :: "data_in \<Rightarrow> bool" where
  "all_reads_ok d \<longleftrightarrow> None \<notin> set (di_reads d)"

lemma data_in_read_ok:
  assumes "all_reads_ok d" and "0 < n"
  obtains d1 c where "data_in_read d n = (d1, Some c)" "di_rest d = c @ di_rest d1" "all_reads_ok d1" "c = [] \<longleftrightarrow> di_rest d = []"
proof -
  have "\<exists>d1 c. data_in_read d n = (d1, Some c) \<and> all_reads_ok d1 \<and> (c = [] \<longleftrightarrow> di_rest d = [])"
    using assms by (auto simp: data_in_read_def all_reads_ok_def Let_def split: list.splits option.splits)
  then show ?thesis using that data_in_read_rest by blast
qed

text \<open>One string: the first piece of what is buffered and still to be read.\<close>

lemma sfd_loop_pieces:
  assumes "all_reads_ok d" and "\<not> sf_eof_seen self" and "sf_nbytes self = 0"
    and "\<forall>w\<in>set (url_pieces delim (sf_buf self @ di_rest d)). length w < 2000"
  shows "\<exists>s1 d1. all_reads_ok d1 \<and>
    (case url_pieces delim (sf_buf self @ di_rest d) of
       [] \<Rightarrow> sfd_loop hh delim self d = (s1, d1, Inr None)
     | w # ws \<Rightarrow> sfd_loop hh delim self d = (s1, d1, Inr (Some w))
         \<and> (if sf_eof_seen s1 then ws = [] else url_pieces delim (drop (sf_nbytes s1) (sf_buf s1) @ di_rest d1) = ws))"
  using assms
proof (induction hh delim self d rule: sfd_loop.induct)
  case (1 hh delim self d)
  show ?case
  proof (cases "delim \<in> set (sf_buf self)")
    case True
    then obtain w t where b: "sf_buf self = w @ delim # t" "delim \<notin> set w" by (metis split_list_first)
    have "takeWhile (\<lambda>c. c \<noteq> delim) (sf_buf self) = w" 
      using b by (auto simp: takeWhile_tail)
    then have "sfd_loop hh delim self d = (self\<lparr>sf_nbytes := length w + 1\<rparr>, d, Inr (Some w))"
      using True by (subst sfd_loop.simps) simp
    then show ?thesis using b 1(2,3) url_pieces_delim [of delim w "t @ di_rest d"] by simp
  next
    case nodelim: False
    have short: "length (sf_buf self) < 2000"
      using url_pieces_short [OF 1(5) nodelim] by (cases "sf_buf self = []") auto
    obtain d1 c where rd: "data_in_read d (2000 - length (sf_buf self)) = (d1, Some c)" "di_rest d = c @ di_rest d1"
        "all_reads_ok d1" "c = [] \<longleftrightarrow> di_rest d = []"
      using data_in_read_ok [OF 1(2), of "2000 - length (sf_buf self)"] short by auto
    have unf: "sfd_loop hh delim self d =
       (if c = [] then (self\<lparr>sf_eof_seen := True\<rparr>, d1, Inr (if sf_buf self = [] then None else Some (sf_buf self)))
        else sfd_loop hh delim (self\<lparr>sf_buf := sf_buf self @ c\<rparr>) d1)"
      using nodelim short rd(1) by (subst sfd_loop.simps) simp
    show ?thesis
    proof (cases "c = []")
      case True
      then show ?thesis using unf rd(3,4) nodelim url_pieces_last [of delim "sf_buf self"]
        by (cases "sf_buf self = []") auto
    next
      case False
      let ?self = "self\<lparr>sf_buf := sf_buf self @ c\<rparr>"
      have same: "sfd_loop hh delim self d = sfd_loop hh delim ?self d1" "sf_buf self @ di_rest d = sf_buf ?self @ di_rest d1"
        using unf False rd(2) by simp_all
      have "\<not> 2000 \<le> length (sf_buf self)" "\<not> sf_eof_seen ?self" "sf_nbytes ?self = 0" using short 1(3,4) by simp_all
      from 1(1) [OF nodelim this(1) rd(1) [symmetric] refl False rd(3) this(2,3) 1(5) [unfolded same]]
      show ?thesis unfolding same .
    qed
  qed
qed

definition sfd_rest :: "sfd_state option \<Rightarrow> data_in \<Rightarrow> string" where
  "sfd_rest h d =
     (case h of None \<Rightarrow> di_rest d
      | Some s \<Rightarrow> if sf_eof_seen s then [] else drop (sf_nbytes s) (sf_buf s) @ di_rest d)"

lemma string_from_data_pieces:
  assumes "gh_core hh ''sfd''" and "all_reads_ok d" and "\<forall>w\<in>set (url_pieces delim (sfd_rest h d)). length w < 2000"
  shows "\<exists>h1 d1. all_reads_ok d1 \<and>
    (case url_pieces delim (sfd_rest h d) of
       [] \<Rightarrow> string_from_data hh delim h d = (h1, d1, Inr None)
     | w # ws \<Rightarrow> string_from_data hh delim h d = (h1, d1, Inr (Some w)) \<and> url_pieces delim (sfd_rest h1 d1) = ws)"
proof (cases "\<exists>s. h = Some s \<and> sf_eof_seen s")
  case True
  then show ?thesis using assms(2) by (auto simp: string_from_data_def sfd_rest_def)
next
  case False
  define self where "self = (case h of None \<Rightarrow> \<lparr>sf_eof_seen = False, sf_nbytes = 0, sf_buf = []\<rparr>
      | Some s \<Rightarrow> s\<lparr>sf_buf := drop (sf_nbytes s) (sf_buf s), sf_nbytes := 0\<rparr>)"
  have self: "\<not> sf_eof_seen self" "sf_nbytes self = 0" "sf_buf self @ di_rest d = sfd_rest h d"
    using False by (auto simp: self_def sfd_rest_def split: option.splits)
  have sfd: "string_from_data hh delim h d = (case sfd_loop hh delim self d of (s, d1, r) \<Rightarrow> (Some s, d1, r))"
    using False assms(1) by (cases h) (simp_all add: string_from_data_def self_def)
  obtain s1 d1 where "all_reads_ok d1" "case url_pieces delim (sfd_rest h d) of
       [] \<Rightarrow> sfd_loop hh delim self d = (s1, d1, Inr None)
     | w # ws \<Rightarrow> sfd_loop hh delim self d = (s1, d1, Inr (Some w))
         \<and> (if sf_eof_seen s1 then ws = [] else url_pieces delim (drop (sf_nbytes s1) (sf_buf s1) @ di_rest d1) = ws)"
    using sfd_loop_pieces [OF assms(2) self(1,2), of delim hh] assms(3) self(3) by auto
  then show ?thesis
    by (intro exI [of _ "Some s1"] exI [of _ d1]) (auto simp: sfd sfd_rest_def split: list.splits if_splits)
qed

lemma fetch_loop_pieces:
  assumes "gh_core hh ''sfd''" and "\<And>n a. gh_mem hh n a"
  shows "all_reads_ok d \<Longrightarrow> \<forall>w\<in>set (url_pieces delim (sfd_rest h d)). length w < 2000 \<Longrightarrow>
    fetch_loop hh delim h d g =
      (g\<lparr>gg_arglist := gg_arglist g @ map (\<lambda>w. AArg (takeWhile (\<lambda>c. c \<noteq> NUL) w)) (url_pieces delim (sfd_rest h d))\<rparr>, no_error)"
proof (induction "url_pieces delim (sfd_rest h d)" arbitrary: h d g)
  case Nil
  then show ?case using string_from_data_pieces [OF assms(1) Nil(2), of delim h]
    by (subst fetch_loop.simps) auto
next
  case (Cons w ws)
  obtain h1 d1 where st: "string_from_data hh delim h d = (h1, d1, Inr (Some w))" "url_pieces delim (sfd_rest h1 d1) = ws" "all_reads_ok d1"
    using string_from_data_pieces [OF assms(1) Cons(3,4)] Cons(2) [symmetric] by auto
  then show ?case
    using Cons(1) [of h1 d1] Cons(2) [symmetric] Cons(4) assms(2)
    by (subst fetch_loop.simps) (simp add: add_arg_def append_arg_def)
qed

text \<open>
  C14: a list of URLs becomes the list of arguments of \<open>--fetch-keys\<close>: exactly the strings between the
  delimiters, in their order, however many bytes the single reads return, as long as no URL has
  2000 bytes or more. A delimiter at the end does not add an empty argument.
\<close>

theorem url_list_arguments:
  assumes "gh_core hh ''sfd''" and "\<And>n a. gh_mem hh n a" and "None \<notin> set (di_reads d)"
    and "\<forall>w\<in>set (url_pieces delim (di_rest d)). length w < 2000"
  shows "fetch_loop hh delim None d g =
      (g\<lparr>gg_arglist := gg_arglist g @ map (\<lambda>w. AArg (takeWhile (\<lambda>c. c \<noteq> NUL) w)) (url_pieces delim (di_rest d))\<rparr>, no_error)"
  using fetch_loop_pieces [OF assms(1,2), where h = None and d = d] assms(3,4) by (simp add: sfd_rest_def all_reads_ok_def)

definition demo_urls :: data_in where
  "demo_urls = demo_data_in\<lparr>di_rest := ''ab'' @ [NUL] @ ''c'' @ [NUL], di_reads := [Some 1, Some 3]\<rparr>"

theorem url_list_arguments_witness:
  "fetch_loop demo_gpg_host NUL None demo_urls (zero_gpg None) = ((zero_gpg None)\<lparr>gg_arglist := [AArg ''ab'', AArg ''c'']\<rparr>, no_error)"
proof -
  have p: "url_pieces NUL (di_rest demo_urls) = [''ab'', ''c'']" by code_simp
  have "gh_core demo_gpg_host ''sfd''" "gh_mem demo_gpg_host n a" for n a by (simp_all add: demo_gpg_host_def)
  moreover have "None \<notin> set (di_reads demo_urls)" by (simp add: demo_urls_def)
  moreover have "gg_arglist (zero_gpg None) = []" by (simp add: zero_gpg_def)
  ultimately show ?thesis using url_list_arguments [of demo_gpg_host demo_urls NUL "zero_gpg None"] p by simp
qed

text \<open>Repeated calls of \<open>string_from_data\<close>, and that the next call returns no string.\<close>

fun sfd_calls :: "gpg_host \<Rightarrow> char \<Rightarrow> nat \<Rightarrow> sfd_state option \<Rightarrow> data_in \<Rightarrow> sfd_state option \<times> data_in" where
  "sfd_calls hh delim 0 h d = (h, d)"
| "sfd_calls hh delim (Suc n) h d =
     (case string_from_data hh delim h d of (h1, d1, r) \<Rightarrow> sfd_calls hh delim n h1 d1)"

definition no_string_after :: "gpg_host \<Rightarrow> char \<Rightarrow> nat \<Rightarrow> sfd_state option \<Rightarrow> data_in \<Rightarrow> bool" where
  "no_string_after hh delim n h d =
     (case sfd_calls hh delim n h d of
        (h1, d1) \<Rightarrow> (case snd (snd (string_from_data hh delim h1 d1)) of Inr (Some w) \<Rightarrow> False | _ \<Rightarrow> True))"

lemma sfd_calls_end: "sfd_left h d \<le> m \<Longrightarrow> \<exists>n\<le>m. no_string_after hh delim n h d"
proof (induction m arbitrary: h d)
  case 0
  have "no_string_after hh delim 0 h d"
    using 0 string_from_data_left [of hh delim h d]
    by (cases "string_from_data hh delim h d") (auto simp: no_string_after_def split: sum.split option.split)
  then show ?case by blast
next
  case (Suc m)
  obtain h1 d1 r where st: "string_from_data hh delim h d = (h1, d1, r)" by (cases "string_from_data hh delim h d") auto
  show ?case
  proof (cases "\<exists>w. r = Inr (Some w)")
    case True
    then have "sfd_left h1 d1 \<le> m" using string_from_data_left [of hh delim h d h1 d1] st Suc.prems by auto
    then obtain n where "n \<le> m" "no_string_after hh delim n h1 d1" using Suc.IH by blast
    then show ?thesis by (intro exI [of _ "Suc n"]) (simp add: st no_string_after_def)
  next
    case False
    then have "no_string_after hh delim 0 h d" by (auto simp: st no_string_after_def split: sum.split option.split)
    then show ?thesis by blast
  qed
qed

text \<open>
  C36: the loop over the URLs ends. Whatever sizes and errors the reads give, one of the first
  \<open>n + 2\<close> calls of \<open>string_from_data\<close> on data of \<open>n\<close> bytes returns no string.
\<close>

theorem url_list_terminates:
  "\<exists>n. n \<le> length (di_rest d) + 1 \<and> no_string_after hh delim n None d"
  using sfd_calls_end [of None d "length (di_rest d) + 1" hh delim] by (simp add: sfd_left_def)

section \<open>Recipient strings\<close>

text \<open>The lines of the string without blanks around them, the empty ones left out.\<close>

definition line_word :: "string \<Rightarrow> string list" where
  "line_word l = (let w = trim_end (dropWhile is_sp_tab l) in if w = [] then [] else [w])"

definition recipient_words :: "string \<Rightarrow> string list" where
  "recipient_words str = concat (map line_word (url_pieces (CHR 0x0A) str))"

text \<open>The arguments they stand for.\<close>

fun recipient_args :: "bool \<Rightarrow> bool \<Rightarrow> bool \<Rightarrow> string list \<Rightarrow> string list" where
  "recipient_args ignr hidden fil [] = []"
| "recipient_args ignr hidden fil (w # ws) =
     (if \<not> ignr \<and> w = ''--'' then recipient_args True hidden fil ws
      else if \<not> ignr \<and> w = ''--hidden'' then recipient_args ignr True fil ws
      else if \<not> ignr \<and> w = ''--no-hidden'' then recipient_args ignr False fil ws
      else if \<not> ignr \<and> w = ''--file'' then recipient_args ignr hidden True ws
      else if \<not> ignr \<and> w = ''--no-file'' then recipient_args ignr hidden False ws
      else (if fil then (if hidden then ''-F'' else ''-f'') else (if hidden then ''-R'' else ''-r''))
           # w # recipient_args ignr hidden fil ws)"

lemma recipient_words_line:
  "CHR 0x0A \<notin> set l \<Longrightarrow> recipient_words (l @ CHR 0x0A # t) = line_word l @ recipient_words t"
  by (simp add: recipient_words_def url_pieces_delim)

lemma recipient_words_last: "CHR 0x0A \<notin> set l \<Longrightarrow> recipient_words l = line_word l"
  by (cases "l = []") (simp_all add: recipient_words_def url_pieces_last line_word_def trim_end_def)

lemma line_word_blanks: "\<forall>c\<in>set b. is_sp_tab c \<Longrightarrow> line_word (b @ l) = line_word l"
  by (simp add: line_word_def dropWhile_append2)

lemma blanks_no_lf: "\<forall>c\<in>set b. is_sp_tab c \<Longrightarrow> CHR 0x0A \<notin> set b"
proof
  assume "\<forall>c\<in>set b. is_sp_tab c" and "CHR 0x0A \<in> set b"
  then have "is_sp_tab (CHR 0x0A)" by (rule bspec)
  then show False by (simp add: is_sp_tab_def)
qed

lemma recipient_words_blanks:
  assumes "\<forall>c\<in>set b. is_sp_tab c"
  shows "recipient_words (b @ s) = recipient_words s"
proof (cases "CHR 0x0A \<in> set s")
  case True
  then obtain l t where "s = l @ CHR 0x0A # t" "CHR 0x0A \<notin> set l" by (metis split_list_first)
  then show ?thesis
    using recipient_words_line [of "b @ l" t] recipient_words_line [of l t] blanks_no_lf [OF assms] line_word_blanks [OF assms, of l] by simp
next
  case False
  then show ?thesis
    using recipient_words_last [of "b @ s"] recipient_words_last [of s] blanks_no_lf [OF assms] line_word_blanks [OF assms, of s] by simp
qed

lemma trim_end_split: "\<exists>b. l = trim_end l @ b \<and> (\<forall>c\<in>set b. is_sp_tab c)"
proof -
  have "l = rev (takeWhile is_sp_tab (rev l) @ dropWhile is_sp_tab (rev l))"
    by (simp only: takeWhile_dropWhile_id rev_rev_ident)
  then have "l = trim_end l @ rev (takeWhile is_sp_tab (rev l))" by (simp only: rev_append trim_end_def)
  moreover have "\<forall>c\<in>set (rev (takeWhile is_sp_tab (rev l))). is_sp_tab c" by (auto dest: set_takeWhileD)
  ultimately show ?thesis by blast
qed

text \<open>One round of the loop takes one word, and leaves the rest of the words.\<close>

lemma recipient_words_round:
  assumes "s1 = dropWhile is_sp_tab str" and "s1 \<noteq> []" and "strchr_split (CHR 0x0A) s1 = (l, lf)" and "n = length (trim_end l)"
  shows "recipient_words str = (if take n s1 = [] then [] else [take n s1])
           @ recipient_words (drop (n + (if lf = None then 0 else 1)) s1)"
proof -
  have "str = takeWhile is_sp_tab str @ s1" using assms(1) by simp
  then have str: "recipient_words str = recipient_words s1"
    using recipient_words_blanks [of "takeWhile is_sp_tab str" s1] set_takeWhileD by metis
  obtain b where b: "l = trim_end l @ b" "\<forall>c\<in>set b. is_sp_tab c" using trim_end_split by blast
  have hd1: "\<not> is_sp_tab (hd s1)" using hd_dropWhile [of is_sp_tab str] assms(1,2) by simp
  have word: "line_word l = (if trim_end l = [] then [] else [trim_end l])" if "l = [] \<or> hd l = hd s1"
    using that hd1 by (cases l) (auto simp: line_word_def Let_def trim_end_def)
  show ?thesis
  proof (cases lf)
    case None
    then have l: "l = s1" "CHR 0x0A \<notin> set l" using assms(3) by (simp_all add: strchr_split_None)
    have "take n s1 = trim_end l" "drop n s1 = b" using b(1) l(1) assms(4) by (metis append_eq_conv_conj)+
    moreover have "recipient_words b = []" using recipient_words_blanks [OF b(2), of "[]"] by (simp add: recipient_words_def)
    ultimately show ?thesis using str l None word recipient_words_last [of l] by simp
  next
    case (Some t)
    then have s1: "s1 = l @ CHR 0x0A # t" "CHR 0x0A \<notin> set l" using assms(3) by (simp_all add: strchr_split_Some)
    have split1: "s1 = trim_end l @ b @ CHR 0x0A # t" using s1(1) b(1) by (metis append_assoc)
    have tk: "take n s1 = trim_end l" using split1 assms(4) by simp
    have "drop (n + 1) s1 = drop 1 (b @ CHR 0x0A # t)" using split1 assms(4) by simp
    moreover have "recipient_words (drop 1 (b @ CHR 0x0A # t)) = recipient_words t"
    proof (cases b)
      case (Cons c b')
      then have "\<forall>c\<in>set b'. is_sp_tab c" using b(2) by simp
      then show ?thesis using Cons recipient_words_blanks [of b' "CHR 0x0A # t"] recipient_words_line [of "[]" t]
        by (simp add: line_word_def trim_end_def)
    qed simp
    moreover have "line_word l = (if trim_end l = [] then [] else [trim_end l])" using word s1(1) by (cases l) simp_all
    ultimately show ?thesis using str recipient_words_line [OF s1(2), of t] s1(1) tk Some by simp
  qed
qed

lemma add_arg_ok: "(\<And>n a. gh_mem hh n a) \<Longrightarrow> add_arg hh s g = (g\<lparr>gg_arglist := gg_arglist g @ [AArg s]\<rparr>, no_error)"
  by (simp add: add_arg_def append_arg_def)

lemma recipient_line_step:
  assumes "\<And>n a. gh_mem hh n a" and "\<not> bit flags 8" and "\<not> bit (rs_flags st) 8"
  shows "\<exists>st1 as. recipient_line hh flags w st g = (st1, g\<lparr>gg_arglist := gg_arglist g @ map AArg as\<rparr>, no_error)
    \<and> \<not> bit (rs_flags st1) 8 \<and> rs_any st1 = (rs_any st \<or> as \<noteq> [])
    \<and> (\<forall>ws. recipient_args (rs_ignore st) (rs_hidden st) (rs_file st) ((if w = [] then [] else [w]) @ ws)
            = as @ recipient_args (rs_ignore st1) (rs_hidden st1) (rs_file st1) ws)"
  using assms
  by (simp add: recipient_line_def steps_def unless_err_def add_arg_ok add_arg_recipient_string_def Let_def bit_unset_bit_iff)

lemma recipients_loop_args:
  assumes "\<And>n a. gh_mem hh n a" and "\<not> bit flags 8"
  shows "\<not> bit (rs_flags st) 8 \<Longrightarrow> \<exists>st1. recipients_loop hh flags str st g =
      (st1, g\<lparr>gg_arglist := gg_arglist g @ map AArg (recipient_args (rs_ignore st) (rs_hidden st) (rs_file st) (recipient_words str))\<rparr>, no_error)
    \<and> rs_any st1 = (rs_any st \<or> recipient_args (rs_ignore st) (rs_hidden st) (rs_file st) (recipient_words str) \<noteq> [])"
proof (induction "length str" arbitrary: str st g rule: less_induct)
  case less
  define s1 where "s1 = dropWhile is_sp_tab str"
  show ?case
  proof (cases "s1 = []")
    case True
    then have "recipient_words str = []"
      using recipient_words_blanks [of str "[]"] by (simp add: s1_def dropWhile_eq_Nil_conv) (simp add: recipient_words_def)
    then show ?thesis using True by (subst recipients_loop.simps) (simp add: s1_def)
  next
    case False
    obtain l lf where sp: "strchr_split (CHR 0x0A) s1 = (l, lf)" by (cases "strchr_split (CHR 0x0A) s1")
    define n where "n = length (trim_end l)"
    define rest where "rest = drop (n + (if lf = None then 0 else 1)) s1"
    obtain st1 as where rl: "recipient_line hh flags (take n s1) st g = (st1, g\<lparr>gg_arglist := gg_arglist g @ map AArg as\<rparr>, no_error)"
      "\<not> bit (rs_flags st1) 8" "rs_any st1 = (rs_any st \<or> as \<noteq> [])"
      "\<And>ws. recipient_args (rs_ignore st) (rs_hidden st) (rs_file st) ((if take n s1 = [] then [] else [take n s1]) @ ws)
            = as @ recipient_args (rs_ignore st1) (rs_hidden st1) (rs_file st1) ws"
      using recipient_line_step [OF assms less.prems, of "take n s1" g] by blast
    have unf: "recipients_loop hh flags str st g =
        recipients_loop hh flags rest st1 (g\<lparr>gg_arglist := gg_arglist g @ map AArg as\<rparr>)"
      using False sp rl(1) by (subst recipients_loop.simps) (simp add: s1_def [symmetric] n_def [symmetric] rest_def)
    have "length rest < length str"
      using recipients_loop_shorter [of str "CHR 0x0A" l lf] False sp by (simp add: s1_def n_def rest_def)
    from less.hyps [OF this rl(2), of "g\<lparr>gg_arglist := gg_arglist g @ map AArg as\<rparr>"]
    show ?thesis
      using recipient_words_round [OF s1_def False sp n_def] rl(3) rl(4) [of "recipient_words rest"] unf by (auto simp: rest_def [symmetric])
  qed
qed



section \<open>Listings of key servers\<close>

fun valid_escapes :: "string \<Rightarrow> bool" where
  "valid_escapes [] = True"
| "valid_escapes [c] = (c \<noteq> CHR ''%'')"
| "valid_escapes [c, a] = (c \<noteq> CHR ''%'' \<and> valid_escapes [a])"
| "valid_escapes (c # a # b # s) =
     (if c = CHR ''%'' then gpgme_hextobyte [a, b] \<noteq> - 1 \<and> valid_escapes s else valid_escapes (a # b # s))"

lemma hextobyte_two: "gpgme_hextobyte (a # b # s) = gpgme_hextobyte [a, b]"
  by (cases "hexdigit_val a") (simp_all add: gpgme_hextobyte_def cchr_def)

lemma hextobyte_short: "gpgme_hextobyte [] = - 1" "gpgme_hextobyte [a] = - 1"
  using hextobyte_length [of "[]"] hextobyte_length [of "[a]"] by auto

lemma decode_one_x: "decode_one (CHR ''x'') = None" "decode_one (CHR 0x5C) = Some (CHR 0x5C)"
  by (simp_all add: decode_one_def)

lemma decode_plain:
  "c \<noteq> CHR ''%'' \<Longrightarrow> decode_percent_loop bin (c # s) = c # decode_percent_loop bin s"
  "c \<noteq> CHR 0x5C \<Longrightarrow> decode_c_loop (c # s) = map_option (Cons c) (decode_c_loop s)"
  "decode_c_loop (CHR 0x5C # CHR 0x5C # s) = map_option (Cons (CHR 0x5C)) (decode_c_loop s)"
  by (simp_all add: decode_one_x)

lemma decode_hex:
  assumes "gpgme_hextobyte [a, b] \<noteq> - 1"
  shows "decode_c_loop (CHR 0x5C # CHR ''x'' # a # b # s) =
           map_option (\<lambda>r. (if gpgme_hextobyte [a, b] = 0 then [CHR 0x5C, CHR ''0''] else [char_of (nat (gpgme_hextobyte [a, b]))]) @ r) (decode_c_loop s)"
    and "decode_percent_loop False (CHR ''%'' # a # b # s) =
           (if gpgme_hextobyte [a, b] = 0 then [CHR 0x5C, CHR ''0''] else [char_of (nat (gpgme_hextobyte [a, b]))]) @ decode_percent_loop False s"
  using assms by (cases "decode_c_loop s"; simp add: decode_one_x hextobyte_two [of a b s] Let_def)+

lemma decode_hex_invalid:
  "gpgme_hextobyte [a, b] = - 1 \<Longrightarrow>
     decode_c_loop (CHR 0x5C # CHR ''x'' # a # b # s) = map_option (\<lambda>r. CHR 0x5C # CHR ''x'' # a # b # r) (decode_c_loop s)"
  by (simp add: decode_one_x hextobyte_two [of a b s] Let_def)

text \<open>
  The converted user id never ends within an escape, so the decoder of C strings stays inside it, and
  gives what the percent escapes stand for.
\<close>

lemma decode_uid_c_coded:
  "\<exists>d. decode_c_loop (uid_c_coded u) = Some d \<and> (valid_escapes u \<longrightarrow> d = decode_percent_loop False u)"
proof (induction u rule: uid_c_coded.induct)
  case 1
  then show ?case by simp
next
  case (2 c)
  show ?case
  proof (cases "c = CHR ''%''")
    case False
    then show ?thesis by (cases "c = CHR 0x5C") (simp_all add: decode_one_x)
  qed (simp add: decode_one_x hextobyte_short)
next
  case (3 c a)
  consider (esc) "c = CHR ''%''" | (bs) "c = CHR 0x5C" | (plain) "c \<noteq> CHR ''%''" "c \<noteq> CHR 0x5C" by blast
  then show ?case
  proof cases
    case esc
    then show ?thesis by (simp add: decode_one_x hextobyte_short)
  next
    case bs
    then show ?thesis using 3(1) by (auto simp: decode_plain simp del: decode_c_loop.simps decode_percent_loop.simps uid_c_coded.simps(2))
  next
    case plain
    then show ?thesis using 3(2) by (auto simp: decode_plain simp del: decode_c_loop.simps decode_percent_loop.simps uid_c_coded.simps(2))
  qed
next
  case (4 c a b s)
  consider (esc) "c = CHR ''%''" | (bs) "c = CHR 0x5C" | (plain) "c \<noteq> CHR ''%''" "c \<noteq> CHR 0x5C" by blast
  then show ?case
  proof cases
    case esc
    then show ?thesis using 4(1)
      by (cases "gpgme_hextobyte [a, b] = - 1") (auto simp: decode_hex decode_hex_invalid simp del: decode_c_loop.simps decode_percent_loop.simps)
  next
    case bs
    then show ?thesis using 4(2) by (auto simp: decode_plain simp del: decode_c_loop.simps decode_percent_loop.simps)
  next
    case plain
    then show ?thesis using 4(3) by (auto simp: decode_plain simp del: decode_c_loop.simps decode_percent_loop.simps)
  qed
qed

lemma uid_c_coded_colon: "CHR '':'' \<notin> set u \<Longrightarrow> CHR '':'' \<notin> set (uid_c_coded u)"
  by (induction u rule: uid_c_coded.induct) auto

lemma preprocess_fields_Cons: "CHR '':'' \<notin> set f \<Longrightarrow> preprocess_fields (Suc k) (f @ CHR '':'' # r) = f # preprocess_fields k r"
  by (simp add: strchr_split_Some [THEN iffD2])

lemma split_colon_Cons: "CHR '':'' \<notin> set f \<Longrightarrow> split_colon (f @ CHR '':'' # r) = f # split_colon r"
  by (induction f) (auto simp: split_colon_code)

lemma preprocess_fields_last: "CHR '':'' \<notin> set f \<Longrightarrow> preprocess_fields (Suc k) f = [f]"
  by (simp add: strchr_split_None [THEN iffD2])


definition demo_uid :: string where
  "demo_uid = ''J%C3%B6rg%3a''"


end
