(* ===== verification/Gpgme_StatusChannel.thy ===== *)
theory Gpgme_StatusChannel
  imports Gpgme_EngineGpgProps
begin

text \<open>
  The channels on which gpg answers (\<open>engine-gpg.c\<close>): \<open>read_status\<close> for the lines of the status
  descriptor and \<open>read_colon_line\<close> for the lines of a key listing. Both collect bytes in a buffer until a
  line is complete. The theorems tie the bytes that gpg writes, in any pieces, to the sequences of
  status lines by which the operations are modelled.
\<close>

section \<open>Reading lines\<close>

text \<open>
  A channel: the bytes before \<open>readpos\<close>, the size of the buffer, the mark for the end of the data and
  the state that the handlers work on. Input is a list of pieces, \<open>None\<close> for a read that fails.
\<close>

record 's chan =
  ch_line :: string
  ch_bufsize :: nat
  ch_eof :: bool
  ch_state :: 's

type_synonym 's line_scan = "string \<Rightarrow> string \<Rightarrow> 's \<Rightarrow> (string \<times> 's \<times> gpgme_error_t) option"

text \<open>
  What both functions do around the loop over the bytes: enlarge the buffer when less than 256 bytes
  are free, read what fits, handle the end. An error leaves the buffer as it was.
\<close>

definition chan_read ::
    "bool \<Rightarrow> errno \<Rightarrow> 's line_scan \<Rightarrow> ('s \<Rightarrow> ('s \<times> gpgme_error_t) option) \<Rightarrow> string option list \<Rightarrow> 's chan
     \<Rightarrow> ('s chan \<times> string option list \<times> gpgme_error_t) option" where
  "chan_read realloc_ok en scan eof chunks ch =
     (let grow = ch_bufsize ch - length (ch_line ch) < 256;
          bufsize = (if grow then ch_bufsize ch + 1024 else ch_bufsize ch);
          room = bufsize - length (ch_line ch)
      in if grow \<and> \<not> realloc_ok then Some (ch, chunks, syserror ENOMEM)
         else case chunks of
           None # rest \<Rightarrow> Some (ch, rest, syserror en)
         | _ \<Rightarrow>
             (let avail = (case chunks of Some c # rest \<Rightarrow> c | _ \<Rightarrow> []);
                  got = take room avail;
                  left = (if drop room avail = [] then tl chunks else Some (drop room avail) # tl chunks)
              in if got = [] then
                   (case eof (ch_state ch) of
                      None \<Rightarrow> None
                    | Some (s1, e) \<Rightarrow> Some (ch\<lparr>ch_eof := True, ch_state := s1\<rparr>, left, e))
                 else
                   (case scan got (ch_line ch) (ch_state ch) of
                      None \<Rightarrow> None
                    | Some (l1, s1, e) \<Rightarrow>
                        if is_err e then Some (ch\<lparr>ch_state := s1\<rparr>, left, e)
                        else Some (ch\<lparr>ch_line := l1, ch_bufsize := bufsize, ch_state := s1\<rparr>, left, no_error))))"

section \<open>Status lines\<close>

text \<open>
  The state behind the status channel: that of the handler, and the members of the command channel,
  with the descriptor that is parked while gpg does not ask.
\<close>

record 's status_state =
  ss_user :: 's
  ss_cmd_used :: bool
  ss_cmd_code :: int
  ss_cmd_keyword :: "string option"
  ss_cmd_fd :: int
  ss_cmd_map_fd :: int

record 's status_cfg =
  sc_fnc :: "'s handler option"
  sc_mon :: "('s \<Rightarrow> string \<Rightarrow> string \<Rightarrow> 's \<times> gpgme_error_t) option"
  sc_strdup_ok :: bool

text \<open>\<open>GPG_ERR_FALSE\<close> from the handler is dropped.\<close>

definition drop_false :: "gpgme_error_t \<Rightarrow> gpgme_error_t" where
  "drop_false e = (if gpg_err_code e = GPG_ERR_FALSE then no_error else e)"

definition call_status_fnc :: "'s status_cfg \<Rightarrow> int \<Rightarrow> string \<Rightarrow> 's status_state \<Rightarrow> ('s status_state \<times> gpgme_error_t) option" where
  "call_status_fnc cfg r rest st =
     (case sc_fnc cfg of
        None \<Rightarrow> Some (st, no_error)
      | Some h \<Rightarrow>
          (case h (ss_user st) r rest of
             None \<Rightarrow> None
           | Some (s1, _, e) \<Rightarrow> Some (st\<lparr>ss_user := s1\<rparr>, drop_false e)))"

text \<open>The C string in the buffer when the line is complete.\<close>

definition status_cline :: "string \<Rightarrow> string" where
  "status_cline line =
     takeWhile (\<lambda>c. c \<noteq> NUL) (if line \<noteq> [] \<and> last line = CHR 0x0D then butlast line else line)"

definition is_status_line :: "string \<Rightarrow> bool" where
  "is_status_line cl \<longleftrightarrow> strncmp_eq cl ''[GNUPG:] '' \<and> uchar (cchr cl 9) \<in> {65..90}"

definition status_line :: "'s status_cfg \<Rightarrow> string \<Rightarrow> 's status_state \<Rightarrow> ('s status_state \<times> gpgme_error_t) option" where
  "status_line cfg line st =
     (let cl = status_cline line
      in if \<not> is_status_line cl then Some (st, no_error)
         else case strchr_split (CHR '' '') (drop 9 cl) of
           (kw, r0) \<Rightarrow>
             (let rest = (case r0 of None \<Rightarrow> [] | Some t \<Rightarrow> t);
                  r = gpgme_parse_status (gpgme_status_init status_table) kw;
                  (u1, e1) = (case sc_mon cfg of
                                Some mon \<Rightarrow> if r \<noteq> GPGME_STATUS_PROGRESS then mon (ss_user st) kw rest else (ss_user st, no_error)
                              | None \<Rightarrow> (ss_user st, no_error));
                  st1 = st\<lparr>ss_user := u1\<rparr>
              in if is_err e1 then Some (st1, e1)
                 else if r < 0 then Some (st1, no_error)
                 else if ss_cmd_used st1 \<and> (r = GPGME_STATUS_GET_BOOL \<or> r = GPGME_STATUS_GET_LINE \<or> r = GPGME_STATUS_GET_HIDDEN)
                 then if \<not> sc_strdup_ok cfg
                      then Some (st1\<lparr>ss_cmd_code := r, ss_cmd_keyword := None\<rparr>, syserror ENOMEM)
                      else Some (st1\<lparr>ss_cmd_code := r, ss_cmd_keyword := Some rest,
                                     ss_cmd_map_fd := ss_cmd_fd st1, ss_cmd_fd := - 1\<rparr>, no_error)
                 else call_status_fnc cfg r rest st1))"

fun scan_status :: "'s status_cfg \<Rightarrow> 's status_state line_scan" where
  "scan_status cfg [] line st = Some (line, st, no_error)"
| "scan_status cfg (c # cs) line st =
     (if c = CHR 0x0A then
        (case status_line cfg line st of
           None \<Rightarrow> None
         | Some (st1, e) \<Rightarrow> if is_err e then Some ([], st1, e) else scan_status cfg cs [] st1)
      else scan_status cfg cs (line @ [c]) st)"

text \<open>The end: the error of the monitor is overwritten by that of the handler.\<close>

definition status_eof :: "'s status_cfg \<Rightarrow> 's status_state \<Rightarrow> ('s status_state \<times> gpgme_error_t) option" where
  "status_eof cfg st =
     (let (u1, e1) = (case sc_mon cfg of Some mon \<Rightarrow> mon (ss_user st) [] [] | None \<Rightarrow> (ss_user st, no_error));
          st1 = st\<lparr>ss_user := u1\<rparr>
      in case sc_fnc cfg of
           None \<Rightarrow> Some (st1, e1)
         | Some h \<Rightarrow> call_status_fnc cfg GPGME_STATUS_EOF [] st1)"

definition read_status ::
    "bool \<Rightarrow> errno \<Rightarrow> 's status_cfg \<Rightarrow> string option list \<Rightarrow> 's status_state chan
     \<Rightarrow> ('s status_state chan \<times> string option list \<times> gpgme_error_t) option" where
  "read_status realloc_ok en cfg = chan_read realloc_ok en (scan_status cfg) (status_eof cfg)"

section \<open>Lines of a listing\<close>

text \<open>The lines in the output of the preprocessor.\<close>

function lf_lines :: "string \<Rightarrow> string list" where
  "lf_lines linep =
     (case strchr_split (CHR 0x0A) linep of
        (f, None) \<Rightarrow> [f]
      | (f, Some endp) \<Rightarrow> f # (if endp = [] then [] else lf_lines endp))"
  by pat_completeness auto
termination
  by (relation "measure length") (auto dest: strchr_split_shorter [OF sym])

declare lf_lines.simps [simp del]

text \<open>
  The lines that the handler gets for a line of gpg. The preprocessor cuts the buffer at its colons; when
  it makes no line, the handler gets what is left of the buffer.
\<close>

definition colon_lines :: "gpg_host \<Rightarrow> bool \<Rightarrow> string \<Rightarrow> string list cres" where
  "colon_lines hh preprocess line =
     (let cl = takeWhile (\<lambda>c. c \<noteq> NUL) line
      in if cl = [] \<or> CHR '':'' \<notin> set cl then Ok []
         else if \<not> preprocess then Ok [cl]
         else case gpg_keylist_preprocess hh cl of
           UB \<Rightarrow> UB
         | Err e \<Rightarrow> Err e
         | Ok None \<Rightarrow> Ok [takeWhile (\<lambda>c. c \<noteq> CHR '':'') cl]
         | Ok (Some l) \<Rightarrow> Ok (lf_lines l))"

text \<open>The result of the handler is not looked at; \<open>None\<close> is undefined behaviour.\<close>

type_synonym 's colon_fnc = "'s \<Rightarrow> string option \<Rightarrow> 's option"

fun call_colon_fnc :: "'s colon_fnc \<Rightarrow> string list \<Rightarrow> 's \<Rightarrow> 's option" where
  "call_colon_fnc f [] s = Some s"
| "call_colon_fnc f (l # ls) s = (case f s (Some l) of None \<Rightarrow> None | Some s1 \<Rightarrow> call_colon_fnc f ls s1)"

definition colon_line :: "gpg_host \<Rightarrow> bool \<Rightarrow> 's colon_fnc \<Rightarrow> string \<Rightarrow> 's \<Rightarrow> ('s \<times> gpgme_error_t) option" where
  "colon_line hh preprocess f line s =
     (case colon_lines hh preprocess line of
        UB \<Rightarrow> None
      | Err e \<Rightarrow> Some (s, e)
      | Ok ls \<Rightarrow> map_option (\<lambda>s1. (s1, no_error)) (call_colon_fnc f ls s))"

fun scan_colon :: "gpg_host \<Rightarrow> bool \<Rightarrow> 's colon_fnc \<Rightarrow> 's line_scan" where
  "scan_colon hh preprocess f [] line s = Some (line, s, no_error)"
| "scan_colon hh preprocess f (c # cs) line s =
     (if c = CHR 0x0A then
        (case colon_line hh preprocess f line s of
           None \<Rightarrow> None
         | Some (s1, e) \<Rightarrow> if is_err e then Some ([], s1, e) else scan_colon hh preprocess f cs [] s1)
      else scan_colon hh preprocess f cs (line @ [c]) s)"

definition colon_eof :: "'s colon_fnc \<Rightarrow> 's \<Rightarrow> ('s \<times> gpgme_error_t) option" where
  "colon_eof f s = map_option (\<lambda>s1. (s1, no_error)) (f s None)"

definition read_colon_line ::
    "bool \<Rightarrow> errno \<Rightarrow> gpg_host \<Rightarrow> bool \<Rightarrow> 's colon_fnc \<Rightarrow> string option list \<Rightarrow> 's chan
     \<Rightarrow> ('s chan \<times> string option list \<times> gpgme_error_t) option" where
  "read_colon_line realloc_ok en hh preprocess f = chan_read realloc_ok en (scan_colon hh preprocess f) (colon_eof f)"

section \<open>The channel until its end\<close>

text \<open>
  \<open>status_handler\<close> and \<open>colon_line_handler\<close> are called by the event loop as long as there is something to
  read. The loop ends since every read that is not the last one takes at least one byte.
\<close>

definition bytes_left :: "string option list \<Rightarrow> nat" where
  "bytes_left chunks = sum_list (map (\<lambda>c. case c of None \<Rightarrow> 0 | Some t \<Rightarrow> length t) chunks)"

lemma chan_read_less:
  "chan_read ok en scan eof chunks ch = Some (ch1, left, e) \<Longrightarrow> \<not> is_err e \<Longrightarrow> \<not> ch_eof ch1 \<Longrightarrow> bytes_left left < bytes_left chunks"
  by (cases chunks) (auto simp: chan_read_def bytes_left_def Let_def split: if_splits option.splits prod.splits)

function chan_pump ::
    "bool \<Rightarrow> errno \<Rightarrow> 's line_scan \<Rightarrow> ('s \<Rightarrow> ('s \<times> gpgme_error_t) option) \<Rightarrow> string option list \<Rightarrow> 's chan
     \<Rightarrow> ('s chan \<times> gpgme_error_t) option" where
  "chan_pump ok en scan eof chunks ch =
     (case chan_read ok en scan eof chunks ch of
        None \<Rightarrow> None
      | Some (ch1, left, e) \<Rightarrow> if is_err e \<or> ch_eof ch1 then Some (ch1, e) else chan_pump ok en scan eof left ch1)"
  by pat_completeness auto
termination
  by (relation "measure (\<lambda>(ok, en, scan, eof, chunks, ch). bytes_left chunks)") (auto dest: chan_read_less)

declare chan_pump.simps [simp del]

section \<open>What a line reader promises\<close>

fun deliver_lines :: "(string \<Rightarrow> 's \<Rightarrow> ('s \<times> gpgme_error_t) option) \<Rightarrow> string list \<Rightarrow> 's \<Rightarrow> ('s \<times> gpgme_error_t) option" where
  "deliver_lines f [] s = Some (s, no_error)"
| "deliver_lines f (l # ls) s =
     (case f l s of None \<Rightarrow> None | Some (s1, e) \<Rightarrow> if is_err e then Some (s1, e) else deliver_lines f ls s1)"

definition then_eof :: "('s \<Rightarrow> ('s \<times> gpgme_error_t) option) \<Rightarrow> ('s \<times> gpgme_error_t) option \<Rightarrow> ('s \<times> gpgme_error_t) option" where
  "then_eof eof r = (case r of None \<Rightarrow> None | Some (s1, e) \<Rightarrow> if is_err e then Some (s1, e) else eof s1)"

definition terminated :: "string list \<Rightarrow> string" where
  "terminated ls = concat (map (\<lambda>l. l @ [CHR 0x0A]) ls)"

definition chunk_bytes :: "string option list \<Rightarrow> string" where
  "chunk_bytes chunks = concat (map (\<lambda>c. case c of None \<Rightarrow> [] | Some t \<Rightarrow> t) chunks)"

text \<open>
  The loop over the bytes of a channel: it collects a line and hands it over at the line feed. \<open>stuck\<close>
  is what stays in the buffer when the line is refused.
\<close>

locale line_reader =
  fixes on_line :: "string \<Rightarrow> 's \<Rightarrow> ('s \<times> gpgme_error_t) option"
    and scan :: "'s line_scan"
    and stuck :: "string \<Rightarrow> string"
  assumes scan_Nil: "scan [] line s = Some (line, s, no_error)"
    and scan_char: "c \<noteq> CHR 0x0A \<Longrightarrow> scan (c # cs) line s = scan cs (line @ [c]) s"
    and scan_LF: "scan (CHR 0x0A # cs) line s =
          (case on_line line s of
             None \<Rightarrow> None
           | Some (s1, e) \<Rightarrow> if is_err e then Some (stuck line, s1, e) else scan cs [] s1)"
    and stuck_length: "length (stuck line) \<le> Suc (length line)"
begin

lemma scan_append:
  "scan (xs @ ys) line s =
     (case scan xs line s of None \<Rightarrow> None | Some (l1, s1, e) \<Rightarrow> if is_err e then Some (l1, s1, e) else scan ys l1 s1)"
proof (induction xs arbitrary: line s)
  case (Cons c xs)
  then show ?case
    by (cases "c = CHR 0x0A") (auto simp: scan_LF scan_char split: option.split)
qed (simp add: scan_Nil)

lemma scan_length: "scan xs line s = Some (l1, s1, e) \<Longrightarrow> length l1 \<le> length line + length xs"
proof (induction xs arbitrary: line s)
  case (Cons c xs)
  show ?case
  proof (cases "c = CHR 0x0A")
    case True
    then show ?thesis using Cons.prems stuck_length [of line] by (auto simp: scan_LF split: option.splits if_splits dest!: Cons.IH)
  next
    case False
    then show ?thesis using Cons.prems Cons.IH [of "line @ [c]"] by (simp add: scan_char)
  qed
qed (simp add: scan_Nil)

lemma scan_plain: "CHR 0x0A \<notin> set xs \<Longrightarrow> scan (xs @ ys) line s = scan ys (line @ xs) s"
  by (induction xs arbitrary: line) (auto simp: scan_char)

lemma scan_terminated:
  "\<forall>l\<in>set ls. CHR 0x0A \<notin> set l \<Longrightarrow> map_option snd (scan (terminated ls) [] s) = deliver_lines on_line ls s"
proof (induction ls arbitrary: s)
  case (Cons l ls)
  then show ?case using scan_plain [of l "CHR 0x0A # terminated ls" "[]" s]
    by (auto simp: terminated_def scan_LF split: option.split)
qed (simp add: terminated_def scan_Nil)

text \<open>The pieces in which the bytes arrive do not matter.\<close>

lemma pump_bytes:
  assumes "\<forall>c\<in>set chunks. c \<noteq> None \<and> c \<noteq> Some []" and "length (ch_line ch) \<le> ch_bufsize ch" and "\<not> ch_eof ch"
  shows "map_option (\<lambda>(ch1, e). (ch_state ch1, e)) (chan_pump True en scan eof chunks ch)
       = then_eof eof (map_option snd (scan (chunk_bytes chunks) (ch_line ch) (ch_state ch)))"
  using assms
proof (induction "bytes_left chunks" arbitrary: chunks ch rule: less_induct)
  case less
  show ?case
  proof (cases chunks)
    case Nil
    then show ?thesis
      by (subst chan_pump.simps) (auto simp: chan_read_def chunk_bytes_def scan_Nil then_eof_def split: option.split)
  next
    case (Cons c0 rest)
    then obtain t where t: "c0 = Some t" "t \<noteq> []" using less.prems(1) by (cases c0) auto
    define bufsize where "bufsize = (if ch_bufsize ch - length (ch_line ch) < 256 then ch_bufsize ch + 1024 else ch_bufsize ch)"
    define room where "room = bufsize - length (ch_line ch)"
    define left where "left = (if drop room t = [] then rest else Some (drop room t) # rest)"
    have room: "0 < room" "length (ch_line ch) + room = bufsize" using less.prems(2) by (auto simp: room_def bufsize_def)
    have got: "take room t \<noteq> []" using t(2) room(1) by (cases t; cases room) auto
    have bytes: "chunk_bytes chunks = take room t @ chunk_bytes left"
      by (cases "drop room t = []") (simp_all add: chunk_bytes_def Cons t(1) left_def)
    have rd: "chan_read True en scan eof chunks ch =
       (case scan (take room t) (ch_line ch) (ch_state ch) of None \<Rightarrow> None
        | Some (l1, s1, e) \<Rightarrow> if is_err e then Some (ch\<lparr>ch_state := s1\<rparr>, left, e)
            else Some (ch\<lparr>ch_line := l1, ch_bufsize := bufsize, ch_state := s1\<rparr>, left, no_error))"
      unfolding chan_read_def Let_def bufsize_def [symmetric] room_def [symmetric] Cons t(1) list.case option.case list.sel(3)
        left_def [symmetric]
      using got by simp
    show ?thesis
    proof (cases "scan (take room t) (ch_line ch) (ch_state ch)")
      case None
      then show ?thesis using rd bytes by (subst chan_pump.simps) (simp add: scan_append then_eof_def)
    next
      case (Some r)
      then obtain l1 s1 e where r: "scan (take room t) (ch_line ch) (ch_state ch) = Some (l1, s1, e)" by (cases r) auto
      show ?thesis
      proof (cases "is_err e")
        case True
        then show ?thesis using rd r bytes by (subst chan_pump.simps) (simp add: scan_append then_eof_def)
      next
        case False
        let ?ch = "ch\<lparr>ch_line := l1, ch_bufsize := bufsize, ch_state := s1\<rparr>"
        have "length l1 \<le> bufsize" using scan_length [OF r] room by simp
        moreover have "bytes_left left < bytes_left chunks"
          using chan_read_less [of True en scan eof chunks ch ?ch left no_error] rd r False less.prems(3) by simp
        moreover have "\<forall>c\<in>set left. c \<noteq> None \<and> c \<noteq> Some []" using less.prems(1) Cons by (auto simp: left_def)
        ultimately have "map_option (\<lambda>(ch1, e). (ch_state ch1, e)) (chan_pump True en scan eof left ?ch)
            = then_eof eof (map_option snd (scan (chunk_bytes left) l1 s1))"
          using less.hyps [of left ?ch] less.prems(3) by simp
        then show ?thesis
          using rd r False bytes less.prems(3) by (subst chan_pump.simps) (simp add: scan_append)
      qed
    qed
  qed
qed

lemma pump_lines:
  assumes "\<forall>c\<in>set chunks. c \<noteq> None \<and> c \<noteq> Some []" and "chunk_bytes chunks = terminated ls"
    and "\<forall>l\<in>set ls. CHR 0x0A \<notin> set l" and "ch_line ch = []" and "\<not> ch_eof ch"
  shows "map_option (\<lambda>(ch1, e). (ch_state ch1, e)) (chan_pump True en scan eof chunks ch)
       = then_eof eof (deliver_lines on_line ls (ch_state ch))"
  using pump_bytes [OF assms(1) _ assms(5), of en eof] assms(2,4) scan_terminated [OF assms(3), of "ch_state ch"]
  by (cases "deliver_lines on_line ls (ch_state ch)") auto

end

interpretation status_reader: line_reader "status_line cfg" "scan_status cfg" "\<lambda>line. []"
  by unfold_locales simp_all

interpretation colon_reader: line_reader "colon_line hh preprocess f" "scan_colon hh preprocess f" "\<lambda>line. []"
  by unfold_locales simp_all

section \<open>From status lines to status codes\<close>

text \<open>The line that gpg prints for a keyword and its arguments.\<close>

definition print_status :: "string \<times> string \<Rightarrow> string" where
  "print_status l = (case l of (kw, args) \<Rightarrow> ''[GNUPG:] '' @ kw @ (if args = [] then [] else '' '' @ args))"

definition args_ok :: "string \<Rightarrow> bool" where
  "args_ok args \<longleftrightarrow> CHR 0x0A \<notin> set args \<and> NUL \<notin> set args \<and> (args = [] \<or> last args \<noteq> CHR 0x0D)"

text \<open>The handler with \<open>GPG_ERR_FALSE\<close> dropped.\<close>

definition dropping :: "'s handler \<Rightarrow> 's handler" where
  "dropping h s code args = map_option (\<lambda>(s1, a, e). (s1, a, drop_false e)) (h s code args)"

definition keyword_ok :: "string \<Rightarrow> bool" where
  "keyword_ok kw \<longleftrightarrow> uchar (peek kw) \<in> {65..90} \<and> list_all (\<lambda>c. c \<noteq> CHR '' '' \<and> 32 < uchar c) kw"

lemma status_table_keywords: "list_all (\<lambda>e. keyword_ok (fst e) \<and> 0 \<le> snd e) status_table"
  by code_simp

lemma status_table_keyword: "(kw, code) \<in> set status_table \<Longrightarrow> keyword_ok kw \<and> 0 \<le> code"
  using status_table_keywords unfolding list_all_iff by (metis fst_conv snd_conv)

lemma parse_status_entry: "(kw, code) \<in> set status_table \<Longrightarrow> gpgme_parse_status (gpgme_status_init status_table) kw = code"
  using status_names_distinct by (simp add: parse_status_lookup map_of_is_SomeI del: set_simps)

lemma keyword_not_empty: "keyword_ok kw \<Longrightarrow> kw \<noteq> []"
  by (auto simp: keyword_ok_def uchar_def)

lemma print_status_cline:
  assumes "keyword_ok kw" and "args_ok args"
  shows "status_cline (print_status (kw, args)) = print_status (kw, args)"
proof -
  let ?l = "print_status (kw, args)"
  have kw: "kw \<noteq> []" "\<forall>c\<in>set kw. 32 < uchar c" using keyword_not_empty [OF assms(1)] assms(1) by (auto simp: keyword_ok_def list_all_iff)
  have low: "\<not> 32 < uchar NUL" "\<not> 32 < uchar (CHR 0x0D)" by (simp_all add: uchar_def)
  have n: "NUL \<notin> set kw" "last kw \<noteq> CHR 0x0D" using kw low last_in_set [OF kw(1)] by metis+
  have "?l \<noteq> []" "last ?l \<noteq> CHR 0x0D" using n(2) kw(1) assms(2) by (auto simp: print_status_def args_ok_def)
  moreover have "takeWhile (\<lambda>c. c \<noteq> NUL) ?l = ?l"
    using n(1) assms(2) by (auto simp: print_status_def args_ok_def takeWhile_eq_all_conv)
  ultimately show ?thesis by (simp add: status_cline_def)
qed

lemma print_status_split:
  assumes "keyword_ok kw"
  shows "strchr_split (CHR '' '') (drop 9 (print_status (kw, args))) = (kw, if args = [] then None else Some args)"
  using assms
  by (auto simp: print_status_def keyword_ok_def list_all_iff strchr_split_None strchr_split_Some)

lemma print_status_is_line:
  assumes "keyword_ok kw"
  shows "is_status_line (print_status (kw, args))"
proof -
  have "cchr (print_status (kw, args)) 9 = peek kw"
    using keyword_not_empty [OF assms] by (cases kw) (auto simp: print_status_def cchr_def)
  then show ?thesis using assms by (simp add: is_status_line_def strncmp_eq_def print_status_def keyword_ok_def)
qed

lemma print_status_no_lf: "keyword_ok kw \<Longrightarrow> args_ok args \<Longrightarrow> CHR 0x0A \<notin> set (print_status (kw, args))"
proof
  assume k: "keyword_ok kw" "args_ok args" "CHR 0x0A \<in> set (print_status (kw, args))"
  then have "CHR 0x0A \<in> set kw" by (auto simp: print_status_def args_ok_def split: if_splits)
  then have "32 < uchar (CHR 0x0A)" using k(1) by (auto simp: keyword_ok_def list_all_iff)
  then show False by (simp add: uchar_def)
qed

text \<open>A configuration with a handler and neither monitor nor commands.\<close>

definition plain_cfg :: "'s handler \<Rightarrow> 's status_cfg" where
  "plain_cfg h = \<lparr>sc_fnc = Some h, sc_mon = None, sc_strdup_ok = True\<rparr>"

definition status_start :: "'s \<Rightarrow> 's status_state chan" where
  "status_start s = \<lparr>ch_line = [], ch_bufsize = 1024, ch_eof = False, ch_state =
     \<lparr>ss_user = s, ss_cmd_used = False, ss_cmd_code = 0, ss_cmd_keyword = None, ss_cmd_fd = - 1, ss_cmd_map_fd = - 1\<rparr>\<rparr>"

lemma status_line_printed:
  assumes "(kw, code) \<in> set status_table" and "args_ok args" and "\<not> ss_cmd_used st"
  shows "status_line (plain_cfg h) (print_status (kw, args)) st =
     (case dropping h (ss_user st) code args of None \<Rightarrow> None | Some (s1, _, e) \<Rightarrow> Some (st\<lparr>ss_user := s1\<rparr>, e))"
  using status_table_keyword [OF assms(1)] parse_status_entry [OF assms(1)] assms(2,3)
  by (auto simp: status_line_def plain_cfg_def print_status_cline print_status_is_line print_status_split call_status_fnc_def dropping_def
        Let_def split: option.split)

lemma deliver_printed:
  assumes "\<forall>(kw, code, args)\<in>set ls. (kw, code) \<in> set status_table \<and> args_ok args" and "\<not> ss_cmd_used st"
  shows "deliver_lines (status_line (plain_cfg h)) (map (\<lambda>(kw, code, args). print_status (kw, args)) ls) st
       = map_option (\<lambda>(s1, e). (st\<lparr>ss_user := s1\<rparr>, e)) (feed (dropping h) (ss_user st) (map snd ls))"
  using assms
proof (induction ls arbitrary: st)
  case (Cons l ls)
  obtain kw code args where l: "l = (kw, code, args)" by (cases l)
  have "status_line (plain_cfg h) (print_status (kw, args)) st =
     (case dropping h (ss_user st) code args of None \<Rightarrow> None | Some (s1, _, e) \<Rightarrow> Some (st\<lparr>ss_user := s1\<rparr>, e))"
    using Cons.prems l by (intro status_line_printed) auto
  then show ?case using Cons l by (auto split: option.split)
qed simp

text \<open>
  C6: gpg writes status lines, the operation gets their codes and arguments. When gpg writes a line for
  each of a list of keywords of the table, with arguments, in any pieces and then closes the channel,
  the status handler is called with exactly these codes and arguments in this order and at last
  with the end mark; it stops at the first error, not counting \<open>GPG_ERR_FALSE\<close>.
\<close>

theorem status_channel_delivers:
  assumes "\<forall>(kw, code, args)\<in>set ls. (kw, code) \<in> set status_table \<and> args_ok args"
    and "\<forall>c\<in>set chunks. c \<noteq> None \<and> c \<noteq> Some []"
    and "chunk_bytes chunks = terminated (map (\<lambda>(kw, code, args). print_status (kw, args)) ls)"
  shows "map_option (\<lambda>(ch, e). (ss_user (ch_state ch), e))
           (chan_pump True en (scan_status (plain_cfg h)) (status_eof (plain_cfg h)) chunks (status_start s))
       = feed (dropping h) s (map snd ls @ [(GPGME_STATUS_EOF, [])])"
proof -
  let ?printed = "map (\<lambda>(kw, code, args). print_status (kw, args)) ls" and ?st = "ch_state (status_start s)"
  have "\<forall>l\<in>set ?printed. CHR 0x0A \<notin> set l"
    using assms(1) status_table_keyword print_status_no_lf by fastforce
  from status_reader.pump_lines [OF assms(2,3) this, where ch = "status_start s" and cfg = "plain_cfg h" and en = en and eof = "status_eof (plain_cfg h)"]
  have "map_option (\<lambda>(ch, e). (ch_state ch, e)) (chan_pump True en (scan_status (plain_cfg h)) (status_eof (plain_cfg h)) chunks (status_start s))
      = then_eof (status_eof (plain_cfg h)) (map_option (\<lambda>(s1, e). (?st\<lparr>ss_user := s1\<rparr>, e)) (feed (dropping h) s (map snd ls)))"
    using deliver_printed [OF assms(1), of ?st h] by (simp add: status_start_def)
  from arg_cong [where f = "map_option (\<lambda>(st, e). (ss_user st, e))", OF this]
  show ?thesis
    by (cases "feed (dropping h) s (map snd ls)")
       (auto simp: option.map_comp comp_def case_prod_unfold feed_append then_eof_def status_eof_def plain_cfg_def call_status_fnc_def
          dropping_def split: option.split)
qed

definition demo_recorder :: "(int \<times> string) list handler" where
  "demo_recorder s code args = Some (s @ [(code, args)], [], if code = GPGME_STATUS_GOODSIG then gpg_error GPG_ERR_FALSE else no_error)"

definition demo_status :: "(string \<times> int \<times> string) list" where
  "demo_status = [(''GOODSIG'', GPGME_STATUS_GOODSIG, ''1234 Joe''), (''SUCCESS'', GPGME_STATUS_SUCCESS, [])]"

definition demo_chunks :: "string option list" where
  "demo_chunks = [Some ''[GNUPG:] GOO'', Some (''DSIG 1234 Joe'' @ [CHR 0x0A] @ ''[''), Some (''GNUPG:] SUCCESS'' @ [CHR 0x0A])]"

theorem status_channel_delivers_witness:
  "map_option (\<lambda>(ch, e). (ss_user (ch_state ch), e))
     (chan_pump True EIO (scan_status (plain_cfg demo_recorder)) (status_eof (plain_cfg demo_recorder)) demo_chunks (status_start []))
   = Some ([(GPGME_STATUS_GOODSIG, ''1234 Joe''), (GPGME_STATUS_SUCCESS, []), (GPGME_STATUS_EOF, [])], no_error)"
proof -
  have "list_all (\<lambda>(kw, code, args). List.member status_table (kw, code) \<and> args_ok args) demo_status" by code_simp
  then have a: "\<forall>(kw, code, args)\<in>set demo_status. (kw, code) \<in> set status_table \<and> args_ok args"
    by (simp add: list_all_iff)
  have b: "\<forall>c\<in>set demo_chunks. c \<noteq> None \<and> c \<noteq> Some []" by code_simp
  have c: "chunk_bytes demo_chunks = terminated (map (\<lambda>(kw, code, args). print_status (kw, args)) demo_status)" by code_simp
  have "feed (dropping demo_recorder) [] (map snd demo_status @ [(GPGME_STATUS_EOF, [])])
      = Some ([(GPGME_STATUS_GOODSIG, ''1234 Joe''), (GPGME_STATUS_SUCCESS, []), (GPGME_STATUS_EOF, [])], no_error)" by code_simp
  then show ?thesis using status_channel_delivers [OF a b c, of EIO demo_recorder "[]"] by simp
qed

section \<open>From the bytes of a listing to its lines\<close>

lemma takeWhile_nul: "c \<notin> set l \<Longrightarrow> takeWhile (\<lambda>x. x \<noteq> c) l = l"
  by (induction l) auto

lemma deliver_colon_lines:
  "\<forall>l\<in>set ls. NUL \<notin> set l \<Longrightarrow>
     deliver_lines (colon_line hh False f) ls s
       = map_option (\<lambda>s1. (s1, no_error)) (call_colon_fnc f (filter (\<lambda>l. CHR '':'' \<in> set l) ls) s)"
proof (induction ls arbitrary: s)
  case (Cons l ls)
  have nul: "NUL \<notin> set l" using Cons.prems by (rule bspec) simp
  have "colon_lines hh False l = Ok (if CHR '':'' \<in> set l then [l] else [])"
    by (cases "CHR '':'' \<in> set l"; cases "l = []") (simp_all add: colon_lines_def takeWhile_nul [OF nul])
  moreover have "\<forall>l\<in>set ls. NUL \<notin> set l" using Cons.prems by simp
  ultimately show ?case using Cons.IH by (simp add: colon_line_def split: option.split)
qed simp

text \<open>
  The lines of a key listing reach the handler. Whatever the pieces in which gpg writes its
  listing, the handler of the listing is called with exactly the lines that have a colon, in their
  order, and then once with the mark for the end.
\<close>

theorem listing_lines_delivered:
  assumes "\<forall>l\<in>set ls. CHR 0x0A \<notin> set l \<and> NUL \<notin> set l"
    and "\<forall>c\<in>set chunks. c \<noteq> None \<and> c \<noteq> Some []" and "chunk_bytes chunks = terminated ls"
  shows "map_option (\<lambda>(ch, e). (ch_state ch, e))
           (chan_pump True en (scan_colon hh False f) (colon_eof f) chunks \<lparr>ch_line = [], ch_bufsize = 1024, ch_eof = False, ch_state = s\<rparr>)
       = map_option (\<lambda>s1. (s1, no_error))
           (Option.bind (call_colon_fnc f (filter (\<lambda>l. CHR '':'' \<in> set l) ls) s) (\<lambda>s1. f s1 None))"
proof -
  let ?ch = "\<lparr>ch_line = [], ch_bufsize = 1024, ch_eof = False, ch_state = s\<rparr>"
  have ls: "\<forall>l\<in>set ls. CHR 0x0A \<notin> set l" "\<forall>l\<in>set ls. NUL \<notin> set l" using assms(1) by auto
  have "map_option (\<lambda>(ch, e). (ch_state ch, e)) (chan_pump True en (scan_colon hh False f) (colon_eof f) chunks ?ch)
      = then_eof (colon_eof f) (deliver_lines (colon_line hh False f) ls s)"
    using colon_reader.pump_lines [OF assms(2,3) ls(1), where ch = ?ch and hh = hh and preprocess = False and f = f and en = en and eof = "colon_eof f"]
    by simp
  then show ?thesis
    using deliver_colon_lines [OF ls(2), of hh f s]
    by (cases "call_colon_fnc f (filter (\<lambda>l. CHR '':'' \<in> set l) ls) s") (auto simp: then_eof_def colon_eof_def)
qed

theorem listing_lines_delivered_witness:
  "map_option (\<lambda>(ch, e). (ch_state ch, e))
     (chan_pump True EIO (scan_colon demo_gpg_host False (\<lambda>s l. Some (s @ [l]))) (colon_eof (\<lambda>s l. Some (s @ [l])))
        [Some ''pub:u:'', Some ([CHR 0x0A] @ ''noise'' @ [CHR 0x0A])] \<lparr>ch_line = [], ch_bufsize = 1024, ch_eof = False, ch_state = []\<rparr>)
   = Some ([Some ''pub:u:'', None], no_error)"
proof -
  have "map_option (\<lambda>(ch, e). (ch_state ch, e))
     (chan_pump True EIO (scan_colon demo_gpg_host False (\<lambda>s l. Some (s @ [l]))) (colon_eof (\<lambda>s l. Some (s @ [l])))
        [Some ''pub:u:'', Some ([CHR 0x0A] @ ''noise'' @ [CHR 0x0A])] \<lparr>ch_line = [], ch_bufsize = 1024, ch_eof = False, ch_state = []\<rparr>)
   = map_option (\<lambda>s1. (s1, no_error))
      (Option.bind (call_colon_fnc (\<lambda>s l. Some (s @ [l])) (filter (\<lambda>l. CHR '':'' \<in> set l) [''pub:u:'', ''noise'']) [])
         (\<lambda>s1. Some (s1 @ [None])))"
    by (rule listing_lines_delivered) (simp_all add: chunk_bytes_def terminated_def)
  then show ?thesis by simp
qed

end
