(* ===== verification/Gpgme_SmallOps.thy ===== *)
theory Gpgme_SmallOps
  imports Gpgme_EngineGpgProps
begin

text \<open>
  The smaller operations: delete a key (\<open>delete.c\<close>), change a passphrase (\<open>passwd.c\<close>), sign a key
  (\<open>keysign.c\<close>), set a trust policy (\<open>tofupolicy.c\<close>) and export keys (\<open>export.c\<close>), each with its status
  handler, its start function and its entry points.
\<close>

section \<open>Error lines\<close>

text \<open>
  \<open>parse_error\<close>, which the operations have in a copy each: location and error code of an \<open>ERROR\<close> line.
  The arguments are cut down to the location.
\<close>

definition parse_error_line :: "op_env \<Rightarrow> string \<Rightarrow> (string \<times> gpgme_error_t) option" where
  "parse_error_line env args =
     (case strchr_split CHR '' '' args of
        (_, None) \<Rightarrow> None
      | (loc, Some which) \<Rightarrow> Some (loc, err_of_num env (atoi (fst (strchr_split CHR '' '' which)))))"

section \<open>Delete\<close>

definition delete_problem :: "int \<Rightarrow> gpgme_error_t" where
  "delete_problem problem =
     (if problem = 1 then gpg_error GPG_ERR_NO_PUBKEY
      else if problem = 2 then gpg_error GPG_ERR_CONFLICT
      else if problem = 3 then gpg_error GPG_ERR_AMBIGUOUS_NAME
      else gpg_error GPG_ERR_GENERAL)"

definition delete_status_handler :: "op_env \<Rightarrow> gpgme_ctx handler" where
  "delete_status_handler env ctx code args =
     (if code = GPGME_STATUS_DELETE_PROBLEM then
        (case strtol 0 args of
           (problem, rest, out_of_range) \<Rightarrow>
             Some (ctx, args, if out_of_range \<or> (rest \<noteq> [] \<and> peek rest \<noteq> CHR '' '') then gpg_error GPG_ERR_INV_ENGINE
                              else delete_problem problem))
      else if code = GPGME_STATUS_ERROR then
        (case parse_error_line env args of
           None \<Rightarrow> Some (ctx, args, gpg_error GPG_ERR_INV_ENGINE)
         | Some (loc, e) \<Rightarrow>
             Some (ctx, loc, if loc = ''delete_key.secret'' \<and> gpg_err_code e \<in> {GPG_ERR_CANCELED, GPG_ERR_FULLY_CANCELED}
                             then gpg_error (gpg_err_code e) else no_error))
      else Some (ctx, args, no_error))"

definition delete_start :: "engine_api \<Rightarrow> gpgme_ctx \<Rightarrow> nat \<Rightarrow> start_res" where
  "delete_start api ctx synchronous =
     then_start (Some (gpgme_op_reset api ctx synchronous False)) (launch api DeleteHandler OpDelete)"

definition gpgme_op_delete_start where
  "gpgme_op_delete_start api c = entry_async GPG_ERR_INV_VALUE (\<lambda>ctx. delete_start api ctx 0) c"

definition gpgme_op_delete where
  "gpgme_op_delete env api c ls =
     entry_sync GPG_ERR_INV_VALUE (\<lambda>ctx. delete_start api ctx 1) (delete_status_handler env) ls c"

section \<open>Change the passphrase\<close>

definition passwd_switch :: "op_env \<Rightarrow> gpgme_ctx \<Rightarrow> op_passwd \<Rightarrow> int \<Rightarrow> string \<Rightarrow> gpgme_ctx hres" where
  "passwd_switch env ctx opd code args =
     (if code = GPGME_STATUS_ERROR then
        (case parse_error_line env args of
           None \<Rightarrow> Some (put_hook (HPasswd (opd\<lparr>pw_error_seen := True\<rparr>)) ctx, args, gpg_error GPG_ERR_INV_ENGINE)
         | Some (loc, e) \<Rightarrow>
             if loc = ''keyedit.passwd'' \<and> is_err e
             then Some (put_hook (HPasswd (opd\<lparr>pw_error_seen := True\<rparr>)) ctx, loc, e)
             else Some (ctx, loc, no_error))
      else if code = GPGME_STATUS_SUCCESS then
        Some (put_hook (HPasswd (opd\<lparr>pw_success_seen := True\<rparr>)) ctx, args, no_error)
      else if code = GPGME_STATUS_FAILURE then
        (case gpgme_parse_failure env args of
           (args1, e) \<Rightarrow> Some (put_hook (HPasswd (opd\<lparr>pw_failure_code := e\<rparr>)) ctx, args1, no_error))
      else if code = GPGME_STATUS_EOF then
        Some (ctx, args,
              if ctx_protocol ctx = GPGME_PROTOCOL_OpenPGP \<and> \<not> pw_error_seen opd \<and> \<not> pw_success_seen opd
              then gpg_error GPG_ERR_NOT_SUPPORTED else pw_failure_code opd)
      else Some (ctx, args, no_error))"

definition passwd_status_handler :: "op_env \<Rightarrow> gpgme_ctx handler" where
  "passwd_status_handler env ctx code args =
     (case get_hook OPDATA_PASSWD ctx of
        Some (HPasswd opd) \<Rightarrow> passwd_switch env ctx opd code args
      | _ \<Rightarrow> None)"

text \<open>The part of the start functions that allocates the data of the operation.\<close>

definition op_init :: "op_env \<Rightarrow> ctx_op_data_id_t \<Rightarrow> gpgme_ctx \<Rightarrow> start_res" where
  "op_init env i ctx =
     (case gpgme_op_data_lookup env (Some ctx) i 1 of (Some ctx1, _, e) \<Rightarrow> Some (ctx1, e) | _ \<Rightarrow> None)"

text \<open>The handler is set before the passphrase requests are directed to the context.\<close>

definition launch_with_passphrase :: "engine_api \<Rightarrow> handler_id \<Rightarrow> engine_op \<Rightarrow> gpgme_ctx \<Rightarrow> start_res" where
  "launch_with_passphrase api h opn c =
     then_start (want_passphrase api True (gpgme_engine_set_status_handler api h c)) (\<lambda>c1. Some (c1, gpgme_engine_op api opn c1))"

definition passwd_start :: "op_env \<Rightarrow> engine_api \<Rightarrow> gpgme_ctx \<Rightarrow> nat \<Rightarrow> bool \<Rightarrow> 32 word \<Rightarrow> start_res" where
  "passwd_start env api ctx synchronous key flags =
     (if \<not> key then fail_start ctx GPG_ERR_INV_VALUE
      else if flags \<noteq> 0 then fail_start ctx GPG_ERR_INV_FLAG
      else then_start (Some (gpgme_op_reset api ctx synchronous False)) (\<lambda>c1.
           then_start (op_init env OPDATA_PASSWD c1) (launch_with_passphrase api PasswdHandler OpPasswd)))"

definition gpgme_op_passwd_start where
  "gpgme_op_passwd_start env api c key flags =
     entry_async GPG_ERR_INV_VALUE (\<lambda>ctx. passwd_start env api ctx 0 key flags) c"

definition gpgme_op_passwd where
  "gpgme_op_passwd env api c key flags ls =
     entry_sync GPG_ERR_INV_VALUE (\<lambda>ctx. passwd_start env api ctx 1 key flags) (passwd_status_handler env) ls c"

section \<open>Sign a key\<close>

definition keysign_switch :: "op_env \<Rightarrow> gpgme_ctx \<Rightarrow> op_keysign \<Rightarrow> int \<Rightarrow> string \<Rightarrow> gpgme_ctx hres" where
  "keysign_switch env ctx opd code args =
     (if code = GPGME_STATUS_ERROR then
        (case parse_error_line env args of
           None \<Rightarrow> Some (ctx, args, gpg_error GPG_ERR_INV_ENGINE)
         | Some (loc, e) \<Rightarrow>
             Some (if is_err (kg_error_code opd) then ctx else put_hook (HKeysign (opd\<lparr>kg_error_code := e\<rparr>)) ctx, loc, no_error))
      else if code = GPGME_STATUS_FAILURE then
        (case gpgme_parse_failure env args of
           (args1, e) \<Rightarrow> Some (put_hook (HKeysign (opd\<lparr>kg_failure_code := e\<rparr>)) ctx, args1, no_error))
      else if code = GPGME_STATUS_EOF then
        Some (ctx, args, if is_err (kg_error_code opd) then kg_error_code opd else kg_failure_code opd)
      else if code = GPGME_STATUS_INQUIRE_MAXLEN then
        (case call_status_cb ctx ''INQUIRE_MAXLEN'' args of (ctx1, e) \<Rightarrow> Some (ctx1, args, e))
      else Some (ctx, args, no_error))"

definition keysign_own_handler :: "op_env \<Rightarrow> gpgme_ctx handler" where
  "keysign_own_handler env ctx code args =
     (case get_hook OPDATA_KEYSIGN ctx of
        Some (HKeysign opd) \<Rightarrow> keysign_switch env ctx opd code args
      | _ \<Rightarrow> None)"

definition keysign_status_handler :: "op_env \<Rightarrow> gpgme_ctx handler" where
  "keysign_status_handler env = then_handler (gpgme_progress_status_handler env) (keysign_own_handler env)"

definition keysign_start :: "op_env \<Rightarrow> engine_api \<Rightarrow> gpgme_ctx \<Rightarrow> nat \<Rightarrow> bool \<Rightarrow> start_res" where
  "keysign_start env api ctx synchronous key =
     (if ctx_protocol ctx \<noteq> GPGME_PROTOCOL_OpenPGP then fail_start ctx GPG_ERR_UNSUPPORTED_PROTOCOL
      else then_start (Some (gpgme_op_reset api ctx synchronous False)) (\<lambda>c1.
           if \<not> key then fail_start c1 GPG_ERR_INV_ARG
           else then_start (op_init env OPDATA_KEYSIGN c1) (launch_with_passphrase api KeysignHandler OpKeysign)))"

definition gpgme_op_keysign_start where
  "gpgme_op_keysign_start env api c key = entry_async GPG_ERR_INV_ARG (\<lambda>ctx. keysign_start env api ctx 0 key) c"

definition gpgme_op_keysign where
  "gpgme_op_keysign env api c key ls =
     entry_sync GPG_ERR_INV_ARG (\<lambda>ctx. keysign_start env api ctx 1 key) (keysign_status_handler env) ls c"

section \<open>Trust policies\<close>

text \<open>Unlike in the other operations the code of an \<open>ERROR\<close> line is also returned at once.\<close>

definition tofu_policy_switch :: "op_env \<Rightarrow> gpgme_ctx \<Rightarrow> op_tofu_policy \<Rightarrow> int \<Rightarrow> string \<Rightarrow> gpgme_ctx hres" where
  "tofu_policy_switch env ctx opd code args =
     (if code = GPGME_STATUS_ERROR then
        (case parse_error_line env args of
           None \<Rightarrow> Some (ctx, args, gpg_error GPG_ERR_INV_ENGINE)
         | Some (loc, e) \<Rightarrow>
             Some (if is_err (tp_error_code opd) then ctx else put_hook (HTofuPolicy (opd\<lparr>tp_error_code := e\<rparr>)) ctx, loc, e))
      else if code = GPGME_STATUS_FAILURE then
        (case gpgme_parse_failure env args of
           (args1, e) \<Rightarrow> Some (put_hook (HTofuPolicy (opd\<lparr>tp_failure_code := e\<rparr>)) ctx, args1, no_error))
      else if code = GPGME_STATUS_EOF then
        Some (ctx, args, if is_err (tp_error_code opd) then tp_error_code opd else tp_failure_code opd)
      else Some (ctx, args, no_error))"

definition tofu_policy_status_handler :: "op_env \<Rightarrow> gpgme_ctx handler" where
  "tofu_policy_status_handler env ctx code args =
     (case get_hook OPDATA_TOFU_POLICY ctx of
        Some (HTofuPolicy opd) \<Rightarrow> tofu_policy_switch env ctx opd code args
      | _ \<Rightarrow> None)"

definition tofu_policy_start :: "op_env \<Rightarrow> engine_api \<Rightarrow> gpgme_ctx \<Rightarrow> nat \<Rightarrow> bool \<Rightarrow> start_res" where
  "tofu_policy_start env api ctx synchronous key =
     (if ctx_protocol ctx \<noteq> GPGME_PROTOCOL_OpenPGP then fail_start ctx GPG_ERR_UNSUPPORTED_PROTOCOL
      else if \<not> key then fail_start ctx GPG_ERR_INV_VALUE
      else then_start (Some (gpgme_op_reset api ctx synchronous False)) (\<lambda>c1.
           then_start (op_init env OPDATA_TOFU_POLICY c1) (launch api TofuPolicyHandler OpTofuPolicy)))"

definition gpgme_op_tofu_policy_start where
  "gpgme_op_tofu_policy_start env api c key =
     entry_async GPG_ERR_INV_VALUE (\<lambda>ctx. tofu_policy_start env api ctx 0 key) c"

definition gpgme_op_tofu_policy where
  "gpgme_op_tofu_policy env api c key ls =
     entry_sync GPG_ERR_INV_VALUE (\<lambda>ctx. tofu_policy_start env api ctx 1 key) (tofu_policy_status_handler env) ls c"

section \<open>Export\<close>

definition export_switch :: "op_env \<Rightarrow> gpgme_ctx \<Rightarrow> op_export \<Rightarrow> int \<Rightarrow> string \<Rightarrow> gpgme_ctx hres" where
  "export_switch env ctx opd code args =
     (if code = GPGME_STATUS_ERROR then
        (case parse_error_line env args of
           None \<Rightarrow> Some (ctx, args, gpg_error GPG_ERR_INV_ENGINE)
         | Some (loc, e) \<Rightarrow>
             Some (if \<not> is_err (ex_err opd) \<and> loc = ''keyserver_send'' then put_hook (HExport (opd\<lparr>ex_err := e\<rparr>)) ctx else ctx,
                   loc, no_error))
      else Some (ctx, args, no_error))"

definition export_status_handler :: "op_env \<Rightarrow> gpgme_ctx handler" where
  "export_status_handler env ctx code args =
     (case get_hook OPDATA_EXPORT ctx of
        Some (HExport opd) \<Rightarrow> export_switch env ctx opd code args
      | _ \<Rightarrow> None)"

text \<open>
  The checks of the mode; \<open>allowed\<close> are the flags that the function knows, 246 with and 118 without
  \<open>GPGME_EXPORT_MODE_NOUID\<close>.
\<close>

definition export_mode_check :: "32 word \<Rightarrow> gpgme_protocol_t \<Rightarrow> 32 word \<Rightarrow> bool \<Rightarrow> gpg_err_code option" where
  "export_mode_check allowed protocol mode keydata =
     (if and mode (not allowed) \<noteq> 0 then Some GPG_ERR_INV_VALUE
      else if bit mode 4 \<and> bit mode 1 then Some GPG_ERR_INV_FLAG
      else if bit mode 4 \<and> bit mode 5 \<and> bit mode 6 then Some GPG_ERR_INV_FLAG
      else if bit mode 4 \<and> protocol \<noteq> GPGME_PROTOCOL_CMS \<and> (bit mode 5 \<or> bit mode 6) then Some GPG_ERR_INV_FLAG
      else if bit mode 1 = keydata then Some GPG_ERR_INV_VALUE
      else None)"

definition export_launch :: "op_env \<Rightarrow> engine_api \<Rightarrow> engine_op \<Rightarrow> 32 word \<Rightarrow> gpgme_ctx \<Rightarrow> nat \<Rightarrow> 32 word \<Rightarrow> bool \<Rightarrow> start_res" where
  "export_launch env api opn allowed ctx synchronous mode keydata =
     (case export_mode_check allowed (ctx_protocol ctx) mode keydata of
        Some c \<Rightarrow> fail_start ctx c
      | None \<Rightarrow>
          then_start (Some (gpgme_op_reset api ctx synchronous False)) (\<lambda>c1.
          then_start (op_init env OPDATA_EXPORT c1) (launch api ExportHandler opn)))"

definition export_start where
  "export_start env api = export_launch env api OpExport 246"

definition export_ext_start where
  "export_ext_start env api = export_launch env api OpExportExt 118"

definition gpgme_op_export_start where
  "gpgme_op_export_start env api c mode keydata =
     entry_async GPG_ERR_INV_VALUE (\<lambda>ctx. export_start env api ctx 0 mode keydata) c"

definition gpgme_op_export where
  "gpgme_op_export env api c mode keydata ls =
     entry_sync GPG_ERR_INV_VALUE (\<lambda>ctx. export_start env api ctx 1 mode keydata) (export_status_handler env) ls c"

definition gpgme_op_export_ext_start where
  "gpgme_op_export_ext_start env api c mode keydata =
     entry_async GPG_ERR_INV_VALUE (\<lambda>ctx. export_ext_start env api ctx 0 mode keydata) c"

text \<open>The error that the handler has kept, after the operation.\<close>

definition export_result :: "entry_res \<Rightarrow> entry_res" where
  "export_result r =
     (case r of
        Some (Some ctx, e) \<Rightarrow>
          if is_err e then r
          else (case get_hook OPDATA_EXPORT ctx of Some (HExport opd) \<Rightarrow> Some (Some ctx, ex_err opd) | _ \<Rightarrow> None)
      | _ \<Rightarrow> r)"

definition gpgme_op_export_ext where
  "gpgme_op_export_ext env api c mode keydata ls =
     export_result (entry_sync GPG_ERR_INV_VALUE (\<lambda>ctx. export_ext_start env api ctx 1 mode keydata) (export_status_handler env) ls c)"

text \<open>The patterns made of an array of keys: fingerprints of the keys of the protocol.\<close>

definition export_key_patterns :: "gpgme_protocol_t \<Rightarrow> gpgme_key list \<Rightarrow> string list" where
  "export_key_patterns protocol keys =
     List.map_filter
       (\<lambda>k. if key_protocol k = protocol then (case first_fpr k of Some f \<Rightarrow> if f \<noteq> [] then Some f else None | None \<Rightarrow> None) else None) keys"

definition export_keys_start ::
    "op_env \<Rightarrow> engine_api \<Rightarrow> gpgme_ctx \<Rightarrow> nat \<Rightarrow> gpgme_key list option \<Rightarrow> 32 word \<Rightarrow> bool \<Rightarrow> start_res" where
  "export_keys_start env api ctx synchronous keys mode keydata =
     (case keys of
        None \<Rightarrow> fail_start ctx GPG_ERR_INV_VALUE
      | Some ks \<Rightarrow>
          if \<not> list_ex (\<lambda>k. key_protocol k = ctx_protocol ctx) ks then fail_start ctx GPG_ERR_NO_DATA
          else if \<not> core env ''pattern'' then Some (ctx, syserror ENOMEM)
          else export_ext_start env api ctx synchronous mode keydata)"

definition gpgme_op_export_keys_start where
  "gpgme_op_export_keys_start env api c keys mode keydata =
     entry_async GPG_ERR_INV_VALUE (\<lambda>ctx. export_keys_start env api ctx 0 keys mode keydata) c"

definition gpgme_op_export_keys where
  "gpgme_op_export_keys env api c keys mode keydata ls =
     export_result (entry_sync GPG_ERR_INV_VALUE (\<lambda>ctx. export_keys_start env api ctx 1 keys mode keydata) (export_status_handler env) ls c)"

section \<open>Properties\<close>

text \<open>The first error of sending keys that the status lines report, 0 for none.\<close>

definition send_error :: "op_env \<Rightarrow> int \<times> string \<Rightarrow> gpgme_error_t \<Rightarrow> gpgme_error_t" where
  "send_error env l e =
     (case l of (code, args) \<Rightarrow>
        if code = GPGME_STATUS_ERROR \<and> \<not> is_err e
        then (case parse_error_line env args of
                Some (loc, e1) \<Rightarrow> if loc = ''keyserver_send'' then e1 else e
              | None \<Rightarrow> e)
        else e)"

definition first_send_error :: "op_env \<Rightarrow> (int \<times> string) list \<Rightarrow> gpgme_error_t" where
  "first_send_error env ls = fold (send_error env) ls no_error"

lemma export_feed:
  "feed (export_status_handler env) ctx ls = Some (ctx1, no_error) \<Longrightarrow> get_hook OPDATA_EXPORT ctx = Some (HExport d) \<Longrightarrow>
     get_hook OPDATA_EXPORT ctx1 = Some (HExport (d\<lparr>ex_err := fold (send_error env) ls (ex_err d)\<rparr>))"
proof (induction ls arbitrary: ctx d)
  case (Cons l ls)
  obtain code args where l: "l = (code, args)" by (cases l)
  obtain ctx2 a2 where h: "export_status_handler env ctx code args = Some (ctx2, a2, no_error)"
    and f: "feed (export_status_handler env) ctx2 ls = Some (ctx1, no_error)"
    using Cons.prems(1) l by (auto split: option.splits if_splits)
  have "get_hook OPDATA_EXPORT ctx2 = Some (HExport (d\<lparr>ex_err := send_error env l (ex_err d)\<rparr>))"
    using h Cons.prems(2) l
    by (auto simp: export_status_handler_def export_switch_def send_error_def ctx.search_store split: if_splits option.splits)
  from Cons.IH [OF f this] show ?case by simp
qed simp

lemma export_launched:
  assumes "export_launch env api opn allowed ctx ty mode keydata = Some (c, no_error)"
  shows "get_hook OPDATA_EXPORT c = Some (HExport zero_export)"
proof -
  obtain c1 c2 where c1: "Some (gpgme_op_reset api ctx ty False) = Some (c1, no_error)"
    and c2: "op_init env OPDATA_EXPORT c1 = Some (c2, no_error)" and l: "launch api ExportHandler opn c2 = Some (c, no_error)"
    using assms by (auto simp: export_launch_def then_start_ok split: option.splits)
  have "c2 = c1\<lparr>ctx_op_data := [HExport zero_export]\<rparr>"
    using lookup_init_fresh [OF c2 [unfolded op_init_def] get_hook_fresh [OF reset_ok(2) [OF c1]]] reset_ok(2) [OF c1] by simp
  then show ?thesis
    using l by (auto simp: launch_def Let_def gpgme_engine_set_status_handler_def upd_engine_def get_hook_def op_find_def)
qed

text \<open>
  C38: exporting reports what went wrong at the key server - in two of the three functions. When the
  engine has been started and its status lines are accepted, \<open>gpgme_op_export_ext\<close> and
  \<open>gpgme_op_export_keys\<close> return the first error of sending keys among them, and success when there is
  none; \<open>gpgme_op_export\<close> returns success in any case.
\<close>

theorem export_send_errors:
  assumes "export_ext_start env api ctx 1 mode keydata = Some (c1, no_error)"
    and "feed (export_status_handler env) c1 ls = Some (c2, no_error)"
    and "export_start env api ctx 1 mode keydata = Some (d1, no_error)"
    and "feed (export_status_handler env) d1 ls = Some (d2, no_error)"
  shows "gpgme_op_export_ext env api (Some ctx) mode keydata ls = Some (Some c2, first_send_error env ls)
    \<and> gpgme_op_export env api (Some ctx) mode keydata ls = Some (Some d2, no_error)"
proof -
  have "get_hook OPDATA_EXPORT c2 = Some (HExport (zero_export\<lparr>ex_err := first_send_error env ls\<rparr>))"
    using export_feed [OF assms(2) export_launched [OF assms(1) [unfolded export_ext_start_def]]]
    by (simp add: zero_export_def first_send_error_def)
  then show ?thesis
    using assms by (simp add: gpgme_op_export_ext_def gpgme_op_export_def entry_sync_def then_start_def export_result_def)
qed

theorem export_send_errors_witness:
  "case gpgme_op_export_ext sample_env sample_api (Some dec_sample_ctx) 2 False [(GPGME_STATUS_ERROR, ''keyserver_send 7'')] of
     Some (c, e) \<Rightarrow> e = err_of_num sample_env 7 \<and> is_err e | None \<Rightarrow> False"
proof -
  let ?ls = "[(GPGME_STATUS_ERROR, ''keyserver_send 7'')]"
  have "case export_ext_start sample_env sample_api dec_sample_ctx 1 2 False of
      Some (c, e) \<Rightarrow> e = no_error \<and> map_option snd (feed (export_status_handler sample_env) c ?ls) = Some no_error | None \<Rightarrow> False"
    by code_simp
  then obtain c1 c2 where c: "export_ext_start sample_env sample_api dec_sample_ctx 1 2 False = Some (c1, no_error)"
      "feed (export_status_handler sample_env) c1 ?ls = Some (c2, no_error)"
    by (auto split: option.splits prod.splits)
  have "case export_start sample_env sample_api dec_sample_ctx 1 2 False of
      Some (c, e) \<Rightarrow> e = no_error \<and> map_option snd (feed (export_status_handler sample_env) c ?ls) = Some no_error | None \<Rightarrow> False"
    by code_simp
  then obtain d1 d2 where d: "export_start sample_env sample_api dec_sample_ctx 1 2 False = Some (d1, no_error)"
      "feed (export_status_handler sample_env) d1 ?ls = Some (d2, no_error)"
    by (auto split: option.splits prod.splits)
  have "first_send_error sample_env ?ls = err_of_num sample_env 7 \<and> is_err (err_of_num sample_env 7)" by code_simp
  then show ?thesis using export_send_errors [OF c d] by simp
qed


definition demo_bare_key :: gpgme_key where
  "demo_bare_key = (case gpgme_key_new True of Ok k \<Rightarrow> k)"


end
