(* ===== verification/Spec2Isabelle.thy ===== *)
theory Spec2Isabelle
  imports Gpgme_Conversion Gpgme_B64Dec Gpgme_ParseTlv Gpgme_DataIdentify Gpgme_StatusTable
    Gpgme_MboxUtil Gpgme_DataProps Gpgme_KeylistProps Gpgme_StatusChannel Gpgme_SmallOps
begin

text \<open>
  Verification of the GPGME library (GnuPG Made Easy), the C code under \<open>src/src\<close>.

  The program. GPGME runs crypto engines (gpg, gpgsm and others) as separate processes and
  presents what they do as operations on a context. An application creates data objects for
  the input and output, starts an operation such as signing or decryption on a context, and
  reads a result from the context when the operation has ended. The engine reports on a status
  channel: lines of a keyword and arguments, which the library looks up in a table and hands to
  the status handler of the operation. A handler parses the lines, collects the result in the
  operation data of the context, and decides at the end of the channel whether the operation
  succeeded. Most of the library's own logic is in these handlers and parsers, in the data
  objects, and in the small decoders they use; these parts are modelled here.

  Theories, bottom up, with the source files they model:

  \<^item> \<open>Gpgme_Prelude\<close>: error values, C strings (a \<open>string\<close> without NUL stands for the bytes up to
    the terminator), conversions to the C integer types, \<open>strtol\<close>, \<open>strtoul\<close>, \<open>atoi\<close>, \<open>strchr\<close>,
    decimal notation, and a locale for machines that are fed in chunks.
  \<^item> \<open>Gpgme_Conversion\<close> (\<open>conversion.c\<close>): escapes, field splitting, numbers, time stamps.
  \<^item> \<open>Gpgme_B64Dec\<close> (\<open>b64dec.c\<close>): the incremental Base-64 and armor decoder, which works in place.
  \<^item> \<open>Gpgme_ParseTlv\<close> (\<open>parsetlv.c\<close>): the header parser for BER objects.
  \<^item> \<open>Gpgme_DataIdentify\<close> (\<open>data-identify.c\<close>): what kind of data a sample is.
  \<^item> \<open>Gpgme_StatusTable\<close> (\<open>status-table.c\<close>): status keywords and codes.
  \<^item> \<open>Gpgme_MboxUtil\<close> (\<open>mbox-util.c\<close>): mail addresses in user IDs.
  \<^item> \<open>Gpgme_DataMem\<close> (\<open>data-mem.c\<close>): memory objects, with buffers that can be partly
    uninitialised, and their refinement of a file.
  \<^item> \<open>Gpgme_Data\<close> (\<open>data.c\<close>): data objects over interchangeable back ends, the table of serial
    numbers and properties, the handlers that move bytes between objects and descriptors.
    \<open>Gpgme_DataInv\<close> has the invariant of the table and the step relation of sequences of calls,
    \<open>Gpgme_DataProps\<close> the properties.
  \<^item> \<open>Gpgme_Key\<close> (\<open>key.c\<close>): key objects, the user ID parser, attribute access.
  \<^item> \<open>Gpgme_OpSupport\<close> (\<open>context.h\<close>, \<open>op-support.c\<close>, \<open>passphrase.c\<close>, \<open>progress.c\<close>): contexts with
    their operation data, the parsers that several operations use, the two handlers that run
    before others. The locale \<open>hook_store\<close> is the contract of the operation data.
  \<^item> \<open>Gpgme_Decrypt\<close> (\<open>decrypt.c\<close>), \<open>Gpgme_Verify\<close> (\<open>verify.c\<close>, \<open>sig-notation.c\<close>),
    \<open>Gpgme_Encrypt\<close> (\<open>encrypt.c\<close>), \<open>Gpgme_Sign\<close> (\<open>sign.c\<close>, \<open>encrypt-sign.c\<close>), \<open>Gpgme_Import\<close>
    (\<open>import.c\<close>), \<open>Gpgme_Genkey\<close> (\<open>genkey.c\<close>): operation data, parsers, status handlers and
    results of the operations. \<open>Gpgme_Encrypt\<close> also has the locales \<open>line_run\<close> and
    \<open>finished_run\<close>, the refinement argument for handlers: each line changes an abstract view of
    the state as a step function says, and the end of the channel reports a verdict on the
    view. They are interpreted for the encrypt, sign, encrypt-sign, import and genkey handlers.
  \<^item> \<open>Gpgme_Start\<close> (\<open>_gpgme_op_reset\<close> of \<open>op-support.c\<close>, the dispatch functions of \<open>engine.c\<close>, the
    start functions and entry points of the operations, \<open>decrypt-verify.c\<close>).
  \<^item> \<open>Gpgme_Context\<close> (\<open>gpgme.c\<close>, \<open>signers.c\<close>): creation of contexts, settings, named flags, locale,
    and the array of signers with the reference counts of the keys it shares with others.
  \<^item> \<open>Gpgme_Keylist\<close> (\<open>keylist.c\<close>, the wait loop of \<open>wait-private.c\<close>): the parser of key listing
    lines, the queue of keys, the functions that start and read a listing. \<open>Gpgme_KeylistProps\<close>
    has its properties: the locale \<open>key_producer\<close> is the contract between parser and reader, and
    an invariant says that the parser's position fits the key it builds.
  \<^item> \<open>Gpgme_Version\<close> (\<open>version.c\<close>): version numbers and their comparison, on which the gpg engine
    bases the choice of options.
  \<^item> \<open>Gpgme_EngineGpg\<close> (\<open>engine-gpg.c\<close>): the engine for gpg. The list of arguments an operation
    collects, the argument vector made of it, creation of the engine object and its settings,
    every operation of the engine's table from its arguments to the start of the process, the
    loop that fetches addresses from a data object, and the preprocessor for the listings of
    key servers. \<open>Gpgme_EngineGpgProps\<close> has its properties; \<open>scanned\<close> there says
    where gpg's option parser stands behind the arguments so far, and each step that adds
    arguments moves it as its lemma says.
  \<^item> \<open>Gpgme_StatusChannel\<close> (\<open>read_status\<close> and \<open>read_colon_line\<close> of \<open>engine-gpg.c\<close>): the two loops
    that collect lines from what the process writes. The locale \<open>line_reader\<close> is their common
    contract, interpreted on both.
  \<^item> \<open>Gpgme_SmallOps\<close> (\<open>delete.c\<close>, \<open>passwd.c\<close>, \<open>keysign.c\<close>, \<open>tofupolicy.c\<close>, \<open>export.c\<close>): the
    handlers, start functions and results of these operations.
  \<^item> This theory: decryption together with the plaintext object.

  How state and operations correspond. A C structure is a record with its fields under a
  prefix; a linked list of results, which the code appends to through a pointer to its end, is
  a list. The operation data of a context is a list of hooks, one constructor per kind. A
  handler is a function from the state, the status code and the arguments to the new state,
  the arguments as it leaves them (parsers cut the line in place, which a handler that runs
  later sees) and the error it returns. \<open>None\<close>, or \<open>UB\<close> in a \<open>cres\<close>, stands for undefined
  behaviour: a null pointer dereferenced, a failed assertion, an uninitialised value used. So
  a theorem that a function returns \<open>Some\<close> says that the code is safe there. \<open>feed\<close> hands a
  list of lines to a handler and stops at the first error, as the engines do.

  Parameters. Which allocations succeed is a parameter (\<open>core\<close> in \<open>op_env\<close>, one label per call;
  similar ones for data objects), so that every out-of-memory branch is in the model. The
  numbers of error codes belong to libgpg-error: \<open>dec\<close> reads a number of a status line, with the
  one law that 0 alone is success. The callbacks of the application are functions, and their
  calls are recorded in order. System calls behind data objects and the engines are parameters
  too; of an engine the model has which entry points it offers, the errors they return, and the
  lines it emits.

  What the theorems show. For the operations: when decryption, signing, encrypt-and-sign and
  key generation report success, as a function of the lines of the engine; that a start leaves
  nothing of earlier operations in a context; that a failed decryption hides the plaintext;
  that a signature is never called green or valid without a line of full trust; the meaning of
  every summary bit; on which lines the verify handler crashes; that import reports arrive
  unchanged; that a signing result accounts for every signer; that a key listing delivers every
  key once and in order however its output arrives, that its parser is safe on all lines but
  those named, and what a lookup of a single key returns. For contexts: that the signers own
  one reference for each entry and that flags read back. For the data objects: the
  refinement of a file by memory objects, the invariant of the property table, that bytes are
  neither lost nor reordered between objects and descriptors. For the gpg engine: that no
  string of a caller is ever read by gpg as an option, which sets of settings overflow the
  argument vector, that the addresses and recipients of a caller arrive as arguments unchanged,
  that the loop over addresses ends for every input, and that the lines of the process reach
  the handlers one by one and complete, however the pipe cuts them. For the decoders: round trips,
  independence of the chunking, and that no conversion overruns its buffer or, where it does,
  on which inputs.

  Bounds and fuel. All loops are structural recursions or have a termination measure, with one
  exception in \<open>Gpgme_Data\<close>: the loop that repeats an interrupted system call is a partial
  function into an option, where \<open>None\<close> is a loop that never ends; the theorems about data
  objects state where it returns. The loop of \<open>gpgme_get_key\<close> has fuel; it reads one key in each
  turn, and as much fuel as there are keys is enough. The loop that fetches addresses is a
  function with a measure over the unread bytes and the buffer of 2000 bytes that the code
  has. \<open>unsigned long\<close> and \<open>size_t\<close> have 64 bits,
  \<open>int\<close> has 32.

  Which options of gpg take a value is documented behaviour of gpg, not code of this
  repository: it is the parameter \<open>takes\<close> of the claim on options, and \<open>gpg_syntax\<close> states what the
  library relies on for the options it uses.

  Not modelled. The descriptor tables and the other event loops (\<open>wait.c\<close> and its variants). Of
  the gpg engine: the command channel, which answers prompts of gpg, the spawning of the
  process with its pipes, cancellation, the audit log and the release of the object. The
  operations \<open>edit\<close>, \<open>trustlist\<close>, \<open>vfs\<close>, \<open>gpgconf\<close>, \<open>queryswdb\<close> and \<open>spawn\<close>. The other
  engines and the system interface are represented by parameters. The command line tools, the
  language bindings, the Windows port, debug output and the vendored JSON library are left out.
  Locks are left out: the model has one thread.
\<close>

section \<open>Decryption and the plaintext object\<close>

text \<open>
  The state between two status lines of a decryption into the object at \<open>h\<close>, whose serial
  number is \<open>s\<close>: the data objects are well-formed, the object is alive, the operation data
  names it, and \<open>b\<close> tells whether a failure was announced.
\<close>

definition dec_link :: "'u data_state \<Rightarrow> nat \<Rightarrow> 64 word \<Rightarrow> bool \<Rightarrow> 'u dec_state \<Rightarrow> bool" where
  "dec_link ds0 h s b st \<longleftrightarrow> st_ok (snd st) \<and> objects (snd st) = objects ds0
     \<and> gpgme_data_get_dserial (snd st) (Some h) = Ok s \<and> \<not> ctx_ignore_mdc_error (fst st) \<and> pp_inv (fst st)
     \<and> (\<exists>d. get_hook OPDATA_DECRYPT (fst st) = Some (HDecrypt d) \<and> dec_plaintext_dserial d = s)
     \<and> (b \<longrightarrow> gpgme_data_get_prop (snd st) (Some h) 0 DATA_PROP_BLANKOUT = Ok (1, no_error))
     \<and> (\<forall>h' d'. objects ds0 h' = Some d' \<longrightarrow> h' \<noteq> h \<longrightarrow>
          gpgme_data_get_prop (snd st) (Some h') 0 DATA_PROP_BLANKOUT = gpgme_data_get_prop ds0 (Some h') 0 DATA_PROP_BLANKOUT)"

lemma dec_link_after:
  assumes l: "dec_link ds0 h s b st" and h: "objects ds0 h = Some dh"
    and k: "ctx_keeps {OPDATA_PASSPHRASE} (fst st) c2" and p: "pp_inv c2"
    and g: "get_hook OPDATA_DECRYPT c2 = Some (HDecrypt d)" and a: "dec_after env code args (c2, snd st) d st'"
  shows "dec_link ds0 h s (b \<or> code = GPGME_STATUS_DECRYPTION_FAILED) st'"
proof -
  have gd: "dec_plaintext_dserial d = s" "\<not> ctx_ignore_mdc_error c2"
    using l k g by (auto simp: dec_link_def ctx_keeps_def)
  obtain d' where d': "get_hook OPDATA_DECRYPT (fst st') = Some (HDecrypt d')" "dec_plaintext_dserial d' = s"
    using a gd(1) by (auto simp: dec_after_def dec_core_def dec_core_step_def split: prod.splits)
  have k2: "ctx_keeps {OPDATA_DECRYPT} c2 (fst st')" using a by (simp add: dec_after_def)
  have c: "\<not> ctx_ignore_mdc_error (fst st')" "pp_inv (fst st')"
    using k2 gd(2) p pp_keeps [OF k2] by (simp_all add: ctx_keeps_def)
  have obj: "objects (snd st) h = Some dh" and ok: "st_ok (snd st)" and ser: "gpgme_data_get_dserial (snd st) (Some h) = Ok s"
    using l h by (auto simp: dec_link_def)
  show ?thesis
  proof (cases "code = GPGME_STATUS_DECRYPTION_FAILED")
    case True
    then show ?thesis
      using a set_blankout_live [OF ok obj ser] gd l d' c by (auto simp: dec_after_def dec_link_def)
  next
    case False
    then have "snd st' = snd st" using a by (simp add: dec_after_def)
    then show ?thesis using l d' c False by (simp add: dec_link_def)
  qed
qed

lemma dec_link_line:
  assumes l: "dec_link ds0 h s b st" and h: "objects ds0 h = Some dh" and "code \<noteq> GPGME_STATUS_EOF"
    and f: "decrypt_status_handler env st code args = Some (st', args', no_error)"
  shows "dec_link ds0 h s (b \<or> code = GPGME_STATUS_DECRYPTION_FAILED) st'"
  using f
proof (cases rule: decrypt_handler_cases)
  case (own c1 c2 d)
  have k1: "ctx_keeps {OPDATA_PASSPHRASE} (fst st) c1" using own(1) by (rule keeps_mono) simp
  have k: "ctx_keeps {OPDATA_PASSPHRASE} (fst st) c2"
    using keeps_trans [OF k1] passphrase_handler_keeps [OF own(2)] by blast
  have "pp_inv c1" using l pp_keeps [OF own(1)] by (simp add: dec_link_def)
  then have p: "pp_inv c2" using passphrase_step_ok [OF own(2) _ assms(3)] by simp
  show ?thesis by (rule dec_link_after [OF l h k p own(3) decrypt_switch_after [OF own(3,4)]])
qed simp_all

lemma dec_link_feed:
  assumes "dec_link ds0 h s b st" "objects ds0 h = Some dh" "\<forall>l\<in>set ls. fst l \<noteq> GPGME_STATUS_EOF"
    and "feed (decrypt_status_handler env) st ls = Some (st', no_error)"
  shows "dec_link ds0 h s (b \<or> GPGME_STATUS_DECRYPTION_FAILED \<in> fst ` set ls) st'"
  using assms
proof (induction ls arbitrary: b st)
  case (Cons l ls)
  obtain code args where l: "l = (code, args)" by (cases l)
  obtain s1 a1 where s1: "decrypt_status_handler env st code args = Some (s1, a1, no_error)"
      "feed (decrypt_status_handler env) s1 ls = Some (st', no_error)"
    using Cons.prems(4) by (auto simp: l split: option.splits if_splits)
  have "code \<noteq> GPGME_STATUS_EOF" using Cons.prems(3) l by simp
  from Cons.IH [OF dec_link_line [OF Cons.prems(1,2) this s1(1)] Cons.prems(2) _ s1(2)] Cons.prems(3)
  have "dec_link ds0 h s ((b \<or> code = GPGME_STATUS_DECRYPTION_FAILED)
      \<or> GPGME_STATUS_DECRYPTION_FAILED \<in> fst ` set ls) st'" by simp
  moreover have "((b \<or> code = GPGME_STATUS_DECRYPTION_FAILED) \<or> GPGME_STATUS_DECRYPTION_FAILED \<in> fst ` set ls)
      = (b \<or> GPGME_STATUS_DECRYPTION_FAILED \<in> fst ` set (l # ls))" by (auto simp: l)
  ultimately show ?case by simp
qed simp

lemma dec_link_init:
  assumes "data_reach denv ds" "objects ds h = Some dh" "get_hook OPDATA_DECRYPT ctx = None"
    and "get_hook OPDATA_PASSPHRASE ctx = None" "\<not> ctx_ignore_mdc_error ctx"
    and i: "gpgme_op_decrypt_init_result env ctx ds (Some h) = Some (ctx0, no_error)"
  shows "\<exists>s. dec_link ds h s False (ctx0, ds)"
proof -
  have ok: "st_ok ds" using assms(1) by (rule data_reach_ok)
  define c where "c = ctx\<lparr>ctx_op_data := HDecrypt zero_decrypt # ctx_op_data ctx\<rparr>"
  obtain s where s: "gpgme_data_get_dserial ds (Some h) = Ok s"
      "ctx0 = put_hook (HDecrypt (zero_decrypt\<lparr>dec_plaintext_dserial := s\<rparr>)) c"
    using i assms(3)
    by (auto simp: gpgme_op_decrypt_init_result_def gpgme_op_data_lookup_def get_hook_def c_def
        split: if_splits cres.splits)
  have g: "get_hook OPDATA_DECRYPT c = Some (HDecrypt zero_decrypt)" by (simp add: c_def op_find_Cons)
  have "get_hook OPDATA_DECRYPT ctx0 = Some (HDecrypt (zero_decrypt\<lparr>dec_plaintext_dserial := s\<rparr>))"
    using g by (simp add: s(2) ctx.search_store)
  moreover have "get_hook OPDATA_PASSPHRASE ctx0 = None"
    using assms(4) by (simp add: s(2) ctx.search_store c_def op_find_Cons) (simp add: get_hook_def)
  ultimately show ?thesis
    using ok s assms(5) by (auto simp: dec_link_def pp_inv_def c_def)
qed

text \<open>
  C1: Once the engine has announced that a decryption failed, nothing of what was decrypted so
  far can be read from the plaintext object: from that line on, however the engine goes on,
  every read of the object returns no bytes, unless the application asked to ignore missing
  integrity protection. No other data object is affected.
\<close>

theorem failed_decryption_hides_plaintext:
  assumes "data_reach denv ds" "objects ds h = Some dh" "get_hook OPDATA_DECRYPT ctx = None"
    and "get_hook OPDATA_PASSPHRASE ctx = None" "\<not> ctx_ignore_mdc_error ctx"
    and "gpgme_op_decrypt_init_result env ctx ds (Some h) = Some (ctx0, no_error)"
    and "feed (decrypt_status_handler env) (ctx0, ds) ls = Some (st, no_error)"
    and "GPGME_STATUS_DECRYPTION_FAILED \<in> fst ` set ls" "\<forall>l\<in>set ls. fst l \<noteq> GPGME_STATUS_EOF"
    and "gpgme_data_read denv (snd st) (Some h) n = Some (Ok (ds2, r))"
  shows "sr_bytes r = [] \<and> sr_ret r \<le> 0 \<and> objects (snd st) = objects ds
    \<and> (\<forall>h' d'. objects ds h' = Some d' \<longrightarrow> h' \<noteq> h \<longrightarrow>
          gpgme_data_get_prop (snd st) (Some h') 0 DATA_PROP_BLANKOUT = gpgme_data_get_prop ds (Some h') 0 DATA_PROP_BLANKOUT)"
proof -
  obtain s where "dec_link ds h s False (ctx0, ds)" using dec_link_init [OF assms(1-6)] by blast
  from dec_link_feed [OF this assms(2,9,7)] have l: "dec_link ds h s True st" using assms(8) by simp
  have "sr_bytes r = [] \<and> sr_ret r \<le> 0"
    by (rule blankout_read_nothing [OF _ _ assms(10)]) (use l assms(2) in \<open>auto simp: dec_link_def\<close>)
  then show ?thesis using l by (simp add: dec_link_def)
qed

theorem failed_decryption_hides_plaintext_witness:
  "\<exists>st ds2 r. feed (decrypt_status_handler sample_env)
       (fst (the (gpgme_op_decrypt_init_result sample_env sample_ctx
          (fst (gpgme_data_new (\<lambda>_. True) no_error (data_init :: unit data_state) True (Some 7))) (Some 7))),
        fst (gpgme_data_new (\<lambda>_. True) no_error (data_init :: unit data_state) True (Some 7)))
       [(GPGME_STATUS_DECRYPTION_FAILED, []), (GPGME_STATUS_DECRYPTION_OKAY, [])] = Some (st, no_error)
     \<and> gpgme_data_read plain_env (snd st) (Some 7) 10 = Some (Ok (ds2, r)) \<and> sr_bytes r = []"
proof -
  let ?ds = "fst (gpgme_data_new (\<lambda>_. True) no_error (data_init :: unit data_state) True (Some 7))"
  let ?i = "gpgme_op_decrypt_init_result sample_env sample_ctx ?ds (Some 7)"
  let ?ls = "[(GPGME_STATUS_DECRYPTION_FAILED, []), (GPGME_STATUS_DECRYPTION_OKAY, [])]"
  let ?f = "feed (decrypt_status_handler sample_env) (fst (the ?i), ?ds) ?ls"
  have i: "map_option snd ?i = Some no_error" by code_simp
  have o7: "objects ?ds 7 = Some (new_data MemCbs (DMem mem_init) 0)" by code_simp
  have "map_option snd ?f = Some no_error" by code_simp
  then obtain st where f: "?f = Some (st, no_error)" by auto
  have ign: "\<not> ctx_ignore_mdc_error sample_ctx" by (simp add: sample_ctx_def)
  from i have i': "?i = Some (fst (the ?i), no_error)" by (cases ?i) auto
  obtain s where "dec_link ?ds 7 s False (fst (the ?i), ?ds)"
    using dec_link_init [OF reach_new o7 sample_ctx_ok(2,2) ign i'] by blast
  from dec_link_feed [OF this o7 _ f] have l: "dec_link ?ds 7 s True st" by simp
  obtain rd where "cb_read (cbs_of plain_env (new_data MemCbs (DMem mem_init) 0)) = Some rd"
    by (simp add: cbs_of_def new_data_def mem_cbs_def)
  then obtain ds2 r where rd: "gpgme_data_read plain_env (snd st) (Some 7) 10 = Some (Ok (ds2, r))"
    using data_read_live [of "snd st" 7 _ plain_env rd 1 no_error 10] l o7 by (simp add: dec_link_def)
  from failed_decryption_hides_plaintext [OF reach_new o7 sample_ctx_ok(2,2) ign i' f _ _ rd] f rd
  show ?thesis by auto
qed

end
